(* ===== verification/Prelude.thy ===== *)
theory Prelude
  imports Main "HOL-Library.Word" "HOL-Library.State_Monad"
begin

unbundle bit_operations_syntax

text \<open>
  Shared vocabulary of the development: names for Go's sized integers and byte slices, the
  outcome of a Go call (a value, an error or a panic), the state monad that carries the
  effects of the node, and the lemma collections the component theories add to.

  A Go function that returns \<open>(T, error)\<close> is modelled by a value of type \<open>'a res\<close>:
  \<open>Ok v\<close> is \<open>(v, nil)\<close>, \<open>Err e\<close> is a non-nil error, and \<open>Panic\<close> is a run-time panic
  (an index out of range, a nil dereference) that unwinds the caller.
\<close>

section \<open>Sized integers and byte slices\<close>

type_synonym byte = "8 word"
type_synonym bytes = "byte list"
type_synonym u8 = "8 word"
type_synonym u16 = "16 word"
type_synonym u32 = "32 word"
type_synonym u64 = "64 word"

text \<open>Go's \<open>int64\<close>: a 64-bit word read through \<^const>\<open>sint\<close>; sums and products wrap.\<close>

type_synonym int64 = "64 word"

lemma unat_of_nat_small:
  "n < 2 ^ LENGTH('a) \<Longrightarrow> unat (word_of_nat n :: 'a::len word) = n"
  by (simp add: unsigned_of_nat take_bit_nat_eq_self)

lemma ucast_nat: "(ucast w :: 'b::len word) = word_of_nat (unat w)"
  by simp

lemma unat_ucast_up: "unat (ucast (w :: u32) :: u64) = unat w"
proof -
  have "unat w < 2 ^ 32" using unsigned_less [of w] by simp
  then show ?thesis
    unfolding ucast_nat by (simp add: unat_of_nat_small del: of_nat_unat)
qed

text \<open>\<open>uint64(len(bs))\<close>.\<close>

definition len64 :: "bytes \<Rightarrow> u64" where
  "len64 bs = word_of_nat (length bs)"

lemma unat_len64: "length bs < 2 ^ 64 \<Longrightarrow> unat (len64 bs) = length bs"
  by (simp add: len64_def unat_of_nat_small)

definition bytes_of_string :: "string \<Rightarrow> bytes" where
  "bytes_of_string s = map (\<lambda>c. word_of_nat (of_char c)) s"

definition string_of_bytes :: "bytes \<Rightarrow> string" where
  "string_of_bytes bs = map (\<lambda>b. char_of (unat b)) bs"

section \<open>Outcomes of a Go call\<close>

datatype 'a res = Ok 'a | Err string | Panic

definition is_ok :: "'a res \<Rightarrow> bool" where
  "is_ok r = (case r of Ok _ \<Rightarrow> True | _ \<Rightarrow> False)"

text \<open>\<open>if err != nil { return ... }\<close> without a change of state.\<close>

definition res_bind :: "'a res \<Rightarrow> ('a \<Rightarrow> 'b res) \<Rightarrow> 'b res" where
  "res_bind r k = (case r of Ok v \<Rightarrow> k v | Err e \<Rightarrow> Err e | Panic \<Rightarrow> Panic)"

text \<open>Slicing \<open>s[lo:hi]\<close>: Go panics unless \<open>lo \<le> hi \<le> len(s)\<close>.\<close>

definition slice :: "'a list \<Rightarrow> nat \<Rightarrow> nat \<Rightarrow> 'a list res" where
  "slice xs lo hi = (if lo \<le> hi \<and> hi \<le> length xs then Ok (take (hi - lo) (drop lo xs)) else Panic)"

lemma is_ok_simps [simp]:
  "is_ok (Ok v)" "\<not> is_ok (Err e)" "\<not> is_ok Panic"
  by (simp_all add: is_ok_def)

lemma is_ok_ex: "is_ok r \<longleftrightarrow> (\<exists>v. r = Ok v)"
  by (cases r) auto

lemma res_bind_simps [simp]:
  "res_bind (Ok v) k = k v"
  "res_bind (Err e) k = Err e"
  "res_bind Panic k = Panic"
  by (simp_all add: res_bind_def)

lemma res_bind_eq_Ok:
  "res_bind r k = Ok v \<longleftrightarrow> (\<exists>u. r = Ok u \<and> k u = Ok v)"
  by (cases r) auto

lemma slice_ok [simp]:
  "lo \<le> hi \<Longrightarrow> hi \<le> length xs \<Longrightarrow> slice xs lo hi = Ok (take (hi - lo) (drop lo xs))"
  by (simp add: slice_def)

lemma slice_panic_iff: "slice xs lo hi = Panic \<longleftrightarrow> hi < lo \<or> length xs < hi"
  by (auto simp: slice_def)

section \<open>Readers and writers\<close>

text \<open>
  \<open>io.CopyN(dst, src, n)\<close> on an in-memory reader: the bytes copied, the rest of the source,
  or an EOF error when the source is shorter than \<open>n\<close>. A non-positive \<open>n\<close> copies nothing and
  reports no error.
\<close>

definition copyN :: "bytes \<Rightarrow> int64 \<Rightarrow> (bytes \<times> bytes) res" where
  "copyN src n =
     (if sint n \<le> 0 then Ok ([], src)
      else if length src < nat (sint n) then Err ''EOF''
      else Ok (take (nat (sint n)) src, drop (nat (sint n)) src))"

lemma copyN_exact:
  assumes "n < 2 ^ 63" and "n \<le> length src"
  shows "copyN src (word_of_nat n) = Ok (take n src, drop n src)"
proof -
  have s: "sint (word_of_nat n :: int64) = int n"
    using assms(1) by (simp add: signed_of_nat signed_take_bit_int_eq_self)
  show ?thesis
    unfolding copyN_def s using assms(2) by (cases "n = 0") auto
qed

section \<open>The state monad with Go errors\<close>

abbreviation ret :: "'a \<Rightarrow> ('s, 'a) state" where
  "ret \<equiv> State_Monad.return"

text \<open>\<open>r, err := m; if err != nil { h } ; k\<close>; a panic of \<open>m\<close> unwinds past both.\<close>

definition check :: "('s, 'a res) state \<Rightarrow> (string \<Rightarrow> ('s, 'b res) state) \<Rightarrow>
    ('a \<Rightarrow> ('s, 'b res) state) \<Rightarrow> ('s, 'b res) state" where
  "check m h k = State (\<lambda>s. case run_state m s of
      (Ok v, s') \<Rightarrow> run_state (k v) s'
    | (Err e, s') \<Rightarrow> run_state (h e) s'
    | (Panic, s') \<Rightarrow> (Panic, s'))"

text \<open>\<open>defer d(); m\<close>: the deferred call runs however \<open>m\<close> ends, also by a panic.\<close>

definition deferring :: "('s, unit) state \<Rightarrow> ('s, 'a) state \<Rightarrow> ('s, 'a) state" where
  "deferring d m = State (\<lambda>s. case run_state m s of (r, s') \<Rightarrow> (r, snd (run_state d s')))"

named_theorems run "evaluation of state-monad programs"

lemma run_bind [run]:
  "run_state (State_Monad.bind m f) s = (case run_state m s of (x, s') \<Rightarrow> run_state (f x) s')"
  by (simp add: State_Monad.bind_def)

lemma run_update [run]: "run_state (State_Monad.update f) s = ((), f s)"
  by (simp add: State_Monad.update_def State_Monad.get_def State_Monad.set_def run_bind)

lemma run_get [run]: "run_state State_Monad.get s = (s, s)"
  by (simp add: State_Monad.get_def)

lemma run_check [run]:
  "run_state (check m h k) s =
     (case run_state m s of
        (Ok v, s') \<Rightarrow> run_state (k v) s'
      | (Err e, s') \<Rightarrow> run_state (h e) s'
      | (Panic, s') \<Rightarrow> (Panic, s'))"
  by (simp add: check_def)

lemma run_deferring [run]:
  "run_state (deferring d m) s =
     (case run_state m s of (r, s') \<Rightarrow> (r, snd (run_state d s')))"
  by (simp add: deferring_def)

lemma run_if [run]:
  "run_state (if b then m else n) s = (if b then run_state m s else run_state n s)"
  by simp

section \<open>Weakest preconditions\<close>

text \<open>
  \<open>wp m Q s\<close>: running \<open>m\<close> from \<open>s\<close> ends with a result and a state that satisfy \<open>Q\<close>. Every
  model function is total, so this is total correctness.
\<close>

definition wp :: "('s, 'a) state \<Rightarrow> ('a \<Rightarrow> 's \<Rightarrow> bool) \<Rightarrow> 's \<Rightarrow> bool" where
  "wp m Q s = (case run_state m s of (r, s') \<Rightarrow> Q r s')"

named_theorems wps "weakest preconditions of the program constructors"

lemma wp_return [wps]: "wp (ret x) Q s = Q x s"
  by (simp add: wp_def)

lemma wp_bind [wps]: "wp (State_Monad.bind m f) Q s = wp m (\<lambda>x. wp (f x) Q) s"
  by (simp add: wp_def run_bind split: prod.split)

lemma wp_update [wps]: "wp (State_Monad.update f) Q s = Q () (f s)"
  by (simp add: wp_def run_update)

lemma wp_get [wps]: "wp State_Monad.get Q s = Q s s"
  by (simp add: wp_def run_get)

lemma wp_if [wps]:
  "wp (if b then m else n) Q s = (if b then wp m Q s else wp n Q s)"
  by simp

lemma wp_check [wps]:
  "wp (check m h k) Q s =
     wp m (\<lambda>r s'. case r of Ok v \<Rightarrow> wp (k v) Q s' | Err e \<Rightarrow> wp (h e) Q s' | Panic \<Rightarrow> Q Panic s') s"
  by (simp add: wp_def run_check split: prod.split res.split)

lemma wp_deferring [wps]:
  "wp (deferring d m) Q s = wp m (\<lambda>r. wp d (\<lambda>_. Q r)) s"
  by (simp add: wp_def run_deferring split: prod.split)

lemma wp_mono: "wp m Q s \<Longrightarrow> (\<And>r s'. Q r s' \<Longrightarrow> Q' r s') \<Longrightarrow> wp m Q' s"
  by (simp add: wp_def split: prod.splits)

lemma wp_conj: "wp m (\<lambda>r s'. Q r s' \<and> Q' r s') s \<longleftrightarrow> wp m Q s \<and> wp m Q' s"
  by (simp add: wp_def split: prod.splits)

lemma wpD: "wp m Q s \<Longrightarrow> run_state m s = (r, s') \<Longrightarrow> Q r s'"
  by (simp add: wp_def)

lemma wpI: "(\<And>r s'. run_state m s = (r, s') \<Longrightarrow> Q r s') \<Longrightarrow> wp m Q s"
  by (simp add: wp_def split: prod.splits)

section \<open>Frame conditions\<close>

text \<open>\<open>keeps f m\<close>: running \<open>m\<close> leaves the component \<open>f\<close> of the state as it was.\<close>

definition keeps :: "('s \<Rightarrow> 'b) \<Rightarrow> ('s, 'a) state \<Rightarrow> bool" where
  "keeps f m \<longleftrightarrow> (\<forall>s. f (snd (run_state m s)) = f s)"

named_theorems frame "introduction rules for frame conditions"

lemma keepsI: "(\<And>s r s'. run_state m s = (r, s') \<Longrightarrow> f s' = f s) \<Longrightarrow> keeps f m"
  unfolding keeps_def by (metis prod.collapse)

lemma keepsD: "keeps f m \<Longrightarrow> run_state m s = (r, s') \<Longrightarrow> f s' = f s"
  by (metis keeps_def snd_conv)

lemma keeps_ret [frame]: "keeps f (ret x)"
  by (simp add: keeps_def)

lemma keeps_get [frame]: "keeps f State_Monad.get"
  by (simp add: keeps_def run)

lemma keeps_update: "(\<And>s. f (g s) = f s) \<Longrightarrow> keeps f (State_Monad.update g)"
  by (simp add: keeps_def run)

lemma keeps_bind [frame]:
  "keeps f m \<Longrightarrow> (\<And>x. keeps f (k x)) \<Longrightarrow> keeps f (State_Monad.bind m k)"
  by (auto simp: keeps_def run split: prod.splits) (metis snd_conv)

lemma keeps_check [frame]:
  "keeps f m \<Longrightarrow> (\<And>e. keeps f (h e)) \<Longrightarrow> (\<And>v. keeps f (k v)) \<Longrightarrow> keeps f (check m h k)"
  by (auto simp: keeps_def run split: prod.splits res.splits) (metis snd_conv)+

lemma keeps_if [frame]: "keeps f m \<Longrightarrow> keeps f n \<Longrightarrow> keeps f (if b then m else n)"
  by simp

lemma keeps_deferring [frame]: "keeps f d \<Longrightarrow> keeps f m \<Longrightarrow> keeps f (deferring d m)"
  by (auto simp: keeps_def run split: prod.splits) (metis snd_conv)

lemma keeps_prod [frame]: "(\<And>a b. keeps f (k a b)) \<Longrightarrow> keeps f (case p of (a, b) \<Rightarrow> k a b)"
  by (cases p) simp

lemma keeps_Let [frame]: "keeps f (k v) \<Longrightarrow> keeps f (Let v k)"
  by simp

lemma keeps_wp: "keeps f m \<Longrightarrow> wp m (\<lambda>_ s'. f s' = f s) s"
  by (simp add: keeps_def wp_def split: prod.splits) (metis snd_conv)

lemma wp_keeps: "keeps f m \<Longrightarrow> (\<And>r s'. f s' = f s \<Longrightarrow> Q r s') \<Longrightarrow> wp m Q s"
  using keeps_wp by (rule wp_mono) auto

end
