(* ===== verification/Codec.thy ===== *)
theory Codec
  imports Prelude
begin

unbundle bit_operations_syntax

text \<open>
  The integer codecs of \<^verbatim>\<open>net/utils/utils.go\<close>: fixed-width little-endian encodings of
  \<open>uint8\<close>, \<open>uint16\<close> and \<open>uint64\<close>. The interface the message layers rely on (a codec of fixed
  width that is a bijection onto the slices of that width) is the locale \<open>fixed_codec\<close>,
  interpreted on the three codecs at the end.
\<close>

section \<open>The encoding and decoding loops\<close>

text \<open>\<open>for i := 0; i < n; i++ { bs[i] = uint8(v); v >>= 8 }\<close>\<close>

primrec encode_loop :: "nat \<Rightarrow> 'a::len word \<Rightarrow> bytes" where
  "encode_loop 0 v = []"
| "encode_loop (Suc n) v = ucast v # encode_loop n (drop_bit 8 v)"

text \<open>\<open>for i := n - 1; i >= 0; i-- { v <<= 8; v += uint(bs[i]) }\<close>\<close>

definition decode_loop :: "bytes \<Rightarrow> 'a::len word" where
  "decode_loop bs = foldr (\<lambda>b v. push_bit 8 v + ucast b) bs 0"

definition EncodeUint8 :: "u8 \<Rightarrow> bytes" where
  "EncodeUint8 v = [v]"

definition DecodeUint8 :: "bytes \<Rightarrow> u8 res" where
  "DecodeUint8 bs = (if length bs \<noteq> 1 then Err ''cannot convert to uint8'' else Ok (bs ! 0))"

definition EncodeUint16 :: "u16 \<Rightarrow> bytes" where
  "EncodeUint16 v = encode_loop 2 v"

definition DecodeUint16 :: "bytes \<Rightarrow> u16 res" where
  "DecodeUint16 bs =
     (if length bs \<noteq> 2 then Err ''cannot convert to uint16'' else Ok (decode_loop bs))"

definition EncodeUint64 :: "u64 \<Rightarrow> bytes" where
  "EncodeUint64 v = encode_loop 8 v"

definition DecodeUint64 :: "bytes \<Rightarrow> u64 res" where
  "DecodeUint64 bs =
     (if length bs \<noteq> 8 then Err ''cannot convert to uint64'' else Ok (decode_loop bs))"

section \<open>The loops are mutually inverse\<close>

lemma length_encode_loop [simp]: "length (encode_loop n v) = n"
  by (induction n arbitrary: v) auto

lemma decode_loop_Nil [simp]: "decode_loop [] = 0"
  by (simp add: decode_loop_def)

lemma decode_loop_Cons: "decode_loop (b # bs) = push_bit 8 (decode_loop bs) + ucast b"
  by (simp add: decode_loop_def)

lemma bit_byteD: "bit (b :: byte) n \<Longrightarrow> n < 8"
  using bit_imp_le_length [of b n] by simp

lemma shift_add_byte:
  fixes v :: "'a::len word"
  assumes "8 \<le> LENGTH('a)"
  shows "push_bit 8 v + ucast (b :: byte) = push_bit 8 v OR ucast b"
proof -
  have "push_bit 8 v AND (ucast b :: 'a word) = 0"
    by (rule bit_word_eqI) (auto simp: bit_simps dest: bit_byteD)
  then show ?thesis by (rule disjunctive_add_eq_or)
qed

lemma decode_encode_loop:
  fixes v :: "'a::len word"
  assumes w: "8 \<le> LENGTH('a)"
  shows "decode_loop (encode_loop n v) = take_bit (8 * n) v"
proof (induction n arbitrary: v)
  case 0
  show ?case by simp
next
  case (Suc n)
  have "push_bit 8 (take_bit (8 * n) (drop_bit 8 v)) OR ucast (ucast v :: byte)
      = take_bit (8 * Suc n) v"
    using w by (intro bit_word_eqI) (auto simp: bit_simps)
  then show ?case
    using w by (simp add: decode_loop_Cons Suc.IH shift_add_byte)
qed

lemma encode_decode_loop:
  assumes w: "8 * length bs \<le> LENGTH('a::len)"
  shows "encode_loop (length bs) (decode_loop bs :: 'a word) = bs"
  using w
proof (induction bs)
  case Nil
  show ?case by simp
next
  case (Cons b bs)
  let ?v = "decode_loop bs :: 'a word"
  from Cons.prems have w8: "8 \<le> LENGTH('a)" and wb: "8 * length bs + 8 \<le> LENGTH('a)"
    by auto
  have small: "take_bit (8 * length bs) ?v = ?v"
  proof -
    have "take_bit (8 * length bs) ?v = decode_loop (encode_loop (length bs) ?v)"
      using w8 by (simp add: decode_encode_loop)
    also have "\<dots> = ?v" using Cons.IH wb by simp
    finally show ?thesis .
  qed
  have low: "ucast (push_bit 8 ?v OR ucast b) = b"
    using w8 by (intro bit_word_eqI) (auto simp: bit_simps)
  have "drop_bit 8 (push_bit 8 ?v OR ucast b) = take_bit (8 * length bs) ?v"
    unfolding small using wb
  proof (intro bit_word_eqI)
    fix i assume "i < LENGTH('a)"
    have hi: "\<not> bit ?v i" if "8 * length bs \<le> i"
      using that small by (metis bit_take_bit_iff leD)
    show "bit (drop_bit 8 (push_bit 8 ?v OR ucast b)) i \<longleftrightarrow> bit ?v i"
      using wb hi by (cases "8 * length bs \<le> i") (auto simp: bit_simps dest: bit_byteD)
  qed
  then show ?case
    using Cons.IH wb low by (simp add: decode_loop_Cons shift_add_byte w8 small)
qed

section \<open>The codec interface\<close>

locale fixed_codec =
  fixes enc :: "'v \<Rightarrow> bytes"
    and dec :: "bytes \<Rightarrow> 'v res"
    and width :: nat
  assumes enc_length: "length (enc v) = width"
    and dec_enc: "dec (enc v) = Ok v"
    and dec_width: "dec bs = Ok v \<Longrightarrow> length bs = width"
    and dec_total: "length bs = width \<Longrightarrow> is_ok (dec bs)"
    and enc_dec: "dec bs = Ok v \<Longrightarrow> enc v = bs"
begin

lemma take_enc: "take width (enc v @ rest) = enc v"
  by (simp add: enc_length)

lemma drop_enc: "drop width (enc v @ rest) = rest"
  by (simp add: enc_length)

lemma dec_take: "dec (take width (enc v @ rest)) = Ok v"
  by (simp add: enc_length dec_enc)

lemma enc_inject: "enc v = enc w \<longleftrightarrow> v = w"
  by (metis dec_enc res.inject(1))

lemma dec_iff: "dec bs = Ok v \<longleftrightarrow> bs = enc v"
  using dec_enc enc_dec by metis

lemma dec_not_panic: "length bs = width \<Longrightarrow> dec bs \<noteq> Panic"
  using dec_total by (metis is_ok_simps(3))

end

interpretation u8c: fixed_codec EncodeUint8 DecodeUint8 1
  by unfold_locales
    (auto simp: EncodeUint8_def DecodeUint8_def length_Suc_conv split: if_splits)

interpretation u16c: fixed_codec EncodeUint16 DecodeUint16 2
proof
  fix v :: u16 and bs
  show "length (EncodeUint16 v) = 2"
    by (simp add: EncodeUint16_def)
  have "take_bit 16 v = v" by (rule take_bit_word_eq_self) simp
  then show "DecodeUint16 (EncodeUint16 v) = Ok v"
    by (simp add: EncodeUint16_def DecodeUint16_def decode_encode_loop)
  show "length bs = 2" if "DecodeUint16 bs = Ok v"
    using that by (simp add: DecodeUint16_def split: if_splits)
  show "is_ok (DecodeUint16 bs)" if "length bs = 2"
    using that by (simp add: DecodeUint16_def)
  show "EncodeUint16 v = bs" if "DecodeUint16 bs = Ok v"
    using that encode_decode_loop [of bs, where 'a = 16]
    by (auto simp: EncodeUint16_def DecodeUint16_def split: if_splits)
qed

interpretation u64c: fixed_codec EncodeUint64 DecodeUint64 8
proof
  fix v :: u64 and bs
  show "length (EncodeUint64 v) = 8"
    by (simp add: EncodeUint64_def)
  have "take_bit 64 v = v" by (rule take_bit_word_eq_self) simp
  then show "DecodeUint64 (EncodeUint64 v) = Ok v"
    by (simp add: EncodeUint64_def DecodeUint64_def decode_encode_loop)
  show "length bs = 8" if "DecodeUint64 bs = Ok v"
    using that by (simp add: DecodeUint64_def split: if_splits)
  show "is_ok (DecodeUint64 bs)" if "length bs = 8"
    using that by (simp add: DecodeUint64_def)
  show "EncodeUint64 v = bs" if "DecodeUint64 bs = Ok v"
    using that encode_decode_loop [of bs, where 'a = 64]
    by (auto simp: EncodeUint64_def DecodeUint64_def split: if_splits)
qed

lemmas codec_lengths [simp] = u8c.enc_length u16c.enc_length u64c.enc_length
lemmas codec_dec_enc [simp] = u8c.dec_enc u16c.dec_enc u64c.dec_enc

section \<open>Properties\<close>

text \<open>
  Decoding inverts encoding and encoding inverts decoding, for the three integer codecs:
  \<open>DecodeUintN\<close> accepts exactly the slices of width N/8 and every such slice is the encoding
  of the value it decodes to.
\<close>

theorem uint_codecs_bijective:
  "(DecodeUint8 b1 = Ok v1 \<longleftrightarrow> b1 = EncodeUint8 v1) \<and>
   (DecodeUint16 b2 = Ok v2 \<longleftrightarrow> b2 = EncodeUint16 v2) \<and>
   (DecodeUint64 b8 = Ok v8 \<longleftrightarrow> b8 = EncodeUint64 v8) \<and>
   (is_ok (DecodeUint64 b8) \<longleftrightarrow> length b8 = 8)"
  using u8c.dec_iff u16c.dec_iff u64c.dec_iff u64c.dec_total u64c.dec_width
  by (auto simp: is_ok_ex)

end
