(* ===== verification/Transport.thy ===== *)
theory Transport
  imports Codec
begin

text \<open>
  The transport of \<^verbatim>\<open>net/rlpx/transport.go\<close> and \<^verbatim>\<open>net/rlpx/utils.go\<close>: the pre-authentication
  exchange on the raw TCP stream, and the sized, packetised \<open>Write\<close>/\<open>Read\<close> on top of RLPx
  messages.

  A connection is a record of what it has received and sent. The TCP input is a list of
  segments, as successive \<open>conn.Read\<close> calls may deliver them; the RLPx input is the list of
  messages the peer's frames decode to. Either input running out is the error of a closed or
  timed-out connection. \<open>rlpx_werr\<close> scripts which of the following message writes fail.
\<close>

section \<open>Addresses, keys and the crypto library\<close>

type_synonym pubkey = bytes
type_synonym privkey = bytes
type_synonym address = bytes

text \<open>The go-ethereum \<open>crypto\<close> package, code outside the repository, as a parameter.\<close>

record crypto =
  Keccak256Hash :: "bytes \<Rightarrow> bytes"
  Sign :: "bytes \<Rightarrow> privkey \<Rightarrow> bytes res"
  Ecrecover :: "bytes \<Rightarrow> bytes \<Rightarrow> bytes res"
  FromECDSAPub :: "pubkey \<Rightarrow> bytes"
  UnmarshalPubkey :: "bytes \<Rightarrow> pubkey res"
  PubkeyToAddress :: "pubkey \<Rightarrow> address"
  PublicKey :: "privkey \<Rightarrow> pubkey"

text \<open>
  What the node relies on: a signature is 65 bytes and recovers to the signer's public key,
  a marshalled public key is 65 bytes and unmarshals to itself.
\<close>

definition ecdsa_laws :: "crypto \<Rightarrow> bool" where
  "ecdsa_laws C \<longleftrightarrow>
     (\<forall>h k sig. Sign C h k = Ok sig \<longrightarrow>
        length sig = 65 \<and> Ecrecover C h sig = Ok (FromECDSAPub C (PublicKey C k))) \<and>
     (\<forall>k. length (FromECDSAPub C (PublicKey C k)) = 65 \<and>
        UnmarshalPubkey C (FromECDSAPub C (PublicKey C k)) = Ok (PublicKey C k))"

text \<open>A concrete instance for evaluation: a key is its own padded public key and signature.\<close>

definition sample_crypto :: crypto where
  "sample_crypto = \<lparr>
     Keccak256Hash = (\<lambda>bs. bs),
     Sign = (\<lambda>h k. Ok (take 65 (k @ replicate 65 0))),
     Ecrecover = (\<lambda>h sig. Ok sig),
     FromECDSAPub = (\<lambda>p. p),
     UnmarshalPubkey = (\<lambda>bs. Ok bs),
     PubkeyToAddress = (\<lambda>p. take 20 p),
     PublicKey = (\<lambda>k. take 65 (k @ replicate 65 0))\<rparr>"

lemma sample_crypto_laws: "ecdsa_laws sample_crypto"
  by (auto simp: ecdsa_laws_def sample_crypto_def min_def)

record addr =
  TCPAddr :: string
  EthAddr :: address

text \<open>A p2p message; \<open>Size\<close> is always the number of bytes of the payload.\<close>

record rmsg =
  Code :: u64
  Payload :: bytes

record connection =
  laddr :: "addr option"
  raddr :: "addr option"
  tcp_in :: "bytes list"
  tcp_out :: bytes
  tcp_werr :: bool
  rlpx_in :: "rmsg list"
  rlpx_out :: "rmsg list"
  rlpx_werr :: "bool list"

text \<open>Concrete ends of a connection, for evaluation.\<close>

definition sample_key :: privkey where "sample_key = replicate 65 1"

definition sample_random :: bytes where "sample_random = replicate 1024 7"

definition sample_addr :: addr where "sample_addr = \<lparr>TCPAddr = ''127.0.0.1:4000'', EthAddr = replicate 20 1\<rparr>"

definition sample_conn :: connection where
  "sample_conn = \<lparr>laddr = None, raddr = Some sample_addr, tcp_in = [], tcp_out = [], tcp_werr = False,
     rlpx_in = [], rlpx_out = [], rlpx_werr = []\<rparr>"

section \<open>The TCP loops\<close>

text \<open>\<open>tcpRecv\<close>: read until the buffer of \<open>n\<close> bytes is full, whatever the segmentation.\<close>

fun tcpRecv_loop :: "nat \<Rightarrow> bytes list \<Rightarrow> bytes res \<times> bytes list" where
  "tcpRecv_loop 0 segs = (Ok [], segs)"
| "tcpRecv_loop n [] = (Err ''EOF'', [])"
| "tcpRecv_loop n (s # segs) =
     (if n < length s then (Ok (take n s), drop n s # segs)
      else case tcpRecv_loop (n - length s) segs of
             (Ok bs, r) \<Rightarrow> (Ok (s @ bs), r)
           | (e, r) \<Rightarrow> (e, r))"

definition tcpRecv :: "nat \<Rightarrow> (connection, bytes res) state" where
  "tcpRecv n = State (\<lambda>c. case tcpRecv_loop n (tcp_in c) of (r, segs) \<Rightarrow> (r, c\<lparr>tcp_in := segs\<rparr>))"

text \<open>\<open>tcpSend\<close>: \<open>net.Conn.Write\<close> writes everything or reports an error.\<close>

definition tcpSend :: "bytes \<Rightarrow> (connection, unit res) state" where
  "tcpSend bs = State (\<lambda>c.
     if bs = [] then (Ok (), c)
     else if tcp_werr c then (Err ''write'', c)
     else (Ok (), c\<lparr>tcp_out := tcp_out c @ bs\<rparr>))"

section \<open>Pre-authentication messages\<close>

record preAuthMsg =
  pa_rev :: u8
  pa_typ :: u8
  pa_size :: u64
  pa_payload :: bytes

definition preAuthRequst :: u8 where "preAuthRequst = 0"
definition preAuthAck :: u8 where "preAuthAck = 1"
definition preAuthMax :: u8 where "preAuthMax = 2"
definition preAuthRev :: u8 where "preAuthRev = 1"
definition preAuthReqSize :: u64 where "preAuthReqSize = 1024"
definition preAuthSigSize :: nat where "preAuthSigSize = 65"
definition preAuthPubSize :: nat where "preAuthPubSize = 65"
definition preAuthAckSize :: u64 where
  "preAuthAckSize = word_of_nat (preAuthSigSize + preAuthPubSize)"

lemmas preAuth_consts =
  preAuthRequst_def preAuthAck_def preAuthMax_def preAuthRev_def preAuthReqSize_def
  preAuthSigSize_def preAuthPubSize_def preAuthAckSize_def

definition encodePreAuthMsg :: "preAuthMsg \<Rightarrow> bytes" where
  "encodePreAuthMsg msg =
     EncodeUint8 (pa_rev msg) @ EncodeUint8 (pa_typ msg) @ EncodeUint64 (pa_size msg) @ pa_payload msg"

definition decodePreAuthMsg :: "u64 \<Rightarrow> (connection, preAuthMsg res) state" where
  "decodePreAuthMsg maxSize =
     check (tcpRecv 1) (\<lambda>_. ret (Err ''failed to receive preauth rev'')) (\<lambda>b1.
     check (ret (DecodeUint8 b1)) (\<lambda>_. ret (Err ''failed to decode preauth rev'')) (\<lambda>rv.
     if rv \<noteq> preAuthRev then ret (Err ''unsupported preauth rev'') else
     check (tcpRecv 1) (\<lambda>_. ret (Err ''failed to receive preauth type'')) (\<lambda>b2.
     check (ret (DecodeUint8 b2)) (\<lambda>_. ret (Err ''failed to decode preauth type'')) (\<lambda>ty.
     if ty \<ge> preAuthMax then ret (Err ''unsupported preauth msg type'') else
     check (tcpRecv 8) (\<lambda>_. ret (Err ''failed to receive preauth size'')) (\<lambda>b8.
     check (ret (DecodeUint64 b8)) (\<lambda>_. ret (Err ''failed to decode preauth size'')) (\<lambda>sz.
     if maxSize \<noteq> 0 \<and> sz > maxSize then ret (Err ''preauth size too large'') else
     check (tcpRecv (unat sz)) (\<lambda>_. ret (Err ''failed to receive preauth payload'')) (\<lambda>pl.
     ret (Ok \<lparr>pa_rev = rv, pa_typ = ty, pa_size = sz, pa_payload = pl\<rparr>))))))))"

section \<open>The pre-authentication handshake\<close>

definition sendPreAuthRequest :: "bytes \<Rightarrow> (connection, unit res) state" where
  "sendPreAuthRequest random =
     check (tcpSend (encodePreAuthMsg
        \<lparr>pa_rev = preAuthRev, pa_typ = preAuthRequst, pa_size = preAuthReqSize, pa_payload = random\<rparr>))
       (\<lambda>_. ret (Err ''failed to send preauth request''))
       (\<lambda>_. ret (Ok ()))"

definition recvPreAuthRequest :: "(connection, bytes res) state" where
  "recvPreAuthRequest =
     check (decodePreAuthMsg preAuthReqSize) (\<lambda>e. ret (Err e)) (\<lambda>msg. ret (Ok (pa_payload msg)))"

definition sendPreAuthAck :: "crypto \<Rightarrow> privkey \<Rightarrow> bytes \<Rightarrow> (connection, unit res) state" where
  "sendPreAuthAck C key random =
     check (ret (Sign C (Keccak256Hash C random) key))
       (\<lambda>_. ret (Err ''failed to sign in preauth ack'')) (\<lambda>signature.
     let pubkey = FromECDSAPub C (PublicKey C key) in
     check (tcpSend (encodePreAuthMsg
        \<lparr>pa_rev = preAuthRev, pa_typ = preAuthAck, pa_size = preAuthAckSize, pa_payload = signature @ pubkey\<rparr>))
       (\<lambda>_. ret (Err ''failed to send preauth ack''))
       (\<lambda>_. ret (Ok ())))"

definition recvPreAuthAck :: "crypto \<Rightarrow> (connection, (pubkey \<times> bytes) res) state" where
  "recvPreAuthAck C =
     check (decodePreAuthMsg preAuthAckSize) (\<lambda>e. ret (Err e)) (\<lambda>msg.
     check (ret (slice (pa_payload msg) 0 preAuthSigSize)) (\<lambda>e. ret (Err e)) (\<lambda>signature.
     check (ret (slice (pa_payload msg) preAuthSigSize (unat preAuthAckSize))) (\<lambda>e. ret (Err e))
       (\<lambda>pubkeyBytes.
     check (ret (UnmarshalPubkey C pubkeyBytes))
       (\<lambda>_. ret (Err ''failed to extract remote public key''))
       (\<lambda>pubkey. ret (Ok (pubkey, signature))))))"

text \<open>\<open>raddr\<close> is nil on an accepted connection, and reading its address then panics.\<close>

definition verifyPreAuthAck ::
  "crypto \<Rightarrow> bytes \<Rightarrow> addr option \<Rightarrow> bytes \<Rightarrow> pubkey \<Rightarrow> unit res" where
  "verifyPreAuthAck C random ra signature pubkey =
     (case ra of None \<Rightarrow> Panic | Some a \<Rightarrow>
        if PubkeyToAddress C pubkey \<noteq> EthAddr a
        then Err ''remote public key not match with remote eth address''
        else case Ecrecover C (Keccak256Hash C random) signature of
               Err _ \<Rightarrow> Err ''Ecrecover failed''
             | Panic \<Rightarrow> Panic
             | Ok sigPubkey \<Rightarrow>
                 if sigPubkey \<noteq> FromECDSAPub C pubkey
                 then Err ''remote pubkey not match with recovered pubkey''
                 else Ok ())"

text \<open>\<open>random\<close> is the result of \<open>utils.MakeRandomMsg(preAuthReqSize)\<close>.\<close>

definition initiatorPreAuthHandshake :: "crypto \<Rightarrow> bytes \<Rightarrow> (connection, pubkey res) state" where
  "initiatorPreAuthHandshake C random =
     check (sendPreAuthRequest random) (\<lambda>e. ret (Err e)) (\<lambda>_.
     check (recvPreAuthAck C) (\<lambda>e. ret (Err e)) (\<lambda>(pubkey, signature).
     do { c \<leftarrow> State_Monad.get;
          check (ret (verifyPreAuthAck C random (raddr c) signature pubkey))
            (\<lambda>e. ret (Err e)) (\<lambda>_. ret (Ok pubkey)) }))"

definition receiverPreAuthHandshake :: "crypto \<Rightarrow> privkey \<Rightarrow> (connection, unit res) state" where
  "receiverPreAuthHandshake C key =
     check recvPreAuthRequest (\<lambda>e. ret (Err e)) (\<lambda>random.
     check (sendPreAuthAck C key random) (\<lambda>e. ret (Err e)) (\<lambda>_. ret (Ok ())))"

text \<open>
  The RLPx encryption handshake of the vendored p2p package is the parameter
  \<open>doEnc key dial\<close>: the remote static key, or an error.
\<close>

type_synonym enc_handshake = "privkey \<Rightarrow> pubkey option \<Rightarrow> (connection, pubkey res) state"

definition initiatorRLPXHandshake ::
  "crypto \<Rightarrow> enc_handshake \<Rightarrow> privkey \<Rightarrow> pubkey \<Rightarrow> (connection, unit res) state" where
  "initiatorRLPXHandshake C doEnc key rPubkey =
     check (doEnc key (Some rPubkey))
       (\<lambda>_. ret (Err ''rlpx enc handshake failed on initiator'')) (\<lambda>pubkey.
     if FromECDSAPub C rPubkey \<noteq> FromECDSAPub C pubkey
     then ret (Err ''received receiver pubkey not match'')
     else ret (Ok ()))"

definition receiverRLPXHandshake ::
  "enc_handshake \<Rightarrow> privkey \<Rightarrow> (connection, pubkey res) state" where
  "receiverRLPXHandshake doEnc key =
     check (doEnc key None) (\<lambda>_. ret (Err ''rlpx enc handshake failed on receiver''))
       (\<lambda>pubkey. ret (Ok pubkey))"

definition initiatorHandshake ::
  "crypto \<Rightarrow> enc_handshake \<Rightarrow> bytes \<Rightarrow> privkey \<Rightarrow> (connection, pubkey res) state" where
  "initiatorHandshake C doEnc random key =
     check (initiatorPreAuthHandshake C random) (\<lambda>e. ret (Err e)) (\<lambda>rPubkey.
     check (initiatorRLPXHandshake C doEnc key rPubkey) (\<lambda>e. ret (Err e))
       (\<lambda>_. ret (Ok rPubkey)))"

definition receiverHandshake ::
  "crypto \<Rightarrow> enc_handshake \<Rightarrow> privkey \<Rightarrow> (connection, pubkey res) state" where
  "receiverHandshake C doEnc key =
     check (receiverPreAuthHandshake C key) (\<lambda>e. ret (Err e))
       (\<lambda>_. receiverRLPXHandshake doEnc key)"

definition Handshake ::
  "crypto \<Rightarrow> enc_handshake \<Rightarrow> bytes \<Rightarrow> privkey \<Rightarrow> bool \<Rightarrow> (connection, pubkey res) state" where
  "Handshake C doEnc random key initiator =
     (if initiator then initiatorHandshake C doEnc random key
      else receiverHandshake C doEnc key)"

section \<open>Write and Read\<close>

definition rlpxMsgCodeSize :: u64 where "rlpxMsgCodeSize = 0xf0"
definition rlpxMsgCodeData :: u64 where "rlpxMsgCodeData = 0xf1"
definition rlpxMsgDataPacketSize :: u64 where "rlpxMsgDataPacketSize = 16777210"

lemmas rlpx_consts = rlpxMsgCodeSize_def rlpxMsgCodeData_def rlpxMsgDataPacketSize_def

text \<open>\<open>maxUint24\<close> of the RLPx frame writer, the limit of the code's two RLP bytes and the payload.\<close>

definition maxUint24 :: nat where "maxUint24 = 2 ^ 24 - 1"

definition frame_fits :: "rmsg \<Rightarrow> bool" where
  "frame_fits m \<longleftrightarrow> 2 + length (Payload m) \<le> maxUint24"

definition WriteMsg :: "rmsg \<Rightarrow> connection \<Rightarrow> unit res \<times> connection" where
  "WriteMsg m c =
     (if \<not> frame_fits m then (Err ''message size overflows uint24'', c)
      else case rlpx_werr c of
             True # ws \<Rightarrow> (Err ''write'', c\<lparr>rlpx_werr := ws\<rparr>)
           | ws \<Rightarrow> (Ok (), c\<lparr>rlpx_out := rlpx_out c @ [m], rlpx_werr := tl ws\<rparr>))"

definition writeSize :: "u64 \<Rightarrow> connection \<Rightarrow> unit res \<times> connection" where
  "writeSize sz c =
     (case WriteMsg \<lparr>Code = rlpxMsgCodeSize, Payload = EncodeUint64 sz\<rparr> c of
        (Ok _, c') \<Rightarrow> (Ok (), c')
      | (Err _, c') \<Rightarrow> (Err ''failed to send payload size'', c')
      | (Panic, c') \<Rightarrow> (Panic, c'))"

text \<open>\<open>nrBytes := min(remaining, rlpxMsgDataPacketSize)\<close>\<close>

definition packet :: "u64 \<Rightarrow> u64" where
  "packet remaining =
     (if remaining > rlpxMsgDataPacketSize then rlpxMsgDataPacketSize else remaining)"

lemma packet_le: "packet r \<le> r"
  by (auto simp: packet_def)

lemma packet_pos: "r \<noteq> 0 \<Longrightarrow> packet r \<noteq> 0"
  by (simp add: packet_def rlpxMsgDataPacketSize_def)

lemma unat_minus_packet: "unat (r - packet r) = unat r - unat (packet r)"
  by (rule unat_sub) (rule packet_le)

lemma unat_packet: "unat (packet r) = min (unat r) 16777210"
  by (auto simp: packet_def rlpxMsgDataPacketSize_def word_less_nat_alt min_def)

function writeData :: "bytes \<Rightarrow> u64 \<Rightarrow> connection \<Rightarrow> unit res \<times> connection" where
  "writeData data remaining c =
     (if remaining = 0 then (Ok (), c)
      else let nrBytes = packet remaining in
        case copyN data nrBytes of
          Err _ \<Rightarrow> (Err ''failed to get data bytes'', c)
        | Panic \<Rightarrow> (Panic, c)
        | Ok (buf, data') \<Rightarrow>
            (case WriteMsg \<lparr>Code = rlpxMsgCodeData, Payload = buf\<rparr> c of
               (Ok _, c') \<Rightarrow> writeData data' (remaining - nrBytes) c'
             | (Err _, c') \<Rightarrow> (Err ''failed to send payload bytes'', c')
             | (Panic, c') \<Rightarrow> (Panic, c')))"
  by pat_completeness auto

termination
proof (relation "measure (\<lambda>(data, remaining, c). unat remaining)", goal_cases)
  case 1
  show ?case by simp
next
  case (2 data remaining c nrBytes)
  then have "0 < unat (packet remaining)"
    using packet_pos unat_gt_0 by metis
  moreover have "0 < unat remaining" using 2(1) unat_gt_0 by blast
  ultimately show ?case
    using 2(2) by (simp add: unat_minus_packet)
qed

declare writeData.simps [simp del]

definition Write :: "bytes \<Rightarrow> u64 \<Rightarrow> connection \<Rightarrow> unit res \<times> connection" where
  "Write data sz c =
     (case writeSize sz c of
        (Ok _, c') \<Rightarrow> writeData data sz c'
      | (e, c') \<Rightarrow> (e, c'))"

text \<open>
  \<open>readSize\<close>: \<open>msg.Payload.Read\<close> into a buffer of 8 bytes fails on an empty payload and returns
  the first 8 bytes of a longer one.
\<close>

definition readSize :: "rmsg list \<Rightarrow> u64 res \<times> rmsg list" where
  "readSize ms =
     (case ms of
        [] \<Rightarrow> (Err ''EOF'', [])
      | m # ms' \<Rightarrow>
          (if Code m \<noteq> rlpxMsgCodeSize then Err ''not size message''
           else if Payload m = [] then Err ''failed to decode payload size''
           else if length (Payload m) < 8 then Err ''partially received payload size''
           else DecodeUint64 (take 8 (Payload m)), ms'))"

fun readData :: "u64 \<Rightarrow> rmsg list \<Rightarrow> bytes res \<times> rmsg list" where
  "readData remaining [] =
     (if remaining = 0 then Ok [] else Err ''failed to receive payload'', [])"
| "readData remaining (m # ms) =
     (if remaining = 0 then (Ok [], m # ms)
      else if Code m \<noteq> rlpxMsgCodeData then (Err ''not data message'', ms)
      else let sz = (word_of_nat (length (Payload m)) :: u32) in
        if sz = 0 then readData remaining ms
        else case readData (remaining - ucast sz) ms of
               (Ok bs, ms') \<Rightarrow> (Ok (take (unat sz) (Payload m) @ bs), ms')
             | (e, ms') \<Rightarrow> (e, ms'))"

text \<open>\<open>Read\<close> returns the announced size together with what it wrote into the buffer.\<close>

definition Read_msgs :: "rmsg list \<Rightarrow> (u64 \<times> bytes) res \<times> rmsg list" where
  "Read_msgs ms =
     (case readSize ms of
        (Ok sz, ms') \<Rightarrow>
          (case readData sz ms' of
             (Ok bs, ms'') \<Rightarrow> (Ok (sz, bs), ms'')
           | (Err e, ms'') \<Rightarrow> (Err e, ms'')
           | (Panic, ms'') \<Rightarrow> (Panic, ms''))
      | (Err e, ms') \<Rightarrow> (Err e, ms')
      | (Panic, ms') \<Rightarrow> (Panic, ms'))"

definition Read :: "connection \<Rightarrow> (u64 \<times> bytes) res \<times> connection" where
  "Read c = (case Read_msgs (rlpx_in c) of (r, ms) \<Rightarrow> (r, c\<lparr>rlpx_in := ms\<rparr>))"

section \<open>The TCP loops do not depend on segmentation\<close>

lemma tcpRecv_loop_exact:
  "concat segs = a @ b \<Longrightarrow> length a = n \<Longrightarrow>
     \<exists>segs'. tcpRecv_loop n segs = (Ok a, segs') \<and> concat segs' = b"
proof (induction n segs arbitrary: a rule: tcpRecv_loop.induct)
  case (3 n s segs)
  show ?case
  proof (cases "Suc n < length s")
    case True
    with "3.prems" have "a = take (Suc n) s" and "drop (Suc n) s @ concat segs = b"
      by (auto simp: append_eq_append_conv_if)
    with True show ?thesis by simp
  next
    case False
    with "3.prems" obtain a' where a: "a = s @ a'" and "concat segs = a' @ b"
      by (auto simp: append_eq_append_conv2)
    moreover from a "3.prems"(2) have "length a' = Suc n - length s" by simp
    ultimately obtain segs' where "tcpRecv_loop (Suc n - length s) segs = (Ok a', segs')" "concat segs' = b"
      using "3.IH" [OF False, of a'] by auto
    with False a show ?thesis by simp
  qed
qed auto

lemma tcpRecv_loop_short:
  "length (concat segs) < n \<Longrightarrow> tcpRecv_loop n segs = (Err ''EOF'', [])"
proof (induction n segs rule: tcpRecv_loop.induct)
  case (3 n s segs)
  from "3.prems" have long: "\<not> Suc n < length s" and "length (concat segs) < Suc n - length s"
    by auto
  with "3.IH" show ?case by simp
qed auto

lemma wp_tcpRecv:
  assumes "concat (tcp_in c) = a @ b" and "length a = n"
    and "\<And>segs. concat segs = b \<Longrightarrow> Q (Ok a) (c\<lparr>tcp_in := segs\<rparr>)"
  shows "wp (tcpRecv n) Q c"
  using tcpRecv_loop_exact [OF assms(1,2)] assms(3)
  by (auto simp: wp_def tcpRecv_def)

lemma wp_tcpSend:
  assumes "\<not> tcp_werr c" and "Q (Ok ()) (c\<lparr>tcp_out := tcp_out c @ bs\<rparr>)"
  shows "wp (tcpSend bs) Q c"
  using assms by (auto simp: wp_def tcpSend_def)

text \<open>A pre-authentication message the receiver accepts.\<close>

definition preauth_ok :: "u64 \<Rightarrow> preAuthMsg \<Rightarrow> bool" where
  "preauth_ok maxSize m \<longleftrightarrow>
     pa_rev m = preAuthRev \<and> pa_typ m < preAuthMax \<and>
     unat (pa_size m) = length (pa_payload m) \<and> (maxSize = 0 \<or> pa_size m \<le> maxSize)"

lemma wp_decodePreAuthMsg:
  assumes ok: "preauth_ok maxSize m"
    and inp: "concat (tcp_in c) = encodePreAuthMsg m @ rest"
    and Q: "\<And>segs. concat segs = rest \<Longrightarrow> Q (Ok m) (c\<lparr>tcp_in := segs\<rparr>)"
  shows "wp (decodePreAuthMsg maxSize) Q c"
proof -
  let ?t = "EncodeUint8 (pa_typ m) @ EncodeUint64 (pa_size m) @ pa_payload m @ rest"
  have m: "m = \<lparr>pa_rev = preAuthRev, pa_typ = pa_typ m, pa_size = pa_size m,
      pa_payload = pa_payload m\<rparr>"
    using ok by (simp add: preauth_ok_def)
  from ok have c: "\<not> pa_typ m \<ge> preAuthMax" "\<not> (maxSize \<noteq> 0 \<and> pa_size m > maxSize)"
    "length (pa_payload m) = unat (pa_size m)"
    by (auto simp: preauth_ok_def)
  have 1: "concat (tcp_in c) = EncodeUint8 preAuthRev @ ?t"
    using inp ok by (simp add: encodePreAuthMsg_def preauth_ok_def)
  show ?thesis
    unfolding decodePreAuthMsg_def wps
    apply (rule wp_tcpRecv [OF 1], simp)
    apply (simp add: wps c)
    apply (rule wp_tcpRecv, simp, simp)
    apply (simp add: wps c)
    apply (rule wp_tcpRecv, simp, simp)
    apply (simp add: wps c)
    apply (rule wp_tcpRecv, simp, simp add: c)
    using Q m by (simp add: wps)
qed

section \<open>The pre-authentication handshake\<close>

text \<open>The bytes an honest initiator and an honest receiver put on the wire.\<close>

definition preauth_request_bytes :: "bytes \<Rightarrow> bytes" where
  "preauth_request_bytes random = encodePreAuthMsg
     \<lparr>pa_rev = preAuthRev, pa_typ = preAuthRequst, pa_size = preAuthReqSize, pa_payload = random\<rparr>"

definition preauth_ack_bytes :: "crypto \<Rightarrow> privkey \<Rightarrow> bytes \<Rightarrow> bytes" where
  "preauth_ack_bytes C key signature = encodePreAuthMsg
     \<lparr>pa_rev = preAuthRev, pa_typ = preAuthAck, pa_size = preAuthAckSize,
      pa_payload = signature @ FromECDSAPub C (PublicKey C key)\<rparr>"

lemma wp_receiverPreAuthHandshake:
  assumes "concat (tcp_in r) = preauth_request_bytes random" and "length random = 1024"
    and "Sign C (Keccak256Hash C random) key = Ok signature" and "\<not> tcp_werr r"
    and Q: "\<And>segs. concat segs = [] \<Longrightarrow>
      Q (Ok ()) (r\<lparr>tcp_in := segs, tcp_out := tcp_out r @ preauth_ack_bytes C key signature\<rparr>)"
  shows "wp (receiverPreAuthHandshake C key) Q r"
  unfolding receiverPreAuthHandshake_def recvPreAuthRequest_def sendPreAuthAck_def wps
  by (rule wp_decodePreAuthMsg [where rest = "[]"
        and m = "\<lparr>pa_rev = preAuthRev, pa_typ = preAuthRequst, pa_size = preAuthReqSize,
          pa_payload = random\<rparr>"])
    (use assms in \<open>auto simp: preauth_ok_def preAuth_consts preauth_request_bytes_def wps
      preauth_ack_bytes_def intro!: wp_tcpSend Q\<close>)

lemma wp_recvPreAuthAck:
  assumes laws: "ecdsa_laws C" and sig: "Sign C h key = Ok signature"
    and inp: "concat (tcp_in i) = preauth_ack_bytes C key signature @ rest"
    and Q: "\<And>segs. concat segs = rest \<Longrightarrow>
      Q (Ok (PublicKey C key, signature)) (i\<lparr>tcp_in := segs\<rparr>)"
  shows "wp (recvPreAuthAck C) Q i"
proof -
  from laws sig have l: "length signature = 65"
    "length (FromECDSAPub C (PublicKey C key)) = 65"
    "UnmarshalPubkey C (FromECDSAPub C (PublicKey C key)) = Ok (PublicKey C key)"
    by (auto simp: ecdsa_laws_def)
  show ?thesis
    unfolding recvPreAuthAck_def wps
    by (rule wp_decodePreAuthMsg [OF _ inp [unfolded preauth_ack_bytes_def]])
      (auto simp: preauth_ok_def preAuth_consts l wps intro!: Q)
qed

lemma wp_initiatorPreAuthHandshake:
  assumes laws: "ecdsa_laws C"
    and sig: "Sign C (Keccak256Hash C random) key = Ok signature"
    and inp: "concat (tcp_in i) = preauth_ack_bytes C key signature @ rest"
    and i: "\<not> tcp_werr i" "raddr i = Some a" "EthAddr a = PubkeyToAddress C (PublicKey C key)"
    and Q: "\<And>segs. concat segs = rest \<Longrightarrow>
      Q (Ok (PublicKey C key)) (i\<lparr>tcp_out := tcp_out i @ preauth_request_bytes random, tcp_in := segs\<rparr>)"
  shows "wp (initiatorPreAuthHandshake C random) Q i"
proof -
  from laws sig have "Ecrecover C (Keccak256Hash C random) signature =
      Ok (FromECDSAPub C (PublicKey C key))"
    by (auto simp: ecdsa_laws_def)
  then have v: "verifyPreAuthAck C random (Some a) signature (PublicKey C key) = Ok ()"
    using i by (simp add: verifyPreAuthAck_def)
  show ?thesis
    unfolding initiatorPreAuthHandshake_def sendPreAuthRequest_def wps
    apply (rule wp_tcpSend [OF i(1)])
    apply (simp add: wps)
    apply (rule wp_recvPreAuthAck [OF laws sig])
     apply (simp add: inp)
    apply (simp add: wps i(2) v)
    using Q by (simp add: preauth_request_bytes_def)
qed

text \<open>
  C27. Completeness of the pre-authentication handshake. When the receiver reads the request
  an initiator writes, and the initiator, who dialled the receiver's Ethereum address, reads
  the acknowledgement the receiver writes, both sides succeed and the initiator learns exactly
  the receiver's public key, however TCP segments the two streams.
\<close>

theorem preauth_handshake_complete:
  assumes "ecdsa_laws C" and "length random = 1024"
    and "Sign C (Keccak256Hash C random) key = Ok signature"
    and "concat (tcp_in r) = preauth_request_bytes random" and "\<not> tcp_werr r" and "tcp_out r = []"
    and "concat (tcp_in i) = tcp_out (snd (run_state (receiverPreAuthHandshake C key) r))"
    and "\<not> tcp_werr i" and "raddr i = Some a"
    and "EthAddr a = PubkeyToAddress C (PublicKey C key)"
  shows "fst (run_state (receiverPreAuthHandshake C key) r) = Ok () \<and>
    fst (run_state (initiatorPreAuthHandshake C random) i) = Ok (PublicKey C key) \<and>
    tcp_out (snd (run_state (initiatorPreAuthHandshake C random) i)) =
      tcp_out i @ preauth_request_bytes random"
proof -
  have "wp (receiverPreAuthHandshake C key)
      (\<lambda>res r'. res = Ok () \<and> tcp_out r' = preauth_ack_bytes C key signature) r"
    using assms(2,3,4,5,6) by (intro wp_receiverPreAuthHandshake) auto
  then have rcv: "fst (run_state (receiverPreAuthHandshake C key) r) = Ok ()"
    "tcp_out (snd (run_state (receiverPreAuthHandshake C key) r)) = preauth_ack_bytes C key signature"
    by (auto simp: wp_def split: prod.splits)
  have "wp (initiatorPreAuthHandshake C random)
      (\<lambda>res i'. res = Ok (PublicKey C key) \<and>
         tcp_out i' = tcp_out i @ preauth_request_bytes random) i"
    using assms(1,3,7-10) rcv(2)
    by (intro wp_initiatorPreAuthHandshake [where rest = "[]" and a = a]) auto
  with rcv(1) show ?thesis
    by (auto simp: wp_def split: prod.splits)
qed

text \<open>The receiver's end before the handshake, and the dialler's when the answer has arrived.\<close>

definition sample_receiver :: connection where
  "sample_receiver = sample_conn\<lparr>tcp_in := [preauth_request_bytes sample_random]\<rparr>"

definition sample_dialler :: connection where
  "sample_dialler = sample_conn\<lparr>tcp_in :=
     [tcp_out (snd (run_state (receiverPreAuthHandshake sample_crypto sample_key) sample_receiver))]\<rparr>"

lemma sample_keys:
  "PublicKey sample_crypto sample_key = sample_key" "Sign sample_crypto h sample_key = Ok sample_key"
  "PubkeyToAddress sample_crypto sample_key = EthAddr sample_addr" "length sample_random = 1024"
  by (simp_all only: sample_crypto_def sample_key_def sample_addr_def sample_random_def
      crypto.select_convs addr.select_convs) simp_all

theorem preauth_handshake_complete_witness:
  "fst (run_state (receiverPreAuthHandshake sample_crypto sample_key) sample_receiver) = Ok () \<and>
   fst (run_state (initiatorPreAuthHandshake sample_crypto sample_random) sample_dialler) = Ok sample_key \<and>
   tcp_out (snd (run_state (initiatorPreAuthHandshake sample_crypto sample_random) sample_dialler)) =
     preauth_request_bytes sample_random"
  using preauth_handshake_complete [OF sample_crypto_laws, of sample_random sample_key sample_key
      sample_receiver sample_dialler sample_addr]
  by (simp add: sample_keys sample_receiver_def sample_dialler_def sample_conn_def)

lemma keeps_raddr_tcp [frame]: "keeps raddr (tcpRecv n)" "keeps raddr (tcpSend bs)"
  by (auto simp: keeps_def tcpRecv_def tcpSend_def split: prod.splits)

lemma keeps_raddr: "keeps raddr (sendPreAuthRequest random)" "keeps raddr (recvPreAuthAck C)"
  unfolding sendPreAuthRequest_def recvPreAuthAck_def decodePreAuthMsg_def
  by (intro frame)+

text \<open>
  C26. Soundness of the pre-authentication handshake: whatever bytes arrive, an initiator that
  succeeds holds a public key whose address is the one it dialled, and some signature over its
  own random message recovers to that key.
\<close>

theorem preauth_handshake_sound:
  assumes "run_state (initiatorPreAuthHandshake C random) i = (Ok pk, i')"
  shows "\<exists>a signature. raddr i = Some a \<and> PubkeyToAddress C pk = EthAddr a \<and>
    Ecrecover C (Keccak256Hash C random) signature = Ok (FromECDSAPub C pk)"
proof -
  from assms obtain sig where "verifyPreAuthAck C random (raddr i) sig pk = Ok ()"
    unfolding initiatorPreAuthHandshake_def
    by (auto simp: run split: prod.splits res.splits
        dest!: keepsD [OF keeps_raddr(1)] keepsD [OF keeps_raddr(2)])
  then show ?thesis
    by (auto simp: verifyPreAuthAck_def split: option.splits if_splits res.splits)
qed

lemma sample_dialled:
  "fst (run_state (initiatorPreAuthHandshake sample_crypto sample_random) sample_dialler) = Ok sample_key"
proof -
  have "wp (receiverPreAuthHandshake sample_crypto sample_key)
      (\<lambda>_ r. tcp_out r = preauth_ack_bytes sample_crypto sample_key sample_key) sample_receiver"
    by (rule wp_receiverPreAuthHandshake [where random = sample_random])
      (simp_all add: sample_keys sample_receiver_def sample_conn_def)
  then have "wp (initiatorPreAuthHandshake sample_crypto sample_random) (\<lambda>res _. res = Ok sample_key)
      sample_dialler"
    by (intro wp_initiatorPreAuthHandshake [where rest = "[]" and a = sample_addr and key = sample_key
          and signature = sample_key])
      (simp_all add: sample_crypto_laws sample_keys sample_dialler_def sample_conn_def wp_def
        split: prod.splits)
  then show ?thesis by (simp add: wp_def split: prod.splits)
qed

theorem preauth_handshake_sound_witness:
  "\<exists>signature. PubkeyToAddress sample_crypto sample_key = EthAddr sample_addr \<and>
    Ecrecover sample_crypto (Keccak256Hash sample_crypto sample_random) signature =
      Ok (FromECDSAPub sample_crypto sample_key)"
  using preauth_handshake_sound [of sample_crypto sample_random sample_dialler sample_key
      "snd (run_state (initiatorPreAuthHandshake sample_crypto sample_random) sample_dialler)"]
    sample_dialled
  by (auto simp: prod_eq_iff sample_dialler_def sample_conn_def)

text \<open>
  \<open>recvPreAuthAck\<close> bounds the size of the acknowledgement from above only: a peer that
  sends a well-formed message with fewer than 130 bytes of payload makes the initiator slice
  past the end of the payload and panic.
\<close>

theorem recvPreAuthAck_short_panics:
  assumes "concat (tcp_in c) = encodePreAuthMsg m" and "preauth_ok preAuthAckSize m"
    and "length (pa_payload m) < 130"
  shows "fst (run_state (recvPreAuthAck C) c) = Panic"
proof -
  have "slice (pa_payload m) 65 130 = Panic"
    using assms(3) by (simp add: slice_panic_iff)
  moreover have "slice (pa_payload m) 0 65 = Panic \<or> (\<exists>x. slice (pa_payload m) 0 65 = Ok x)"
    by (auto simp: slice_def)
  ultimately have "wp (recvPreAuthAck C) (\<lambda>r _. r = Panic) c"
    unfolding recvPreAuthAck_def wps using assms(1,2)
    by (intro wp_decodePreAuthMsg [where rest = "[]"]) (auto simp: wps preAuth_consts)
  then show ?thesis by (auto simp: wp_def split: prod.splits)
qed

theorem recvPreAuthAck_short_panics_witness:
  "fst (run_state (recvPreAuthAck sample_crypto) (sample_conn\<lparr>tcp_in := [encodePreAuthMsg
     \<lparr>pa_rev = 1, pa_typ = 1, pa_size = 3, pa_payload = [1, 2, 3]\<rparr>]\<rparr>)) = Panic"
  by (rule recvPreAuthAck_short_panics
      [where m = "\<lparr>pa_rev = 1, pa_typ = 1, pa_size = 3, pa_payload = [1, 2, 3]\<rparr>"])
    (simp_all add: preauth_ok_def preAuth_consts)

section \<open>Write and Read as a stream of sized blocks\<close>

text \<open>The messages a successful \<open>Write\<close> of a slice sends.\<close>

function packets :: "bytes \<Rightarrow> rmsg list" where
  "packets bs =
     (if bs = [] then []
      else \<lparr>Code = rlpxMsgCodeData, Payload = take 16777210 bs\<rparr> # packets (drop 16777210 bs))"
  by pat_completeness auto
termination
  by (relation "measure length") auto

declare packets.simps [simp del]

lemma packets_Nil [simp]: "packets [] = []"
  by (simp add: packets.simps)

definition write_msgs :: "bytes \<Rightarrow> rmsg list" where
  "write_msgs bs = \<lparr>Code = rlpxMsgCodeSize, Payload = EncodeUint64 (len64 bs)\<rparr> # packets bs"

definition all_ok :: "connection \<Rightarrow> bool" where
  "all_ok c \<longleftrightarrow> rlpx_werr c = []"

lemma WriteMsg_ok:
  "all_ok c \<Longrightarrow> frame_fits m \<Longrightarrow> WriteMsg m c = (Ok (), c\<lparr>rlpx_out := rlpx_out c @ [m]\<rparr>)"
  by (simp add: WriteMsg_def all_ok_def)

lemma all_ok_out [simp]: "all_ok (c\<lparr>rlpx_out := ms\<rparr>) = all_ok c"
  by (simp add: all_ok_def)

lemma packets_fit: "m \<in> set (packets bs) \<Longrightarrow> frame_fits m"
proof (induction bs rule: packets.induct)
  case (1 bs)
  then show ?case
    by (subst (asm) packets.simps) (auto simp: frame_fits_def maxUint24_def split: if_splits)
qed

lemma copyN_packet:
  assumes "unat r \<le> length data"
  shows "copyN data (packet r) = Ok (take (unat (packet r)) data, drop (unat (packet r)) data)"
proof -
  have "unat (packet r) < 2 ^ 63" by (simp add: unat_packet)
  moreover have "unat (packet r) \<le> length data" using assms by (simp add: unat_packet)
  ultimately have "copyN data (word_of_nat (unat (packet r))) =
      Ok (take (unat (packet r)) data, drop (unat (packet r)) data)"
    by (rule copyN_exact)
  then show ?thesis by simp
qed

lemma packets_step:
  assumes "0 < n" and "n \<le> length data"
  shows "packets (take n data) =
    \<lparr>Code = rlpxMsgCodeData, Payload = take (min n 16777210) data\<rparr> #
    packets (take (n - min n 16777210) (drop (min n 16777210) data))"
proof -
  have ne: "take n data \<noteq> []" using assms by auto
  have h: "take 16777210 (take n data) = take (min n 16777210) data"
    by (simp only: take_take min.commute)
  have t: "drop 16777210 (take n data) = take (n - min n 16777210) (drop (min n 16777210) data)"
    by (cases "n \<le> 16777210") (simp_all add: drop_take)
  show ?thesis
    by (subst packets.simps) (simp only: ne h t if_False)
qed

lemma writeData_ok:
  "all_ok c \<Longrightarrow> unat r \<le> length data \<Longrightarrow>
   writeData data r c = (Ok (), c\<lparr>rlpx_out := rlpx_out c @ packets (take (unat r) data)\<rparr>)"
proof (induction data r c rule: writeData.induct)
  case (1 data r c)
  show ?case
  proof (cases "r = 0")
    case True
    then show ?thesis by (simp add: writeData.simps)
  next
    case False
    let ?k = "unat (packet r)" and ?m = "\<lparr>Code = rlpxMsgCodeData, Payload = take (unat (packet r)) data\<rparr>"
    let ?c = "c\<lparr>rlpx_out := rlpx_out c @ [?m]\<rparr>"
    have k: "?k = min (unat r) 16777210" by (rule unat_packet)
    have r0: "0 < unat r" using False unat_gt_0 by blast
    have cn: "copyN data (packet r) = Ok (take ?k data, drop ?k data)"
      using "1.prems"(2) by (rule copyN_packet)
    have "frame_fits ?m" by (simp add: frame_fits_def maxUint24_def k)
    then have wm: "WriteMsg ?m c = (Ok (), ?c)" using "1.prems"(1) by (simp add: WriteMsg_ok)
    have IH: "writeData (drop ?k data) (r - packet r) ?c =
        (Ok (), ?c\<lparr>rlpx_out := rlpx_out ?c @ packets (take (unat (r - packet r)) (drop ?k data))\<rparr>)"
      using "1.IH" [OF False refl cn refl wm [symmetric] refl] "1.prems"
      by (simp add: unat_minus_packet)
    have p: "packets (take (unat r) data) =
        ?m # packets (take (unat (r - packet r)) (drop ?k data))"
      using packets_step [OF r0 "1.prems"(2)] k by (simp only: unat_minus_packet)
    show ?thesis
      by (subst writeData.simps) (simp add: False cn wm IH p Let_def)
  qed
qed

lemma Write_ok:
  assumes "all_ok c" and "length data < 2 ^ 64"
  shows "Write data (len64 data) c = (Ok (), c\<lparr>rlpx_out := rlpx_out c @ write_msgs data\<rparr>)"
proof -
  have u: "unat (len64 data) = length data"
    using assms(2) by (simp add: len64_def unat_of_nat_small)
  have "frame_fits \<lparr>Code = rlpxMsgCodeSize, Payload = EncodeUint64 (len64 data)\<rparr>"
    by (simp add: frame_fits_def maxUint24_def)
  then show ?thesis
    using assms(1) u
    by (simp add: Write_def writeSize_def WriteMsg_ok writeData_ok write_msgs_def)
qed

lemma readData_packets:
  "length bs < 2 ^ 64 \<Longrightarrow> readData (len64 bs) (packets bs @ rest) = (Ok bs, rest)"
proof (induction bs rule: packets.induct)
  case (1 bs)
  show ?case
  proof (cases "bs = []")
    case True
    then show ?thesis by (cases rest) (simp_all add: len64_def)
  next
    case False
    let ?h = "take 16777210 bs" and ?t = "drop 16777210 bs"
    let ?s = "word_of_nat (length ?h) :: u32"
    from False have lh: "length ?h = min (length bs) 16777210" "0 < length ?h" "length ?h < 2 ^ 32"
      by auto
    have us: "unat ?s = length ?h" using lh(3) by (simp add: unat_of_nat_small)
    then have s0: "?s \<noteq> 0" using lh(2) by (metis less_irrefl unat_0)
    have n0: "len64 bs \<noteq> 0"
      using False "1.prems" unat_of_nat_small [of "length bs", where 'a = 64]
      by (auto simp: len64_def)
    have "len64 bs - ucast ?s = len64 ?t"
    proof -
      have "(ucast ?s :: u64) = word_of_nat (length ?h)"
        by (simp only: ucast_nat us)
      moreover have "(word_of_nat (length bs) :: u64) = word_of_nat (length ?h) + word_of_nat (length ?t)"
        by (metis append_take_drop_id length_append of_nat_add)
      ultimately show ?thesis by (simp add: len64_def)
    qed
    moreover have "readData (len64 ?t) (packets ?t @ rest) = (Ok ?t, rest)"
      using "1.IH" [OF False] "1.prems" by simp
    moreover have "take (min (length bs) 16777210) bs @ ?t = bs"
      by (cases "length bs \<le> 16777210") simp_all
    ultimately show ?thesis
      using False s0 n0 us by (subst packets.simps) (simp add: Let_def)
  qed
qed

lemma EncodeUint64_nonempty: "EncodeUint64 v \<noteq> []"
  using u64c.enc_length [of v] by (metis list.size(3) zero_neq_numeral)

lemma Read_write_msgs:
  assumes "length bs < 2 ^ 64"
  shows "Read_msgs (write_msgs bs @ rest) = (Ok (len64 bs, bs), rest)"
  using assms readData_packets [OF assms, of rest]
  by (simp add: Read_msgs_def write_msgs_def readSize_def EncodeUint64_nonempty)

text \<open>
  The interface the node layer builds on: blocks put into a stream come out one by one, each
  with its size, whatever follows them.
\<close>

locale block_stream =
  fixes put :: "bytes \<Rightarrow> 'm list"
    and get :: "'m list \<Rightarrow> (u64 \<times> bytes) res \<times> 'm list"
  assumes get_put: "length bs < 2 ^ 64 \<Longrightarrow> get (put bs @ rest) = (Ok (len64 bs, bs), rest)"
begin

lemma get_put_exact: "length bs < 2 ^ 64 \<Longrightarrow> get (put bs) = (Ok (len64 bs, bs), [])"
  using get_put [of bs "[]"] by simp

lemma get_put_twice:
  assumes "length h < 2 ^ 64" and "length p < 2 ^ 64"
  shows "get (put h @ put p @ rest) = (Ok (len64 h, h), put p @ rest) \<and>
    get (snd (get (put h @ put p @ rest))) = (Ok (len64 p, p), rest)"
  using assms by (simp add: get_put)

lemma put_inject: "length a < 2 ^ 64 \<Longrightarrow> length b < 2 ^ 64 \<Longrightarrow> put a = put b \<Longrightarrow> a = b"
  by (metis get_put_exact prod.inject res.inject(1))

end

interpretation rlpx_stream: block_stream write_msgs Read_msgs
  by unfold_locales (rule Read_write_msgs)

section \<open>Properties of Write and Read\<close>

text \<open>
  C25. \<open>Write\<close> followed by \<open>Read\<close> is the identity: writing a slice of any length below \<open>2^64\<close> on a
  connection without write faults succeeds, and a peer that receives the messages sent, with
  anything behind them, reads back the size and exactly the bytes, leaving the rest unread.
\<close>

theorem Write_Read_roundtrip:
  assumes "all_ok c" and "length data < 2 ^ 64"
    and "Write data (len64 data) c = (res, c')"
    and "rlpx_in peer = drop (length (rlpx_out c)) (rlpx_out c') @ rest"
  shows "res = Ok () \<and> Read peer = (Ok (len64 data, data), peer\<lparr>rlpx_in := rest\<rparr>)"
  using assms Write_ok [OF assms(1,2)] rlpx_stream.get_put [OF assms(2), of rest]
  by (auto simp: Read_def)

theorem Write_Read_roundtrip_witness:
  "fst (Write [1, 2, 3] 3 sample_conn) = Ok () \<and>
   fst (Read (sample_conn\<lparr>rlpx_in := rlpx_out (snd (Write [1, 2, 3] 3 sample_conn))\<rparr>)) =
     Ok (3, [1, 2, 3])"
  using Write_Read_roundtrip [of sample_conn "[1, 2, 3]" "fst (Write [1, 2, 3] 3 sample_conn)"
      "snd (Write [1, 2, 3] 3 sample_conn)"
      "sample_conn\<lparr>rlpx_in := rlpx_out (snd (Write [1, 2, 3] 3 sample_conn))\<rparr>" "[]"]
  by (simp add: all_ok_def sample_conn_def len64_def)

text \<open>
  Packetisation stays within the frame limit of RLPx: every message that \<open>Write\<close> adds to
  the connection fits a frame whose size field has 24 bits, whatever the slice and the faults.
\<close>

theorem Write_frames_fit:
  assumes "Write data sz c = (res, c')"
  shows "\<exists>ms. rlpx_out c' = rlpx_out c @ ms \<and> list_all frame_fits ms"
proof -
  have step: "\<exists>ms. rlpx_out c2 = rlpx_out c1 @ ms \<and> list_all frame_fits ms"
    if "WriteMsg m c1 = (r, c2)" for m c1 c2 r
    using that by (auto simp: WriteMsg_def split: if_splits list.splits bool.splits)
  have loop: "\<exists>ms. rlpx_out c2 = rlpx_out c1 @ ms \<and> list_all frame_fits ms"
    if "writeData d n c1 = (r, c2)" for d n c1 c2 r
    using that
  proof (induction d n c1 rule: writeData.induct)
    case (1 d n c1)
    show ?case
    proof (cases "\<exists>buf d' u c3. n \<noteq> 0 \<and> copyN d (packet n) = Ok (buf, d') \<and>
        WriteMsg \<lparr>Code = rlpxMsgCodeData, Payload = buf\<rparr> c1 = (Ok u, c3)")
      case True
      then obtain buf d' u c3 where n: "n \<noteq> 0" and cp: "copyN d (packet n) = Ok (buf, d')"
        and w: "WriteMsg \<lparr>Code = rlpxMsgCodeData, Payload = buf\<rparr> c1 = (Ok u, c3)" by blast
      with "1.prems" have "writeData d' (n - packet n) c3 = (r, c2)"
        by (subst (asm) writeData.simps) (simp add: Let_def)
      with "1.IH" [OF n refl cp refl w [symmetric] refl] step [OF w] show ?thesis
        by (metis append_assoc list_all_append)
    next
      case False
      with "1.prems" show ?thesis
        by (subst (asm) writeData.simps)
          (auto simp: Let_def split: if_splits res.splits prod.splits dest: step)
    qed
  qed
  from assms show ?thesis
    by (auto simp: Write_def writeSize_def split: prod.splits res.splits dest!: step loop)
qed

theorem Write_frames_fit_witness:
  "\<exists>ms. rlpx_out (snd (Write [1, 2, 3] 3 sample_conn)) = ms \<and> list_all frame_fits ms"
  using Write_frames_fit [of "[1, 2, 3]" 3 sample_conn "fst (Write [1, 2, 3] 3 sample_conn)"
      "snd (Write [1, 2, 3] 3 sample_conn)"]
  by (simp add: sample_conn_def)

section \<open>A packet longer than announced\<close>

text \<open>
  While more bytes are expected than the messages can carry, \<open>readData\<close> takes every data message
  and fails: at the end of the input, or at the first message that is no data, which it drops.
\<close>

lemma readData_starves:
  assumes "16777213 * length ms < unat r" and "list_all frame_fits ms"
  defines "rest \<equiv> dropWhile (\<lambda>m. Code m = rlpxMsgCodeData) ms"
  shows "readData r ms =
    (Err (if rest = [] then ''failed to receive payload'' else ''not data message''), tl rest)"
  using assms(1,2) unfolding rest_def
proof (induction ms arbitrary: r)
  case Nil
  then show ?case by auto
next
  case (Cons m ms)
  let ?s = "word_of_nat (length (Payload m)) :: u32"
  from Cons.prems(2) have us: "unat ?s = length (Payload m)" "length (Payload m) \<le> 16777213"
    by (auto intro!: unat_of_nat_small simp: frame_fits_def maxUint24_def)
  then have "(ucast ?s :: u64) \<le> r" and u: "unat (ucast ?s :: u64) = length (Payload m)"
    using Cons.prems(1) by (auto simp: word_le_nat_alt unat_ucast_up)
  then have "unat (r - ucast ?s) = unat r - length (Payload m)"
    by (simp add: unat_sub)
  then have "16777213 * length ms < unat (r - ucast ?s)" "16777213 * length ms < unat r"
    using Cons.prems(1) us(2) by auto
  moreover have "r \<noteq> 0" using Cons.prems(1) by auto
  ultimately show ?case
    using Cons.IH Cons.prems by (auto simp: Let_def)
qed

lemma remaining_wraps:
  assumes "n < l" and "l \<le> 16777213" and "k < 2 ^ 32"
  shows "16777213 * k < unat (word_of_nat n - ucast (word_of_nat l :: u32) :: u64)"
proof -
  have us: "unat (word_of_nat l :: u32) = l" using assms(2) by (intro unat_of_nat_small) simp
  have un: "unat (word_of_nat n :: u64) = n" using assms(1,2) by (intro unat_of_nat_small) simp
  have ub: "unat (ucast (word_of_nat l :: u32) :: u64) = l" by (simp only: unat_ucast_up us)
  have "unat (word_of_nat n - ucast (word_of_nat l :: u32) :: u64) = 2 ^ 64 + n - l"
    using assms(1,2) by (subst unat_sub_if') (simp add: word_le_nat_alt un ub)
  then show ?thesis using assms by simp
qed

lemma readData_oversized:
  assumes "list_all frame_fits (\<lparr>Code = rlpxMsgCodeData, Payload = big\<rparr> # ms)"
    and "length ms < 2 ^ 32" and "n < length big" and "0 < n"
  defines "rest \<equiv> dropWhile (\<lambda>m. Code m = rlpxMsgCodeData) ms"
  shows "readData (word_of_nat n) (\<lparr>Code = rlpxMsgCodeData, Payload = big\<rparr> # ms) =
    (Err (if rest = [] then ''failed to receive payload'' else ''not data message''), tl rest)"
proof -
  have l: "length big \<le> 16777213" using assms(1) by (simp add: frame_fits_def maxUint24_def)
  have "unat (word_of_nat n :: u64) = n" "unat (word_of_nat (length big) :: u32) = length big"
    using l assms(3) by (auto intro!: unat_of_nat_small)
  then have "(word_of_nat n :: u64) \<noteq> 0" "(word_of_nat (length big) :: u32) \<noteq> 0"
    using assms(3,4) by auto
  with readData_starves [OF remaining_wraps [OF assms(3) l assms(2)], folded rest_def] assms(1)
  show ?thesis by (simp add: Let_def)
qed

lemma packets_nonempty: "bs \<noteq> [] \<Longrightarrow> \<exists>p ps. packets bs = \<lparr>Code = rlpxMsgCodeData, Payload = p\<rparr> # ps"
  by (subst packets.simps) simp

text \<open>
  C40. \<open>Read\<close> subtracts a packet's size from the unsigned number of remaining bytes without
  comparing them. When a block announces \<open>n\<close> bytes and is followed by a packet longer than that,
  the counter wraps around: \<open>Read\<close> swallows every data message behind it and fails, at the end of
  the input or at the first message that is no data, which it drops as well. If the peer's next
  message is a block of one or more bytes, that message is its size, so the block is lost too: the
  next \<open>Read\<close> finds a packet where it expects a size and fails.
\<close>

theorem Read_oversized_packet:
  assumes "rlpx_in c = \<lparr>Code = rlpxMsgCodeSize, Payload = EncodeUint64 (word_of_nat n)\<rparr> #
      \<lparr>Code = rlpxMsgCodeData, Payload = big\<rparr> # ms"
    and "list_all frame_fits (\<lparr>Code = rlpxMsgCodeData, Payload = big\<rparr> # ms)"
    and "length ms < 2 ^ 32" and "n < length big" and "0 < n"
  shows "Read c =
      (let rest = dropWhile (\<lambda>m. Code m = rlpxMsgCodeData) ms in
       (Err (if rest = [] then ''failed to receive payload'' else ''not data message''),
        c\<lparr>rlpx_in := tl rest\<rparr>)) \<and>
    (\<forall>bs rest. ms = write_msgs bs @ rest \<and> bs \<noteq> [] \<longrightarrow>
       fst (Read c) = Err ''not data message'' \<and>
       fst (Read (snd (Read c))) = Err ''not size message'')"
proof -
  have R: "Read c =
      (let rest = dropWhile (\<lambda>m. Code m = rlpxMsgCodeData) ms in
       (Err (if rest = [] then ''failed to receive payload'' else ''not data message''),
        c\<lparr>rlpx_in := tl rest\<rparr>))"
    using readData_oversized [OF assms(2-5)] assms(1) 
    by (simp add: EncodeUint64_nonempty Read_def Read_msgs_def readSize_def Let_def del: readData.simps)
  have "fst (Read c) = Err ''not data message'' \<and> fst (Read (snd (Read c))) = Err ''not size message''"
    if "ms = write_msgs bs @ rest" "bs \<noteq> []" for bs rest
    using packets_nonempty [OF that(2)] that(1) R
    by (auto simp: write_msgs_def Let_def Read_def Read_msgs_def readSize_def rlpxMsgCodeData_def
        rlpxMsgCodeSize_def)
  with R show ?thesis by blast
qed

theorem Read_oversized_packet_witness:
  "let c = sample_conn\<lparr>rlpx_in := \<lparr>Code = rlpxMsgCodeSize, Payload = EncodeUint64 (word_of_nat 1)\<rparr> #
         \<lparr>Code = rlpxMsgCodeData, Payload = [1, 2]\<rparr> # write_msgs [3]\<rparr>
   in fst (Read c) = Err ''not data message'' \<and> fst (Read (snd (Read c))) = Err ''not size message''"
proof -
  let ?c = "sample_conn\<lparr>rlpx_in := \<lparr>Code = rlpxMsgCodeSize, Payload = EncodeUint64 (word_of_nat 1)\<rparr> #
         \<lparr>Code = rlpxMsgCodeData, Payload = [1, 2]\<rparr> # write_msgs [3]\<rparr>"
  have "list_all frame_fits (\<lparr>Code = rlpxMsgCodeData, Payload = [1, 2]\<rparr> # write_msgs [3])"
    by (simp add: write_msgs_def packets.simps frame_fits_def maxUint24_def)
  moreover have "length (write_msgs [3]) < 2 ^ 32"
    by (simp add: write_msgs_def packets.simps)
  moreover have "rlpx_in ?c = \<lparr>Code = rlpxMsgCodeSize, Payload = EncodeUint64 (word_of_nat 1)\<rparr> #
         \<lparr>Code = rlpxMsgCodeData, Payload = [1, 2]\<rparr> # write_msgs [3]"
    by simp
  moreover have "1 < length [1 :: u8, 2]" "write_msgs [3] = write_msgs [3] @ [] \<and> [3 :: u8] \<noteq> []"
    by simp_all
  ultimately show ?thesis
    using Read_oversized_packet [of ?c 1 "[1, 2]" "write_msgs [3]"] unfolding Let_def
    by (metis zero_less_one)
qed

end
