(* ===== verification/Node.thy ===== *)
theory Node
  imports Transport
begin

text \<open>
  The communication node of \<^verbatim>\<open>net/node.go\<close> and \<^verbatim>\<open>net/state.go\<close>: its protocol states, the
  message header, and the operations that send and receive one typed message. A node owns its
  connection; operations are programs of the state monad over the node.
\<close>

section \<open>Protocol states\<close>

datatype nodeState =
    stateConnected | stateClosed
  | stateSessionAckWait | stateSessionReqRecvd | stateSessionAckRecvd | stateSessionEstablished
  | stateNegoAckReqWait | stateNegoAckReqRecvd | stateNegoRequestRecvd | stateNegoAckWait
  | stateNegotiated
  | stateTxResponseWait | stateTxRequestRecvd | stateTxReceiptWait | stateTxResponseRecvd
  | stateTxSecretWait | stateTxReceiptRecvd

primrec stateNames :: "nodeState \<Rightarrow> string" where
  "stateNames stateConnected = ''Connected''"
| "stateNames stateClosed = ''Closed''"
| "stateNames stateSessionAckWait = ''SessionAckWait''"
| "stateNames stateSessionReqRecvd = ''SessionReqRecvd''"
| "stateNames stateSessionAckRecvd = ''SessionAckRecvd''"
| "stateNames stateSessionEstablished = ''SessionEstablished''"
| "stateNames stateNegoAckReqWait = ''NegoAckReqWait''"
| "stateNames stateNegoAckReqRecvd = ''NegoAckReqRecvd''"
| "stateNames stateNegoRequestRecvd = ''NegoRequestRecvd''"
| "stateNames stateNegoAckWait = ''NegoAckWait''"
| "stateNames stateNegotiated = ''Negotiated''"
| "stateNames stateTxResponseWait = ''TxResponseWait''"
| "stateNames stateTxRequestRecvd = ''TxRequestRecvd''"
| "stateNames stateTxReceiptWait = ''TxReceiptWait''"
| "stateNames stateTxResponseRecvd = ''TxResponseRecvd''"
| "stateNames stateTxSecretWait = ''TxSecretWait''"
| "stateNames stateTxReceiptRecvd = ''TxReceiptRecvd''"

text \<open>
  The order in which the two parties pass through the states; not the numbering of the
  constants, in which the seller's \<open>SessionReqRecvd\<close> comes after its \<open>SessionAckWait\<close>.
\<close>

primrec phase :: "nodeState \<Rightarrow> nat" where
  "phase stateConnected = 0"
| "phase stateSessionReqRecvd = 1"
| "phase stateSessionAckWait = 2"
| "phase stateSessionAckRecvd = 3"
| "phase stateSessionEstablished = 4"
| "phase stateNegoRequestRecvd = 5"
| "phase stateNegoAckReqWait = 6"
| "phase stateNegoAckReqRecvd = 7"
| "phase stateNegoAckWait = 8"
| "phase stateNegotiated = 9"
| "phase stateTxRequestRecvd = 10"
| "phase stateTxResponseWait = 11"
| "phase stateTxResponseRecvd = 12"
| "phase stateTxReceiptWait = 13"
| "phase stateTxReceiptRecvd = 14"
| "phase stateTxSecretWait = 15"
| "phase stateClosed = 16"

lemma phase_inject: "phase s = phase t \<Longrightarrow> s = t"
  by (cases s; cases t) simp_all

lemma phase_le: "phase s \<le> 16"
  by (cases s) simp_all

instantiation nodeState :: linorder
begin

definition less_eq_nodeState :: "nodeState \<Rightarrow> nodeState \<Rightarrow> bool" where
  "less_eq_nodeState s t \<longleftrightarrow> phase s \<le> phase t"

definition less_nodeState :: "nodeState \<Rightarrow> nodeState \<Rightarrow> bool" where
  "less_nodeState s t \<longleftrightarrow> phase s < phase t"

instance
  by standard (auto simp: less_eq_nodeState_def less_nodeState_def phase_inject)

end

section \<open>Nodes\<close>

record session =
  sess_id :: u64
  sess_mode :: u8

record node =
  conn :: connection
  nstate :: nodeState
  sess :: session
  lkey :: privkey
  rkey :: pubkey

text \<open>\<open>fmt.Sprintf\<close> of the state error, without the name of the node's connection.\<close>

definition invalidStateError :: "node \<Rightarrow> nodeState \<Rightarrow> string" where
  "invalidStateError n expected =
     ''node in invalid state '' @ stateNames (nstate n) @ '', expecting state '' @
     stateNames expected"

definition NewNode :: "connection option \<Rightarrow> privkey \<Rightarrow> pubkey \<Rightarrow> node res" where
  "NewNode c lk rk =
     (case c of
        None \<Rightarrow> Err ''connection cannot be nil''
      | Some c \<Rightarrow> Ok \<lparr>conn = c, nstate = stateConnected,
           sess = \<lparr>sess_id = 0, sess_mode = 0\<rparr>, lkey = lk, rkey = rk\<rparr>)"

definition sample_node :: node where
  "sample_node = \<lparr>conn = sample_conn, nstate = stateConnected, sess = \<lparr>sess_id = 0, sess_mode = 0\<rparr>,
     lkey = sample_key, rkey = sample_key\<rparr>"

definition Node_Close :: "(node, unit res) state" where
  "Node_Close = do { State_Monad.update (\<lambda>n. n\<lparr>nstate := stateClosed\<rparr>); ret (Ok ()) }"

definition on_conn :: "(connection \<Rightarrow> 'a \<times> connection) \<Rightarrow> (node, 'a) state" where
  "on_conn f = State (\<lambda>n. case f (conn n) of (r, c) \<Rightarrow> (r, n\<lparr>conn := c\<rparr>))"

section \<open>Messages\<close>

definition msgRev :: u16 where "msgRev = 1"
definition msgSessionRequest :: u16 where "msgSessionRequest = 0"
definition msgSessionAck :: u16 where "msgSessionAck = 1"
definition msgSessionClose :: u16 where "msgSessionClose = 2"
definition msgTxRequest :: u16 where "msgTxRequest = 3"
definition msgTxResponse :: u16 where "msgTxResponse = 4"
definition msgTxReceipt :: u16 where "msgTxReceipt = 5"
definition msgNegoRequest :: u16 where "msgNegoRequest = 6"
definition msgNegoAck :: u16 where "msgNegoAck = 7"
definition msgNegoAckReq :: u16 where "msgNegoAckReq = 8"
definition msgTypeMax :: u16 where "msgTypeMax = 9"

lemmas msg_consts = msgRev_def msgSessionRequest_def msgSessionAck_def msgSessionClose_def
  msgTxRequest_def msgTxResponse_def msgTxReceipt_def msgNegoRequest_def msgNegoAck_def
  msgNegoAckReq_def msgTypeMax_def

lemma msg_known [simp]:
  "msgSessionRequest < msgTypeMax" "msgSessionAck < msgTypeMax" "msgTxRequest < msgTypeMax"
  "msgTxResponse < msgTypeMax" "msgTxReceipt < msgTypeMax" "msgNegoRequest < msgTypeMax"
  "msgNegoAck < msgTypeMax" "msgNegoAckReq < msgTypeMax"
  by (simp_all add: msg_consts)

definition ModePlainComplaintPoD :: u8 where "ModePlainComplaintPoD = 0"
definition ModePlainOTComplaintPoD :: u8 where "ModePlainOTComplaintPoD = 1"
definition ModePlainAtomicSwapPoD :: u8 where "ModePlainAtomicSwapPoD = 2"
definition ModePlainAtomicSwapVcPoD :: u8 where "ModePlainAtomicSwapVcPoD = 3"
definition ModeTableVRFQuery :: u8 where "ModeTableVRFQuery = 4"
definition ModeTableOTVRFQuery :: u8 where "ModeTableOTVRFQuery = 5"
definition ModeTableComplaintPoD :: u8 where "ModeTableComplaintPoD = 6"
definition ModeTableOTComplaintPoD :: u8 where "ModeTableOTComplaintPoD = 7"
definition ModeTableAtomicSwapPoD :: u8 where "ModeTableAtomicSwapPoD = 8"
definition ModeTableAtomicSwapVcPoD :: u8 where "ModeTableAtomicSwapVcPoD = 9"
definition modeMax :: u8 where "modeMax = 10"

lemmas mode_consts = ModePlainComplaintPoD_def ModePlainOTComplaintPoD_def
  ModePlainAtomicSwapPoD_def ModePlainAtomicSwapVcPoD_def ModeTableVRFQuery_def
  ModeTableOTVRFQuery_def ModeTableComplaintPoD_def ModeTableOTComplaintPoD_def
  ModeTableAtomicSwapPoD_def ModeTableAtomicSwapVcPoD_def modeMax_def

definition isOTMode :: "node \<Rightarrow> bool" where
  "isOTMode n \<longleftrightarrow>
     sess_mode (sess n) = ModePlainOTComplaintPoD \<or>
     sess_mode (sess n) = ModeTableOTComplaintPoD \<or>
     sess_mode (sess n) = ModeTableOTVRFQuery"

definition msgHeader :: "u16 \<Rightarrow> u64 \<Rightarrow> bytes" where
  "msgHeader ty sz = EncodeUint16 msgRev @ EncodeUint16 ty @ EncodeUint64 sz"

definition sendMsg :: "u16 \<Rightarrow> bytes \<Rightarrow> u64 \<Rightarrow> (node, unit res) state" where
  "sendMsg ty payload sz =
     check (on_conn (Write (msgHeader ty sz) 12)) (\<lambda>_. ret (Err ''failed to send msg header''))
       (\<lambda>_.
     check (on_conn (Write payload sz)) (\<lambda>_. ret (Err ''failed to send msg payload''))
       (\<lambda>_. ret (Ok ())))"

definition recvMsgHeader :: "(node, (u16 \<times> u64) res) state" where
  "recvMsgHeader =
     check (on_conn Read) (\<lambda>_. ret (Err ''failed to receive msg header'')) (\<lambda>(n, header).
     if n \<noteq> 12 then ret (Err ''invalid size of msg header'') else
     check (ret (res_bind (slice header 0 2) DecodeUint16))
       (\<lambda>_. ret (Err ''failed to decode msg rev'')) (\<lambda>rv.
     if rv \<noteq> msgRev then ret (Err ''unsupported msg rev'') else
     check (ret (res_bind (slice header 2 4) DecodeUint16))
       (\<lambda>_. ret (Err ''failed to decode msg type'')) (\<lambda>ty.
     if ty \<ge> msgTypeMax then ret (Err ''unsupported msg type'') else
     check (ret (res_bind (slice header 4 12) DecodeUint64))
       (\<lambda>_. ret (Err ''failed to decode msg payload size'')) (\<lambda>len.
     ret (Ok (ty, len))))))"

text \<open>The result is what \<open>recvMsgPayload\<close> leaves in its destination buffer.\<close>

definition recvMsgPayload :: "u64 \<Rightarrow> (node, bytes res) state" where
  "recvMsgPayload len =
     check (on_conn Read) (\<lambda>_. ret (Err ''failed to receive msg payload'')) (\<lambda>(n, dst).
     if n \<noteq> len then ret (Err ''invalid payload size'') else ret (Ok dst))"

definition recvMsgWithCheck :: "u16 \<Rightarrow> u64 \<Rightarrow> (node, bytes res) state" where
  "recvMsgWithCheck ty len =
     check recvMsgHeader (\<lambda>e. ret (Err e)) (\<lambda>(t, l).
     if t \<noteq> ty then ret (Err ''mismatch msg type'')
     else if l < len then ret (Err ''mismatch msg length'')
     else recvMsgPayload l)"

section \<open>One message over the wire\<close>

lemma length_msgHeader [simp]: "length (msgHeader ty sz) = 12"
  by (simp add: msgHeader_def)

lemma len64_msgHeader [simp]: "len64 (msgHeader ty sz) = 12"
  by (simp add: len64_def)

text \<open>The RLPx messages one \<open>sendMsg\<close> puts on the wire.\<close>

definition wire_msg :: "u16 \<Rightarrow> bytes \<Rightarrow> rmsg list" where
  "wire_msg ty payload = write_msgs (msgHeader ty (len64 payload)) @ write_msgs payload"

lemma wp_on_conn [wps]: "wp (on_conn f) Q n = (case f (conn n) of (r, c) \<Rightarrow> Q r (n\<lparr>conn := c\<rparr>))"
  by (simp add: wp_def on_conn_def split: prod.splits)

lemma wp_sendMsg:
  assumes "all_ok (conn n)" and "length payload < 2 ^ 64"
    and "Q (Ok ()) (n\<lparr>conn := (conn n)\<lparr>rlpx_out := rlpx_out (conn n) @ wire_msg ty payload\<rparr>\<rparr>)"
  shows "wp (sendMsg ty payload (len64 payload)) Q n"
proof -
  have h: "Write (msgHeader ty (len64 payload)) 12 c =
      (Ok (), c\<lparr>rlpx_out := rlpx_out c @ write_msgs (msgHeader ty (len64 payload))\<rparr>)"
    if "all_ok c" for c
    using Write_ok [OF that, of "msgHeader ty (len64 payload)"] by simp
  show ?thesis
    unfolding sendMsg_def
    using assms by (simp add: wps h Write_ok wire_msg_def)
qed

lemma wp_recvMsgHeader:
  assumes "rlpx_in (conn n) = write_msgs (msgHeader ty sz) @ rest" and "ty < msgTypeMax"
    and "Q (Ok (ty, sz)) (n\<lparr>conn := (conn n)\<lparr>rlpx_in := rest\<rparr>\<rparr>)"
  shows "wp recvMsgHeader Q n"
proof -
  have rd: "Read (conn n) = (Ok (12, msgHeader ty sz), (conn n)\<lparr>rlpx_in := rest\<rparr>)"
    using rlpx_stream.get_put [of "msgHeader ty sz" rest] assms(1) by (simp add: Read_def)
  have nt: "\<not> msgTypeMax \<le> ty" using assms(2) by simp
  have s: "slice (msgHeader ty sz) 0 2 = Ok (EncodeUint16 msgRev)"
    "slice (msgHeader ty sz) 2 4 = Ok (EncodeUint16 ty)"
    "slice (msgHeader ty sz) 4 12 = Ok (EncodeUint64 sz)"
    by (simp_all add: slice_def) (simp_all add: msgHeader_def)
  show ?thesis
    unfolding recvMsgHeader_def
    using assms(3) nt by (simp add: wps rd s)
qed

lemma wp_recvMsgPayload:
  assumes "rlpx_in (conn n) = write_msgs payload @ rest" and "length payload < 2 ^ 64"
    and "Q (Ok payload) (n\<lparr>conn := (conn n)\<lparr>rlpx_in := rest\<rparr>\<rparr>)"
  shows "wp (recvMsgPayload (len64 payload)) Q n"
  unfolding recvMsgPayload_def
  using assms rlpx_stream.get_put [OF assms(2), of rest]
  by (simp add: wps Read_def)

lemma wp_recvMsgWithCheck:
  assumes "rlpx_in (conn n) = wire_msg ty payload @ rest" and "ty < msgTypeMax"
    and "length payload < 2 ^ 64" and "len \<le> len64 payload"
    and "Q (Ok payload) (n\<lparr>conn := (conn n)\<lparr>rlpx_in := rest\<rparr>\<rparr>)"
  shows "wp (recvMsgWithCheck ty len) Q n"
  unfolding recvMsgWithCheck_def wps using assms
  by (intro wp_recvMsgHeader [where ty = ty and sz = "len64 payload"])
    (auto simp: wire_msg_def wps not_less intro: wp_recvMsgPayload)

section \<open>Frame conditions\<close>

lemma keeps_on_conn [frame]: "(\<And>n c. f (n\<lparr>conn := c\<rparr>) = f n) \<Longrightarrow> keeps f (on_conn g)"
  by (auto simp: keeps_def on_conn_def split: prod.splits)

lemma keeps_msg_ops:
  assumes "\<And>n c. f (n\<lparr>conn := c\<rparr>) = f n"
  shows "keeps f (sendMsg ty payload sz)" "keeps f recvMsgHeader"
    "keeps f (recvMsgPayload len)" "keeps f (recvMsgWithCheck ty len)"
  unfolding sendMsg_def recvMsgHeader_def recvMsgPayload_def recvMsgWithCheck_def
  by (intro frame assms)+

lemmas msg_ops_frame [frame] = keeps_msg_ops

end
