(* ===== verification/Session.thy ===== *)
theory Session
  imports Node
begin

text \<open>
  Session establishment of \<^verbatim>\<open>net/session.go\<close>: the encoding of session requests and
  acknowledgements, and the four operations by which a buyer and a seller agree on a session.
\<close>

section \<open>Session requests\<close>

record SessionRequest =
  ID :: u64
  Mode :: u8
  SigmaMklRoot :: bytes
  ExtraInfo :: bytes

definition sessionRequestSize :: u64 where "sessionRequestSize = 41"
definition sessionAckSize :: u64 where "sessionAckSize = sessionRequestSize"

definition encodeSessionRequest :: "SessionRequest \<Rightarrow> bytes" where
  "encodeSessionRequest req =
     EncodeUint64 (ID req) @ EncodeUint8 (Mode req) @ SigmaMklRoot req @ ExtraInfo req"

definition decodeSessionRequest :: "bytes \<Rightarrow> SessionRequest res" where
  "decodeSessionRequest bs =
     (if length bs < unat sessionRequestSize then Err ''invalid session request size''
      else case res_bind (slice bs 0 8) DecodeUint64 of
             Err _ \<Rightarrow> Err ''failed to decode session ID''
           | Panic \<Rightarrow> Panic
           | Ok i \<Rightarrow>
               (case res_bind (slice bs 8 9) DecodeUint8 of
                  Err _ \<Rightarrow> Err ''failed to decode session mode''
                | Panic \<Rightarrow> Panic
                | Ok m \<Rightarrow>
                    res_bind (slice bs 9 41) (\<lambda>root.
                    res_bind (slice bs 41 (length bs)) (\<lambda>extra.
                    Ok \<lparr>ID = i, Mode = m, SigmaMklRoot = root, ExtraInfo = extra\<rparr>))))"

section \<open>Operations\<close>

definition SendNewSessionRequest :: "u8 \<Rightarrow> bytes \<Rightarrow> bytes \<Rightarrow> (node, unit res) state" where
  "SendNewSessionRequest mode sigmaMklRoot extraInfo = do {
     n \<leftarrow> State_Monad.get;
     if nstate n \<noteq> stateConnected then ret (Err (invalidStateError n stateConnected))
     else if mode \<ge> modeMax then ret (Err ''invalid session request mode'')
     else if length sigmaMklRoot \<noteq> 32 then ret (Err ''invalid session sigma merkle root size'')
     else
       let reqBytes = encodeSessionRequest
             \<lparr>ID = 0, Mode = mode, SigmaMklRoot = sigmaMklRoot, ExtraInfo = extraInfo\<rparr> in
       check (sendMsg msgSessionRequest reqBytes (len64 reqBytes))
         (\<lambda>_. ret (Err ''failed to send session request''))
         (\<lambda>_. do { State_Monad.update (\<lambda>n. n\<lparr>nstate := stateSessionAckWait\<rparr>); ret (Ok ()) }) }"

definition RecvSessionRequest :: "(node, SessionRequest res) state" where
  "RecvSessionRequest = do {
     n \<leftarrow> State_Monad.get;
     if nstate n \<noteq> stateConnected then ret (Err (invalidStateError n stateConnected)) else
     check (recvMsgWithCheck msgSessionRequest sessionRequestSize)
       (\<lambda>_. ret (Err ''failed to receive session request'')) (\<lambda>payload.
     check (ret (decodeSessionRequest payload)) (\<lambda>e. ret (Err e)) (\<lambda>req.
     if ID req = 0 \<and> Mode req \<ge> modeMax then ret (Err ''invalid mode in session request'')
     else do { State_Monad.update (\<lambda>n. n\<lparr>nstate := stateSessionReqRecvd\<rparr>); ret (Ok req) })) }"

definition set_session :: "SessionRequest \<Rightarrow> node \<Rightarrow> node" where
  "set_session ack n = n\<lparr>sess := \<lparr>sess_id = ID ack, sess_mode = Mode ack\<rparr>,
     nstate := stateSessionEstablished\<rparr>"

definition SendSessionAck ::
  "u64 \<Rightarrow> u8 \<Rightarrow> bytes \<Rightarrow> bytes \<Rightarrow> bool \<Rightarrow> (node, unit res) state" where
  "SendSessionAck i mode mklroot extra needFurtherAck = do {
     n \<leftarrow> State_Monad.get;
     if needFurtherAck \<and> nstate n \<noteq> stateSessionReqRecvd
     then ret (Err (invalidStateError n stateSessionReqRecvd))
     else if \<not> needFurtherAck \<and> nstate n \<noteq> stateSessionAckRecvd
     then ret (Err (invalidStateError n stateSessionAckRecvd))
     else
       let ack = \<lparr>ID = i, Mode = mode, SigmaMklRoot = mklroot, ExtraInfo = extra\<rparr>;
           ackBytes = encodeSessionRequest ack in
       check (sendMsg msgSessionAck ackBytes (len64 ackBytes))
         (\<lambda>_. ret (Err ''failed to send session ack''))
         (\<lambda>_. do {
            State_Monad.update (\<lambda>n.
              if needFurtherAck then n\<lparr>nstate := stateSessionAckWait\<rparr> else set_session ack n);
            ret (Ok ()) }) }"

definition RecvSessionAck :: "bool \<Rightarrow> (node, SessionRequest res) state" where
  "RecvSessionAck needFurtherAck = do {
     n \<leftarrow> State_Monad.get;
     if nstate n \<noteq> stateSessionAckWait then ret (Err (invalidStateError n stateSessionAckWait)) else
     check (recvMsgWithCheck msgSessionAck sessionAckSize)
       (\<lambda>_. ret (Err ''failed to receive session ack'')) (\<lambda>payload.
     check (ret (decodeSessionRequest payload)) (\<lambda>e. ret (Err e)) (\<lambda>ack.
     if ID ack = 0 then ret (Err ''zero session ID in session ack'')
     else do {
       State_Monad.update (\<lambda>n.
         if needFurtherAck then n\<lparr>nstate := stateSessionAckRecvd\<rparr> else set_session ack n);
       ret (Ok ack) })) }"

section \<open>The request codec\<close>

definition valid_request :: "SessionRequest \<Rightarrow> bool" where
  "valid_request req \<longleftrightarrow> length (SigmaMklRoot req) = 32 \<and> length (ExtraInfo req) < 2 ^ 63"

lemma length_encodeSessionRequest:
  "length (encodeSessionRequest req) = 9 + length (SigmaMklRoot req) + length (ExtraInfo req)"
  by (simp add: encodeSessionRequest_def)

lemma decode_encode_request:
  assumes "length (SigmaMklRoot req) = 32"
  shows "decodeSessionRequest (encodeSessionRequest req) = Ok req"
proof -
  let ?e = "encodeSessionRequest req"
  have s: "slice ?e 0 8 = Ok (EncodeUint64 (ID req))" "slice ?e 8 9 = Ok (EncodeUint8 (Mode req))"
    "slice ?e 9 41 = Ok (SigmaMklRoot req)" "slice ?e 41 (length ?e) = Ok (ExtraInfo req)"
    using assms by (simp_all add: slice_def length_encodeSessionRequest)
      (simp_all add: encodeSessionRequest_def)
  have "drop 41 ?e = ExtraInfo req"
    using assms by (simp add: encodeSessionRequest_def)
  then show ?thesis
    using assms by (simp add: decodeSessionRequest_def s length_encodeSessionRequest
        sessionRequestSize_def)
qed

lemma decodeSessionRequest_Ok:
  assumes "decodeSessionRequest bs = Ok req"
  shows "encodeSessionRequest req = bs" and "length (SigmaMklRoot req) = 32"
proof -
  from assms have l: "41 \<le> length bs"
    by (simp add: decodeSessionRequest_def sessionRequestSize_def split: if_splits)
  with assms obtain i m where d: "DecodeUint64 (take 8 bs) = Ok i"
    "DecodeUint8 (take 1 (drop 8 bs)) = Ok m"
    and req: "req = \<lparr>ID = i, Mode = m, SigmaMklRoot = take 32 (drop 9 bs), ExtraInfo = drop 41 bs\<rparr>"
    by (auto simp: decodeSessionRequest_def split: if_splits res.splits)
  from d have e: "EncodeUint64 i = take 8 bs" "EncodeUint8 m = take 1 (drop 8 bs)"
    by (auto dest: u64c.enc_dec u8c.enc_dec)
  have "take 1 (drop 8 bs) @ drop 9 bs = drop 8 bs" "take 32 (drop 9 bs) @ drop 41 bs = drop 9 bs"
    using append_take_drop_id [of 1 "drop 8 bs"] append_take_drop_id [of 32 "drop 9 bs"] by simp_all
  then have "take 8 bs @ take 1 (drop 8 bs) @ take 32 (drop 9 bs) @ drop 41 bs = bs"
    by simp
  then show "encodeSessionRequest req = bs"
    by (simp add: encodeSessionRequest_def req e)
  show "length (SigmaMklRoot req) = 32" using l by (simp add: req)
qed

lemma decodeSessionRequest_total:
  "41 \<le> length bs \<Longrightarrow> \<exists>req. decodeSessionRequest bs = Ok req"
  using u64c.dec_total [of "take 8 bs"] u8c.dec_total [of "take 1 (drop 8 bs)"]
  by (auto simp: decodeSessionRequest_def sessionRequestSize_def is_ok_ex)

lemma decodeSessionRequest_short:
  "length bs < 41 \<Longrightarrow> decodeSessionRequest bs = Err ''invalid session request size''"
  by (simp add: decodeSessionRequest_def sessionRequestSize_def)

text \<open>
  Session requests round-trip in both directions: a request whose Merkle root has 32 bytes
  decodes from its encoding, every slice of at least 41 bytes decodes, to a request that
  encodes to that slice, and shorter slices are refused without a panic.
\<close>

theorem session_request_roundtrip:
  "(length (SigmaMklRoot req) = 32 \<longrightarrow>
      decodeSessionRequest (encodeSessionRequest req) = Ok req) \<and>
   (if 41 \<le> length bs
    then \<exists>r. decodeSessionRequest bs = Ok r \<and> encodeSessionRequest r = bs \<and>
           length (SigmaMklRoot r) = 32
    else decodeSessionRequest bs = Err ''invalid session request size'')"
proof (cases "41 \<le> length bs")
  case True
  then obtain r where "decodeSessionRequest bs = Ok r"
    using decodeSessionRequest_total by blast
  with True decodeSessionRequest_Ok [OF this] show ?thesis
    by (simp add: decode_encode_request)
next
  case False
  then show ?thesis
    by (simp add: decode_encode_request decodeSessionRequest_short)
qed

theorem session_request_roundtrip_witness:
  "decodeSessionRequest (encodeSessionRequest
     \<lparr>ID = 7, Mode = 1, SigmaMklRoot = replicate 32 9, ExtraInfo = [1, 2]\<rparr>) =
     Ok \<lparr>ID = 7, Mode = 1, SigmaMklRoot = replicate 32 9, ExtraInfo = [1, 2]\<rparr> \<and>
   decodeSessionRequest [1, 2, 3] = Err ''invalid session request size''"
  using session_request_roundtrip [of "\<lparr>ID = 7, Mode = 1, SigmaMklRoot = replicate 32 9, ExtraInfo = [1, 2]\<rparr>"
      "[1, 2, 3]"]
  by simp

section \<open>Operations on an undisturbed connection\<close>

text \<open>The node after it has sent or received one message.\<close>

definition sent :: "u16 \<Rightarrow> bytes \<Rightarrow> node \<Rightarrow> node" where
  "sent ty payload n =
     n\<lparr>conn := (conn n)\<lparr>rlpx_out := rlpx_out (conn n) @ wire_msg ty payload\<rparr>\<rparr>"

definition received :: "rmsg list \<Rightarrow> node \<Rightarrow> node" where
  "received rest n = n\<lparr>conn := (conn n)\<lparr>rlpx_in := rest\<rparr>\<rparr>"

lemmas wire_defs = sent_def received_def

lemma length_request_64: "valid_request req \<Longrightarrow> length (encodeSessionRequest req) < 2 ^ 64"
  by (simp add: valid_request_def length_encodeSessionRequest)

lemma size_request: "valid_request req \<Longrightarrow> 41 \<le> len64 (encodeSessionRequest req)"
  using unat_len64 [OF length_request_64]
  by (simp add: word_le_nat_alt valid_request_def length_encodeSessionRequest)

lemma wp_SendNewSessionRequest:
  assumes "nstate n = stateConnected" and "mode < modeMax" and "all_ok (conn n)"
    and v: "valid_request \<lparr>ID = 0, Mode = mode, SigmaMklRoot = root, ExtraInfo = extra\<rparr>"
    and "Q (Ok ()) ((sent msgSessionRequest (encodeSessionRequest
        \<lparr>ID = 0, Mode = mode, SigmaMklRoot = root, ExtraInfo = extra\<rparr>) n)
        \<lparr>nstate := stateSessionAckWait\<rparr>)"
  shows "wp (SendNewSessionRequest mode root extra) Q n"
proof -
  from assms have "\<not> modeMax \<le> mode" "length root = 32"
    by (auto simp: valid_request_def)
  then show ?thesis
    unfolding SendNewSessionRequest_def using assms length_request_64 [OF v]
    by (auto simp: wps Let_def sent_def intro!: wp_sendMsg)
qed

lemma wp_RecvSessionRequest:
  assumes "nstate n = stateConnected" and v: "valid_request req" and "Mode req < modeMax"
    and "rlpx_in (conn n) = wire_msg msgSessionRequest (encodeSessionRequest req) @ rest"
    and "Q (Ok req) ((received rest n)\<lparr>nstate := stateSessionReqRecvd\<rparr>)"
  shows "wp RecvSessionRequest Q n"
proof -
  from assms(3) have m: "\<not> modeMax \<le> Mode req" by simp
  from v have r: "length (SigmaMklRoot req) = 32" by (simp add: valid_request_def)
  show ?thesis
    unfolding RecvSessionRequest_def using assms m
    by (auto simp: wps decode_encode_request [OF r] received_def sessionRequestSize_def msg_consts
        intro!: wp_recvMsgWithCheck [where rest = rest] length_request_64 size_request)
qed

lemma wp_SendSessionAck:
  assumes "nstate n = (if further then stateSessionReqRecvd else stateSessionAckRecvd)"
    and "all_ok (conn n)"
    and v: "valid_request ack" and ack: "ack = \<lparr>ID = i, Mode = m, SigmaMklRoot = root, ExtraInfo = extra\<rparr>"
    and "Q (Ok ()) ((if further then (\<lambda>n. n\<lparr>nstate := stateSessionAckWait\<rparr>) else set_session ack)
        (sent msgSessionAck (encodeSessionRequest ack) n))"
  shows "wp (SendSessionAck i m root extra further) Q n"
  unfolding SendSessionAck_def using assms length_request_64 [OF v]
  by (auto simp: wps Let_def sent_def intro!: wp_sendMsg)

lemma wp_RecvSessionAck:
  assumes "nstate n = stateSessionAckWait" and v: "valid_request ack" and "ID ack \<noteq> 0"
    and "rlpx_in (conn n) = wire_msg msgSessionAck (encodeSessionRequest ack) @ rest"
    and "Q (Ok ack) ((if further then (\<lambda>n. n\<lparr>nstate := stateSessionAckRecvd\<rparr>) else set_session ack)
        (received rest n))"
  shows "wp (RecvSessionAck further) Q n"
proof -
  from v have r: "length (SigmaMklRoot ack) = 32" by (simp add: valid_request_def)
  show ?thesis
    unfolding RecvSessionAck_def using assms
    by (auto simp: wps decode_encode_request [OF r] received_def sessionAckSize_def
        sessionRequestSize_def msg_consts
        intro!: wp_recvMsgWithCheck [where rest = rest] length_request_64 size_request)
qed

end
