(* ===== verification/Tx.thy ===== *)
theory Tx
  imports Session
begin

text \<open>
  The transaction operations of \<^verbatim>\<open>net/tx.go\<close>: request, response and signed receipt, and the
  negotiation round of the oblivious-transfer modes. An \<open>io.Reader\<close> argument is the byte list
  it delivers, an \<open>io.Writer\<close> destination is part of the result.
\<close>

section \<open>Sending and receiving in a protocol state\<close>

definition sendTxMsg ::
  "u16 \<Rightarrow> bytes \<Rightarrow> u64 \<Rightarrow> nodeState \<Rightarrow> nodeState \<Rightarrow> (node, unit res) state" where
  "sendTxMsg ty payload sz preState postState = do {
     n \<leftarrow> State_Monad.get;
     if nstate n \<noteq> preState then ret (Err (invalidStateError n preState)) else
     check (sendMsg ty payload sz) (\<lambda>_. ret (Err ''failed to send tx msg''))
       (\<lambda>_. do { State_Monad.update (\<lambda>n. n\<lparr>nstate := postState\<rparr>); ret (Ok ()) }) }"

definition recvTxMsg ::
  "u16 \<Rightarrow> nodeState \<Rightarrow> nodeState \<Rightarrow> (node, (u64 \<times> bytes) res) state" where
  "recvTxMsg ty preState postState = do {
     n \<leftarrow> State_Monad.get;
     if nstate n \<noteq> preState then ret (Err (invalidStateError n preState)) else
     check recvMsgHeader (\<lambda>_. ret (Err ''failed to receive header'')) (\<lambda>(msgTyp, len).
     if msgTyp \<noteq> ty then ret (Err ''mismatch msg type'') else
     check (recvMsgPayload len) (\<lambda>_. ret (Err ''failed to receive payload'')) (\<lambda>dst.
     do { State_Monad.update (\<lambda>n. n\<lparr>nstate := postState\<rparr>); ret (Ok (len, dst)) })) }"

section \<open>Request and response\<close>

definition txPreState :: "node \<Rightarrow> nodeState" where
  "txPreState n = (if isOTMode n then stateNegotiated else stateSessionEstablished)"

definition SendTxRequest :: "bytes \<Rightarrow> u64 \<Rightarrow> (node, unit res) state" where
  "SendTxRequest req sz = do {
     n \<leftarrow> State_Monad.get;
     sendTxMsg msgTxRequest req sz (txPreState n) stateTxResponseWait }"

definition RecvTxRequest :: "(node, (u64 \<times> bytes) res) state" where
  "RecvTxRequest = do {
     n \<leftarrow> State_Monad.get;
     recvTxMsg msgTxRequest (txPreState n) stateTxRequestRecvd }"

definition SendTxResponse :: "bytes \<Rightarrow> u64 \<Rightarrow> (node, unit res) state" where
  "SendTxResponse response sz =
     sendTxMsg msgTxResponse response sz stateTxRequestRecvd stateTxReceiptWait"

definition RecvTxResponse :: "(node, (u64 \<times> bytes) res) state" where
  "RecvTxResponse = recvTxMsg msgTxResponse stateTxResponseWait stateTxResponseRecvd"

section \<open>Signed receipts\<close>

definition txReceiptSigSize :: nat where "txReceiptSigSize = 65"

definition SendTxReceipt :: "crypto \<Rightarrow> bytes \<Rightarrow> u64 \<Rightarrow> (node, unit res) state" where
  "SendTxReceipt C receipt sz =
     check (ret (copyN receipt sz)) (\<lambda>_. ret (Err ''failed to extract receipt''))
       (\<lambda>(receiptBytes, _). do {
     n \<leftarrow> State_Monad.get;
     check (ret (Sign C (Keccak256Hash C receiptBytes) (lkey n)))
       (\<lambda>_. ret (Err ''failed to sign receipt'')) (\<lambda>signature.
     sendTxMsg msgTxReceipt (signature @ receiptBytes)
       (word_of_nat (txReceiptSigSize + length receiptBytes))
       stateTxResponseRecvd stateTxSecretWait) })"

definition RecvTxReceipt :: "crypto \<Rightarrow> (node, (bytes \<times> bytes) res) state" where
  "RecvTxReceipt C =
     check (recvTxMsg msgTxReceipt stateTxReceiptWait stateTxReceiptRecvd)
       (\<lambda>e. ret (Err e)) (\<lambda>(_, payload).
     if length payload \<le> txReceiptSigSize then ret (Err ''signed receipt too short'') else
     let signature = take txReceiptSigSize payload; receipt = drop txReceiptSigSize payload in
     check (ret (Ecrecover C (Keccak256Hash C receipt) signature))
       (\<lambda>_. ret (Err ''Ecrecover failed'')) (\<lambda>sigPubkey. do {
     n \<leftarrow> State_Monad.get;
     if sigPubkey \<noteq> FromECDSAPub C (rkey n) then ret (Err ''mismatch public keys'')
     else ret (Ok (receipt, signature)) }))"

section \<open>Negotiation of the oblivious-transfer modes\<close>

definition notOTMode :: string where "notOTMode = ''node not in any OT mode''"

definition SendNegoRequest :: "bytes \<Rightarrow> u64 \<Rightarrow> (node, unit res) state" where
  "SendNegoRequest request sz = do {
     n \<leftarrow> State_Monad.get;
     if \<not> isOTMode n then ret (Err notOTMode) else
     sendTxMsg msgNegoRequest request sz stateSessionEstablished stateNegoAckReqWait }"

definition RecvNegoRequest :: "(node, (u64 \<times> bytes) res) state" where
  "RecvNegoRequest = do {
     n \<leftarrow> State_Monad.get;
     if \<not> isOTMode n then ret (Err notOTMode) else
     recvTxMsg msgNegoRequest stateSessionEstablished stateNegoRequestRecvd }"

definition SendNegoAckReq :: "bytes \<Rightarrow> bytes \<Rightarrow> u64 \<Rightarrow> u64 \<Rightarrow> (node, unit res) state" where
  "SendNegoAckReq resp req respSize reqSize = do {
     n \<leftarrow> State_Monad.get;
     if \<not> isOTMode n then ret (Err notOTMode) else
     check (ret (copyN resp respSize)) (\<lambda>e. ret (Err e)) (\<lambda>(respBytes, _).
     check (ret (copyN req reqSize)) (\<lambda>e. ret (Err e)) (\<lambda>(reqBytes, _).
     sendTxMsg msgNegoAckReq (EncodeUint64 respSize @ respBytes @ reqBytes)
       (8 + respSize + reqSize) stateNegoRequestRecvd stateNegoAckWait)) }"

text \<open>The result: the response and request written out, and the two sizes returned.\<close>

definition RecvNegoAckReq :: "(node, (bytes \<times> bytes \<times> u64 \<times> u64) res) state" where
  "RecvNegoAckReq = do {
     n \<leftarrow> State_Monad.get;
     if \<not> isOTMode n then ret (Err notOTMode) else
     check (recvTxMsg msgNegoAckReq stateNegoAckReqWait stateNegoAckReqRecvd)
       (\<lambda>e. ret (Err e)) (\<lambda>(bufSize, payload).
     if bufSize \<le> 8 then ret (Err ''received nego ack+req too short'') else
     let payloadLength = len64 payload in
     check (ret (res_bind (slice payload 0 8) DecodeUint64))
       (\<lambda>_. ret (Err ''failed to decode response length'')) (\<lambda>respLength.
     if respLength = 0 then ret (Err ''empty response in nego ack+req'')
     else if payloadLength < respLength + 8 then ret (Err ''received nego ack+req too short'')
     else
       let endRespIdx = 8 + respLength in
       check (ret (slice payload 8 (unat endRespIdx))) (\<lambda>e. ret (Err e)) (\<lambda>resp.
       check (ret (slice payload (unat endRespIdx) (length payload))) (\<lambda>e. ret (Err e)) (\<lambda>req.
       ret (Ok (resp, req, respLength, payloadLength - respLength - 8)))))) }"

definition SendNegoAck :: "bytes \<Rightarrow> u64 \<Rightarrow> (node, unit res) state" where
  "SendNegoAck resp sz = do {
     n \<leftarrow> State_Monad.get;
     if \<not> isOTMode n then ret (Err notOTMode) else
     sendTxMsg msgNegoAck resp sz stateNegoAckReqRecvd stateNegotiated }"

definition RecvNegoAck :: "(node, (u64 \<times> bytes) res) state" where
  "RecvNegoAck = do {
     n \<leftarrow> State_Monad.get;
     if \<not> isOTMode n then ret (Err notOTMode) else
     recvTxMsg msgNegoAck stateNegoAckWait stateNegotiated }"

section \<open>Operations on an undisturbed connection\<close>

lemma wp_sendTxMsg:
  assumes "nstate n = pre" and "all_ok (conn n)" and "length payload < 2 ^ 64"
    and "Q (Ok ()) ((sent ty payload n)\<lparr>nstate := post\<rparr>)"
  shows "wp (sendTxMsg ty payload (len64 payload) pre post) Q n"
  unfolding sendTxMsg_def using assms
  by (auto simp: wps sent_def intro!: wp_sendMsg)

lemma wp_recvTxMsg:
  assumes "nstate n = pre" and "rlpx_in (conn n) = wire_msg ty payload @ rest"
    and "ty < msgTypeMax" and "length payload < 2 ^ 64"
    and "Q (Ok (len64 payload, payload)) ((received rest n)\<lparr>nstate := post\<rparr>)"
  shows "wp (recvTxMsg ty pre post) Q n"
  unfolding recvTxMsg_def using assms
  by (auto simp: wps received_def wire_msg_def intro!: wp_recvMsgHeader wp_recvMsgPayload)

lemma wp_SendTxRequest:
  assumes "nstate n = txPreState n" and "all_ok (conn n)" and "length req < 2 ^ 64"
    and "Q (Ok ()) ((sent msgTxRequest req n)\<lparr>nstate := stateTxResponseWait\<rparr>)"
  shows "wp (SendTxRequest req (len64 req)) Q n"
  unfolding SendTxRequest_def using assms by (auto simp: wps intro!: wp_sendTxMsg)

lemma wp_RecvTxRequest:
  assumes "nstate n = txPreState n" and "rlpx_in (conn n) = wire_msg msgTxRequest req @ rest"
    and "length req < 2 ^ 64"
    and "Q (Ok (len64 req, req)) ((received rest n)\<lparr>nstate := stateTxRequestRecvd\<rparr>)"
  shows "wp RecvTxRequest Q n"
  unfolding RecvTxRequest_def using assms
  by (auto simp: wps msg_consts intro!: wp_recvTxMsg)

lemma wp_SendTxReceipt:
  assumes "nstate n = stateTxResponseRecvd" and "all_ok (conn n)" and len: "length receipt < 2 ^ 63"
    and laws: "ecdsa_laws C" and sig: "Sign C (Keccak256Hash C receipt) (lkey n) = Ok signature"
    and "Q (Ok ()) ((sent msgTxReceipt (signature @ receipt) n)\<lparr>nstate := stateTxSecretWait\<rparr>)"
  shows "wp (SendTxReceipt C receipt (len64 receipt)) Q n"
proof -
  have c: "copyN receipt (len64 receipt) = Ok (receipt, [])"
    using copyN_exact [OF len, of receipt] by (simp add: len64_def)
  from laws sig have "length signature = 65" by (auto simp: ecdsa_laws_def)
  then have "(word_of_nat (txReceiptSigSize + length receipt) :: u64) = len64 (signature @ receipt)"
    "length (signature @ receipt) < 2 ^ 64"
    using len by (simp_all add: len64_def txReceiptSigSize_def)
  then show ?thesis
    unfolding SendTxReceipt_def using assms
    by (auto simp: wps c intro!: wp_sendTxMsg simp del: of_nat_add)
qed

lemma wp_RecvTxReceipt:
  assumes "nstate n = stateTxReceiptWait"
    and "rlpx_in (conn n) = wire_msg msgTxReceipt (signature @ receipt) @ rest"
    and len: "length receipt < 2 ^ 63" and ne: "receipt \<noteq> []"
    and laws: "ecdsa_laws C" and sig: "Sign C (Keccak256Hash C receipt) k = Ok signature"
    and rk: "rkey n = PublicKey C k"
    and "Q (Ok (receipt, signature)) ((received rest n)\<lparr>nstate := stateTxReceiptRecvd\<rparr>)"
  shows "wp (RecvTxReceipt C) Q n"
proof -
  from laws sig have s: "length signature = 65"
    "Ecrecover C (Keccak256Hash C receipt) signature = Ok (FromECDSAPub C (PublicKey C k))"
    by (auto simp: ecdsa_laws_def)
  have "length (signature @ receipt) < 2 ^ 64" using s(1) len by simp
  then show ?thesis
    unfolding RecvTxReceipt_def using assms s
    by (auto simp: wps Let_def txReceiptSigSize_def received_def msg_consts
        intro!: wp_recvTxMsg [where rest = rest])
qed

lemma wp_SendNegoAckReq:
  assumes "nstate n = stateNegoRequestRecvd" and "isOTMode n" and "all_ok (conn n)"
    and len: "length resp < 2 ^ 62" "length req < 2 ^ 62"
    and "Q (Ok ()) ((sent msgNegoAckReq (EncodeUint64 (len64 resp) @ resp @ req) n)
        \<lparr>nstate := stateNegoAckWait\<rparr>)"
  shows "wp (SendNegoAckReq resp req (len64 resp) (len64 req)) Q n"
proof -
  have c: "copyN resp (len64 resp) = Ok (resp, [])" "copyN req (len64 req) = Ok (req, [])"
    using copyN_exact [of "length resp" resp] copyN_exact [of "length req" req] len
    by (simp_all add: len64_def)
  have "8 + len64 resp + len64 req = len64 (EncodeUint64 (len64 resp) @ resp @ req)"
    "length (EncodeUint64 (len64 resp) @ resp @ req) < 2 ^ 64"
    using len by (simp_all add: len64_def)
  then show ?thesis
    unfolding SendNegoAckReq_def using assms
    by (auto simp: wps c intro!: wp_sendTxMsg)
qed

lemma wp_RecvNegoAckReq:
  assumes "nstate n = stateNegoAckReqWait" and "isOTMode n"
    and "rlpx_in (conn n) =
      wire_msg msgNegoAckReq (EncodeUint64 (len64 resp) @ resp @ req) @ rest"
    and len: "length resp < 2 ^ 62" "length req < 2 ^ 62" and ne: "resp \<noteq> []"
    and "Q (Ok (resp, req, len64 resp, len64 req)) ((received rest n)\<lparr>nstate := stateNegoAckReqRecvd\<rparr>)"
  shows "wp RecvNegoAckReq Q n"
proof -
  let ?p = "EncodeUint64 (len64 resp) @ resp @ req"
  have u: "unat (len64 resp) = length resp" "unat (len64 ?p) = 8 + length resp + length req"
    using len by (simp_all add: unat_len64)
  have e: "8 + len64 resp = word_of_nat (8 + length resp)"
    "len64 ?p - len64 resp - 8 = len64 req"
    by (simp_all add: len64_def)
  have ue: "unat (8 + len64 resp) = 8 + length resp"
    unfolding e(1) using len by (intro unat_of_nat_small) simp
  have "unat (8 :: u64) = 8" by simp
  moreover have "0 < length resp" using ne by simp
  ultimately have g: "\<not> len64 ?p \<le> 8" "len64 resp \<noteq> 0" "\<not> len64 ?p < len64 resp + 8"
    using u ue by (simp_all only: word_le_nat_alt word_less_nat_alt add.commute) auto
  have s: "slice ?p 0 8 = Ok (EncodeUint64 (len64 resp))" "slice ?p 8 (8 + length resp) = Ok resp"
    "slice ?p (8 + length resp) (length ?p) = Ok req"
    by (simp_all add: slice_def)
  have "length ?p < 2 ^ 64" using len by simp
  then show ?thesis
    unfolding RecvNegoAckReq_def using assms(1-3,7) g
    by (auto simp: wps Let_def s ue e(2) received_def msg_consts
        intro!: wp_recvTxMsg [where rest = rest])
qed

lemma wrap_index:
  fixes w :: u64
  assumes "- 8 \<le> w"
  shows "unat (w + 8) < 8"
  using assms by unat_arith auto

text \<open>
  C39. A seller can crash a buyer: in \<open>RecvNegoAckReq\<close> the announced length of the response is
  added to 8 without an overflow check, so a message that announces \<open>2^64 - 8\<close> bytes or more
  passes the length test and panics when the payload is sliced, after the node has already
  moved to \<open>NegoAckReqRecvd\<close>.
\<close>

theorem RecvNegoAckReq_wrap_panics:
  assumes "nstate n = stateNegoAckReqWait" and "isOTMode n" and "- 8 \<le> w"
    and "rlpx_in (conn n) = wire_msg msgNegoAckReq (EncodeUint64 w @ tail) @ rest"
    and "tail \<noteq> []" and len: "length tail < 2 ^ 63"
  shows "fst (run_state RecvNegoAckReq n) = Panic \<and>
    nstate (snd (run_state RecvNegoAckReq n)) = stateNegoAckReqRecvd"
proof -
  let ?p = "EncodeUint64 w @ tail"
  have l: "length ?p < 2 ^ 64" using len by simp
  have i: "unat (w + 8) < 8" using assms(3) by (rule wrap_index)
  have "unat (len64 ?p) = 8 + length tail" using l by (simp add: unat_len64)
  moreover have "0 < length tail" using assms(5) by simp
  moreover have "unat (8 :: u64) = 8" by simp
  ultimately have g: "\<not> len64 ?p \<le> 8" "\<not> len64 ?p < w + 8"
    using i by (simp_all only: word_le_nat_alt word_less_nat_alt)
  have "w \<noteq> 0" using assms(3) by auto
  with g have "wp RecvNegoAckReq (\<lambda>r n'. r = Panic \<and> nstate n' = stateNegoAckReqRecvd) n"
    unfolding RecvNegoAckReq_def using assms(1,2,4) l i
    by (auto simp: wps Let_def slice_def received_def add.commute
        intro!: wp_recvTxMsg [where rest = rest and payload = ?p])
  then show ?thesis by (simp add: wp_def split: prod.splits)
qed

theorem RecvNegoAckReq_wrap_panics_witness:
  "fst (run_state RecvNegoAckReq (sample_node\<lparr>nstate := stateNegoAckReqWait,
      sess := \<lparr>sess_id = 1, sess_mode = 1\<rparr>,
      conn := sample_conn\<lparr>rlpx_in := wire_msg msgNegoAckReq (EncodeUint64 (- 1) @ [5])\<rparr>\<rparr>)) = Panic"
  by (rule RecvNegoAckReq_wrap_panics [where w = "- 1" and tail = "[5]" and rest = "[]", THEN conjunct1])
    (simp_all add: isOTMode_def mode_consts)

end
