(* ===== verification/Protocol.thy ===== *)
theory Protocol
  imports Tx
begin

text \<open>
  The protocol diagrams at the head of \<^verbatim>\<open>net/session.go\<close> and \<^verbatim>\<open>net/tx.go\<close>, as an abstract
  specification of the node operations, and the two parties run against each other.
\<close>

section \<open>The operations as one step function\<close>

datatype op =
    OpSendNewSessionRequest u8 bytes bytes
  | OpRecvSessionRequest
  | OpSendSessionAck u64 u8 bytes bytes bool
  | OpRecvSessionAck bool
  | OpSendNegoRequest bytes u64
  | OpRecvNegoRequest
  | OpSendNegoAckReq bytes bytes u64 u64
  | OpRecvNegoAckReq
  | OpSendNegoAck bytes u64
  | OpRecvNegoAck
  | OpSendTxRequest bytes u64
  | OpRecvTxRequest
  | OpSendTxResponse bytes u64
  | OpRecvTxResponse
  | OpSendTxReceipt bytes u64
  | OpRecvTxReceipt
  | OpClose

text \<open>Run an operation and drop its value: only whether it succeeded is kept.\<close>

definition outcome :: "('s, 'a res) state \<Rightarrow> ('s, unit res) state" where
  "outcome m = check m (\<lambda>e. ret (Err e)) (\<lambda>_. ret (Ok ()))"

primrec exec :: "crypto \<Rightarrow> op \<Rightarrow> (node, unit res) state" where
  "exec C (OpSendNewSessionRequest m root extra) = SendNewSessionRequest m root extra"
| "exec C OpRecvSessionRequest = outcome RecvSessionRequest"
| "exec C (OpSendSessionAck i m root extra further) = SendSessionAck i m root extra further"
| "exec C (OpRecvSessionAck further) = outcome (RecvSessionAck further)"
| "exec C (OpSendNegoRequest req sz) = SendNegoRequest req sz"
| "exec C OpRecvNegoRequest = outcome RecvNegoRequest"
| "exec C (OpSendNegoAckReq resp req n m) = SendNegoAckReq resp req n m"
| "exec C OpRecvNegoAckReq = outcome RecvNegoAckReq"
| "exec C (OpSendNegoAck resp sz) = SendNegoAck resp sz"
| "exec C OpRecvNegoAck = outcome RecvNegoAck"
| "exec C (OpSendTxRequest req sz) = SendTxRequest req sz"
| "exec C OpRecvTxRequest = outcome RecvTxRequest"
| "exec C (OpSendTxResponse resp sz) = SendTxResponse resp sz"
| "exec C OpRecvTxResponse = outcome RecvTxResponse"
| "exec C (OpSendTxReceipt rec sz) = SendTxReceipt C rec sz"
| "exec C OpRecvTxReceipt = outcome (RecvTxReceipt C)"
| "exec C OpClose = Node_Close"

section \<open>The diagrams\<close>

text \<open>\<open>edge ot s t\<close>: the diagrams have an arrow from \<open>s\<close> to \<open>t\<close> in a mode that is (not) OT.\<close>

inductive edge :: "bool \<Rightarrow> nodeState \<Rightarrow> nodeState \<Rightarrow> bool" for ot where
  bob_session_request: "edge ot stateConnected stateSessionAckWait"
| alice_session_request: "edge ot stateConnected stateSessionReqRecvd"
| alice_session_ack: "edge ot stateSessionReqRecvd stateSessionAckWait"
| bob_session_ack: "edge ot stateSessionAckWait stateSessionAckRecvd"
| bob_established: "edge ot stateSessionAckRecvd stateSessionEstablished"
| alice_established: "edge ot stateSessionAckWait stateSessionEstablished"
| bob_nego_request: "ot \<Longrightarrow> edge ot stateSessionEstablished stateNegoAckReqWait"
| alice_nego_request: "ot \<Longrightarrow> edge ot stateSessionEstablished stateNegoRequestRecvd"
| alice_nego_ack_req: "ot \<Longrightarrow> edge ot stateNegoRequestRecvd stateNegoAckWait"
| bob_nego_ack_req: "ot \<Longrightarrow> edge ot stateNegoAckReqWait stateNegoAckReqRecvd"
| bob_negotiated: "ot \<Longrightarrow> edge ot stateNegoAckReqRecvd stateNegotiated"
| alice_negotiated: "ot \<Longrightarrow> edge ot stateNegoAckWait stateNegotiated"
| bob_request: "\<not> ot \<Longrightarrow> edge ot stateSessionEstablished stateTxResponseWait"
| alice_request: "\<not> ot \<Longrightarrow> edge ot stateSessionEstablished stateTxRequestRecvd"
| bob_request_ot: "ot \<Longrightarrow> edge ot stateNegotiated stateTxResponseWait"
| alice_request_ot: "ot \<Longrightarrow> edge ot stateNegotiated stateTxRequestRecvd"
| alice_response: "edge ot stateTxRequestRecvd stateTxReceiptWait"
| bob_response: "edge ot stateTxResponseWait stateTxResponseRecvd"
| bob_receipt: "edge ot stateTxResponseRecvd stateTxSecretWait"
| alice_receipt: "edge ot stateTxReceiptWait stateTxReceiptRecvd"
| close: "edge ot s stateClosed"

inductive_simps edge_to_simps [simp]:
  "edge ot s stateTxResponseWait" "edge ot s stateTxRequestRecvd" "edge ot s stateNegotiated"
  "edge ot s stateSessionEstablished" "edge ot stateClosed t"

lemma edge_ascends: "edge ot s t \<Longrightarrow> s \<le> t"
  by (induction rule: edge.induct) (auto simp: less_eq_nodeState_def intro: phase_le)

section \<open>The operations refine the diagrams\<close>

text \<open>What a node remembers between messages, apart from its connection.\<close>

abbreviation view :: "node \<Rightarrow> nodeState \<times> session" where
  "view n \<equiv> (nstate n, sess n)"

lemma wp_msg_view:
  assumes "\<And>r n'. nstate n' = nstate n \<Longrightarrow> sess n' = sess n \<Longrightarrow> Q r n'"
  shows "wp (sendMsg ty p sz) Q n"
  by (rule wp_keeps [where f = view]) (auto intro: msg_ops_frame assms)

lemma wp_recvMsgHeader_view:
  assumes "\<And>r n'. nstate n' = nstate n \<Longrightarrow> sess n' = sess n \<Longrightarrow> Q r n'"
  shows "wp recvMsgHeader Q n"
  by (rule wp_keeps [where f = view]) (auto intro: msg_ops_frame assms)

lemma wp_recvMsgPayload_view:
  assumes "\<And>r n'. nstate n' = nstate n \<Longrightarrow> sess n' = sess n \<Longrightarrow> Q r n'"
  shows "wp (recvMsgPayload len) Q n"
  by (rule wp_keeps [where f = view]) (auto intro: msg_ops_frame assms)

lemma wp_recvMsgWithCheck_view:
  assumes "\<And>r n'. nstate n' = nstate n \<Longrightarrow> sess n' = sess n \<Longrightarrow> Q r n'"
  shows "wp (recvMsgWithCheck ty len) Q n"
  by (rule wp_keeps [where f = view]) (auto intro: msg_ops_frame assms)

lemmas view_intros = wp_msg_view wp_recvMsgHeader_view wp_recvMsgPayload_view
  wp_recvMsgWithCheck_view

text \<open>A guarded message: it succeeds from \<open>pre\<close> into \<open>post\<close>, or leaves the state alone.\<close>

definition moves :: "nodeState \<Rightarrow> nodeState \<Rightarrow> node \<Rightarrow> 'a res \<Rightarrow> node \<Rightarrow> bool" where
  "moves pre post n r n' \<longleftrightarrow> sess n' = sess n \<and>
     (if is_ok r then nstate n = pre \<and> nstate n' = post else nstate n' = nstate n)"

lemma wp_sendTxMsg_moves: "wp (sendTxMsg ty p sz pre post) (moves pre post n) n"
  unfolding sendTxMsg_def
  by (auto simp: wps moves_def split: res.splits intro!: view_intros)

lemma wp_recvTxMsg_moves: "wp (recvTxMsg ty pre post) (moves pre post n) n"
  unfolding recvTxMsg_def
  by (auto simp: wps moves_def split: res.splits intro!: view_intros)

text \<open>The two operations that can fail after the state has moved.\<close>

definition fails_after_move :: "op \<Rightarrow> nodeState \<Rightarrow> nodeState \<Rightarrow> bool" where
  "fails_after_move x s t \<longleftrightarrow>
     x = OpRecvTxReceipt \<and> s = stateTxReceiptWait \<and> t = stateTxReceiptRecvd \<or>
     x = OpRecvNegoAckReq \<and> s = stateNegoAckReqWait \<and> t = stateNegoAckReqRecvd"

definition conforms :: "op \<Rightarrow> node \<Rightarrow> unit res \<Rightarrow> node \<Rightarrow> bool" where
  "conforms x n r n' \<longleftrightarrow>
     (if r = Ok () then edge (isOTMode n') (nstate n) (nstate n')
      else nstate n' = nstate n \<or> fails_after_move x (nstate n) (nstate n')) \<and>
     (sess n' = sess n \<or> nstate n \<le> stateSessionAckRecvd \<and> nstate n' = stateSessionEstablished)"

lemma wp_outcome [wps]:
  "wp (outcome m) Q n = wp m (\<lambda>r n'. case r of Ok v \<Rightarrow> Q (Ok ()) n' | Err e \<Rightarrow> Q (Err e) n'
     | Panic \<Rightarrow> Q Panic n') n"
  by (simp add: outcome_def wps cong: res.case_cong)

lemma wp_send_conforms:
  assumes "edge (isOTMode n) pre post"
  shows "wp (sendTxMsg ty p sz pre post) (conforms x n) n"
  using wp_sendTxMsg_moves
  by (rule wp_mono) (use assms in \<open>auto simp: moves_def conforms_def isOTMode_def is_ok_ex\<close>)

lemma wp_outcome_recv_conforms:
  assumes "edge (isOTMode n) pre post"
  shows "wp (outcome (recvTxMsg ty pre post)) (conforms x n) n"
  unfolding wps
  by (rule wp_mono [OF wp_recvTxMsg_moves])
    (use assms in \<open>auto simp: moves_def conforms_def isOTMode_def split: res.splits\<close>)

text \<open>Reading the state first, and refusing an operation outside the OT modes.\<close>

lemma outcome_get: "outcome (State_Monad.bind State_Monad.get k) = State_Monad.bind State_Monad.get (\<lambda>n. outcome (k n))"
  by (rule state.expand) (simp add: outcome_def fun_eq_iff run)

lemma outcome_if: "outcome (if b then m else k) = (if b then outcome m else outcome k)"
  by simp

lemma outcome_Err: "outcome (ret (Err e)) = ret (Err e)"
  by (rule state.expand) (simp add: outcome_def fun_eq_iff run)

lemma conforms_same: "r \<noteq> Ok () \<Longrightarrow> conforms x n r n"
  by (simp add: conforms_def)

lemma wp_RecvTxReceipt_conforms: "wp (exec C OpRecvTxReceipt) (conforms OpRecvTxReceipt n) n"
proof -
  have "wp (recvTxMsg msgTxReceipt stateTxReceiptWait stateTxReceiptRecvd)
      (\<lambda>r n'. moves stateTxReceiptWait stateTxReceiptRecvd n r n') n"
    by (rule wp_recvTxMsg_moves)
  then show ?thesis
    unfolding exec.simps RecvTxReceipt_def wps
    by (rule wp_mono)
      (auto simp: moves_def conforms_def fails_after_move_def wps Let_def edge.simps
        split: res.splits)
qed

lemma wp_RecvNegoAckReq_conforms: "wp (exec C OpRecvNegoAckReq) (conforms OpRecvNegoAckReq n) n"
proof (cases "isOTMode n")
  case True
  have "wp (recvTxMsg msgNegoAckReq stateNegoAckReqWait stateNegoAckReqRecvd)
      (\<lambda>r n'. moves stateNegoAckReqWait stateNegoAckReqRecvd n r n') n"
    by (rule wp_recvTxMsg_moves)
  with True show ?thesis
    unfolding exec.simps RecvNegoAckReq_def wps
    by simp (rule wp_mono, assumption,
      use True in \<open>auto simp: moves_def conforms_def fails_after_move_def wps Let_def
        isOTMode_def edge.simps split: res.splits\<close>)
next
  case False
  then show ?thesis
    by (simp add: RecvNegoAckReq_def wps conforms_def)
qed

lemma wp_session_conforms:
  "wp (exec C (OpSendNewSessionRequest m root extra)) (conforms x n) n"
  "wp (exec C OpRecvSessionRequest) (conforms x n) n"
  "wp (exec C (OpSendSessionAck i m root extra further)) (conforms x n) n"
  "wp (exec C (OpRecvSessionAck further)) (conforms x n) n"
  by (auto simp: SendNewSessionRequest_def RecvSessionRequest_def SendSessionAck_def
      RecvSessionAck_def wps Let_def conforms_def edge.simps set_session_def
      less_eq_nodeState_def split: res.splits intro!: view_intros)

lemma wp_tx_conforms:
  "wp (exec C (OpSendTxRequest req sz)) (conforms x n) n"
  "wp (exec C OpRecvTxRequest) (conforms x n) n"
  "wp (exec C (OpSendTxResponse req sz)) (conforms x n) n"
  "wp (exec C OpRecvTxResponse) (conforms x n) n"
  by (auto simp: SendTxRequest_def RecvTxRequest_def SendTxResponse_def RecvTxResponse_def
      txPreState_def wp_bind wp_get wp_if outcome_get
      intro!: wp_send_conforms wp_outcome_recv_conforms edge.intros)

lemma wp_SendTxReceipt_conforms: "wp (exec C (OpSendTxReceipt req sz)) (conforms x n) n"
  by (auto simp: SendTxReceipt_def wps conforms_same split: res.splits
      intro!: wp_send_conforms edge.intros)

lemma wp_nego_conforms:
  "wp (exec C (OpSendNegoRequest req sz)) (conforms x n) n"
  "wp (exec C OpRecvNegoRequest) (conforms x n) n"
  "wp (exec C (OpSendNegoAck req sz)) (conforms x n) n"
  "wp (exec C OpRecvNegoAck) (conforms x n) n"
  by (auto simp: SendNegoRequest_def RecvNegoRequest_def SendNegoAck_def RecvNegoAck_def
      wp_bind wp_get wp_if wp_return outcome_get outcome_if outcome_Err conforms_same
      intro!: wp_send_conforms wp_outcome_recv_conforms edge.intros)

lemma wp_SendNegoAckReq_conforms:
  "wp (exec C (OpSendNegoAckReq resp req a b)) (conforms x n) n"
  by (auto simp: SendNegoAckReq_def wps conforms_same split: res.splits
      intro!: wp_send_conforms edge.intros)

lemma wp_close_conforms: "wp (exec C OpClose) (conforms x n) n"
  by (simp add: Node_Close_def wps conforms_def edge.close)

lemma wp_exec_conforms: "wp (exec C x) (conforms x n) n"
  by (cases x) (simp_all only: wp_session_conforms wp_tx_conforms wp_nego_conforms
      wp_close_conforms wp_RecvTxReceipt_conforms wp_RecvNegoAckReq_conforms
      wp_SendTxReceipt_conforms wp_SendNegoAckReq_conforms)

text \<open>
  C8. Every node operation, on any node and whatever its connection delivers, refines the
  protocol diagrams: when it succeeds it takes exactly one arrow of the diagrams of the
  session's mode; when it fails or panics the protocol state is unchanged, except that
  \<open>RecvTxReceipt\<close> and \<open>RecvNegoAckReq\<close> may refuse a message after they have already moved
  along their arrow. No operation ever moves a node back, and the session is only written on
  the way to \<open>SessionEstablished\<close>.
\<close>

theorem operations_refine_diagram:
  assumes "run_state (exec C x) n = (r, n')"
  shows "(if r = Ok () then edge (isOTMode n') (nstate n) (nstate n')
      else nstate n' = nstate n \<or> fails_after_move x (nstate n) (nstate n')) \<and>
    nstate n \<le> nstate n' \<and>
    (sess n' = sess n \<or> nstate n \<le> stateSessionAckRecvd \<and> nstate n' = stateSessionEstablished)"
proof -
  from wpD [OF wp_exec_conforms assms] have "conforms x n r n'" .
  then show ?thesis
    by (auto simp: conforms_def fails_after_move_def less_eq_nodeState_def
        dest: edge_ascends split: if_splits)
qed

definition sample_ack :: SessionRequest where
  "sample_ack = \<lparr>ID = 5, Mode = 0, SigmaMklRoot = replicate 32 0, ExtraInfo = []\<rparr>"

definition sample_buyer :: node where
  "sample_buyer = sample_node\<lparr>conn := sample_conn\<lparr>rlpx_in :=
     wire_msg msgSessionAck (encodeSessionRequest sample_ack)\<rparr>\<rparr>"

lemma sample_valid: "valid_request sample_ack" "valid_request (sample_ack\<lparr>ID := 0\<rparr>)"
  by (simp_all add: valid_request_def sample_ack_def)

lemma sample_requests:
  "wp (exec C (OpSendNewSessionRequest 0 (replicate 32 0) [])) (\<lambda>r n. r = Ok () \<and>
     n = (sent msgSessionRequest (encodeSessionRequest (sample_ack\<lparr>ID := 0\<rparr>)) sample_buyer)
       \<lparr>nstate := stateSessionAckWait\<rparr>) sample_buyer"
  unfolding exec.simps
  by (rule wp_SendNewSessionRequest)
    (simp_all add: sample_buyer_def sample_node_def sample_conn_def all_ok_def mode_consts
      valid_request_def sample_ack_def)

theorem operations_refine_diagram_witness:
  "edge (isOTMode (snd (run_state (exec sample_crypto (OpSendNewSessionRequest 0 (replicate 32 0) [])) sample_buyer)))
     stateConnected stateSessionAckWait"
  using operations_refine_diagram [OF surjective_pairing,
      of sample_crypto "OpSendNewSessionRequest 0 (replicate 32 0) []" sample_buyer]
    sample_requests [of sample_crypto]
  by (simp add: wp_def sample_buyer_def sample_node_def split: prod.splits)

section \<open>Reachable nodes\<close>

text \<open>
  \<open>reach C n tr\<close>: the node \<open>n\<close> has run some sequence of operations since \<open>NewNode\<close>, with the
  peer and the network free to change its connection between any two of them; \<open>tr\<close> lists the
  protocol states it has been in, newest first.
\<close>

inductive reach :: "crypto \<Rightarrow> node \<Rightarrow> nodeState list \<Rightarrow> bool" for C where
  reach_new: "NewNode (Some c) lk rk = Ok n \<Longrightarrow> reach C n [nstate n]"
| reach_env: "reach C n tr \<Longrightarrow> reach C (n\<lparr>conn := c\<rparr>) tr"
| reach_exec: "reach C n tr \<Longrightarrow> run_state (exec C x) n = (r, n') \<Longrightarrow> reach C n' (nstate n' # tr)"

definition in_tx :: "nodeState \<Rightarrow> bool" where
  "in_tx s \<longleftrightarrow> stateNegotiated < s \<and> s \<noteq> stateClosed"

definition in_nego :: "nodeState \<Rightarrow> bool" where
  "in_nego s \<longleftrightarrow> stateSessionEstablished < s \<and> s \<le> stateNegotiated"

lemmas region_defs = in_tx_def in_nego_def less_nodeState_def less_eq_nodeState_def

lemma edge_into_tx:
  "edge ot s t \<Longrightarrow> in_tx t \<Longrightarrow> in_tx s \<or> s = (if ot then stateNegotiated else stateSessionEstablished)"
  by (induction rule: edge.induct) (auto simp: region_defs)

lemma edge_into_nego:
  "edge ot s t \<Longrightarrow> in_nego t \<Longrightarrow> ot \<and> (in_nego s \<or> s = stateSessionEstablished)"
  by (induction rule: edge.induct) (auto simp: region_defs)

text \<open>What the visited states of a node must contain, given where it is now.\<close>

definition ordered :: "node \<Rightarrow> nodeState list \<Rightarrow> bool" where
  "ordered n tr \<longleftrightarrow> nstate n \<in> set tr \<and>
     (in_nego (nstate n) \<longrightarrow> isOTMode n \<and> stateSessionEstablished \<in> set tr) \<and>
     (in_tx (nstate n) \<longrightarrow> stateSessionEstablished \<in> set tr \<and>
        (isOTMode n \<longrightarrow> stateNegotiated \<in> set tr))"

lemma ordered_edge:
  assumes "ordered n tr" and e: "edge (isOTMode n') (nstate n) (nstate n')"
    and same: "isOTMode n' = isOTMode n \<or> nstate n \<le> stateSessionAckRecvd"
  shows "ordered n' (nstate n' # tr)"
proof -
  have neg: "in_nego stateNegotiated" by (simp add: region_defs)
  have low: "\<not> in_nego (nstate n)" "\<not> in_tx (nstate n)" "nstate n \<noteq> stateSessionEstablished"
    "nstate n \<noteq> stateNegotiated"
    if "nstate n \<le> stateSessionAckRecvd"
    using that by (auto simp: region_defs)
  show ?thesis
    using assms edge_into_tx [OF e] edge_into_nego [OF e] low neg
    unfolding ordered_def by (auto split: if_splits)
qed

lemma ordered_stay:
  "ordered n tr \<Longrightarrow> nstate n' = nstate n \<Longrightarrow> sess n' = sess n \<Longrightarrow> ordered n' (nstate n' # tr)"
  by (auto simp: ordered_def isOTMode_def)

lemma conforms_mode:
  "conforms x n r n' \<Longrightarrow> isOTMode n' = isOTMode n \<or> nstate n \<le> stateSessionAckRecvd"
  by (auto simp: conforms_def isOTMode_def)

lemma conforms_stay:
  "conforms x n r n' \<Longrightarrow> r \<noteq> Ok () \<Longrightarrow> nstate n' = nstate n \<Longrightarrow>
     sess n' = sess n \<or> \<not> in_tx (nstate n') \<and> \<not> in_nego (nstate n')"
  by (auto simp: conforms_def region_defs)

lemma ordered_conforms:
  assumes o1: "ordered n tr" and c: "conforms x n r n'"
  shows "ordered n' (nstate n' # tr)"
proof (cases "r = Ok ()")
  case True
  then show ?thesis
    using ordered_edge [OF o1 _ conforms_mode [OF c]] c by (simp add: conforms_def)
next
  case False
  with c consider "nstate n' = nstate n" | "fails_after_move x (nstate n) (nstate n')"
    by (auto simp: conforms_def)
  then show ?thesis
  proof cases
    case 1
    then show ?thesis
      using conforms_stay [OF c False 1] ordered_stay [OF o1 1] by (auto simp: ordered_def)
  next
    case 2
    then have "sess n' = sess n"
      using c by (auto simp: conforms_def fails_after_move_def)
    then show ?thesis
      using o1 2 by (auto simp: ordered_def fails_after_move_def region_defs isOTMode_def)
  qed
qed

lemma reach_ordered: "reach C n tr \<Longrightarrow> ordered n tr"
proof (induction rule: reach.induct)
  case (reach_new c lk rk n)
  then show ?case by (auto simp: NewNode_def ordered_def region_defs)
next
  case (reach_env n tr c)
  then show ?case by (simp add: ordered_def isOTMode_def)
next
  case (reach_exec n tr x r n')
  then show ?case using ordered_conforms wpD [OF wp_exec_conforms] by blast
qed

text \<open>
  C19. Whatever operations a node is asked to run and whatever its peer sends, it is never inside
  a transaction (request, response or receipt) without having passed through an established
  session, in an oblivious-transfer mode also through a completed negotiation; and it is inside
  a negotiation only in an oblivious-transfer mode with an established session.
\<close>

theorem transaction_needs_session:
  assumes "reach C n tr"
  shows "(in_tx (nstate n) \<longrightarrow> stateSessionEstablished \<in> set tr \<and>
           (isOTMode n \<longrightarrow> stateNegotiated \<in> set tr)) \<and>
         (in_nego (nstate n) \<longrightarrow> isOTMode n \<and> stateSessionEstablished \<in> set tr)"
  using reach_ordered [OF assms] by (simp add: ordered_def)

lemma reach_wp:
  "reach C n tr \<Longrightarrow> wp (exec C x) (\<lambda>_ n'. n' = m) n \<Longrightarrow> reach C m (nstate m # tr)"
  by (metis (mono_tags) reach_exec surj_pair wpD)

lemma sample_in_transaction:
  "\<exists>n. reach sample_crypto n [stateTxResponseWait, stateSessionEstablished, stateSessionAckRecvd,
     stateSessionAckWait, stateConnected] \<and> nstate n = stateTxResponseWait"
proof -
  let ?C = sample_crypto and ?ot = "\<lambda>n. \<not> isOTMode n"
  have "NewNode (Some (conn sample_buyer)) sample_key sample_key = Ok sample_buyer"
    by (simp add: NewNode_def sample_buyer_def sample_node_def)
  from reach_new [OF this, of ?C] have 0: "reach ?C sample_buyer [stateConnected]"
    by (simp add: sample_buyer_def sample_node_def)
  let ?n1 = "(sent msgSessionRequest (encodeSessionRequest (sample_ack\<lparr>ID := 0\<rparr>)) sample_buyer)
       \<lparr>nstate := stateSessionAckWait\<rparr>"
  have 1: "reach ?C ?n1 [stateSessionAckWait, stateConnected]"
    using reach_wp [OF 0 wp_mono [OF sample_requests]] by simp
  let ?n2 = "(received [] ?n1)\<lparr>nstate := stateSessionAckRecvd\<rparr>"
  have "wp (exec ?C (OpRecvSessionAck True)) (\<lambda>_ n. n = ?n2) ?n1"
    unfolding exec.simps wps
    by (rule wp_RecvSessionAck [where ack = sample_ack and rest = "[]"])
      (simp_all add: sample_valid sent_def sample_buyer_def, simp add: sample_ack_def)
  from reach_wp [OF 1 this] have 2: "reach ?C ?n2 [stateSessionAckRecvd, stateSessionAckWait, stateConnected]"
    by simp
  let ?n3 = "set_session sample_ack (sent msgSessionAck (encodeSessionRequest sample_ack) ?n2)"
  have "wp (exec ?C (OpSendSessionAck 5 0 (replicate 32 0) [] False)) (\<lambda>_ n. n = ?n3) ?n2"
    unfolding exec.simps
    by (rule wp_SendSessionAck [where ack = sample_ack])
      (simp_all add: sample_valid wire_defs sample_buyer_def sample_conn_def all_ok_def, simp add: sample_ack_def)
  from reach_wp [OF 2 this] have 3: "reach ?C ?n3
      [stateSessionEstablished, stateSessionAckRecvd, stateSessionAckWait, stateConnected]"
    by (simp add: set_session_def)
  let ?n4 = "(sent msgTxRequest [1, 2] ?n3)\<lparr>nstate := stateTxResponseWait\<rparr>"
  have "wp (exec ?C (OpSendTxRequest [1, 2] (len64 [1, 2]))) (\<lambda>_ n. n = ?n4) ?n3"
    unfolding exec.simps
    by (rule wp_SendTxRequest)
      (simp_all add: txPreState_def isOTMode_def set_session_def wire_defs sample_buyer_def
        sample_conn_def all_ok_def sample_ack_def mode_consts)
  from reach_wp [OF 3 this] show ?thesis by (intro exI [of _ ?n4]) simp
qed

theorem transaction_needs_session_witness:
  "\<exists>n tr. reach sample_crypto n tr \<and> in_tx (nstate n) \<and> stateSessionEstablished \<in> set tr"
proof -
  obtain n tr where n: "reach sample_crypto n tr" "nstate n = stateTxResponseWait"
    using sample_in_transaction by blast
  then have "in_tx (nstate n)" by (simp add: region_defs)
  with n transaction_needs_session [OF n(1)] show ?thesis by blast
qed

end
