(* ===== verification/Exchange.thy ===== *)
theory Exchange
  imports Protocol
begin

text \<open>
  The two parties of a deal against each other: a seller's and a buyer's node joined by a
  connection that delivers what the other side writes. The sequences below are the message
  orders drawn at the head of \<^verbatim>\<open>net/session.go\<close> and \<^verbatim>\<open>net/tx.go\<close>.
\<close>

section \<open>Joined nodes\<close>

record pair =
  alice :: node
  bob :: node

definition flush :: "node \<Rightarrow> node" where
  "flush n = n\<lparr>conn := (conn n)\<lparr>rlpx_out := []\<rparr>\<rparr>"

definition deliver :: "node \<Rightarrow> node \<Rightarrow> node" where
  "deliver src dst = dst\<lparr>conn := (conn dst)\<lparr>rlpx_in := rlpx_in (conn dst) @ rlpx_out (conn src)\<rparr>\<rparr>"

definition at_alice :: "(node, 'a) state \<Rightarrow> (pair, 'a) state" where
  "at_alice m = State (\<lambda>p. case run_state m (alice p) of (r, a) \<Rightarrow>
     (r, p\<lparr>alice := flush a, bob := deliver a (bob p)\<rparr>))"

definition at_bob :: "(node, 'a) state \<Rightarrow> (pair, 'a) state" where
  "at_bob m = State (\<lambda>p. case run_state m (bob p) of (r, b) \<Rightarrow>
     (r, p\<lparr>bob := flush b, alice := deliver b (alice p)\<rparr>))"

lemma wp_at_alice [wps]:
  "wp (at_alice m) Q p = wp m (\<lambda>r a. Q r (p\<lparr>alice := flush a, bob := deliver a (bob p)\<rparr>)) (alice p)"
  by (simp add: wp_def at_alice_def split: prod.splits)

lemma wp_at_bob [wps]:
  "wp (at_bob m) Q p = wp m (\<lambda>r b. Q r (p\<lparr>bob := flush b, alice := deliver b (alice p)\<rparr>)) (bob p)"
  by (simp add: wp_def at_bob_def split: prod.splits)

lemmas link_defs = flush_def deliver_def sent_def received_def

text \<open>Both directions are idle and no write fails.\<close>

definition idle :: "node \<Rightarrow> bool" where
  "idle n \<longleftrightarrow> all_ok (conn n) \<and> rlpx_in (conn n) = [] \<and> rlpx_out (conn n) = []"

lemma all_ok_in [simp]: "all_ok (c\<lparr>rlpx_in := ms\<rparr>) = all_ok c"
  by (simp add: all_ok_def)

lemma connection_inert: "rlpx_in c = i \<Longrightarrow> rlpx_out c = j \<Longrightarrow> c\<lparr>rlpx_in := i, rlpx_out := j\<rparr> = c"
  by (cases c) simp

abbreviation pass :: "('s, 'a res) state \<Rightarrow> ('a \<Rightarrow> ('s, 'b res) state) \<Rightarrow> ('s, 'b res) state" where
  "pass m k \<equiv> check m (\<lambda>e. ret (Err e)) k"

section \<open>The exchanges\<close>

text \<open>
  Each exchange returns everything its receiving calls returned, in the order of the calls, the
  announced sizes included.
\<close>

type_synonym session_got = "SessionRequest \<times> SessionRequest \<times> SessionRequest"
type_synonym nego_got = "(u64 \<times> bytes) \<times> (bytes \<times> bytes \<times> u64 \<times> u64) \<times> (u64 \<times> bytes)"
type_synonym tx_got = "(u64 \<times> bytes) \<times> (u64 \<times> bytes) \<times> (bytes \<times> bytes)"

definition session_exchange ::
  "u64 \<Rightarrow> u8 \<Rightarrow> bytes \<Rightarrow> bytes \<Rightarrow> (pair, session_got res) state" where
  "session_exchange i mode root extra =
     pass (at_bob (SendNewSessionRequest mode root extra)) (\<lambda>_.
     pass (at_alice RecvSessionRequest) (\<lambda>req.
     pass (at_alice (SendSessionAck i (Mode req) (SigmaMklRoot req) (ExtraInfo req) True)) (\<lambda>_.
     pass (at_bob (RecvSessionAck True)) (\<lambda>ack.
     pass (at_bob (SendSessionAck (ID ack) (Mode ack) (SigmaMklRoot ack) (ExtraInfo ack) False)) (\<lambda>_.
     pass (at_alice (RecvSessionAck False)) (\<lambda>ack'. ret (Ok (req, ack, ack'))))))))"

definition nego_exchange ::
  "bytes \<Rightarrow> bytes \<Rightarrow> bytes \<Rightarrow> bytes \<Rightarrow> (pair, nego_got res) state" where
  "nego_exchange bobReq aliceResp aliceReq bobResp =
     pass (at_bob (SendNegoRequest bobReq (len64 bobReq))) (\<lambda>_.
     pass (at_alice RecvNegoRequest) (\<lambda>breq.
     pass (at_alice (SendNegoAckReq aliceResp aliceReq (len64 aliceResp) (len64 aliceReq))) (\<lambda>_.
     pass (at_bob RecvNegoAckReq) (\<lambda>ackreq.
     pass (at_bob (SendNegoAck bobResp (len64 bobResp))) (\<lambda>_.
     pass (at_alice RecvNegoAck) (\<lambda>ack. ret (Ok (breq, ackreq, ack))))))))"

definition tx_exchange ::
  "crypto \<Rightarrow> bytes \<Rightarrow> bytes \<Rightarrow> bytes \<Rightarrow> (pair, tx_got res) state" where
  "tx_exchange C request response receipt =
     pass (at_bob (SendTxRequest request (len64 request))) (\<lambda>_.
     pass (at_alice RecvTxRequest) (\<lambda>req.
     pass (at_alice (SendTxResponse response (len64 response))) (\<lambda>_.
     pass (at_bob RecvTxResponse) (\<lambda>resp.
     pass (at_bob (SendTxReceipt C receipt (len64 receipt))) (\<lambda>_.
     pass (at_alice (RecvTxReceipt C)) (\<lambda>signed. ret (Ok (req, resp, signed))))))))"

section \<open>The exchanges complete\<close>

definition established :: "u64 \<Rightarrow> u8 \<Rightarrow> pair \<Rightarrow> pair" where
  "established i m p =
     p\<lparr>alice := (alice p)\<lparr>sess := \<lparr>sess_id = i, sess_mode = m\<rparr>, nstate := stateSessionEstablished\<rparr>,
       bob := (bob p)\<lparr>sess := \<lparr>sess_id = i, sess_mode = m\<rparr>, nstate := stateSessionEstablished\<rparr>\<rparr>"

definition in_states :: "nodeState \<Rightarrow> nodeState \<Rightarrow> pair \<Rightarrow> pair" where
  "in_states sa sb p = p\<lparr>alice := (alice p)\<lparr>nstate := sa\<rparr>, bob := (bob p)\<lparr>nstate := sb\<rparr>\<rparr>"

lemma pair_eqI: "alice p = alice q \<Longrightarrow> bob p = bob q \<Longrightarrow> (p :: pair) = q"
  by (cases p; cases q) simp

lemma node_eqI:
  "conn n = conn m \<Longrightarrow> nstate n = nstate m \<Longrightarrow> sess n = sess m \<Longrightarrow> lkey n = lkey m \<Longrightarrow>
     rkey n = rkey m \<Longrightarrow> (n :: node) = m"
  by (cases n; cases m) simp

lemma connection_eqI:
  "laddr c = laddr d \<Longrightarrow> raddr c = raddr d \<Longrightarrow> tcp_in c = tcp_in d \<Longrightarrow> tcp_out c = tcp_out d \<Longrightarrow>
     tcp_werr c = tcp_werr d \<Longrightarrow> rlpx_in c = rlpx_in d \<Longrightarrow> rlpx_out c = rlpx_out d \<Longrightarrow>
     rlpx_werr c = rlpx_werr d \<Longrightarrow> (c :: connection) = d"
  by (cases c; cases d) simp

lemmas final_eqI = pair_eqI node_eqI connection_eqI

lemmas wp_SendTxResponse = wp_sendTxMsg [where ty = msgTxResponse, folded SendTxResponse_def]
lemmas wp_RecvTxResponse = wp_recvTxMsg [where ty = msgTxResponse, folded RecvTxResponse_def]

lemma wp_session_exchange:
  fixes root extra mode i
  defines "req \<equiv> \<lparr>ID = 0, Mode = mode, SigmaMklRoot = root, ExtraInfo = extra\<rparr>"
  assumes st: "nstate (alice p) = stateConnected" "nstate (bob p) = stateConnected"
    and idle: "idle (alice p)" "idle (bob p)"
    and args: "i \<noteq> 0" "mode < modeMax" "length root = 32" "length extra < 2 ^ 63"
    and Q: "Q (Ok (req, req\<lparr>ID := i\<rparr>, req\<lparr>ID := i\<rparr>)) (established i mode p)"
  shows "wp (session_exchange i mode root extra) Q p"
  unfolding session_exchange_def wps
  apply (rule wp_SendNewSessionRequest)
  using st idle args apply (simp_all add: idle_def valid_request_def)
  apply (rule wp_RecvSessionRequest [where req = req and rest = "[]"])
      apply (simp_all add: valid_request_def link_defs req_def)
  apply (rule wp_SendSessionAck [where ack = "req\<lparr>ID := i\<rparr>"])
      apply (simp_all add: valid_request_def req_def)
  apply (rule wp_RecvSessionAck [where ack = "req\<lparr>ID := i\<rparr>" and rest = "[]"])
      apply (simp_all add: valid_request_def link_defs req_def)
  apply (rule wp_SendSessionAck [where ack = "req\<lparr>ID := i\<rparr>"])
      apply (simp_all add: valid_request_def req_def)
  apply (rule wp_RecvSessionAck [where ack = "req\<lparr>ID := i\<rparr>" and rest = "[]"])
      apply (simp_all add: valid_request_def link_defs req_def set_session_def wps)
  apply (rule back_subst [where P = "Q (Ok _)", OF Q [unfolded req_def, simplified]])
  apply (auto simp: established_def intro!: final_eqI)
  done

lemma isOTMode_nstate [simp]:
  "isOTMode (n\<lparr>nstate := s\<rparr>) = isOTMode n" "isOTMode (n\<lparr>conn := c\<rparr>) = isOTMode n"
  by (simp_all add: isOTMode_def)

lemma wp_nego_exchange:
  assumes st: "nstate (alice p) = stateSessionEstablished" "nstate (bob p) = stateSessionEstablished"
    and ot: "isOTMode (alice p)" "isOTMode (bob p)"
    and idle: "idle (alice p)" "idle (bob p)"
    and len: "length r1 < 2 ^ 62" "length r2 < 2 ^ 62" "length r3 < 2 ^ 62" "length r4 < 2 ^ 62"
    and ne: "r2 \<noteq> []"
    and Q: "Q (Ok ((len64 r1, r1), (r2, r3, len64 r2, len64 r3), (len64 r4, r4))) (in_states stateNegotiated stateNegotiated p)"
  shows "wp (nego_exchange r1 r2 r3 r4) Q p"
  unfolding nego_exchange_def wps SendNegoRequest_def RecvNegoRequest_def SendNegoAck_def
    RecvNegoAck_def
  using st ot idle len ne apply (simp add: idle_def)
  apply (rule wp_sendTxMsg, simp_all add: wps link_defs)
  apply (rule wp_recvTxMsg [where payload = r1 and rest = "[]"], simp_all add: wps link_defs)
  apply (rule wp_SendNegoAckReq, simp_all add: wps link_defs)
  apply (rule wp_RecvNegoAckReq [where resp = r2 and req = r3 and rest = "[]"],
      simp_all add: wps link_defs)
  apply (rule wp_sendTxMsg, simp_all add: wps link_defs)
  apply (rule wp_recvTxMsg [where payload = r4 and rest = "[]"], simp_all add: wps link_defs)
  apply (rule back_subst [where P = "Q (Ok _)", OF Q])
  apply (auto simp: in_states_def intro!: final_eqI)
  done

lemma wp_tx_exchange:
  assumes st: "nstate (alice p) = txPreState (alice p)" "nstate (bob p) = txPreState (bob p)"
    and idle: "idle (alice p)" "idle (bob p)"
    and len: "length request < 2 ^ 64" "length response < 2 ^ 64" "length receipt < 2 ^ 63"
    and ne: "receipt \<noteq> []" and laws: "ecdsa_laws C"
    and sig: "Sign C (Keccak256Hash C receipt) (lkey (bob p)) = Ok sig"
    and key: "rkey (alice p) = PublicKey C (lkey (bob p))"
    and Q: "Q (Ok ((len64 request, request), (len64 response, response), (receipt, sig)))
      (in_states stateTxReceiptRecvd stateTxSecretWait p)"
  shows "wp (tx_exchange C request response receipt) Q p"
  unfolding tx_exchange_def wps SendTxResponse_def RecvTxResponse_def
  using st idle len ne laws sig key apply (simp add: idle_def)
  apply (rule wp_SendTxRequest, simp_all add: wps link_defs)
  apply (rule wp_RecvTxRequest [where req = request and rest = "[]"],
      simp_all add: wps link_defs txPreState_def)
  apply (rule wp_sendTxMsg, simp_all add: wps link_defs)
  apply (rule wp_recvTxMsg [where payload = response and rest = "[]"], simp_all add: wps link_defs)
  apply (rule wp_SendTxReceipt [where signature = sig], simp_all add: wps link_defs)
  apply (rule wp_RecvTxReceipt [where signature = sig and receipt = receipt and rest = "[]"
        and k = "lkey (bob p)"], simp_all add: wps link_defs)
  apply (rule back_subst [where P = "Q (Ok _)", OF Q])
  apply (auto simp: in_states_def intro!: final_eqI)
  done

section \<open>A whole deal\<close>

definition ot_mode :: "u8 \<Rightarrow> bool" where
  "ot_mode m \<longleftrightarrow> m = ModePlainOTComplaintPoD \<or> m = ModeTableOTComplaintPoD \<or> m = ModeTableOTVRFQuery"

text \<open>
  The messages of one deal in the order of the diagrams, and what each receiving call returned. The
  negotiation takes the four messages \<open>nego\<close>; outside the oblivious-transfer modes it is skipped.
\<close>

record deal_got =
  got_session :: session_got
  got_nego :: "nego_got option"
  got_tx :: tx_got

definition deal :: "crypto \<Rightarrow> u64 \<Rightarrow> u8 \<Rightarrow> bytes \<Rightarrow> bytes \<Rightarrow> bytes \<times> bytes \<times> bytes \<times> bytes \<Rightarrow>
    bytes \<Rightarrow> bytes \<Rightarrow> bytes \<Rightarrow> (pair, deal_got res) state" where
  "deal C i mode root extra nego request response receipt =
     pass (session_exchange i mode root extra) (\<lambda>session.
     pass (if ot_mode mode
       then (case nego of (r1, r2, r3, r4) \<Rightarrow>
         pass (nego_exchange r1 r2 r3 r4) (\<lambda>negotiated. ret (Ok (Some negotiated))))
       else ret (Ok None)) (\<lambda>negotiated.
     pass (tx_exchange C request response receipt) (\<lambda>tx.
     ret (Ok \<lparr>got_session = session, got_nego = negotiated, got_tx = tx\<rparr>))))"

definition nego_ok :: "bytes \<times> bytes \<times> bytes \<times> bytes \<Rightarrow> bool" where
  "nego_ok nego = (case nego of (r1, r2, r3, r4) \<Rightarrow>
     r2 \<noteq> [] \<and> length r1 < 2 ^ 62 \<and> length r2 < 2 ^ 62 \<and> length r3 < 2 ^ 62 \<and> length r4 < 2 ^ 62)"

text \<open>Two fresh nodes on one connection, the seller knowing the buyer's public key.\<close>

definition joined :: "crypto \<Rightarrow> pair \<Rightarrow> bool" where
  "joined C p \<longleftrightarrow> nstate (alice p) = stateConnected \<and> nstate (bob p) = stateConnected \<and>
     idle (alice p) \<and> idle (bob p) \<and> rkey (alice p) = PublicKey C (lkey (bob p))"

text \<open>
  C9. A deal over a connection that loses nothing completes in every mode, with the oblivious
  transfer negotiation where the mode asks for it, and every receiving call returns exactly what
  the other side sent: the seller gets the buyer's session request with the mode, root and extra
  information, the buyer the acknowledgement with the seller's session number, the seller the same
  acknowledgement back; in an oblivious-transfer mode the seller gets the buyer's negotiation
  request, the buyer the seller's response and request, each in its place, and the seller the
  buyer's response; then the seller gets the request, the buyer the response and the seller the
  receipt with the buyer's signature, all with their sizes. Both end with the same session number
  and mode, the seller in \<open>TxReceiptRecvd\<close> and the buyer in \<open>TxSecretWait\<close>, and no message is left
  unread.
\<close>

theorem deal_completes:
  assumes "joined C p" and "ecdsa_laws C" and "i \<noteq> 0" and "mode < modeMax"
    and "length root = 32" and "length extra < 2 ^ 63" and "nego_ok nego"
    and "length request < 2 ^ 64" and "length response < 2 ^ 64"
    and "receipt \<noteq> []" and "length receipt < 2 ^ 63"
    and "Sign C (Keccak256Hash C receipt) (lkey (bob p)) = Ok sig"
  shows "\<exists>p'. run_state (deal C i mode root extra nego request response receipt) p =
      (Ok \<lparr>got_session =
             (let req = \<lparr>ID = 0, Mode = mode, SigmaMklRoot = root, ExtraInfo = extra\<rparr>
              in (req, req\<lparr>ID := i\<rparr>, req\<lparr>ID := i\<rparr>)),
           got_nego = (case nego of (r1, r2, r3, r4) \<Rightarrow> if ot_mode mode
             then Some ((len64 r1, r1), (r2, r3, len64 r2, len64 r3), (len64 r4, r4)) else None),
           got_tx = ((len64 request, request), (len64 response, response), (receipt, sig))\<rparr>, p') \<and>
    nstate (alice p') = stateTxReceiptRecvd \<and> nstate (bob p') = stateTxSecretWait \<and>
    sess (alice p') = \<lparr>sess_id = i, sess_mode = mode\<rparr> \<and> sess (bob p') = sess (alice p') \<and>
    idle (alice p') \<and> idle (bob p')"
proof -
  let ?q = "in_states stateTxReceiptRecvd stateTxSecretWait (established i mode p)"
  let ?req = "\<lparr>ID = 0, Mode = mode, SigmaMklRoot = root, ExtraInfo = extra\<rparr>"
  obtain r1 r2 r3 r4 where n: "nego = (r1, r2, r3, r4)" by (metis surj_pair)
  have "wp (deal C i mode root extra nego request response receipt)
      (\<lambda>r p'. r = Ok \<lparr>got_session = (?req, ?req\<lparr>ID := i\<rparr>, ?req\<lparr>ID := i\<rparr>),
         got_nego = (if ot_mode mode
           then Some ((len64 r1, r1), (r2, r3, len64 r2, len64 r3), (len64 r4, r4)) else None),
         got_tx = ((len64 request, request), (len64 response, response), (receipt, sig))\<rparr> \<and> p' = ?q) p"
    unfolding deal_def wps using assms n
    by (auto intro!: wp_session_exchange wp_nego_exchange wp_tx_exchange [where sig = sig]
        simp: joined_def nego_ok_def wps established_def in_states_def idle_def txPreState_def
          isOTMode_def ot_mode_def)
  then show ?thesis
    using assms(1) n by (auto simp: wp_def in_states_def established_def joined_def idle_def
        split: prod.splits)
qed

theorem deal_completes_witness:
  "\<exists>p'. run_state (deal sample_crypto 5 1 (replicate 32 0) [] ([1], [2], [3], [4]) [5] [6] [7])
      \<lparr>alice = sample_node, bob = sample_node\<rparr> =
      (Ok \<lparr>got_session =
             (\<lparr>ID = 0, Mode = 1, SigmaMklRoot = replicate 32 0, ExtraInfo = []\<rparr>,
              \<lparr>ID = 5, Mode = 1, SigmaMklRoot = replicate 32 0, ExtraInfo = []\<rparr>,
              \<lparr>ID = 5, Mode = 1, SigmaMklRoot = replicate 32 0, ExtraInfo = []\<rparr>),
           got_nego = Some ((1, [1]), ([2], [3], 1, 1), (1, [4])),
           got_tx = ((1, [5]), (1, [6]), ([7], sample_key))\<rparr>, p') \<and>
    nstate (alice p') = stateTxReceiptRecvd \<and> nstate (bob p') = stateTxSecretWait"
  using deal_completes [of sample_crypto "\<lparr>alice = sample_node, bob = sample_node\<rparr>" 5 1 "replicate 32 0"
      "[]" "([1], [2], [3], [4])" "[5]" "[6]" "[7]" sample_key]
  by (auto simp: joined_def idle_def nego_ok_def sample_crypto_laws sample_keys sample_node_def
      sample_conn_def all_ok_def mode_consts ot_mode_def len64_def simp del: replicate.simps)

end
