(* ===== verification/Strconv.thy ===== *)
theory Strconv
  imports Prelude
begin

text \<open>
  The parts of Go's \<open>strconv\<close>, \<open>math/big\<close>, \<open>encoding/hex\<close> and \<open>strings\<close> packages the node uses:
  numbers written and read in a base, hexadecimal byte strings and splitting at a separator.
  A Go string is the list of its bytes, written as characters.
\<close>

section \<open>Digits\<close>

definition digit :: "nat \<Rightarrow> char" where
  "digit d = (if d < 10 then char_of (48 + d) else char_of (87 + d))"

definition digit_val :: "char \<Rightarrow> nat option" where
  "digit_val c = (let n = of_char c :: nat in
     if 48 \<le> n \<and> n \<le> 57 then Some (n - 48)
     else if 97 \<le> n \<and> n \<le> 122 then Some (n - 87)
     else if 65 \<le> n \<and> n \<le> 90 then Some (n - 55)
     else None)"

lemma digit_val_digit [simp]: "d < 36 \<Longrightarrow> digit_val (digit d) = Some d"
  by (auto simp: digit_val_def digit_def Let_def)

lemma digit_inj: "digit d = digit e \<Longrightarrow> d < 36 \<Longrightarrow> e < 36 \<Longrightarrow> d = e"
  by (metis digit_val_digit option.inject)

section \<open>Writing numbers\<close>

text \<open>\<open>FormatUint(n, base)\<close>, \<open>%x\<close> and \<open>big.Int.String\<close>.\<close>

fun FormatUint :: "nat \<Rightarrow> nat \<Rightarrow> string" where
  "FormatUint b n = (if n < b \<or> b < 2 then [digit n] else FormatUint b (n div b) @ [digit (n mod b)])"

declare FormatUint.simps [simp del]

definition FormatInt :: "int \<Rightarrow> string" where
  "FormatInt i = (if i < 0 then CHR ''-'' # FormatUint 10 (nat (- i)) else FormatUint 10 (nat i))"

section \<open>Reading numbers\<close>

definition errSyntax :: string where "errSyntax = ''invalid syntax''"
definition errRange :: string where "errRange = ''value out of range''"

text \<open>The loop of \<open>ParseUint\<close>: the value it returns and its error.\<close>

fun parse_uint :: "nat \<Rightarrow> nat \<Rightarrow> string \<Rightarrow> u64 \<times> string option" where
  "parse_uint b acc [] = (word_of_nat acc, None)"
| "parse_uint b acc (c # cs) =
     (case digit_val c of
        None \<Rightarrow> (0, Some errSyntax)
      | Some d \<Rightarrow>
          if b \<le> d then (0, Some errSyntax)
          else if 2 ^ 64 \<le> acc * b + d then (- 1, Some errRange)
          else parse_uint b (acc * b + d) cs)"

definition ParseUint :: "nat \<Rightarrow> string \<Rightarrow> u64 \<times> string option" where
  "ParseUint b s = (if s = [] then (0, Some errSyntax) else parse_uint b 0 s)"

definition ParseUint_res :: "nat \<Rightarrow> string \<Rightarrow> u64 res" where
  "ParseUint_res b s = (case ParseUint b s of (v, None) \<Rightarrow> Ok v | (_, Some e) \<Rightarrow> Err e)"

text \<open>\<open>ParseInt(s, 10, 64)\<close>.\<close>

definition ParseInt :: "string \<Rightarrow> int64 res" where
  "ParseInt s =
     (let neg = (s \<noteq> [] \<and> hd s = CHR ''-'');
          body = (if s \<noteq> [] \<and> (hd s = CHR ''-'' \<or> hd s = CHR ''+'') then tl s else s)
      in case ParseUint_res 10 body of
           Err e \<Rightarrow> Err e
         | Panic \<Rightarrow> Panic
         | Ok un \<Rightarrow>
             if neg then (if unat un > 2 ^ 63 then Err errRange else Ok (- un))
             else (if unat un \<ge> 2 ^ 63 then Err errRange else Ok un))"

fun parse_big :: "nat \<Rightarrow> nat \<Rightarrow> string \<Rightarrow> nat option" where
  "parse_big b acc [] = Some acc"
| "parse_big b acc (c # cs) =
     (case digit_val c of
        None \<Rightarrow> None
      | Some d \<Rightarrow> if b \<le> d then None else parse_big b (acc * b + d) cs)"

text \<open>\<open>new(big.Int).SetString(s, base)\<close>.\<close>

definition SetString :: "string \<Rightarrow> nat \<Rightarrow> int option" where
  "SetString s b =
     (let neg = (s \<noteq> [] \<and> hd s = CHR ''-'');
          body = (if s \<noteq> [] \<and> (hd s = CHR ''-'' \<or> hd s = CHR ''+'') then tl s else s)
      in if body = [] then None
         else map_option (\<lambda>n. if neg then - int n else int n) (parse_big b 0 body))"

section \<open>Hexadecimal byte strings\<close>

definition EncodeToString :: "bytes \<Rightarrow> string" where
  "EncodeToString bs = concat (map (\<lambda>b. [digit (unat b div 16), digit (unat b mod 16)]) bs)"

definition hex_val :: "char \<Rightarrow> nat option" where
  "hex_val c = (case digit_val c of Some d \<Rightarrow> if d < 16 then Some d else None | None \<Rightarrow> None)"

fun DecodeString :: "string \<Rightarrow> bytes res" where
  "DecodeString [] = Ok []"
| "DecodeString [c] = Err ''encoding/hex: odd length hex string''"
| "DecodeString (c # d # cs) =
     (case (hex_val c, hex_val d) of
        (Some x, Some y) \<Rightarrow> res_bind (DecodeString cs) (\<lambda>bs. Ok (word_of_nat (16 * x + y) # bs))
      | _ \<Rightarrow> Err ''encoding/hex: invalid byte'')"

section \<open>Splitting\<close>

text \<open>\<open>strings.Split(s, sep)\<close> for a separator of one character.\<close>

fun Split :: "char \<Rightarrow> string \<Rightarrow> string list" where
  "Split sep [] = [[]]"
| "Split sep (c # cs) =
     (if c = sep then [] # Split sep cs
      else case Split sep cs of [] \<Rightarrow> [[c]] | w # ws \<Rightarrow> (c # w) # ws)"

section \<open>Round trips\<close>

lemma FormatUint_nonempty [simp]: "FormatUint b n \<noteq> []"
  by (subst FormatUint.simps) simp

lemma parse_big_append:
  "parse_big b acc (s @ t) = (case parse_big b acc s of None \<Rightarrow> None | Some n \<Rightarrow> parse_big b n t)"
  by (induction s arbitrary: acc) (auto split: option.splits)

lemma parse_big_Format:
  assumes "2 \<le> b" "b \<le> 36"
  shows "parse_big b 0 (FormatUint b n) = Some n"
  using assms
proof (induction b n rule: FormatUint.induct)
  case (1 b n)
  show ?case
  proof (cases "n < b")
    case True
    with 1 show ?thesis by (subst FormatUint.simps) simp
  next
    case False
    have "n mod b < b" using 1(2) by (intro mod_less_divisor) simp
    moreover from this 1(3) have "n mod b < 36" by linarith
    ultimately have "\<not> b \<le> n mod b" "n mod b < 36" by simp_all
    with False 1 show ?thesis
      by (subst FormatUint.simps) (simp add: parse_big_append)
  qed
qed

lemma parse_big_mono: "0 < b \<Longrightarrow> parse_big b acc s = Some n \<Longrightarrow> acc \<le> n"
proof (induction s arbitrary: acc)
  case (Cons c s)
  then obtain d where "parse_big b (acc * b + d) s = Some n"
    by (auto split: option.splits if_splits)
  with Cons have "acc * b + d \<le> n" by blast
  moreover have "acc * 1 \<le> acc * b" using Cons.prems by (intro mult_le_mono) auto
  ultimately show ?case by linarith
qed simp

text \<open>A number that fits is read the same way by \<open>ParseUint\<close> and by \<open>SetString\<close>.\<close>

lemma parse_uint_big:
  assumes "0 < b" "parse_big b acc s = Some n" "n < 2 ^ 64"
  shows "parse_uint b acc s = (word_of_nat n, None)"
  using assms
proof (induction s arbitrary: acc)
  case (Cons c s)
  then obtain d where d: "digit_val c = Some d" "d < b" "parse_big b (acc * b + d) s = Some n"
    by (auto split: option.splits if_splits)
  with parse_big_mono [OF Cons.prems(1) d(3)] Cons show ?case by simp
qed simp

lemma ParseUint_Format:
  assumes "2 \<le> b" "b \<le> 36" "n < 2 ^ 64"
  shows "ParseUint_res b (FormatUint b n) = Ok (word_of_nat n)"
  using assms parse_uint_big [OF _ parse_big_Format]
  by (simp add: ParseUint_res_def ParseUint_def)

lemma hd_FormatUint:
  assumes "b \<le> 16" and "2 \<le> b"
  shows "\<exists>d. d < 16 \<and> hd (FormatUint b n) = digit d"
  using assms
proof (induction b n rule: FormatUint.induct)
  case (1 b n)
  show ?case
  proof (cases "n < b")
    case True
    with 1(2) have "n < 16" by simp
    with True show ?thesis by (subst FormatUint.simps) auto
  next
    case False
    with 1 obtain d where "d < 16" "hd (FormatUint b (n div b)) = digit d" by auto
    with False 1 show ?thesis by (subst FormatUint.simps) auto
  qed
qed

lemma digit_not_sign: "d < 16 \<Longrightarrow> digit d \<noteq> CHR ''-'' \<and> digit d \<noteq> CHR ''+''"
  using digit_val_digit [of d] by (auto simp: digit_val_def)

lemma hd_Format_not_sign:
  "hd (FormatUint 10 n) \<noteq> CHR ''-'' \<and> hd (FormatUint 10 n) \<noteq> CHR ''+''"
  using hd_FormatUint [of 10 n] digit_not_sign by force

lemma SetString_Format: "SetString (FormatUint 10 n) 10 = Some (int n)"
  using hd_Format_not_sign by (simp add: SetString_def parse_big_Format)

lemma ParseInt_Format: "ParseInt (FormatInt (sint v)) = Ok v"
proof (cases "sint v < 0")
  case True
  have r: "- (2 ^ 63) \<le> sint v" using sint_ge [of v] by simp
  define m where "m = nat (- sint v)"
  from r True have m: "m \<le> 2 ^ 63" "word_of_nat m = - v"
    by (auto simp: m_def nat_le_iff)
  then have "ParseUint_res 10 (FormatUint 10 m) = Ok (- v)" "unat (- v) \<le> 2 ^ 63"
    using ParseUint_Format [of 10 m] unat_of_nat_small [where 'a = 64, of m] by auto
  with True show ?thesis
    by (simp add: ParseInt_def FormatInt_def m_def)
next
  case False
  define m where "m = nat (sint v)"
  have "sint v < 2 ^ 63" using sint_lt [of v] by simp
  with False have m: "m < 2 ^ 63" "word_of_nat m = v"
    by (auto simp: m_def nat_less_iff)
  then have "ParseUint_res 10 (FormatUint 10 m) = Ok v" "unat v < 2 ^ 63"
    using ParseUint_Format [of 10 m] unat_of_nat_small [where 'a = 64, of m] by auto
  with False hd_Format_not_sign [of m] show ?thesis
    by (simp add: ParseInt_def FormatInt_def m_def)
qed

lemma hex_val_digit [simp]: "d < 16 \<Longrightarrow> hex_val (digit d) = Some d"
  by (simp add: hex_val_def)

lemma Decode_Encode_hex: "DecodeString (EncodeToString bs) = Ok bs"
proof (induction bs)
  case (Cons b bs)
  have "unat b < 256" using unsigned_less [of b] by simp
  then have "unat b div 16 < 16" by simp
  with Cons show ?case by (simp add: EncodeToString_def)
qed (simp add: EncodeToString_def)

section \<open>Canonical numerals\<close>

text \<open>Re-reading a decimal numeral in another base and printing it there gives the numeral back.\<close>

definition canonical :: "nat \<Rightarrow> string \<Rightarrow> bool" where
  "canonical b s \<longleftrightarrow> s \<noteq> [] \<and> (\<forall>c \<in> set s. \<exists>d < b. c = digit d) \<and> (hd s = digit 0 \<longrightarrow> length s = 1)"

lemma canonical_mono: "canonical b s \<Longrightarrow> b \<le> b' \<Longrightarrow> canonical b' s"
  by (auto simp: canonical_def dest: less_le_trans)

lemma FormatUint_snoc:
  "2 \<le> b \<Longrightarrow> 0 < n \<Longrightarrow> d < b \<Longrightarrow> FormatUint b (n * b + d) = FormatUint b n @ [digit d]"
proof -
  assume a: "2 \<le> b" "0 < n" "d < b"
  then have "1 * b \<le> n * b" by (intro mult_le_mono) auto
  with a have "\<not> (n * b + d < b \<or> b < 2)" by linarith
  with a show ?thesis by (subst FormatUint.simps) simp
qed

lemma Format_parse:
  assumes "2 \<le> b" "b \<le> 36" "canonical b s"
  shows "\<exists>n. parse_big b 0 s = Some n \<and> FormatUint b n = s \<and> n < b ^ length s \<and>
    (hd s \<noteq> digit 0 \<longrightarrow> 0 < n)"
  using assms(3)
proof (induction s rule: rev_induct)
  case (snoc c s)
  then obtain d where d: "d < b" "c = digit d" by (auto simp: canonical_def)
  then have dv: "digit_val c = Some d" using assms by simp
  show ?case
  proof (cases "s = []")
    case True
    with d dv assms have "FormatUint b d = [c]" by (subst FormatUint.simps) simp
    with True d dv show ?thesis
      by (cases "d = 0") (auto intro!: exI [of _ d])
  next
    case False
    with snoc have "hd s \<noteq> digit 0" "canonical b s" by (auto simp: canonical_def)
    with snoc obtain n where n: "parse_big b 0 s = Some n" "FormatUint b n = s" "0 < n"
      "n < b ^ length s"
      by blast
    have "n * b + d < (n + 1) * b" using d by simp
    also have "\<dots> \<le> b ^ length s * b" using n by (intro mult_le_mono) simp_all
    finally have "n * b + d < b ^ Suc (length s)" by (simp add: mult.commute)
    with n d dv False assms FormatUint_snoc [of b n d] show ?thesis
      by (auto simp: parse_big_append)
  qed
qed (simp add: canonical_def)

lemma set_FormatUint: "2 \<le> b \<Longrightarrow> c \<in> set (FormatUint b n) \<Longrightarrow> \<exists>d < b. c = digit d"
proof (induction b n rule: FormatUint.induct)
  case (1 b n)
  from 1(2) have "n mod b < b" by (intro mod_less_divisor) simp
  with 1 show ?case
    by (subst (asm) (2) FormatUint.simps) (fastforce split: if_splits)
qed

lemma hd_Format_zero:
  assumes "2 \<le> b" "b \<le> 36"
  shows "hd (FormatUint b n) = digit 0 \<Longrightarrow> n = 0"
  using assms
proof (induction b n rule: FormatUint.induct)
  case (1 b n)
  show ?case
  proof (cases "n < b")
    case True
    with 1 have "digit n = digit 0" by (subst (asm) (2) FormatUint.simps) simp
    with True 1 show ?thesis by (intro digit_inj) auto
  next
    case False
    with 1 have "hd (FormatUint b (n div b)) = digit 0"
      by (subst (asm) (2) FormatUint.simps) simp
    with 1(1) [OF _ this] 1(3,4) False have "n div b = 0" by simp
    with False 1 show ?thesis by (auto simp: div_eq_0_iff)
  qed
qed

lemma canonical_Format: "2 \<le> b \<Longrightarrow> b \<le> 36 \<Longrightarrow> canonical b (FormatUint b n)"
  using set_FormatUint [of b _ n] hd_Format_zero [of b n]
  by (auto simp: canonical_def FormatUint.simps [of b 0])

lemma length_Format: "2 \<le> b \<Longrightarrow> 0 < k \<Longrightarrow> n < b ^ k \<Longrightarrow> length (FormatUint b n) \<le> k"
proof (induction b n arbitrary: k rule: FormatUint.induct)
  case (1 b n)
  show ?case
  proof (cases "n < b")
    case True
    with 1 show ?thesis by (subst FormatUint.simps) simp
  next
    case False
    then obtain j where j: "k = Suc j" using 1 by (cases k) auto
    with False 1(2-4) have "n div b < b ^ j" "0 < j"
      by (auto simp: div_less_iff_less_mult mult.commute intro!: gr0I)
    with False 1 j show ?thesis by (subst FormatUint.simps) auto
  qed
qed

end
