(* ===== verification/Json.thy ===== *)
theory Json
  imports Strconv
begin

text \<open>
  Go's \<open>encoding/json\<close>, as far as the node uses it: the scanner and the value grammar,
  \<open>Unmarshal\<close> into structs whose fields are strings, integers, booleans, byte slices and string
  slices, and \<open>Marshal\<close> of such structs. Object keys are matched the way \<open>Unmarshal\<close> does, letter
  case ignored; unknown keys are skipped; \<open>null\<close> leaves a field alone; a value of the wrong kind
  makes the call return an error.
\<close>

section \<open>UTF-8\<close>

abbreviation cn :: "char \<Rightarrow> nat" where "cn \<equiv> of_char"

definition cont :: "char \<Rightarrow> bool" where "cont c \<longleftrightarrow> 128 \<le> cn c \<and> cn c \<le> 191"

text \<open>The length of the well-formed UTF-8 sequence at the start of a string, 0 if there is none.\<close>

definition utf8_size :: "string \<Rightarrow> nat" where
  "utf8_size s =
     (case s of
        [] \<Rightarrow> 0
      | a # t \<Rightarrow>
          if cn a < 128 then 1
          else (case t of
             [] \<Rightarrow> 0
           | b # t2 \<Rightarrow>
               if 194 \<le> cn a \<and> cn a \<le> 223 \<and> cont b then 2
               else (case t2 of
                  [] \<Rightarrow> 0
                | c # t3 \<Rightarrow>
                    if (cn a = 224 \<and> 160 \<le> cn b \<and> cn b \<le> 191 \<or>
                        cn a = 237 \<and> 128 \<le> cn b \<and> cn b \<le> 159 \<or>
                        225 \<le> cn a \<and> cn a \<le> 239 \<and> cn a \<noteq> 237 \<and> cont b) \<and> cont c then 3
                    else (case t3 of
                       [] \<Rightarrow> 0
                     | d # _ \<Rightarrow>
                         if (cn a = 240 \<and> 144 \<le> cn b \<and> cn b \<le> 191 \<or>
                             cn a = 244 \<and> 128 \<le> cn b \<and> cn b \<le> 143 \<or>
                             241 \<le> cn a \<and> cn a \<le> 243 \<and> cont b) \<and> cont c \<and> cont d then 4
                         else 0))))"

definition utf8_encode :: "nat \<Rightarrow> string" where
  "utf8_encode r =
     (if r < 128 then [char_of r]
      else if r < 2048 then [char_of (192 + r div 64), char_of (128 + r mod 64)]
      else if r < 65536 then
        [char_of (224 + r div 4096), char_of (128 + r div 64 mod 64), char_of (128 + r mod 64)]
      else [char_of (240 + r div 262144), char_of (128 + r div 4096 mod 64),
            char_of (128 + r div 64 mod 64), char_of (128 + r mod 64)])"

definition replacement :: string where "replacement = [CHR 0xEF, CHR 0xBF, CHR 0xBD]"

section \<open>The scanner\<close>

datatype token =
    TLBrace | TRBrace | TLBrack | TRBrack | TColon | TComma
  | TStr string | TNum string | TTrue | TFalse | TNull

fun u4 :: "string \<Rightarrow> (nat \<times> string) option" where
  "u4 (a # b # c # d # s) =
     (case (hex_val a, hex_val b, hex_val c, hex_val d) of
        (Some w, Some x, Some y, Some z) \<Rightarrow> Some (4096 * w + 256 * x + 16 * y + z, s)
      | _ \<Rightarrow> None)"
| "u4 _ = None"

definition low_surrogate :: "string \<Rightarrow> (nat \<times> string) option" where
  "low_surrogate s =
     (case s of
        a # b # t \<Rightarrow> if a = CHR 0x5C \<and> b = CHR ''u'' then
            (case u4 t of
               Some (r, t') \<Rightarrow> if 56320 \<le> r \<and> r < 57344 then Some (r, t') else None
             | None \<Rightarrow> None) else None
      | _ \<Rightarrow> None)"

text \<open>What follows a backslash: the bytes it stands for and the rest of the input.\<close>

definition escape :: "string \<Rightarrow> (string \<times> string) option" where
  "escape s =
     (case s of
        [] \<Rightarrow> None
      | c # t \<Rightarrow>
          if c = CHR 0x22 \<or> c = CHR 0x5C \<or> c = CHR ''/'' then Some ([c], t)
          else if c = CHR ''b'' then Some ([CHR 0x08], t)
          else if c = CHR ''f'' then Some ([CHR 0x0C], t)
          else if c = CHR ''n'' then Some ([CHR 0x0A], t)
          else if c = CHR ''r'' then Some ([CHR 0x0D], t)
          else if c = CHR ''t'' then Some ([CHR 0x09], t)
          else if c = CHR ''u'' then
            (case u4 t of
               None \<Rightarrow> None
             | Some (r, t') \<Rightarrow>
                 if 55296 \<le> r \<and> r < 57344 then
                   (case low_surrogate t' of
                      Some (r', t'') \<Rightarrow>
                        if r < 56320
                        then Some (utf8_encode (65536 + (r - 55296) * 1024 + (r' - 56320)), t'')
                        else Some (replacement, t')
                    | None \<Rightarrow> Some (replacement, t'))
                 else Some (utf8_encode r, t'))
          else None)"

lemma u4_length: "u4 s = Some (r, t) \<Longrightarrow> length t < length s"
  by (cases s rule: u4.cases) (auto split: option.splits)

lemma low_surrogate_length: "low_surrogate s = Some (r, t) \<Longrightarrow> length t < length s"
  by (auto simp: low_surrogate_def split: list.splits option.splits if_splits dest!: u4_length)

lemma escape_length: "escape s = Some (e, t) \<Longrightarrow> length t < length s"
  by (auto simp: escape_def split: list.splits option.splits if_splits
      dest!: u4_length low_surrogate_length)

definition prepend :: "string \<Rightarrow> (string \<times> string) option \<Rightarrow> (string \<times> string) option" where
  "prepend p = map_option (\<lambda>(s, t). (p @ s, t))"

text \<open>A string literal after its opening quote: its value and the rest of the input.\<close>

function lex_str :: "string \<Rightarrow> (string \<times> string) option" where
  "lex_str [] = None"
| "lex_str (c # cs) =
     (if c = CHR 0x22 then Some ([], cs)
      else if c = CHR 0x5C then
        (case escape cs of None \<Rightarrow> None | Some (e, t) \<Rightarrow> prepend e (lex_str t))
      else if cn c < 32 then None
      else if utf8_size (c # cs) = 0 then prepend replacement (lex_str cs)
      else prepend (take (utf8_size (c # cs)) (c # cs)) (lex_str (drop (utf8_size (c # cs) - 1) cs)))"
  by pat_completeness auto
termination
  by (relation "measure length") (auto dest: escape_length)

declare lex_str.simps(2) [simp del]

lemma lex_str_length: "lex_str s = Some (v, t) \<Longrightarrow> length t < length s"
proof (induction s arbitrary: v t rule: lex_str.induct)
  case (2 c cs)
  note prems = 2(4)
  consider "c = CHR 0x22" | "c = CHR 0x5C" | "c \<noteq> CHR 0x22" "c \<noteq> CHR 0x5C" by blast
  then show ?case
  proof cases
    case 1
    with prems show ?thesis by (simp add: lex_str.simps)
  next
    case 2
    with prems obtain e u where "escape cs = Some (e, u)" "\<exists>v'. lex_str u = Some (v', t)"
      by (auto simp: lex_str.simps prepend_def split: option.splits)
    with 2 "2.IH"(1) escape_length [of cs e u] show ?thesis by fastforce
  next
    case 3
    let ?n = "utf8_size (c # cs)"
    have "(\<exists>v'. lex_str cs = Some (v', t)) \<and> ?n = 0 \<or>
        (\<exists>v'. lex_str (drop (?n - 1) cs) = Some (v', t)) \<and> ?n \<noteq> 0" "\<not> cn c < 32"
      using prems 3 by (auto simp: lex_str.simps prepend_def split: if_splits)
    with 3 "2.IH"(2,3) show ?thesis by fastforce
  qed
qed simp

definition is_digit :: "char \<Rightarrow> bool" where
  "is_digit c \<longleftrightarrow> 48 \<le> cn c \<and> cn c \<le> 57"

definition lex_digits :: "string \<Rightarrow> (string \<times> string) option" where
  "lex_digits s = (if takeWhile is_digit s = [] then None
     else Some (takeWhile is_digit s, dropWhile is_digit s))"

definition lex_int :: "string \<Rightarrow> (string \<times> string) option" where
  "lex_int s = (case s of [] \<Rightarrow> None
     | c # t \<Rightarrow> if c = CHR ''0'' then Some ([c], t) else lex_digits s)"

definition lex_frac :: "string \<Rightarrow> (string \<times> string) option" where
  "lex_frac s = (case s of [] \<Rightarrow> Some ([], [])
     | c # t \<Rightarrow> if c = CHR ''.'' then prepend [c] (lex_digits t) else Some ([], s))"

definition lex_exp :: "string \<Rightarrow> (string \<times> string) option" where
  "lex_exp s = (case s of [] \<Rightarrow> Some ([], [])
     | c # t \<Rightarrow> if c = CHR ''e'' \<or> c = CHR ''E'' then
         (case t of [] \<Rightarrow> None
          | d # u \<Rightarrow> if d = CHR ''+'' \<or> d = CHR ''-'' then prepend [c, d] (lex_digits u)
              else prepend [c] (lex_digits t))
         else Some ([], s))"

definition lex_then :: "(string \<Rightarrow> (string \<times> string) option) \<Rightarrow>
    (string \<Rightarrow> (string \<times> string) option) \<Rightarrow> string \<Rightarrow> (string \<times> string) option" where
  "lex_then f g s = (case f s of None \<Rightarrow> None | Some (p, t) \<Rightarrow> prepend p (g t))"

definition lex_num :: "string \<Rightarrow> (string \<times> string) option" where
  "lex_num s = (case s of [] \<Rightarrow> None
     | c # t \<Rightarrow> if c = CHR ''-'' then prepend [c] (lex_then lex_int (lex_then lex_frac lex_exp) t)
         else lex_then lex_int (lex_then lex_frac lex_exp) s)"

lemma lex_digits_length: "lex_digits s = Some (p, t) \<Longrightarrow> length t < length s"
  by (cases s) (auto simp: lex_digits_def split: if_splits
      intro: le_less_trans [OF length_dropWhile_le])

lemma lex_num_length: "lex_num s = Some (p, t) \<Longrightarrow> length t < length s"
  by (auto simp: lex_num_def lex_then_def lex_int_def lex_frac_def lex_exp_def prepend_def
      split: list.splits if_splits option.splits dest!: lex_digits_length)

definition is_space :: "char \<Rightarrow> bool" where
  "is_space c \<longleftrightarrow> c = CHR '' '' \<or> c = CHR 0x09 \<or> c = CHR 0x0D \<or> c = CHR 0x0A"

definition punct :: "char \<Rightarrow> token option" where
  "punct c = (if c = CHR ''{'' then Some TLBrace else if c = CHR ''}'' then Some TRBrace
     else if c = CHR ''['' then Some TLBrack else if c = CHR '']'' then Some TRBrack
     else if c = CHR '':'' then Some TColon else if c = CHR '','' then Some TComma else None)"

definition lex_word :: "string \<Rightarrow> (token \<times> string) option" where
  "lex_word s = (if take 4 s = ''true'' then Some (TTrue, drop 4 s)
     else if take 5 s = ''false'' then Some (TFalse, drop 5 s)
     else if take 4 s = ''null'' then Some (TNull, drop 4 s) else None)"

definition lex_token :: "string \<Rightarrow> (token \<times> string) option" where
  "lex_token s = (case s of [] \<Rightarrow> None
     | c # t \<Rightarrow>
         (case punct c of
            Some tok \<Rightarrow> Some (tok, t)
          | None \<Rightarrow>
              if c = CHR 0x22 then map_option (\<lambda>(v, u). (TStr v, u)) (lex_str t)
              else if c = CHR ''-'' \<or> is_digit c then map_option (\<lambda>(v, u). (TNum v, u)) (lex_num s)
              else lex_word s))"

lemma lex_word_length: "lex_word s = Some (k, t) \<Longrightarrow> length t < length s"
  by (cases s) (auto simp: lex_word_def split: if_splits)

lemma lex_token_length: "lex_token s = Some (k, t) \<Longrightarrow> length t < length s"
  by (auto simp: lex_token_def split: list.splits option.splits if_splits
      dest: lex_str_length lex_num_length lex_word_length)

function lex :: "string \<Rightarrow> token list option" where
  "lex [] = Some []"
| "lex (c # cs) =
     (if is_space c then lex cs
      else case lex_token (c # cs) of
             None \<Rightarrow> None
           | Some (tok, t) \<Rightarrow> map_option ((#) tok) (lex t))"
  by pat_completeness auto
termination
  by (relation "measure length") (auto dest: lex_token_length)

declare lex.simps(2) [simp del]

section \<open>The value grammar\<close>

datatype json =
    JNull | JBool bool | JNum string | JStr string
  | JArr "json list" | JObj "(string \<times> json) list"

text \<open>
  The parser is the state machine of Go's scanner: what may come next, and the values still open
  around it, innermost first. An open array keeps its elements read so far, newest first, an open
  object its members and the key whose value is being read.
\<close>

datatype frame = FArr "json list" | FObj "(string \<times> json) list" string

datatype pstate =
    PVal
  | PElem
  | PFirst
  | PKey "(string \<times> json) list"
  | PColon "(string \<times> json) list" string
  | PEnd json

definition value_step :: "frame list \<Rightarrow> token \<Rightarrow> (pstate \<times> frame list) option" where
  "value_step st tok =
     (case tok of
        TStr s \<Rightarrow> Some (PEnd (JStr s), st)
      | TNum s \<Rightarrow> Some (PEnd (JNum s), st)
      | TTrue \<Rightarrow> Some (PEnd (JBool True), st)
      | TFalse \<Rightarrow> Some (PEnd (JBool False), st)
      | TNull \<Rightarrow> Some (PEnd JNull, st)
      | TLBrack \<Rightarrow> Some (PElem, st)
      | TLBrace \<Rightarrow> Some (PFirst, st)
      | _ \<Rightarrow> None)"

definition end_step :: "json \<Rightarrow> frame list \<Rightarrow> token \<Rightarrow> (pstate \<times> frame list) option" where
  "end_step v st tok =
     (case st of
        [] \<Rightarrow> None
      | FArr vs # st' \<Rightarrow>
          (if tok = TComma then Some (PVal, FArr (v # vs) # st')
           else if tok = TRBrack then Some (PEnd (JArr (rev (v # vs))), st') else None)
      | FObj kvs k # st' \<Rightarrow>
          (if tok = TComma then Some (PKey ((k, v) # kvs), st')
           else if tok = TRBrace then Some (PEnd (JObj (rev ((k, v) # kvs))), st') else None))"

primrec pstep :: "pstate \<Rightarrow> frame list \<Rightarrow> token \<Rightarrow> (pstate \<times> frame list) option" where
  "pstep PVal st tok = value_step st tok"
| "pstep PElem st tok =
     (if tok = TRBrack then Some (PEnd (JArr []), st) else value_step (FArr [] # st) tok)"
| "pstep PFirst st tok =
     (case tok of TRBrace \<Rightarrow> Some (PEnd (JObj []), st) | TStr k \<Rightarrow> Some (PColon [] k, st) | _ \<Rightarrow> None)"
| "pstep (PKey kvs) st tok = (case tok of TStr k \<Rightarrow> Some (PColon kvs k, st) | _ \<Rightarrow> None)"
| "pstep (PColon kvs k) st tok = (if tok = TColon then Some (PVal, FObj kvs k # st) else None)"
| "pstep (PEnd v) st tok = end_step v st tok"

fun prun :: "pstate \<Rightarrow> frame list \<Rightarrow> token list \<Rightarrow> json option" where
  "prun ps st [] = (case ps of PEnd v \<Rightarrow> if st = [] then Some v else None | _ \<Rightarrow> None)"
| "prun ps st (tok # ts) =
     (case pstep ps st tok of None \<Rightarrow> None | Some (ps', st') \<Rightarrow> prun ps' st' ts)"

definition json_parse :: "string \<Rightarrow> json option" where
  "json_parse s = (case lex s of None \<Rightarrow> None | Some ts \<Rightarrow> prun PVal [] ts)"

section \<open>Base64\<close>

definition b64_char :: "nat \<Rightarrow> char" where
  "b64_char n = (if n < 26 then char_of (65 + n) else if n < 52 then char_of (71 + n)
     else if n < 62 then char_of (n - 4) else if n = 62 then CHR ''+'' else CHR ''/'')"

definition b64_val :: "char \<Rightarrow> nat option" where
  "b64_val c = (let n = cn c in
     if 65 \<le> n \<and> n \<le> 90 then Some (n - 65) else if 97 \<le> n \<and> n \<le> 122 then Some (n - 71)
     else if 48 \<le> n \<and> n \<le> 57 then Some (n + 4) else if c = CHR ''+'' then Some 62
     else if c = CHR ''/'' then Some 63 else None)"

fun b64_encode :: "bytes \<Rightarrow> string" where
  "b64_encode [] = []"
| "b64_encode [a] =
     [b64_char (unat a div 4), b64_char (unat a mod 4 * 16), CHR ''='', CHR ''='']"
| "b64_encode [a, b] =
     [b64_char (unat a div 4), b64_char (unat a mod 4 * 16 + unat b div 16),
      b64_char (unat b mod 16 * 4), CHR ''='']"
| "b64_encode (a # b # c # bs) =
     [b64_char (unat a div 4), b64_char (unat a mod 4 * 16 + unat b div 16),
      b64_char (unat b mod 16 * 4 + unat c div 64), b64_char (unat c mod 64)] @ b64_encode bs"

fun b64_groups :: "string \<Rightarrow> bytes option" where
  "b64_groups [] = Some []"
| "b64_groups (p # q # r # s # cs) =
     (case (b64_val p, b64_val q) of
        (Some w, Some x) \<Rightarrow>
          (if r = CHR ''='' then
             (if s = CHR ''='' \<and> cs = [] then Some [word_of_nat (w * 4 + x div 16)] else None)
           else case b64_val r of
             None \<Rightarrow> None
           | Some y \<Rightarrow>
               if s = CHR ''='' then
                 (if cs = [] then Some [word_of_nat (w * 4 + x div 16),
                    word_of_nat (x mod 16 * 16 + y div 4)] else None)
               else (case b64_val s of
                  None \<Rightarrow> None
                | Some z \<Rightarrow> map_option (\<lambda>bs.
                    word_of_nat (w * 4 + x div 16) # word_of_nat (x mod 16 * 16 + y div 4) #
                    word_of_nat (y mod 4 * 64 + z) # bs) (b64_groups cs)))
      | _ \<Rightarrow> None)"
| "b64_groups _ = None"

text \<open>\<open>base64.StdEncoding\<close> skips line ends in its input.\<close>

definition b64_decode :: "string \<Rightarrow> bytes option" where
  "b64_decode s = b64_groups (filter (\<lambda>c. c \<noteq> CHR 0x0D \<and> c \<noteq> CHR 0x0A) s)"

end
