(* ===== verification/Marshal.thy ===== *)
theory Marshal
  imports Json
begin

text \<open>
  \<open>json.Unmarshal\<close> into a struct and \<open>json.Marshal\<close> of a struct. A struct type is described by
  the list of its fields, each with its JSON name and what decoding a value does to the struct.
\<close>

section \<open>Decoding values\<close>

definition typeError :: string where "typeError = ''json: cannot unmarshal value''"

definition dec_string :: "json \<Rightarrow> string \<Rightarrow> string res" where
  "dec_string v old = (case v of JStr s \<Rightarrow> Ok s | JNull \<Rightarrow> Ok old | _ \<Rightarrow> Err typeError)"

definition dec_bool :: "json \<Rightarrow> bool \<Rightarrow> bool res" where
  "dec_bool v old = (case v of JBool b \<Rightarrow> Ok b | JNull \<Rightarrow> Ok old | _ \<Rightarrow> Err typeError)"

definition dec_int64 :: "json \<Rightarrow> int64 \<Rightarrow> int64 res" where
  "dec_int64 v old = (case v of JNum s \<Rightarrow> ParseInt s | JNull \<Rightarrow> Ok old | _ \<Rightarrow> Err typeError)"

definition dec_uint64 :: "json \<Rightarrow> u64 \<Rightarrow> u64 res" where
  "dec_uint64 v old = (case v of JNum s \<Rightarrow> ParseUint_res 10 s | JNull \<Rightarrow> Ok old | _ \<Rightarrow> Err typeError)"

definition dec_byte :: "json \<Rightarrow> byte \<Rightarrow> byte res" where
  "dec_byte v old = (case v of
     JNum s \<Rightarrow> res_bind (ParseUint_res 10 s) (\<lambda>w. if unat w < 256 then Ok (ucast w) else Err errRange)
   | JNull \<Rightarrow> Ok old | _ \<Rightarrow> Err typeError)"

text \<open>An array decodes element by element over the slice that is there already.\<close>

fun dec_elems :: "(json \<Rightarrow> 'a \<Rightarrow> 'a res) \<Rightarrow> 'a \<Rightarrow> json list \<Rightarrow> 'a list \<Rightarrow> 'a list res" where
  "dec_elems d z [] old = Ok []"
| "dec_elems d z (v # vs) old =
     res_bind (d v (case old of [] \<Rightarrow> z | x # _ \<Rightarrow> x))
       (\<lambda>y. res_bind (dec_elems d z vs (tl old)) (\<lambda>ys. Ok (y # ys)))"

definition dec_bytes :: "json \<Rightarrow> bytes \<Rightarrow> bytes res" where
  "dec_bytes v old = (case v of
     JStr s \<Rightarrow> (case b64_decode s of Some bs \<Rightarrow> Ok bs | None \<Rightarrow> Err ''illegal base64 data'')
   | JNull \<Rightarrow> Ok [] | JArr vs \<Rightarrow> dec_elems dec_byte 0 vs old | _ \<Rightarrow> Err typeError)"

definition dec_strings :: "json \<Rightarrow> string list \<Rightarrow> string list res" where
  "dec_strings v old = (case v of
     JArr vs \<Rightarrow> dec_elems dec_string [] vs old | JNull \<Rightarrow> Ok [] | _ \<Rightarrow> Err typeError)"

section \<open>Structs\<close>

type_synonym 'r field = "string \<times> (json \<Rightarrow> 'r \<Rightarrow> 'r res)"

definition field :: "string \<Rightarrow> (json \<Rightarrow> 'a \<Rightarrow> 'a res) \<Rightarrow> ('r \<Rightarrow> 'a) \<Rightarrow> (('a \<Rightarrow> 'a) \<Rightarrow> 'r \<Rightarrow> 'r) \<Rightarrow>
    'r field" where
  "field name d get upd = (name, \<lambda>v r. res_bind (d v (get r)) (\<lambda>x. Ok (upd (\<lambda>_. x) r)))"

definition lower :: "char \<Rightarrow> char" where
  "lower c = (if 65 \<le> cn c \<and> cn c \<le> 90 then char_of (cn c + 32) else c)"

text \<open>Case folding of keys; the long s and the Kelvin sign fold to letters.\<close>

fun fold_key :: "string \<Rightarrow> string" where
  "fold_key [] = []"
| "fold_key (a # s) =
     (if a = CHR 0xC5 \<and> s \<noteq> [] \<and> hd s = CHR 0xBF then CHR ''s'' # fold_key (drop 1 s)
      else if a = CHR 0xE2 \<and> 2 \<le> length s \<and> take 2 s = [CHR 0x84, CHR 0xAA]
      then CHR ''k'' # fold_key (drop 2 s)
      else lower a # fold_key s)"

definition find_field :: "'r field list \<Rightarrow> string \<Rightarrow> 'r field option" where
  "find_field fs k =
     (case find (\<lambda>f. fst f = k) fs of
        Some f \<Rightarrow> Some f
      | None \<Rightarrow> find (\<lambda>f. fold_key (fst f) = fold_key k) fs)"

fun dec_members :: "'r field list \<Rightarrow> (string \<times> json) list \<Rightarrow> 'r \<Rightarrow> 'r res" where
  "dec_members fs [] r = Ok r"
| "dec_members fs ((k, v) # kvs) r =
     res_bind (case find_field fs k of None \<Rightarrow> Ok r | Some (_, d) \<Rightarrow> d v r) (dec_members fs kvs)"

definition Unmarshal :: "'r field list \<Rightarrow> bytes \<Rightarrow> 'r \<Rightarrow> 'r res" where
  "Unmarshal fs bs r =
     (case json_parse (string_of_bytes bs) of
        None \<Rightarrow> Err ''invalid character in JSON''
      | Some v \<Rightarrow> (case v of JObj kvs \<Rightarrow> dec_members fs kvs r | JNull \<Rightarrow> Ok r | _ \<Rightarrow> Err typeError))"

section \<open>Encoding\<close>

definition esc_ascii :: "char \<Rightarrow> string" where
  "esc_ascii c =
     (if c = CHR 0x22 \<or> c = CHR 0x5C then [CHR 0x5C, c]
      else if c = CHR 0x0A then [CHR 0x5C, CHR ''n'']
      else if c = CHR 0x0D then [CHR 0x5C, CHR ''r'']
      else if c = CHR 0x09 then [CHR 0x5C, CHR ''t'']
      else if cn c < 32 \<or> c = CHR ''<'' \<or> c = CHR ''>'' \<or> c = CHR ''&''
      then CHR 0x5C # ''u00'' @ [digit (cn c div 16), digit (cn c mod 16)]
      else [c])"

function esc_str :: "string \<Rightarrow> string" where
  "esc_str [] = []"
| "esc_str (c # cs) =
     (if cn c < 128 then esc_ascii c @ esc_str cs
      else let k = utf8_size (c # cs) in
        if k = 0 then CHR 0x5C # ''ufffd'' @ esc_str cs
        else if take k (c # cs) = [CHR 0xE2, CHR 0x80, CHR 0xA8]
        then CHR 0x5C # ''u2028'' @ esc_str (drop (k - 1) cs)
        else if take k (c # cs) = [CHR 0xE2, CHR 0x80, CHR 0xA9]
        then CHR 0x5C # ''u2029'' @ esc_str (drop (k - 1) cs)
        else take k (c # cs) @ esc_str (drop (k - 1) cs))"
  by pat_completeness auto
termination
  by (relation "measure length") auto

declare esc_str.simps(2) [simp del]

definition enc_string :: "string \<Rightarrow> string" where
  "enc_string s = CHR 0x22 # esc_str s @ [CHR 0x22]"

definition enc_int64 :: "int64 \<Rightarrow> string" where "enc_int64 v = FormatInt (sint v)"

definition enc_bool :: "bool \<Rightarrow> string" where "enc_bool b = (if b then ''true'' else ''false'')"

text \<open>A byte slice that is not nil.\<close>

definition enc_bytes :: "bytes \<Rightarrow> string" where
  "enc_bytes bs = CHR 0x22 # b64_encode bs @ [CHR 0x22]"

fun enc_members :: "(string \<times> string) list \<Rightarrow> string" where
  "enc_members [] = []"
| "enc_members [(k, v)] = enc_string k @ CHR '':'' # v"
| "enc_members ((k, v) # kvs) = enc_string k @ CHR '':'' # v @ CHR '','' # enc_members kvs"

definition enc_struct :: "(string \<times> string) list \<Rightarrow> bytes" where
  "enc_struct kvs = bytes_of_string (CHR ''{'' # enc_members kvs @ ''}'')"

section \<open>Base64 round trip\<close>

lemma b64_val_char [simp]: "n < 64 \<Longrightarrow> b64_val (b64_char n) = Some n"
  by (auto simp: b64_val_def b64_char_def Let_def)

lemma b64_char_plain: "n < 64 \<Longrightarrow> b64_char n \<noteq> CHR ''='' \<and> b64_char n \<noteq> CHR 0x0D \<and> b64_char n \<noteq> CHR 0x0A"
  using b64_val_char [of n] by (auto simp: b64_val_def)

lemma byte_bound: "unat (b :: byte) < 256"
  using unsigned_less [of b] by simp

lemma b64_parts [simp]:
  "unat (a :: byte) div 4 < 64" "unat (a :: byte) mod 4 * 16 < 64"
  "unat (a :: byte) mod 4 * 16 + unat (b :: byte) div 16 < 64" "unat (b :: byte) mod 16 * 4 < 64"
  "unat (b :: byte) mod 16 * 4 + unat (c :: byte) div 64 < 64" "unat (c :: byte) mod 64 < 64"
  using byte_bound [of a] byte_bound [of b] byte_bound [of c] by auto

lemma byte_small [simp]:
  "unat (b :: byte) div 16 div 16 = 0" "unat (b :: byte) div 16 mod 16 = unat b div 16"
  "unat (b :: byte) div 64 div 4 = 0" "unat (b :: byte) div 64 mod 4 = unat b div 64"
  using byte_bound [of b] by (auto simp: div_mult2_eq [symmetric])

lemma byte_join [simp]:
  "word_of_nat (unat (b :: byte) div 16) * 16 + word_of_nat (unat b mod 16) = b"
  "word_of_nat (unat (b :: byte) div 64) * 64 + word_of_nat (unat b mod 64) = b"
  "word_of_nat (unat (b :: byte) div 4) * 4 + word_of_nat (unat b mod 4) = b"
proof -
  have "(word_of_nat (unat b div m * m + unat b mod m) :: byte) = b" for m by simp
  from this [of 16] this [of 64] this [of 4] show
    "word_of_nat (unat b div 16) * 16 + word_of_nat (unat b mod 16) = b"
    "word_of_nat (unat b div 64) * 64 + word_of_nat (unat b mod 64) = b"
    "word_of_nat (unat b div 4) * 4 + word_of_nat (unat b mod 4) = b"
    by (simp_all only: of_nat_add of_nat_mult of_nat_numeral)
qed

lemmas b64_plain = b64_char_plain [OF b64_parts(1)] b64_char_plain [OF b64_parts(2)]
  b64_char_plain [OF b64_parts(3)] b64_char_plain [OF b64_parts(4)] b64_char_plain [OF b64_parts(5)]
  b64_char_plain [OF b64_parts(6)]

lemma b64_groups_encode: "b64_groups (b64_encode bs) = Some bs"
  by (induction bs rule: b64_encode.induct) (simp_all add: b64_plain)

lemma b64_encode_chars: "\<forall>c \<in> set (b64_encode bs). c = CHR ''='' \<or> (\<exists>n < 64. c = b64_char n)"
  by (induction bs rule: b64_encode.induct) (auto intro: b64_parts)

lemma b64_decode_encode: "b64_decode (b64_encode bs) = Some bs"
proof -
  have "c \<noteq> CHR 0x0D \<and> c \<noteq> CHR 0x0A" if "c \<in> set (b64_encode bs)" for c
    using b64_encode_chars [of bs] that b64_char_plain by fastforce
  then have "filter (\<lambda>c. c \<noteq> CHR 0x0D \<and> c \<noteq> CHR 0x0A) (b64_encode bs) = b64_encode bs"
    by (simp add: filter_id_conv)
  then show ?thesis by (simp add: b64_decode_def b64_groups_encode)
qed

section \<open>Scanning what was encoded\<close>

text \<open>Text after which a scalar ends.\<close>

definition delim :: "string \<Rightarrow> bool" where
  "delim s \<longleftrightarrow> s = [] \<or> hd s \<in> set '',}]''"

definition lexes :: "string \<Rightarrow> token list \<Rightarrow> bool" where
  "lexes s ts \<longleftrightarrow> (\<forall>rest. delim rest \<longrightarrow> lex (s @ rest) = map_option ((@) ts) (lex rest))"

definition ascii :: "string \<Rightarrow> bool" where
  "ascii s \<longleftrightarrow> (\<forall>c \<in> set s. cn c < 128)"

lemma esc_str_ascii: "cn c < 128 \<Longrightarrow> esc_str (c # s) = esc_ascii c @ esc_str s"
  by (simp add: esc_str.simps)

lemma utf8_size_ascii: "cn c < 128 \<Longrightarrow> utf8_size (c # s) = 1"
  by (simp add: utf8_size_def)

lemma char_of_cn [simp]: "char_of (cn c) = c"
  by simp

lemma digit_0: "digit 0 = CHR ''0''"
  by code_simp

lemma hex_val_0 [simp]: "hex_val (CHR ''0'') = Some 0"
  using hex_val_digit [of 0] by (simp add: digit_0)

lemma escape_hex:
  assumes "cn c < 128"
  shows "escape (''u00'' @ digit (cn c div 16) # digit (cn c mod 16) # t) = Some ([c], t)"
proof -
  have "cn c div 16 < 16" using assms by simp
  moreover have "16 * (cn c div 16) + cn c mod 16 = cn c" by simp
  ultimately show ?thesis
    using assms by (simp add: escape_def utf8_encode_def)
qed

lemma lex_str_esc: "cn c < 128 \<Longrightarrow> lex_str (esc_ascii c @ t) = prepend [c] (lex_str t)"
  using escape_hex [of c t]
  by (auto simp: esc_ascii_def lex_str.simps escape_def [of "_ # t"] utf8_size_ascii not_less)

lemma lex_str_enc: "ascii s \<Longrightarrow> lex_str (esc_str s @ CHR 0x22 # t) = Some (s, t)"
proof (induction s)
  case Nil
  then show ?case by (simp add: lex_str.simps)
next
  case (Cons c s)
  then have "cn c < 128" "ascii s" by (auto simp: ascii_def)
  with Cons show ?case by (simp add: esc_str_ascii lex_str_esc prepend_def)
qed

lemma quote_token: "punct (CHR 0x22) = None" "\<not> is_space (CHR 0x22)"
  by (simp_all add: punct_def is_space_def)

lemma lex_quoted:
  "lex_str (s @ CHR 0x22 # rest) = Some (v, rest) \<Longrightarrow>
     lex (CHR 0x22 # s @ CHR 0x22 # rest) = map_option ((@) [TStr v]) (lex rest)"
  by (simp add: lex.simps lex_token_def quote_token comp_def map_option_case split: option.splits)

lemma lex_enc_string: "ascii s \<Longrightarrow> lex (enc_string s @ rest) = map_option ((@) [TStr s]) (lex rest)"
  using lex_quoted [OF lex_str_enc, of s rest] by (simp add: enc_string_def)

lemma b64_char_safe: "n < 64 \<Longrightarrow> 32 \<le> cn (b64_char n) \<and> cn (b64_char n) < 128 \<and>
    b64_char n \<noteq> CHR 0x22 \<and> b64_char n \<noteq> CHR 0x5C"
proof -
  assume n: "n < 64"
  then have "32 \<le> cn (b64_char n)" "cn (b64_char n) < 128" by (auto simp: b64_char_def)
  then show ?thesis using b64_val_char [OF n] by (auto simp: b64_val_def)
qed

lemma lex_str_safe:
  "\<forall>c \<in> set s. 32 \<le> cn c \<and> cn c < 128 \<and> c \<noteq> CHR 0x22 \<and> c \<noteq> CHR 0x5C \<Longrightarrow>
     lex_str (s @ CHR 0x22 # t) = Some (s, t)"
  by (induction s) (auto simp: lex_str.simps utf8_size_ascii prepend_def)

lemma lex_enc_bytes:
  "lex (enc_bytes bs @ rest) = map_option ((@) [TStr (b64_encode bs)]) (lex rest)"
proof -
  have "\<forall>c \<in> set (b64_encode bs). 32 \<le> cn c \<and> cn c < 128 \<and> c \<noteq> CHR 0x22 \<and> c \<noteq> CHR 0x5C"
    using b64_encode_chars [of bs] b64_char_safe by fastforce
  from lex_quoted [OF lex_str_safe [OF this], of rest] show ?thesis by (simp add: enc_bytes_def)
qed

lemma is_digit_digit: "d < 10 \<Longrightarrow> is_digit (digit d)"
  by (simp add: is_digit_def digit_def)

lemma Format_digits: "c \<in> set (FormatUint 10 n) \<Longrightarrow> is_digit c"
  using set_FormatUint [of 10 c n] is_digit_digit by auto

lemma takeWhile_all: "\<forall>c \<in> set s. P c \<Longrightarrow> rest = [] \<or> \<not> P (hd rest) \<Longrightarrow>
    takeWhile P (s @ rest) = s \<and> dropWhile P (s @ rest) = rest"
  by (cases rest) (simp_all add: takeWhile_append dropWhile_append takeWhile_eq_all_conv)

lemma delim_hd: "delim (c # s) \<Longrightarrow> c = CHR '','' \<or> c = CHR ''}'' \<or> c = CHR '']''"
  by (simp add: delim_def)

lemma delim_not_digit: "delim rest \<Longrightarrow> rest = [] \<or> \<not> is_digit (hd rest)"
  by (cases rest) (auto simp: delim_def is_digit_def)

lemma lex_digits_Format:
  assumes "delim rest"
  shows "lex_digits (FormatUint 10 n @ rest) = Some (FormatUint 10 n, rest)"
proof -
  have "\<forall>c \<in> set (FormatUint 10 n). is_digit c" using Format_digits by blast
  from takeWhile_all [OF this delim_not_digit [OF assms]] show ?thesis
    by (simp add: lex_digits_def)
qed

lemma lex_int_Format:
  assumes "delim rest"
  shows "lex_int (FormatUint 10 n @ rest) = Some (FormatUint 10 n, rest)"
proof (cases "hd (FormatUint 10 n) = digit 0")
  case True
  then have "n = 0" using hd_Format_zero [of 10 n] by simp
  then show ?thesis by (simp add: lex_int_def FormatUint.simps digit_0)
next
  case False
  then obtain c t where "FormatUint 10 n = c # t" "c \<noteq> CHR ''0''"
    by (cases "FormatUint 10 n") (auto simp: digit_0)
  with lex_digits_Format [OF assms, of n] show ?thesis by (simp add: lex_int_def)
qed

lemma lex_tail: "delim rest \<Longrightarrow> lex_then lex_frac lex_exp rest = Some ([], rest)"
  using delim_hd by (cases rest) (auto simp: lex_then_def lex_frac_def lex_exp_def prepend_def)

lemma lex_num_Format:
  assumes "delim rest"
  shows "lex_num (FormatInt i @ rest) = Some (FormatInt i, rest)"
proof -
  have a: "lex_then lex_int (lex_then lex_frac lex_exp) (FormatUint 10 n @ rest) =
      Some (FormatUint 10 n, rest)" for n
    using assms by (simp add: lex_then_def [of lex_int] lex_int_Format lex_tail prepend_def)
  obtain c t where "FormatUint 10 (nat i) = c # t" "c \<noteq> CHR ''-''"
    using hd_Format_not_sign [of "nat i"] by (cases "FormatUint 10 (nat i)") auto
  with a [of "nat i"] a [of "nat (- i)"] show ?thesis
    by (simp add: FormatInt_def lex_num_def prepend_def)
qed

lemma hd_FormatInt: "\<exists>c t. FormatInt i = c # t \<and> (c = CHR ''-'' \<or> is_digit c)"
proof (cases "i < 0")
  case False
  obtain c t where "FormatUint 10 (nat i) = c # t" by (cases "FormatUint 10 (nat i)") auto
  with False Format_digits [of c "nat i"] show ?thesis by (simp add: FormatInt_def)
qed (simp add: FormatInt_def)

lemma not_digit:
  "\<not> is_digit (CHR ''{'')" "\<not> is_digit (CHR ''}'')" "\<not> is_digit (CHR ''['')" "\<not> is_digit (CHR '']'')"
  "\<not> is_digit (CHR '':'')" "\<not> is_digit (CHR '','')" "\<not> is_digit (CHR '' '')" "\<not> is_digit (CHR 0x09)"
  "\<not> is_digit (CHR 0x0D)" "\<not> is_digit (CHR 0x0A)" "\<not> is_digit (CHR 0x22)"
  by (simp_all add: is_digit_def)

lemma digit_token:
  assumes "c = CHR ''-'' \<or> is_digit c"
  shows "punct c = None \<and> \<not> is_space c \<and> c \<noteq> CHR 0x22"
proof (cases "is_digit c")
  case True
  with not_digit have "c \<noteq> CHR ''{''" "c \<noteq> CHR ''}''" "c \<noteq> CHR ''[''" "c \<noteq> CHR '']''"
    "c \<noteq> CHR '':''" "c \<noteq> CHR '',''" "c \<noteq> CHR '' ''" "c \<noteq> CHR 0x09" "c \<noteq> CHR 0x0D"
    "c \<noteq> CHR 0x0A" "c \<noteq> CHR 0x22"
    by metis+
  then show ?thesis by (simp add: punct_def is_space_def)
next
  case False
  with assms show ?thesis by (simp add: punct_def is_space_def)
qed

lemma lex_FormatInt:
  assumes "delim rest"
  shows "lex (FormatInt i @ rest) = map_option ((@) [TNum (FormatInt i)]) (lex rest)"
proof -
  obtain c t where f: "FormatInt i = c # t" "c = CHR ''-'' \<or> is_digit c"
    using hd_FormatInt by blast
  then have "lex_token (c # t @ rest) = Some (TNum (FormatInt i), rest)"
    using lex_num_Format [OF assms, of i] digit_token [of c] by (simp add: lex_token_def)
  with f digit_token [of c] show ?thesis
    by (simp add: lex.simps comp_def map_option_case split: option.splits)
qed

lemma word_token:
  "lex_token (''true'' @ rest) = Some (TTrue, rest)"
  "lex_token (''false'' @ rest) = Some (TFalse, rest)"
  "\<not> is_space (CHR ''t'')" "\<not> is_space (CHR ''f'')"
  by (simp_all add: lex_token_def lex_word_def punct_def is_digit_def is_space_def)

lemma lex_cons_token:
  "lex_token (c # cs) = Some (tok, t) \<Longrightarrow> \<not> is_space c \<Longrightarrow>
     lex (c # cs) = map_option ((@) [tok]) (lex t)"
  by (simp add: lex.simps comp_def map_option_case split: option.splits)

lemma lex_bool: "lex (enc_bool b @ rest) = map_option ((@) [if b then TTrue else TFalse]) (lex rest)"
  using lex_cons_token [of "CHR ''t''" "''rue'' @ rest"] lex_cons_token [of "CHR ''f''" "''alse'' @ rest"]
    word_token
  by (cases b) (simp_all add: enc_bool_def)

lemmas lexes_scalars =
  lexes_def [of "enc_string s" "[TStr s]" for s, THEN iffD2, rule_format, OF lex_enc_string]
  lexes_def [of "enc_bytes bs" "[TStr (b64_encode bs)]" for bs, THEN iffD2, rule_format, OF lex_enc_bytes]
  lexes_def [of "enc_int64 v" "[TNum (enc_int64 v)]" for v, unfolded enc_int64_def, THEN iffD2,
    rule_format, OF lex_FormatInt, folded enc_int64_def]
  lexes_def [of "enc_bool b" "[if b then TTrue else TFalse]" for b, THEN iffD2, rule_format, OF lex_bool]

section \<open>Decoding an encoded struct\<close>

text \<open>The text of a scalar with the token it scans to and the value that token stands for.\<close>

definition scalar :: "string \<Rightarrow> token \<Rightarrow> json \<Rightarrow> bool" where
  "scalar s tok v \<longleftrightarrow> lexes s [tok] \<and> (\<forall>st. value_step st tok = Some (PEnd v, st))"

lemma scalar_string: "ascii s \<Longrightarrow> scalar (enc_string s) (TStr s) (JStr s)"
  using lexes_scalars(1) by (simp add: scalar_def value_step_def)

lemma scalar_bytes: "scalar (enc_bytes bs) (TStr (b64_encode bs)) (JStr (b64_encode bs))"
  using lexes_scalars(2) by (simp add: scalar_def value_step_def)

lemma scalar_int64: "scalar (enc_int64 v) (TNum (enc_int64 v)) (JNum (enc_int64 v))"
  using lexes_scalars(3) by (simp add: scalar_def value_step_def)

lemma scalar_bool: "scalar (enc_bool b) (if b then TTrue else TFalse) (JBool b)"
  using lexes_scalars(4) [of b] by (simp add: scalar_def value_step_def)

lemmas scalars = scalar_string scalar_bytes scalar_int64 scalar_bool

fun mem_toks :: "(string \<times> token) list \<Rightarrow> token list" where
  "mem_toks [] = []"
| "mem_toks [(k, t)] = [TStr k, TColon, t]"
| "mem_toks ((k, t) # m # ms) = TStr k # TColon # t # TComma # mem_toks (m # ms)"

lemma lex_punct: "punct c = Some tok \<Longrightarrow> lex (c # cs) = map_option ((@) [tok]) (lex cs)"
  by (rule lex_cons_token)
    (auto simp: lex_token_def punct_def is_space_def split: if_splits)

lemma punct_simps [simp]:
  "punct (CHR ''{'') = Some TLBrace" "punct (CHR ''}'') = Some TRBrace"
  "punct (CHR '':'') = Some TColon" "punct (CHR '','') = Some TComma"
  by (simp_all add: punct_def)

lemma lex_key_value:
  assumes "ascii k" "lexes s [t]" "delim rest"
  shows "lex (enc_string k @ CHR '':'' # s @ rest) = map_option ((@) [TStr k, TColon, t]) (lex rest)"
  using assms
  by (cases "lex rest") (simp_all add: lex_enc_string lex_punct lexes_def)

type_synonym member = "string \<times> string \<times> token \<times> json"

definition members_ok :: "member list \<Rightarrow> bool" where
  "members_ok ms \<longleftrightarrow> ms \<noteq> [] \<and> (\<forall>(k, s, t, v) \<in> set ms. ascii k \<and> scalar s t v)"

abbreviation member_texts :: "member list \<Rightarrow> (string \<times> string) list" where
  "member_texts \<equiv> map (\<lambda>m. (fst m, fst (snd m)))"

abbreviation member_toks :: "member list \<Rightarrow> (string \<times> token) list" where
  "member_toks \<equiv> map (\<lambda>m. (fst m, fst (snd (snd m))))"

abbreviation member_vals :: "member list \<Rightarrow> (string \<times> json) list" where
  "member_vals \<equiv> map (\<lambda>m. (fst m, snd (snd (snd m))))"

lemma lex_members:
  "members_ok ms \<Longrightarrow> lex (enc_members (member_texts ms) @ ''}'') = Some (mem_toks (member_toks ms) @ [TRBrace])"
proof (induction ms rule: induct_list012)
  case (2 m)
  obtain k s t v where "m = (k, s, t, v)" by (metis surj_pair)
  with 2 lex_key_value [of k s t "''}''"] show ?case
    by (simp add: members_ok_def scalar_def delim_def lex_punct)
next
  case (3 m m' ms)
  obtain k s t v where m: "m = (k, s, t, v)" by (metis surj_pair)
  obtain k' s' t' v' where m': "m' = (k', s', t', v')" by (metis surj_pair)
  from 3 m have "members_ok (m' # ms)" "ascii k" "lexes s [t]"
    by (auto simp: members_ok_def scalar_def)
  with 3 m m' lex_key_value [of k s t "CHR '','' # enc_members (member_texts (m' # ms)) @ ''}''"]
  show ?case
    by (cases ms) (simp_all add: delim_def lex_punct)
qed (simp add: members_ok_def)

lemma prun_members:
  "members_ok ms \<Longrightarrow>
     prun (PKey acc) [] (mem_toks (member_toks ms) @ [TRBrace]) = Some (JObj (rev acc @ member_vals ms))"
proof (induction ms arbitrary: acc rule: induct_list012)
  case (2 m)
  then show ?case
    by (cases m) (auto simp: members_ok_def scalar_def end_step_def)
next
  case (3 m m' ms)
  obtain k s t v where m: "m = (k, s, t, v)" by (metis surj_pair)
  obtain k' s' t' v' where m': "m' = (k', s', t', v')" by (metis surj_pair)
  from 3 m have "members_ok (m' # ms)" "value_step [FObj acc k] t = Some (PEnd v, [FObj acc k])"
    by (auto simp: members_ok_def scalar_def)
  with 3(2) [of "(k, v) # acc"] m m' show ?case
    by (simp add: end_step_def)
qed (simp add: members_ok_def)

lemma parse_struct:
  assumes "members_ok ms"
  shows "json_parse (CHR ''{'' # enc_members (member_texts ms) @ ''}'') = Some (JObj (member_vals ms))"
proof -
  obtain k t ts where h: "mem_toks (member_toks ms) = TStr k # ts"
    using assms by (cases ms rule: remdups_adj.cases) (auto simp: members_ok_def split: prod.splits)
  have "lex (CHR ''{'' # enc_members (member_texts ms) @ ''}'') = Some (TLBrace # mem_toks (member_toks ms) @ [TRBrace])"
    using lex_members [OF assms] by (simp add: lex_punct)
  moreover have "prun PFirst [] (mem_toks (member_toks ms) @ [TRBrace]) =
      prun (PKey []) [] (mem_toks (member_toks ms) @ [TRBrace])"
    by (simp add: h)
  ultimately show ?thesis
    using prun_members [OF assms, of "[]"] by (simp add: json_parse_def value_step_def)
qed

lemma string_bytes_string [simp]: "string_of_bytes (bytes_of_string s) = s"
proof -
  have "unat (word_of_nat (cn c) :: byte) = cn c" for c
    by (rule unat_of_nat_small) simp
  then show ?thesis by (induction s) (simp_all add: string_of_bytes_def bytes_of_string_def)
qed

lemma Unmarshal_struct:
  assumes "members_ok ms"
  shows "Unmarshal fs (enc_struct (member_texts ms)) r = dec_members fs (member_vals ms) r"
  by (simp add: Unmarshal_def enc_struct_def parse_struct [OF assms])

lemma dec_scalars [simp]:
  "dec_string (JStr s) x = Ok s" "dec_bool (JBool b) y = Ok b"
  "dec_int64 (JNum (enc_int64 v)) z = Ok v"
  "dec_bytes (JStr (b64_encode bs)) w = Ok bs"
  by (simp_all add: dec_string_def dec_bool_def dec_int64_def dec_bytes_def enc_int64_def
      ParseInt_Format b64_decode_encode)

end
