(* ===== verification/World.thy ===== *)
theory World
  imports Exchange Marshal
begin

text \<open>
  What the main package works on, beside its node: the file system, the transaction map, the map
  of locked deposits, and the services it calls (the exchange contract, the proof library, the
  database driver, the clock, the operating system). A service is a function of the parameter
  record \<open>ext\<close>. Every call is recorded in the history of the world, newest first, and the answer
  of a service may depend on the whole history of calls up to and including the one answered,
  so that nothing is assumed of a service unless a theorem says so.
\<close>

section \<open>Data\<close>

text \<open>\<open>Bulletin\<close> of \<^verbatim>\<open>file.go\<close>.\<close>

record Bulletin =
  blt_Mode :: string
  blt_Size :: string
  blt_S :: string
  blt_N :: string
  blt_SigmaMKLRoot :: string
  blt_VRFMetaDigest :: string

text \<open>The packages of the proof library, one for each transaction mode.\<close>

datatype pod_pkg = PC | POC | PAS | PASVC | TC | TOC | TAS | TASVC | TQ | TOQ

text \<open>
  \<open>Transaction\<close> of \<^verbatim>\<open>seller_tx.go\<close>. Its ten session fields hold a pointer to a session of the
  library each; here they are one function from the package to the handle, \<open>None\<close> for nil.
\<close>

record Transaction =
  tx_SessionID :: string
  tx_Status :: string
  tx_Bulletin :: Bulletin
  tx_BobPubKey :: pubkey
  tx_BobAddr :: string
  tx_AliceAddr :: string
  tx_Mode :: string
  tx_SubMode :: string
  tx_OT :: bool
  tx_Price :: int64
  tx_UnitPrice :: int64
  tx_Count :: int64
  tx_ExpireAt :: int64
  tx_Session :: "pod_pkg \<Rightarrow> nat option"

text \<open>The row type \<open>AliceTx\<close> of \<^verbatim>\<open>db.go\<close>; its dates are filled in by the database driver.\<close>

record AliceTx =
  atx_SessionId :: string
  atx_Status :: string
  atx_AliceAddr :: string
  atx_BobPubKey :: string
  atx_BobAddr :: string
  atx_Mode :: string
  atx_SubMode :: string
  atx_OT :: bool
  atx_Size :: string
  atx_S :: string
  atx_N :: string
  atx_SigmaMKLRoot :: string
  atx_Price :: int64
  atx_UnitPrice :: int64
  atx_ExpireAt :: int64
  atx_Count :: int64

text \<open>The ranges a buyer asks for, \<open>Demand\<close> and \<open>Phantom\<close> of \<^verbatim>\<open>init.go\<close>.\<close>

record Demand =
  DemandStart :: u64
  DemandCount :: u64

record PhantomRange =
  PhantomStart :: u64
  PhantomCount :: u64

text \<open>A slice whose nil value is told apart from the empty slice, as JSON does.\<close>

type_synonym 'a gslice = "'a list option"

definition elems :: "'a gslice \<Rightarrow> 'a list" where
  "elems s = (case s of None \<Rightarrow> [] | Some xs \<Rightarrow> xs)"

text \<open>
  The ten structs \<open>PoDBobPC\<close>, ..., \<open>PoDBobTOQ\<close> in one: each has a library session and some of
  these fields; the fields a struct does not have keep their zero value.
\<close>

record PoDBob =
  BobSession :: "nat option"
  Demands :: "Demand gslice"
  Phantoms :: "PhantomRange gslice"
  KeyName :: string
  KeyValue :: "string gslice"
  PhantomKeyValue :: "string gslice"

definition zero_PoDBob :: PoDBob where
  "zero_PoDBob = \<lparr>BobSession = None, Demands = None, Phantoms = None, KeyName = [], KeyValue = None,
     PhantomKeyValue = None\<rparr>"

text \<open>\<open>BobTransaction\<close> of \<^verbatim>\<open>buyer_tx.go\<close>; its ten session fields are one function.\<close>

record BobTransaction =
  bt_SessionID :: string
  bt_Status :: string
  bt_AliceIP :: string
  bt_AliceAddr :: string
  bt_BobAddr :: string
  bt_Mode :: string
  bt_SubMode :: string
  bt_OT :: bool
  bt_Bulletin :: Bulletin
  bt_Price :: int64
  bt_UnitPrice :: int64
  bt_Count :: int64
  bt_ExpireAt :: int64
  bt_PoD :: "pod_pkg \<Rightarrow> PoDBob"

text \<open>The row type \<open>BobTx\<close> of \<^verbatim>\<open>db.go\<close>, less its dates; \<open>AliceSyncthingId\<close> is never set.\<close>

record BobTx =
  btx_SessionId :: string
  btx_Status :: string
  btx_AliceIP :: string
  btx_AliceAddr :: string
  btx_BobAddr :: string
  btx_Mode :: string
  btx_SubMode :: string
  btx_OT :: bool
  btx_Size :: string
  btx_S :: string
  btx_N :: string
  btx_SigmaMKLRoot :: string
  btx_Price :: int64
  btx_UnitPrice :: int64
  btx_ExpireAt :: int64
  btx_Count :: int64
  btx_Demands :: string
  btx_Phantoms :: string
  btx_KeyName :: string
  btx_KeyValue :: string
  btx_PhantomKeyValue :: string

text \<open>The row type \<open>PodLog\<close> of \<^verbatim>\<open>db.go\<close>, less its id and date.\<close>

record PodLog =
  pl_SessionId :: string
  pl_Operation :: int64
  pl_Detail :: string
  pl_Result :: int64

text \<open>A deposit of the exchange contract; its amounts are big integers.\<close>

record deposit =
  dpst_Value :: int
  dpst_UnDepositAt :: int
  dpst_Stat :: u8

section \<open>External calls\<close>

text \<open>What a buyer asks the library for: ranges, or the keys of a query.\<close>

datatype wanted =
    Ranges "(u64 \<times> u64) list"
  | OTRanges "(u64 \<times> u64) list" "(u64 \<times> u64) list"
  | Keys string "string list"
  | OTKeys string "string list" "string list"

text \<open>
  Methods of the library's sessions, with the files they read and write. \<open>OnSecretTo\<close> is
  \<open>OnSecret\<close> of the two query packages, which has an output file.
\<close>

datatype lib_op =
    NewAliceSession string bytes bytes
  | NewBobSession string string bytes bytes wanted
  | GetRequest string
  | OnResponse string string
  | OnSecret string
  | OnSecretTo string string
  | GenerateClaim string
  | Decrypt string
  | OnRequest string string
  | OnReceipt string string
  | GetNegoRequest string
  | OnNegoRequest string string
  | OnNegoResponse string
  | FreeSession

datatype os_op = OsStat | OsRead | OsOpen | OsMkdir | OsCreate | OsRename string

text \<open>
  What the node asks of its host when it starts and while it listens: the provider of the contract
  and the contract bound to it, key stores, directories, the parameters of the proof library, the
  engine of the database and its tables, the listening socket, and the HTTP client of a command.
\<close>

datatype host_op =
    HDialProvider string
  | HBind address
  | HNewAccount string string
  | HReadDir string
  | HRemoveAll string
  | HTime
  | HLoad string
  | HEngine string
  | HPing
  | HCreateTable string
  | HSync string
  | HListen string
  | HAccept
  | HCloseListener
  | HPost string "(string \<times> string) list"

datatype call =
    CNow
  | CNano
  | CRand
  | CSleep
  | COs os_op string
  | CWrite string bytes
  | CLib pod_pkg "nat option" lib_op
  | CBobDeposits address address
  | CBulletins bytes
  | CSubmitProofComplaint int bytes int "address \<times> address" bytes bytes bytes u64 int int bytes
  | CSubmitProofAtomicSwap int bytes u64 int "address \<times> address" bytes int u64 int int bytes
  | CSubmitProofAtomicSwapVC int int int int "address \<times> address" int int int bytes
  | CSubmitProofVRF int int int "address \<times> address" "int \<times> int" int int bytes
  | CGetRecordComplaint address address int
  | CGetRecordAtomicSwap address address int
  | CGetRecordAtomicSwapVC address address int
  | CGetRecordVRF address address int
  | CInsertAliceTx AliceTx
  | CUpdateAliceTx string AliceTx
  | CGetAliceTx string
  | CClaimComplaint int address int u64 u64 int int "bytes list" u64
  | CSettleComplaintDeal int address address int
  | CPublish int u64 u64 u64 int int int
  | CUnPublish int bytes
  | CWithdrawA int bytes
  | CBobDeposit int address
  | CBobUnDeposit int address
  | CWithdrawB int address
  | CInsertBobTx BobTx
  | CUpdateBobTx string BobTx
  | CGetBobTx string
  | CFindBobTx
  | CInsertLog PodLog
  | CFindLogs string
  | CExec string "string list"
  | CResolve string
  | CDial string
  | CHost host_op

text \<open>Arguments of \<open>SoliditySHA3\<close>, with the ABI type they are packed as.\<close>

datatype abi =
    AbiUint256 int
  | AbiUint64 u64
  | AbiAddress address
  | AbiAddressHex string
  | AbiBytes32 bytes
  | AbiBytes32Hex string

section \<open>The world\<close>

datatype fnode = File bytes | Dir

type_synonym filesys = "string \<Rightarrow> fnode option"

record ext =
  Crypto :: crypto
  Now :: "call list \<Rightarrow> int64"
  NowNano :: "call list \<Rightarrow> int64"
  RandInt :: "call list \<Rightarrow> nat res"
  OsFault :: "call list \<Rightarrow> bool"
  WriteFault :: "call list \<Rightarrow> nat option"
  Lib :: "call list \<Rightarrow> filesys \<Rightarrow> nat res \<times> filesys"
  Exec :: "call list \<Rightarrow> filesys \<Rightarrow> unit res \<times> filesys"
  BobDeposits :: "call list \<Rightarrow> deposit res"
  BulletinStat :: "call list \<Rightarrow> u8 res"
  Transact :: "call list \<Rightarrow> string res"
  GetRecordComplaint :: "call list \<Rightarrow> (int \<times> bytes) res"
  GetRecordAtomicSwap :: "call list \<Rightarrow> (int \<times> bytes) res"
  GetRecordAtomicSwapVC :: "call list \<Rightarrow> (int \<times> int \<times> int) res"
  GetRecordVRF :: "call list \<Rightarrow> (int \<times> int) res"
  DBExec :: "call list \<Rightarrow> unit res"
  DBGetAliceTx :: "call list \<Rightarrow> AliceTx option res"
  DBGetBobTx :: "call list \<Rightarrow> BobTx option res"
  DBFindBobTx :: "call list \<Rightarrow> BobTx list res"
  DBFindLogs :: "call list \<Rightarrow> PodLog list res"
  ResolveTCPAddr :: "call list \<Rightarrow> string res"
  NetDial :: "call list \<Rightarrow> connection res"
  HexToAddress :: "string \<Rightarrow> address"
  AddressHex :: "address \<Rightarrow> string"
  SoliditySHA3 :: "abi list \<Rightarrow> bytes"
  SoliditySHA3WithPrefix :: "bytes \<Rightarrow> bytes"
  SigToPub :: "bytes \<Rightarrow> bytes \<Rightarrow> pubkey res"

text \<open>\<open>BasicConfig\<close> of \<^verbatim>\<open>init.go\<close>.\<close>

record BasicConfig =
  InitKeyPath :: string
  PublishBINPath :: string
  ContractAddr :: string
  BobDir :: string
  AliceDir :: string
  KeyStoreFile :: string
  NetIP :: string
  Port :: string

text \<open>
  \<open>AuthValue\<close> is \<open>GAdminAuth.Value\<close>, the amount sent along with a transaction to the contract.
\<close>

record world =
  nd :: node
  fs :: filesys
  hist :: "call list"
  AliceTxMap :: "string \<Rightarrow> Transaction option"
  DepositLockMap :: "string \<Rightarrow> int64"
  BobTxMap :: "string \<Rightarrow> BobTransaction option"
  AuthValue :: int

section \<open>Calling a service\<close>

definition ask :: "call \<Rightarrow> (call list \<Rightarrow> 'a) \<Rightarrow> ('z world_scheme, 'a) state" where
  "ask c f = State (\<lambda>w. (f (c # hist w), w\<lparr>hist := c # hist w\<rparr>))"

text \<open>
  A transaction to the contract is signed with the shared options, so that it carries the amount set
  there; \<open>c\<close> is the call for an amount.
\<close>

definition transact :: "ext \<Rightarrow> (int \<Rightarrow> call) \<Rightarrow> string \<Rightarrow> ('z world_scheme, string res) state" where
  "transact E c msg = do {
     w \<leftarrow> State_Monad.get;
     check (ask (c (AuthValue w)) (Transact E)) (\<lambda>_. ret (Err msg)) (\<lambda>hash. ret (Ok hash)) }"

definition ask_lib :: "ext \<Rightarrow> pod_pkg \<Rightarrow> nat option \<Rightarrow> lib_op \<Rightarrow> ('z world_scheme, nat res) state" where
  "ask_lib E pkg h lop = State (\<lambda>w.
     case Lib E (CLib pkg h lop # hist w) (fs w) of
       (r, fs') \<Rightarrow> (r, w\<lparr>hist := CLib pkg h lop # hist w, fs := fs'\<rparr>))"

definition on_node :: "(node, 'a) state \<Rightarrow> ('z world_scheme, 'a) state" where
  "on_node m = State (\<lambda>w. case run_state m (nd w) of (r, n) \<Rightarrow> (r, w\<lparr>nd := n\<rparr>))"

definition set_fs :: "filesys \<Rightarrow> ('z world_scheme, unit) state" where
  "set_fs f = State_Monad.update (\<lambda>w. w\<lparr>fs := f\<rparr>)"

section \<open>Files\<close>

definition ReadFile :: "ext \<Rightarrow> string \<Rightarrow> ('z world_scheme, bytes res) state" where
  "ReadFile E p = do {
     fault \<leftarrow> ask (COs OsRead p) (OsFault E);
     w \<leftarrow> State_Monad.get;
     ret (if fault then Err ''read error'' else
       case fs w p of
         Some (File bs) \<Rightarrow> Ok bs
       | Some Dir \<Rightarrow> Err ''is a directory''
       | None \<Rightarrow> Err ''no such file or directory'') }"

text \<open>\<open>os.OpenFile(p, O_WRONLY|O_CREATE, 0666)\<close>: an existing file keeps its contents.\<close>

definition OpenFile :: "ext \<Rightarrow> string \<Rightarrow> ('z world_scheme, unit res) state" where
  "OpenFile E p = do {
     fault \<leftarrow> ask (COs OsOpen p) (OsFault E);
     w \<leftarrow> State_Monad.get;
     if fault then ret (Err ''open error'') else
     (case fs w p of
        Some (File _) \<Rightarrow> ret (Ok ())
      | Some Dir \<Rightarrow> ret (Err ''is a directory'')
      | None \<Rightarrow> do { set_fs ((fs w)(p \<mapsto> File [])); ret (Ok ()) }) }"

definition contents :: "filesys \<Rightarrow> string \<Rightarrow> bytes" where
  "contents f p = (case f p of Some (File bs) \<Rightarrow> bs | _ \<Rightarrow> [])"

text \<open>
  \<open>f.Write(bs)\<close> at the start of the file just opened: the bytes written replace the beginning
  of the contents. A failing write may have written some of the bytes.
\<close>

definition overlay :: "bytes \<Rightarrow> bytes \<Rightarrow> bytes" where
  "overlay bs old = bs @ drop (length bs) old"

definition WriteOpened :: "ext \<Rightarrow> string \<Rightarrow> bytes \<Rightarrow> ('z world_scheme, unit res) state" where
  "WriteOpened E p bs = do {
     fault \<leftarrow> ask (CWrite p bs) (WriteFault E);
     w \<leftarrow> State_Monad.get;
     (case fault of
        None \<Rightarrow> do { set_fs ((fs w)(p \<mapsto> File (overlay bs (contents (fs w) p)))); ret (Ok ()) }
      | Some n \<Rightarrow> do {
          set_fs ((fs w)(p \<mapsto> File (overlay (take n bs) (contents (fs w) p))));
          ret (Err ''write error'') }) }"

text \<open>\<open>ioutil.WriteFile(p, bs, 0644)\<close>: the file is truncated, or created, and written.\<close>

definition WriteFile :: "ext \<Rightarrow> string \<Rightarrow> bytes \<Rightarrow> ('z world_scheme, unit res) state" where
  "WriteFile E p bs = do {
     fault \<leftarrow> ask (COs OsCreate p) (OsFault E);
     w \<leftarrow> State_Monad.get;
     if fault \<or> fs w p = Some Dir then ret (Err ''open error'') else do {
       set_fs ((fs w)(p \<mapsto> File []));
       WriteOpened E p bs } }"

definition Mkdir :: "ext \<Rightarrow> string \<Rightarrow> ('z world_scheme, unit res) state" where
  "Mkdir E p = do {
     fault \<leftarrow> ask (COs OsMkdir p) (OsFault E);
     w \<leftarrow> State_Monad.get;
     if fault \<or> fs w p \<noteq> None then ret (Err ''mkdir error'')
     else do { set_fs ((fs w)(p \<mapsto> Dir)); ret (Ok ()) } }"

text \<open>
  \<open>os.Rename(p, q)\<close>: everything at or below \<open>p\<close> moves to \<open>q\<close>. A directory is not moved below itself
  or onto anything, a file is not moved onto a directory.
\<close>

definition below :: "string \<Rightarrow> string \<Rightarrow> string option" where
  "below p x = (if x = p then Some [] else
     if take (Suc (length p)) x = p @ ''/'' then Some (drop (length p) x) else None)"

definition moved :: "string \<Rightarrow> string \<Rightarrow> filesys \<Rightarrow> filesys" where
  "moved p q F x = (case below q x of
     Some y \<Rightarrow> F (p @ y)
   | None \<Rightarrow> (case below p x of Some _ \<Rightarrow> None | None \<Rightarrow> F x))"

definition Rename :: "ext \<Rightarrow> string \<Rightarrow> string \<Rightarrow> ('z world_scheme, unit res) state" where
  "Rename E p q = do {
     fault \<leftarrow> ask (COs (OsRename q) p) (OsFault E);
     w \<leftarrow> State_Monad.get;
     (if fault then ret (Err ''rename error'') else
      case fs w p of
        None \<Rightarrow> ret (Err ''no such file or directory'')
      | Some Dir \<Rightarrow>
          if fs w q \<noteq> None \<or> below p q \<noteq> None then ret (Err ''rename error'')
          else do { set_fs (moved p q (fs w)); ret (Ok ()) }
      | Some (File _) \<Rightarrow>
          if fs w q = Some Dir then ret (Err ''file exists'')
          else do { set_fs (moved p q (fs w)); ret (Ok ()) }) }"

text \<open>\<open>exec.Command(prog, args...).Output()\<close>: the program may change files.\<close>

definition ask_exec :: "ext \<Rightarrow> string \<Rightarrow> string list \<Rightarrow> ('z world_scheme, unit res) state" where
  "ask_exec E prog args = State (\<lambda>w.
     case Exec E (CExec prog args # hist w) (fs w) of
       (r, fs') \<Rightarrow> (r, w\<lparr>hist := CExec prog args # hist w, fs := fs'\<rparr>))"

text \<open>\<open>pathExists\<close> of \<^verbatim>\<open>file.go\<close>.\<close>

definition pathExists :: "ext \<Rightarrow> string \<Rightarrow> ('z world_scheme, bool res) state" where
  "pathExists E p = do {
     fault \<leftarrow> ask (COs OsStat p) (OsFault E);
     w \<leftarrow> State_Monad.get;
     ret (if fault then Err ''stat error'' else Ok (fs w p \<noteq> None)) }"

section \<open>Rules\<close>

lemma wp_ask [wps]: "wp (ask c f) Q w = Q (f (c # hist w)) (w\<lparr>hist := c # hist w\<rparr>)"
  by (simp add: wp_def ask_def)

lemma wp_transact [wps]:
  "wp (transact E c msg) Q w = (let call = c (AuthValue w); w' = w\<lparr>hist := call # hist w\<rparr> in
     case Transact E (call # hist w) of Ok hash \<Rightarrow> Q (Ok hash) w' | Err _ \<Rightarrow> Q (Err msg) w' | Panic \<Rightarrow> Q Panic w')"
  by (simp add: transact_def wps Let_def split: res.split)

lemma wp_ask_lib [wps]:
  "wp (ask_lib E pkg h lop) Q w =
     (case Lib E (CLib pkg h lop # hist w) (fs w) of
       (r, fs') \<Rightarrow> Q r (w\<lparr>hist := CLib pkg h lop # hist w, fs := fs'\<rparr>))"
  by (simp add: wp_def ask_lib_def split: prod.splits)

lemma wp_ask_exec [wps]:
  "wp (ask_exec E prog args) Q w =
     (case Exec E (CExec prog args # hist w) (fs w) of
       (r, fs') \<Rightarrow> Q r (w\<lparr>hist := CExec prog args # hist w, fs := fs'\<rparr>))"
  by (simp add: wp_def ask_exec_def split: prod.splits)

lemma wp_on_node [wps]: "wp (on_node m) Q w = wp m (\<lambda>r n. Q r (w\<lparr>nd := n\<rparr>)) (nd w)"
  by (simp add: wp_def on_node_def split: prod.splits)

text \<open>A component of the state that the node, the files and the services do not change.\<close>

definition inert :: "('z world_scheme \<Rightarrow> 'b) \<Rightarrow> bool" where
  "inert f \<longleftrightarrow> (\<forall>w n. f (w\<lparr>nd := n\<rparr>) = f w) \<and> (\<forall>w F. f (w\<lparr>fs := F\<rparr>) = f w) \<and>
     (\<forall>w h. f (w\<lparr>hist := h\<rparr>) = f w)"

lemma inertI:
  "(\<And>w n. f (w\<lparr>nd := n\<rparr>) = f w) \<Longrightarrow> (\<And>w F. f (w\<lparr>fs := F\<rparr>) = f w) \<Longrightarrow>
     (\<And>w h. f (w\<lparr>hist := h\<rparr>) = f w) \<Longrightarrow> inert f"
  by (simp add: inert_def)

lemma keeps_ask [frame]: "inert f \<Longrightarrow> keeps f (ask c g)"
  by (simp add: keeps_def ask_def inert_def)

lemma keeps_transact [frame]: "inert f \<Longrightarrow> keeps f (transact E c msg)"
  unfolding transact_def by (intro frame)

lemma keeps_ask_lib [frame]: "inert f \<Longrightarrow> keeps f (ask_lib E pkg h lop)"
  by (auto simp: keeps_def ask_lib_def inert_def split: prod.splits)

lemma keeps_ask_exec [frame]: "inert f \<Longrightarrow> keeps f (ask_exec E prog args)"
  by (auto simp: keeps_def ask_exec_def inert_def split: prod.splits)

lemma keeps_on_node [frame]: "inert f \<Longrightarrow> keeps f (on_node m)"
  by (auto simp: keeps_def on_node_def inert_def split: prod.splits)

lemma keeps_set_fs [frame]: "inert f \<Longrightarrow> keeps f (set_fs F)"
  by (simp add: set_fs_def keeps_update inert_def)

lemma keeps_option [frame]:
  "keeps f m \<Longrightarrow> (\<And>x. keeps f (k x)) \<Longrightarrow> keeps f (case p of None \<Rightarrow> m | Some x \<Rightarrow> k x)"
  by (cases p) simp_all

lemma keeps_fnode [frame]:
  "(\<And>x. keeps f (k x)) \<Longrightarrow> keeps f m \<Longrightarrow> keeps f (case p of File x \<Rightarrow> k x | Dir \<Rightarrow> m)"
  by (cases p) simp_all

lemma keeps_files [frame]:
  assumes "inert f"
  shows "keeps f (ReadFile E p)" "keeps f (OpenFile E p)" "keeps f (WriteOpened E p bs)"
    "keeps f (WriteFile E p bs)" "keeps f (Mkdir E p)" "keeps f (pathExists E p)"
    "keeps f (Rename E p q)"
  unfolding Rename_def ReadFile_def OpenFile_def WriteFile_def WriteOpened_def Mkdir_def pathExists_def
  by (intro frame assms)+

section \<open>A concrete world\<close>

text \<open>For evaluation: services that do nothing and always succeed, and an empty disk.\<close>

definition sample_ext :: ext where
  "sample_ext = \<lparr>Crypto = sample_crypto, Now = (\<lambda>_. 1000), NowNano = (\<lambda>_. 5), RandInt = (\<lambda>_. Ok 7), OsFault = (\<lambda>_. False),
     WriteFault = (\<lambda>_. None), Lib = (\<lambda>_ F. (Ok 0, F)), Exec = (\<lambda>_ F. (Ok (), F)),
     BobDeposits = (\<lambda>_. Ok \<lparr>dpst_Value = 100, dpst_UnDepositAt = 0, dpst_Stat = 0\<rparr>),
     BulletinStat = (\<lambda>_. Ok 0), Transact = (\<lambda>_. Ok ''0x00''),
     GetRecordComplaint = (\<lambda>_. Ok (1, [])), GetRecordAtomicSwap = (\<lambda>_. Ok (1, [])),
     GetRecordAtomicSwapVC = (\<lambda>_. Ok (1, 0, 0)), GetRecordVRF = (\<lambda>_. Ok (1, 0)),
     DBExec = (\<lambda>_. Ok ()), DBGetAliceTx = (\<lambda>_. Ok None), DBGetBobTx = (\<lambda>_. Ok None),
     DBFindBobTx = (\<lambda>_. Ok []), DBFindLogs = (\<lambda>_. Ok []),
     ResolveTCPAddr = (\<lambda>_. Ok ''127.0.0.1:4000''), NetDial = (\<lambda>_. Ok sample_conn), HexToAddress = bytes_of_string,
     AddressHex = map (\<lambda>b. char_of (unat b)), SoliditySHA3 = (\<lambda>_. []), SoliditySHA3WithPrefix = id,
     SigToPub = (\<lambda>_ _. Ok sample_key)\<rparr>"

definition sample_dirs :: BasicConfig where
  "sample_dirs = \<lparr>InitKeyPath = [], PublishBINPath = ''bin/pod_publish'', ContractAddr = ''0x02'', BobDir = ''b'', AliceDir = ''a'',
     KeyStoreFile = [], NetIP = [], Port = []\<rparr>"

definition sample_world :: world where
  "sample_world = \<lparr>nd = sample_node, fs = (\<lambda>_. None), hist = [], AliceTxMap = (\<lambda>_. None),
     DepositLockMap = (\<lambda>_. 0), BobTxMap = (\<lambda>_. None), AuthValue = 0\<rparr>"

end
