(* ===== verification/Files.thy ===== *)
theory Files
  imports World
begin

text \<open>
  The files of \<^verbatim>\<open>file.go\<close> the two parties exchange: bulletins, requests, receipts and secrets,
  their JSON formats, and the count of the requested data the price is computed from.
\<close>

section \<open>Formats\<close>

definition zero_Bulletin :: Bulletin where
  "zero_Bulletin = \<lparr>blt_Mode = [], blt_Size = [], blt_S = [], blt_N = [], blt_SigmaMKLRoot = [],
     blt_VRFMetaDigest = []\<rparr>"

definition Bulletin_fields :: "Bulletin field list" where
  "Bulletin_fields = [
     field ''mode'' dec_string blt_Mode blt_Mode_update,
     field ''size'' dec_string blt_Size blt_Size_update,
     field ''s'' dec_string blt_S blt_S_update,
     field ''n'' dec_string blt_N blt_N_update,
     field ''sigma_mkl_root'' dec_string blt_SigmaMKLRoot blt_SigmaMKLRoot_update,
     field ''vrf_meta_digest'' dec_string blt_VRFMetaDigest blt_VRFMetaDigest_update]"

text \<open>A field that is a slice whose nil value matters; null in JSON makes it nil.\<close>

definition dec_gslice :: "(json \<Rightarrow> 'a \<Rightarrow> 'a res) \<Rightarrow> 'a \<Rightarrow> json \<Rightarrow> 'a gslice \<Rightarrow> 'a gslice res" where
  "dec_gslice d z v old = (case v of
     JNull \<Rightarrow> Ok None
   | JArr vs \<Rightarrow> res_bind (dec_elems d z vs (elems old)) (\<lambda>xs. Ok (Some xs))
   | _ \<Rightarrow> Err typeError)"

record PublishExtraInfo =
  pe_MerkleRoot :: string
  pe_Mode :: string
  pe_SubMode :: "string gslice"
  pe_UnitPrice :: int64
  pe_Description :: string
  pe_ContractAddr :: string

definition zero_PublishExtraInfo :: PublishExtraInfo where
  "zero_PublishExtraInfo = \<lparr>pe_MerkleRoot = [], pe_Mode = [], pe_SubMode = None, pe_UnitPrice = 0,
     pe_Description = [], pe_ContractAddr = []\<rparr>"

definition PublishExtraInfo_fields :: "PublishExtraInfo field list" where
  "PublishExtraInfo_fields = [
     field ''mklroot'' dec_string pe_MerkleRoot pe_MerkleRoot_update,
     field ''mode'' dec_string pe_Mode pe_Mode_update,
     field ''sub_mode'' (dec_gslice dec_string []) pe_SubMode pe_SubMode_update,
     field ''uprice'' dec_int64 pe_UnitPrice pe_UnitPrice_update,
     field ''description'' dec_string pe_Description pe_Description_update,
     field ''contract_addr'' dec_string pe_ContractAddr pe_ContractAddr_update]"

record ComplaintRequest =
  cr_S :: string
  cr_D :: "string list"

definition ComplaintRequest_fields :: "ComplaintRequest field list" where
  "ComplaintRequest_fields = [
     field ''s'' dec_string cr_S cr_S_update, field ''d'' dec_strings cr_D cr_D_update]"

record OtComplaintRequest =
  or_S :: string
  or_P :: "string list"

definition OtComplaintRequest_fields :: "OtComplaintRequest field list" where
  "OtComplaintRequest_fields = [
     field ''s'' dec_string or_S or_S_update, field ''p'' dec_strings or_P or_P_update]"

record AtomicSwapRequest =
  ar_S :: string
  ar_P :: "string list"

definition AtomicSwapRequest_fields :: "AtomicSwapRequest field list" where
  "AtomicSwapRequest_fields = [
     field ''s'' dec_string ar_S ar_S_update, field ''p'' dec_strings ar_P ar_P_update]"

record ComplaintReceipt =
  crc_S :: string
  crc_K :: string
  crc_C :: u64

definition ComplaintReceipt_fields :: "ComplaintReceipt field list" where
  "ComplaintReceipt_fields = [
     field ''s'' dec_string crc_S crc_S_update, field ''k'' dec_string crc_K crc_K_update,
     field ''c'' dec_uint64 crc_C crc_C_update]"

record AtomicSwapReceipt =
  arc_S :: string
  arc_VW :: string
  arc_C :: u64

definition AtomicSwapReceipt_fields :: "AtomicSwapReceipt field list" where
  "AtomicSwapReceipt_fields = [
     field ''s'' dec_string arc_S arc_S_update, field ''vw'' dec_string arc_VW arc_VW_update,
     field ''c'' dec_uint64 arc_C arc_C_update]"

record AtomicSwapVcReceipt =
  vrc_D :: string

definition AtomicSwapVcReceipt_fields :: "AtomicSwapVcReceipt field list" where
  "AtomicSwapVcReceipt_fields = [field ''d'' dec_string vrc_D vrc_D_update]"

record VRFReceipt =
  frc_G :: string

definition VRFReceipt_fields :: "VRFReceipt field list" where
  "VRFReceipt_fields = [field ''g'' dec_string frc_G frc_G_update]"

record ComplaintSecret =
  csc_S :: string

definition ComplaintSecret_fields :: "ComplaintSecret field list" where
  "ComplaintSecret_fields = [field ''s'' dec_string csc_S csc_S_update]"

record AtomicSwapSecret =
  asc_S :: string

definition AtomicSwapSecret_fields :: "AtomicSwapSecret field list" where
  "AtomicSwapSecret_fields = [field ''s'' dec_string asc_S asc_S_update]"

record AtomicSwapVcSecret =
  vsc_S :: string
  vsc_R :: string

definition AtomicSwapVcSecret_fields :: "AtomicSwapVcSecret field list" where
  "AtomicSwapVcSecret_fields = [
     field ''s'' dec_string vsc_S vsc_S_update, field ''r'' dec_string vsc_R vsc_R_update]"

record VRFSecret =
  fsc_R :: string

definition VRFSecret_fields :: "VRFSecret field list" where
  "VRFSecret_fields = [field ''r'' dec_string fsc_R fsc_R_update]"

section \<open>Reading a file into a struct\<close>

text \<open>\<open>ioutil.ReadFile\<close> and \<open>json.Unmarshal\<close> with the error message of each.\<close>

definition read_json :: "ext \<Rightarrow> 'r field list \<Rightarrow> 'r \<Rightarrow> string \<Rightarrow> string \<Rightarrow> string \<Rightarrow>
    ('z world_scheme, (bytes \<times> 'r) res) state" where
  "read_json E flds zero e1 e2 p =
     check (ReadFile E p) (\<lambda>_. ret (Err e1)) (\<lambda>bs.
     check (ret (Unmarshal flds bs zero)) (\<lambda>_. ret (Err e2)) (\<lambda>r. ret (Ok (bs, r))))"

definition readBulletinFile :: "ext \<Rightarrow> string \<Rightarrow> ('z world_scheme, Bulletin res) state" where
  "readBulletinFile E p =
     check (read_json E Bulletin_fields zero_Bulletin
         ''failed to open bulletin file'' ''failed to parse bulletin file'' p)
       (\<lambda>e. ret (Err e)) (\<lambda>(_, b). ret (Ok b))"

definition readExtraFile :: "ext \<Rightarrow> string \<Rightarrow> ('z world_scheme, PublishExtraInfo res) state" where
  "readExtraFile E p =
     check (ReadFile E p) (\<lambda>e. ret (Err e)) (\<lambda>ex.
     ret (Unmarshal PublishExtraInfo_fields ex zero_PublishExtraInfo))"

definition readReceiptForComplaint ::
  "ext \<Rightarrow> string \<Rightarrow> ('z world_scheme, (bytes \<times> ComplaintReceipt) res) state" where
  "readReceiptForComplaint E = read_json E ComplaintReceipt_fields \<lparr>crc_S = [], crc_K = [], crc_C = 0\<rparr>
     ''failed to read receipt file'' ''failed to parse receipt file''"

definition readReceiptForAtomicSwap ::
  "ext \<Rightarrow> string \<Rightarrow> ('z world_scheme, (bytes \<times> AtomicSwapReceipt) res) state" where
  "readReceiptForAtomicSwap E = read_json E AtomicSwapReceipt_fields \<lparr>arc_S = [], arc_VW = [], arc_C = 0\<rparr>
     ''failed to read receipt file'' ''failed to parse receipt file''"

definition readReceiptForAtomicSwapVc ::
  "ext \<Rightarrow> string \<Rightarrow> ('z world_scheme, (bytes \<times> AtomicSwapVcReceipt) res) state" where
  "readReceiptForAtomicSwapVc E = read_json E AtomicSwapVcReceipt_fields \<lparr>vrc_D = []\<rparr>
     ''failed to read receipt file'' ''failed to parse receipt file''"

definition readVRFReceipt ::
  "ext \<Rightarrow> string \<Rightarrow> ('z world_scheme, (bytes \<times> VRFReceipt) res) state" where
  "readVRFReceipt E = read_json E VRFReceipt_fields \<lparr>frc_G = []\<rparr>
     ''failed to read receipt file'' ''failed to parse receipt file''"

definition readSeed0ForComplaint ::
  "ext \<Rightarrow> string \<Rightarrow> ('z world_scheme, ComplaintSecret res) state" where
  "readSeed0ForComplaint E p =
     check (read_json E ComplaintSecret_fields \<lparr>csc_S = []\<rparr>
         ''failed to open seed2 file'' ''failed to parse seed2 file'' p)
       (\<lambda>e. ret (Err e)) (\<lambda>(_, s). ret (Ok s))"

definition readSeed0ForAtomicSwap ::
  "ext \<Rightarrow> string \<Rightarrow> ('z world_scheme, AtomicSwapSecret res) state" where
  "readSeed0ForAtomicSwap E p =
     check (read_json E AtomicSwapSecret_fields \<lparr>asc_S = []\<rparr>
         ''failed to open seed2 file'' ''failed to parse seed2 file'' p)
       (\<lambda>e. ret (Err e)) (\<lambda>(_, s). ret (Ok s))"

definition readSeed0ForAtomicSwapVc ::
  "ext \<Rightarrow> string \<Rightarrow> ('z world_scheme, AtomicSwapVcSecret res) state" where
  "readSeed0ForAtomicSwapVc E p =
     check (read_json E AtomicSwapVcSecret_fields \<lparr>vsc_S = [], vsc_R = []\<rparr>
         ''failed to open seed2 file'' ''failed to parse seed2 file'' p)
       (\<lambda>e. ret (Err e)) (\<lambda>(_, s). ret (Ok s))"

definition readSeed0ForVRFQ ::
  "ext \<Rightarrow> string \<Rightarrow> ('z world_scheme, VRFSecret res) state" where
  "readSeed0ForVRFQ E p =
     check (read_json E VRFSecret_fields \<lparr>fsc_R = []\<rparr>
         ''failed to open seed2 file'' ''failed to parse seed2 file'' p)
       (\<lambda>e. ret (Err e)) (\<lambda>(_, s). ret (Ok s))"

section \<open>Counting a request\<close>

text \<open>
  The loop over the ranges of a request, each written \<open>start-count\<close>; the counts are summed in
  an \<open>int64\<close>.
\<close>

fun count_ranges :: "string \<Rightarrow> string list \<Rightarrow> int64 \<Rightarrow> int64 res" where
  "count_ranges msg [] count = Ok count"
| "count_ranges msg (d # ds) count =
     (let cs = Split (CHR ''-'') d in
      if length cs \<noteq> 2 then Err (msg @ d)
      else case ParseInt (last cs) of
             Err _ \<Rightarrow> Err (msg @ d)
           | Panic \<Rightarrow> Panic
           | Ok c \<Rightarrow> count_ranges msg ds (count + c))"

definition calcuCntforComplaint :: "ext \<Rightarrow> string \<Rightarrow> ('z world_scheme, int64 res) state" where
  "calcuCntforComplaint E p =
     check (read_json E ComplaintRequest_fields \<lparr>cr_S = [], cr_D = []\<rparr>
         ''failed to read request file.'' ''failed to read request file.'' p)
       (\<lambda>e. ret (Err e)) (\<lambda>(_, req). ret (count_ranges ''invalid demand. '' (cr_D req) 0))"

definition calcuCntforOtComplaint :: "ext \<Rightarrow> string \<Rightarrow> ('z world_scheme, int64 res) state" where
  "calcuCntforOtComplaint E p =
     check (read_json E OtComplaintRequest_fields \<lparr>or_S = [], or_P = []\<rparr>
         ''failed to read request file.'' ''failed to read request file.'' p)
       (\<lambda>e. ret (Err e)) (\<lambda>(_, req). ret (count_ranges ''invalid phantoms. '' (or_P req) 0))"

definition calcuCntforAS :: "ext \<Rightarrow> string \<Rightarrow> ('z world_scheme, int64 res) state" where
  "calcuCntforAS E p =
     check (read_json E AtomicSwapRequest_fields \<lparr>ar_S = [], ar_P = []\<rparr>
         ''failed to read request file.'' ''failed to read request file.'' p)
       (\<lambda>e. ret (Err e)) (\<lambda>(_, req). ret (count_ranges ''invalid demands. '' (ar_P req) 0))"

definition calcuCntforASVC :: "ext \<Rightarrow> string \<Rightarrow> ('z world_scheme, int64 res) state" where
  "calcuCntforASVC E p =
     check (read_json E AtomicSwapRequest_fields \<lparr>ar_S = [], ar_P = []\<rparr>
         ''failed to read request file.'' ''failed to read request file.'' p)
       (\<lambda>e. ret (Err e)) (\<lambda>(_, req). ret (count_ranges ''invalid demands. '' (ar_P req) 0))"

section \<open>Frame conditions\<close>

lemma keeps_read_json [frame]: "inert f \<Longrightarrow> keeps f (read_json E flds z e1 e2 p)"
  unfolding read_json_def by (intro frame)

lemmas file_reader_defs = readBulletinFile_def readExtraFile_def readReceiptForComplaint_def
  readReceiptForAtomicSwap_def readReceiptForAtomicSwapVc_def readVRFReceipt_def
  readSeed0ForComplaint_def readSeed0ForAtomicSwap_def readSeed0ForAtomicSwapVc_def
  readSeed0ForVRFQ_def calcuCntforComplaint_def calcuCntforOtComplaint_def calcuCntforAS_def
  calcuCntforASVC_def

lemma keeps_file_readers [frame]:
  assumes "inert f"
  shows "keeps f (readBulletinFile E p)" "keeps f (readExtraFile E p)"
    "keeps f (readReceiptForComplaint E p)" "keeps f (readReceiptForAtomicSwap E p)"
    "keeps f (readReceiptForAtomicSwapVc E p)" "keeps f (readVRFReceipt E p)"
    "keeps f (readSeed0ForComplaint E p)" "keeps f (readSeed0ForAtomicSwap E p)"
    "keeps f (readSeed0ForAtomicSwapVc E p)" "keeps f (readSeed0ForVRFQ E p)"
    "keeps f (calcuCntforComplaint E p)" "keeps f (calcuCntforOtComplaint E p)"
    "keeps f (calcuCntforAS E p)" "keeps f (calcuCntforASVC E p)"
  unfolding file_reader_defs by (intro frame assms)+

section \<open>The count is the sum of the ranges\<close>

definition range_text :: "nat \<Rightarrow> nat \<Rightarrow> string" where
  "range_text start cnt = FormatUint 10 start @ CHR ''-'' # FormatUint 10 cnt"

lemma Split_append:
  "sep \<notin> set s \<Longrightarrow> Split sep (s @ sep # t) = s # Split sep t"
  by (induction s) auto

lemma Split_none: "sep \<notin> set s \<Longrightarrow> Split sep s = [s]"
  by (induction s) auto

lemma Format_no_dash: "CHR ''-'' \<notin> set (FormatUint 10 n)"
proof
  assume "CHR ''-'' \<in> set (FormatUint 10 n)"
  then obtain d where "d < 10" "digit d = CHR ''-''"
    using set_FormatUint [of 10 "CHR ''-''" n] by auto
  then show False using digit_not_sign [of d] by simp
qed

lemma Split_range_text: "Split (CHR ''-'') (range_text s c) = [FormatUint 10 s, FormatUint 10 c]"
  by (simp add: range_text_def Split_append Split_none Format_no_dash)

lemma ParseInt_FormatUint:
  assumes "n < 2 ^ 63"
  shows "ParseInt (FormatUint 10 n) = Ok (word_of_nat n)"
proof -
  have "sint (word_of_nat n :: int64) = int n"
    using assms by (simp add: signed_of_nat signed_take_bit_int_eq_self)
  then show ?thesis
    using ParseInt_Format [of "word_of_nat n"] by (simp add: FormatInt_def)
qed

lemma count_ranges_texts:
  assumes "\<forall>(s, c) \<in> set rs. c < 2 ^ 63"
  shows "count_ranges msg (map (\<lambda>(s, c). range_text s c) rs) acc =
    Ok (acc + word_of_nat (sum_list (map snd rs)))"
  using assms
  by (induction rs arbitrary: acc)
    (auto simp: Split_range_text ParseInt_FormatUint Let_def add.assoc)

lemma count_ranges_total: "count_ranges msg ds acc \<noteq> Panic"
proof (induction ds arbitrary: acc)
  case (Cons d ds)
  have "ParseUint_res b s \<noteq> Panic" for b s
    by (simp add: ParseUint_res_def split: prod.splits option.splits)
  then have "ParseInt s \<noteq> Panic" for s
    by (simp add: ParseInt_def Let_def split: res.splits)
  with Cons show ?case by (simp add: Let_def split: res.splits)
qed simp

text \<open>
  The count a seller charges for is the sum of the counts of the requested ranges modulo
  \<open>2^64\<close>, for requests of any length whose ranges are written \<open>start-count\<close>; so a request for
  \<open>2^64\<close> items in four ranges counts, and is charged, as zero. No request makes the count panic.
\<close>

theorem request_count_wraps:
  "((\<forall>(s, c) \<in> set rs. c < 2 ^ 63) \<longrightarrow>
      count_ranges msg (map (\<lambda>(s, c). range_text s c) rs) 0 =
        Ok (word_of_int (int (sum_list (map snd rs)) mod 2 ^ 64))) \<and>
   count_ranges msg (replicate 4 (range_text 0 (2 ^ 62))) 0 = Ok 0 \<and>
   count_ranges msg ds acc \<noteq> Panic"
proof -
  have "(word_of_nat n :: int64) = word_of_int (int n mod 2 ^ 64)" for n
    by transfer (simp add: take_bit_eq_mod)
  moreover have "count_ranges msg (replicate 4 (range_text 0 (2 ^ 62))) 0 = Ok 0"
    using count_ranges_texts [of "replicate 4 (0, 2 ^ 62)" msg 0]
    by (simp add: sum_list_replicate)
  ultimately show ?thesis
    using count_ranges_texts [of rs msg 0] count_ranges_total by simp
qed

theorem request_count_wraps_witness:
  "count_ranges [] [range_text 3 (2 ^ 62), range_text 9 7] 0 = Ok (word_of_int (2 ^ 62 + 7))"
  using request_count_wraps [of "[(3, 2 ^ 62), (9, 7)]" "[]" "[]" 0] by simp

end
