(* ===== verification/Contract.thy ===== *)
theory Contract
  imports Files
begin

text \<open>
  The calls to the exchange contract of \<^verbatim>\<open>contract.go\<close> that a sale makes: the deposit checks and
  the lock on a buyer's deposit, the key of a bulletin, the check of the buyer's signature, the
  submission of the secret and the polling for it.
\<close>

section \<open>Deposits\<close>

text \<open>\<open>x.Int64()\<close> of a big integer: its low 64 bits.\<close>

definition Int64 :: "int \<Rightarrow> int64" where "Int64 i = word_of_int i"

definition calcuDeposit ::
  "ext \<Rightarrow> string \<Rightarrow> string \<Rightarrow> int64 \<Rightarrow> ('z world_scheme, bool res) state" where
  "calcuDeposit E aliceAddr bobAddr val =
     check (ask (CBobDeposits (HexToAddress E bobAddr) (HexToAddress E aliceAddr)) (BobDeposits E))
       (\<lambda>_. ret (Err ''failed to read deposit.'')) (\<lambda>dpst. do {
     w \<leftarrow> State_Monad.get;
     if sint (val + DepositLockMap w (aliceAddr @ bobAddr)) > sint (Int64 (dpst_Value dpst))
     then ret (Ok False)
     else if dpst_Stat dpst = 1 then ret (Ok False)
     else do {
       expiring \<leftarrow> (if dpst_Stat dpst = 2 then do {
           now \<leftarrow> ask CNow (Now E);
           ret (sint (now + 600) > sint (Int64 (dpst_UnDepositAt dpst) + 8 * 60 * 60)) }
         else ret False);
       if expiring then ret (Ok False)
       else do {
         State_Monad.update (\<lambda>w. w\<lparr>DepositLockMap := (DepositLockMap w)
           (aliceAddr @ bobAddr := DepositLockMap w (aliceAddr @ bobAddr) + val)\<rparr>);
         ret (Ok True) } } })"

text \<open>The clock is read only when the deposit is being withdrawn (\<open>&&\<close> evaluates left to right).\<close>

definition checkDeposit ::
  "ext \<Rightarrow> string \<Rightarrow> string \<Rightarrow> int64 \<Rightarrow> ('z world_scheme, bool res) state" where
  "checkDeposit E aliceAddr bobAddr val =
     check (ask (CBobDeposits (HexToAddress E bobAddr) (HexToAddress E aliceAddr)) (BobDeposits E))
       (\<lambda>_. ret (Err ''failed to read deposit.'')) (\<lambda>dpst.
     if sint (Int64 (dpst_Value dpst)) < sint val then ret (Ok False)
     else do {
       expired \<leftarrow> (if Int64 (dpst_UnDepositAt dpst) \<noteq> 0 then do {
           now \<leftarrow> ask CNow (Now E);
           ret (sint (Int64 (dpst_UnDepositAt dpst) + 28800) < sint (now + 600) \<and> dpst_Stat dpst = 1) }
         else ret False);
       ret (Ok (\<not> expired)) })"

section \<open>Bulletins\<close>

text \<open>\<open>*byte32(s)\<close>: the first 32 bytes, or the dereference of nil.\<close>

definition byte32 :: "bytes \<Rightarrow> bytes res" where
  "byte32 s = (if 32 \<le> length s then Ok (take 32 s) else Panic)"

definition calcuBltKey :: "ext \<Rightarrow> Bulletin \<Rightarrow> bytes res" where
  "calcuBltKey E b =
     (if blt_Mode b = ''plain'' then
        byte32 (SoliditySHA3 E [
          AbiUint64 (fst (ParseUint 10 (blt_Size b))),
          AbiUint64 (fst (ParseUint 10 (blt_S b))),
          AbiUint64 (fst (ParseUint 10 (blt_N b))),
          AbiBytes32Hex (''0x'' @ blt_SigmaMKLRoot b)])
      else if blt_Mode b = ''table'' then
        byte32 (SoliditySHA3 E [
          AbiUint64 (fst (ParseUint 10 (blt_S b))),
          AbiUint64 (fst (ParseUint 10 (blt_N b))),
          AbiBytes32Hex (''0x'' @ blt_SigmaMKLRoot b),
          AbiBytes32Hex (''0x'' @ blt_VRFMetaDigest b)])
      else byte32 [])"

definition readDataStatusAtContract :: "ext \<Rightarrow> bytes \<Rightarrow> ('z world_scheme, string res) state" where
  "readDataStatusAtContract E bltByte =
     check (ask (CBulletins bltByte) (BulletinStat E)) (\<lambda>_. ret (Err ''failed to read bulletins.''))
       (\<lambda>stat. ret (Ok (if stat = 0 then ''OK'' else if stat = 1 then ''CANCELING''
          else if stat = 2 then ''CANCELED'' else ''UNKNOWN'')))"

section \<open>The buyer's signature\<close>

text \<open>The common end of the four checks: recover the signer and compare it with the buyer.\<close>

definition signed_by_bob :: "ext \<Rightarrow> Transaction \<Rightarrow> abi list \<Rightarrow> bytes \<Rightarrow> unit res" where
  "signed_by_bob E tx values receiptSign =
     (if length receiptSign \<noteq> 65 then Err ''invalid signature''
      else let receiptHash = SoliditySHA3WithPrefix E (SoliditySHA3 E values) in
        case SigToPub E receiptHash receiptSign of
          Err _ \<Rightarrow> Err ''verify signature error''
        | Panic \<Rightarrow> Panic
        | Ok pub \<Rightarrow>
            if PubkeyToAddress (Crypto E) pub \<noteq> HexToAddress E (tx_BobAddr tx)
            then Err ''failed to verify signature'' else Ok ())"

definition verifySigntureForComplaint ::
  "ext \<Rightarrow> Transaction \<Rightarrow> int \<Rightarrow> bytes \<Rightarrow> bytes \<Rightarrow> ComplaintReceipt \<Rightarrow> unit res" where
  "verifySigntureForComplaint E tx sessionInt bltKey receiptSign receipt =
     signed_by_bob E tx [
       AbiUint256 sessionInt,
       AbiAddress (HexToAddress E (tx_BobAddr tx)),
       AbiAddress (HexToAddress E (tx_AliceAddr tx)),
       AbiBytes32 bltKey,
       AbiBytes32Hex (''0x'' @ crc_S receipt),
       AbiBytes32Hex (''0x'' @ crc_K receipt),
       AbiUint64 (crc_C receipt),
       AbiUint256 (sint (tx_UnitPrice tx * tx_Count tx)),
       AbiUint256 (sint (tx_ExpireAt tx))] receiptSign"

definition verifySigntureForAtomicSwap ::
  "ext \<Rightarrow> Transaction \<Rightarrow> int \<Rightarrow> int \<Rightarrow> bytes \<Rightarrow> AtomicSwapReceipt \<Rightarrow> unit res" where
  "verifySigntureForAtomicSwap E tx sessionInt vwInt receiptSign receipt =
     signed_by_bob E tx [
       AbiUint256 sessionInt,
       AbiAddress (HexToAddress E (tx_BobAddr tx)),
       AbiAddress (HexToAddress E (tx_AliceAddr tx)),
       AbiBytes32Hex (''0x'' @ arc_S receipt),
       AbiUint256 vwInt,
       AbiUint64 (arc_C receipt),
       AbiUint256 (sint (tx_UnitPrice tx * tx_Count tx)),
       AbiUint256 (sint (tx_ExpireAt tx))] receiptSign"

definition verifySigntureForAtomicSwapVc ::
  "ext \<Rightarrow> Transaction \<Rightarrow> int \<Rightarrow> bytes \<Rightarrow> int \<Rightarrow> unit res" where
  "verifySigntureForAtomicSwapVc E tx sessionInt receiptSign digestInt =
     signed_by_bob E tx [
       AbiUint256 sessionInt,
       AbiAddress (HexToAddress E (tx_BobAddr tx)),
       AbiAddress (HexToAddress E (tx_AliceAddr tx)),
       AbiUint256 digestInt,
       AbiUint256 (sint (tx_UnitPrice tx * tx_Count tx)),
       AbiUint256 (sint (tx_ExpireAt tx))] receiptSign"

definition verifySigntureForVRFQ ::
  "ext \<Rightarrow> Transaction \<Rightarrow> int \<Rightarrow> int \<times> int \<Rightarrow> bytes \<Rightarrow> unit res" where
  "verifySigntureForVRFQ E tx sessionInt g receiptSign =
     signed_by_bob E tx [
       AbiUint256 sessionInt,
       AbiAddress (HexToAddress E (tx_BobAddr tx)),
       AbiAddress (HexToAddress E (tx_AliceAddr tx)),
       AbiUint256 (fst g),
       AbiUint256 (snd g),
       AbiUint256 (sint (tx_UnitPrice tx * tx_Count tx)),
       AbiUint256 (sint (tx_ExpireAt tx))] receiptSign"

section \<open>Submitting the secret\<close>

definition opt_res :: "'a option \<Rightarrow> string \<Rightarrow> 'a res" where
  "opt_res v e = (case v of Some x \<Rightarrow> Ok x | None \<Rightarrow> Err e)"

text \<open>A step that computes without effects: its error is replaced by the message given.\<close>

abbreviation attempt :: "'a res \<Rightarrow> string \<Rightarrow> ('a \<Rightarrow> ('s, 'b res) state) \<Rightarrow> ('s, 'b res) state" where
  "attempt r e k \<equiv> check (ret r) (\<lambda>_. ret (Err e)) k"

definition txDir :: "BasicConfig \<Rightarrow> Transaction \<Rightarrow> string" where
  "txDir B tx = AliceDir B @ ''/transaction/'' @ tx_SessionID tx"

definition parties :: "ext \<Rightarrow> Transaction \<Rightarrow> address \<times> address" where
  "parties E tx = (HexToAddress E (tx_BobAddr tx), HexToAddress E (tx_AliceAddr tx))"

definition submitScrtForComplaint ::
  "ext \<Rightarrow> BasicConfig \<Rightarrow> Transaction \<Rightarrow> bytes \<Rightarrow> ('z world_scheme, string res) state" where
  "submitScrtForComplaint E B tx receiptSign =
     check (readReceiptForComplaint E (txDir B tx @ ''/receipt''))
       (\<lambda>_. ret (Err ''failed to read receipt'')) (\<lambda>(_, receipt).
     attempt (DecodeString (crc_S receipt)) ''failed to decode seed2'' (\<lambda>seed2Byte.
     attempt (DecodeString (crc_K receipt)) ''failed to decode mkl root'' (\<lambda>mklByte.
     attempt (opt_res (SetString (tx_SessionID tx) 10) []) ''failed to convert sessionId'' (\<lambda>sessionInt.
     attempt (calcuBltKey E (tx_Bulletin tx)) ''failed to calculate blt key'' (\<lambda>bltKey.
     attempt (verifySigntureForComplaint E tx sessionInt bltKey receiptSign receipt)
       ''verify signature error'' (\<lambda>_.
     check (readSeed0ForComplaint E (txDir B tx @ ''/secret''))
       (\<lambda>_. ret (Err ''failed to read seed0'')) (\<lambda>secret.
     attempt (DecodeString (csc_S secret)) ''failed to parse seed file'' (\<lambda>seedByte.
     attempt (byte32 seedByte) [] (\<lambda>seed0.
     attempt (byte32 seed2Byte) [] (\<lambda>seed2.
     attempt (byte32 mklByte) [] (\<lambda>mkl.
     transact E (\<lambda>v. CSubmitProofComplaint v seed0 sessionInt (parties E tx) bltKey seed2 mkl
         (crc_C receipt) (sint (tx_Price tx)) (sint (tx_ExpireAt tx)) receiptSign) ''failed to submit proof'')))))))))))"

definition submitScrtForAtomicSwap ::
  "ext \<Rightarrow> BasicConfig \<Rightarrow> Transaction \<Rightarrow> bytes \<Rightarrow> ('z world_scheme, string res) state" where
  "submitScrtForAtomicSwap E B tx receiptSign =
     attempt (opt_res (SetString (tx_SessionID tx) 10) []) ''failed to convert sessionId'' (\<lambda>sessionInt.
     check (readReceiptForAtomicSwap E (txDir B tx @ ''/receipt''))
       (\<lambda>_. ret (Err ''failed to read receipt'')) (\<lambda>(_, receipt).
     attempt (DecodeString (arc_S receipt)) ''failed to decode seed2'' (\<lambda>seed2Byte.
     attempt (opt_res (SetString (arc_VW receipt) 10) []) ''failed to convert vw'' (\<lambda>vwInt.
     attempt (verifySigntureForAtomicSwap E tx sessionInt vwInt receiptSign receipt)
       ''verify signature error'' (\<lambda>_.
     check (readSeed0ForAtomicSwap E (txDir B tx @ ''/secret''))
       (\<lambda>_. ret (Err ''failed to read seed0'')) (\<lambda>secret.
     attempt (DecodeString (asc_S secret)) ''failed to parse seed2 file'' (\<lambda>seedByte.
     attempt (ParseUint_res 10 (blt_S (tx_Bulletin tx))) ''failed to convert sCnt'' (\<lambda>sCnt.
     attempt (byte32 seedByte) [] (\<lambda>seed0.
     attempt (byte32 seed2Byte) [] (\<lambda>seed2.
     transact E (\<lambda>v. CSubmitProofAtomicSwap v seed0 sCnt sessionInt (parties E tx) seed2 vwInt
         (arc_C receipt) (sint (tx_Price tx)) (sint (tx_ExpireAt tx)) receiptSign) ''failed to submit proof''))))))))))"

definition submitScrtForAtomicSwapVc ::
  "ext \<Rightarrow> BasicConfig \<Rightarrow> Transaction \<Rightarrow> bytes \<Rightarrow> ('z world_scheme, string res) state" where
  "submitScrtForAtomicSwapVc E B tx receiptSign =
     attempt (opt_res (SetString (tx_SessionID tx) 10) []) ''failed to convert sessionId'' (\<lambda>sessionInt.
     check (readReceiptForAtomicSwapVc E (txDir B tx @ ''/receipt''))
       (\<lambda>_. ret (Err ''failed to read receipt'')) (\<lambda>(_, receipt).
     attempt (opt_res (SetString (vrc_D receipt) 10) []) ''failed to convert digestInt'' (\<lambda>digestInt.
     attempt (verifySigntureForAtomicSwapVc E tx sessionInt receiptSign digestInt)
       ''verify signature error'' (\<lambda>_.
     check (readSeed0ForAtomicSwapVc E (txDir B tx @ ''/secret''))
       (\<lambda>_. ret (Err ''failed to read seed0'')) (\<lambda>secret.
     attempt (opt_res (SetString (vsc_S secret) 10) []) ''failed to convert seed0Int'' (\<lambda>seed0Int.
     attempt (opt_res (SetString (vsc_R secret) 10) []) ''failed to convert digestInt'' (\<lambda>randInt.
     transact E (\<lambda>v. CSubmitProofAtomicSwapVC v seed0Int randInt sessionInt (parties E tx) digestInt
         (sint (tx_Price tx)) (sint (tx_ExpireAt tx)) receiptSign) ''failed to submit proof'')))))))"

definition submitScrtForVRFQ ::
  "ext \<Rightarrow> BasicConfig \<Rightarrow> Transaction \<Rightarrow> bytes \<Rightarrow> ('z world_scheme, string res) state" where
  "submitScrtForVRFQ E B tx receiptSign =
     attempt (opt_res (SetString (tx_SessionID tx) 10) []) ''failed to convert sessionId'' (\<lambda>sessionInt.
     check (readVRFReceipt E (txDir B tx @ ''/receipt''))
       (\<lambda>_. ret (Err ''failed to read receipt'')) (\<lambda>(_, receipt).
     let gs = Split (CHR '' '') (frc_G receipt) in
     if length gs \<noteq> 3 then ret (Err ''invalid g. '') else
     attempt (opt_res (SetString (gs ! 1) 10) []) ''failed to convert g[1]'' (\<lambda>g0.
     attempt (opt_res (SetString (gs ! 2) 10) []) ''failed to convert g[2]'' (\<lambda>g1.
     attempt (verifySigntureForVRFQ E tx sessionInt (g0, g1) receiptSign)
       ''verify signature error'' (\<lambda>_.
     check (readSeed0ForVRFQ E (txDir B tx @ ''/secret''))
       (\<lambda>_. ret (Err ''Failed to read seed0'')) (\<lambda>secret.
     attempt (opt_res (SetString (fsc_R secret) 10) []) ''Failed to convert s_r'' (\<lambda>srInt.
     transact E (\<lambda>v. CSubmitProofVRF v srInt sessionInt (parties E tx) (g0, g1)
         (sint (tx_Price tx)) (sint (tx_ExpireAt tx)) receiptSign) ''Failed to submit proof'')))))))"

section \<open>Polling for the secret\<close>

text \<open>
  The loop of the four \<open>readScrt\<close> functions: at most \<open>rounds\<close> reads of the record, 30 seconds
  apart, until the contract has a submission time.
\<close>

primrec poll :: "nat \<Rightarrow> string \<Rightarrow> (int \<Rightarrow> ('z world_scheme, (int \<times> 'a) res) state) \<Rightarrow>
    ('z world_scheme, 'a res) state" where
  "poll 0 sessionID getRecord = ret (Err ''No secret to be read'')"
| "poll (Suc rounds) sessionID getRecord =
     attempt (opt_res (SetString sessionID 10) []) ''Failed to convert sessionId'' (\<lambda>sessionInt.
     check (getRecord sessionInt) (\<lambda>_. ret (Err ''Failed to read session record'')) (\<lambda>(submitAt, secret).
     if Int64 submitAt = 0
     then do { ask CSleep (\<lambda>_. ()); poll rounds sessionID getRecord }
     else ret (Ok secret)))"

definition readScrtForComplaint ::
  "ext \<Rightarrow> string \<Rightarrow> string \<Rightarrow> string \<Rightarrow> ('z world_scheme, ComplaintSecret res) state" where
  "readScrtForComplaint E sessionID aliceAddr bobAddr =
     check (poll 20 sessionID (\<lambda>sessionInt.
         ask (CGetRecordComplaint (HexToAddress E aliceAddr) (HexToAddress E bobAddr) sessionInt)
           (GetRecordComplaint E)))
       (\<lambda>e. ret (Err e)) (\<lambda>seed0. ret (Ok \<lparr>csc_S = EncodeToString seed0\<rparr>))"

definition readScrtForAtomicSwap ::
  "ext \<Rightarrow> string \<Rightarrow> string \<Rightarrow> string \<Rightarrow> ('z world_scheme, AtomicSwapSecret res) state" where
  "readScrtForAtomicSwap E sessionID aliceAddr bobAddr =
     check (poll 20 sessionID (\<lambda>sessionInt.
         ask (CGetRecordAtomicSwap (HexToAddress E aliceAddr) (HexToAddress E bobAddr) sessionInt)
           (GetRecordAtomicSwap E)))
       (\<lambda>e. ret (Err e)) (\<lambda>seed0. ret (Ok \<lparr>asc_S = EncodeToString seed0\<rparr>))"

definition readScrtForAtomicSwapVc ::
  "ext \<Rightarrow> string \<Rightarrow> string \<Rightarrow> string \<Rightarrow> ('z world_scheme, AtomicSwapVcSecret res) state" where
  "readScrtForAtomicSwapVc E sessionID aliceAddr bobAddr =
     check (poll 20 sessionID (\<lambda>sessionInt.
         ask (CGetRecordAtomicSwapVC (HexToAddress E aliceAddr) (HexToAddress E bobAddr) sessionInt)
           (GetRecordAtomicSwapVC E)))
       (\<lambda>e. ret (Err e))
       (\<lambda>(seed0, rnd). ret (Ok \<lparr>vsc_S = FormatInt seed0, vsc_R = FormatInt rnd\<rparr>))"

definition readScrtForVRFQ ::
  "ext \<Rightarrow> string \<Rightarrow> string \<Rightarrow> string \<Rightarrow> ('z world_scheme, VRFSecret res) state" where
  "readScrtForVRFQ E sessionID aliceAddr bobAddr =
     check (poll 20 sessionID (\<lambda>sessionInt.
         ask (CGetRecordVRF (HexToAddress E aliceAddr) (HexToAddress E bobAddr) sessionInt)
           (GetRecordVRF E)))
       (\<lambda>e. ret (Err e)) (\<lambda>r. ret (Ok \<lparr>fsc_R = FormatInt r\<rparr>))"

section \<open>Frame conditions\<close>

lemma keeps_poll [frame]:
  assumes "inert f" and "\<And>i. keeps f (g i)"
  shows "keeps f (poll n s g)"
  by (induction n) (simp_all, (intro frame assms | simp)+)

lemmas contract_defs = readDataStatusAtContract_def submitScrtForComplaint_def
  submitScrtForAtomicSwap_def submitScrtForAtomicSwapVc_def submitScrtForVRFQ_def
  readScrtForComplaint_def readScrtForAtomicSwap_def readScrtForAtomicSwapVc_def
  readScrtForVRFQ_def checkDeposit_def

lemma keeps_contract [frame]:
  assumes "inert f"
  shows "keeps f (checkDeposit E a b v)" "keeps f (readDataStatusAtContract E blt)"
    "keeps f (submitScrtForComplaint E B tx sign)" "keeps f (submitScrtForAtomicSwap E B tx sign)"
    "keeps f (submitScrtForAtomicSwapVc E B tx sign)" "keeps f (submitScrtForVRFQ E B tx sign)"
    "keeps f (readScrtForComplaint E s a b)" "keeps f (readScrtForAtomicSwap E s a b)"
    "keeps f (readScrtForAtomicSwapVc E s a b)" "keeps f (readScrtForVRFQ E s a b)"
  unfolding contract_defs by (intro frame assms)+

section \<open>Polling ends\<close>

text \<open>The calls of \<open>k\<close> rounds in which the contract had no secret yet, newest first.\<close>

primrec rounds :: "call \<Rightarrow> nat \<Rightarrow> call list" where
  "rounds c 0 = []"
| "rounds c (Suc k) = CSleep # c # rounds c k"

lemma rounds_shift: "rounds c k @ CSleep # c # h = rounds c (Suc k) @ h"
  by (induction k) simp_all

text \<open>
  How polling may end: the session number does not parse and nothing is asked; after \<open>n\<close> rounds in
  all of which the contract answered with date zero; or in a round before, with the secret of a
  record whose date is not zero, or because the contract could not be read.
\<close>

definition polled :: "(call list \<Rightarrow> (int \<times> 'a) res) \<Rightarrow> (int \<Rightarrow> call) \<Rightarrow> nat \<Rightarrow> string \<Rightarrow> call list \<Rightarrow> 'a res \<Rightarrow> call list \<Rightarrow> bool" where
  "polled get c n sid h r h' \<longleftrightarrow>
     (case SetString sid 10 of
        None \<Rightarrow> h' = h \<and> (n \<noteq> 0 \<longrightarrow> r = Err ''Failed to convert sessionId'')
      | Some i \<Rightarrow>
          h' = rounds (c i) n @ h \<and> r = Err ''No secret to be read'' \<and>
            (\<forall>k < n. \<exists>d x. get (c i # rounds (c i) k @ h) = Ok (d, x) \<and> Int64 d = 0) \<or>
          (\<exists>k < n. h' = c i # rounds (c i) k @ h \<and>
             (case get h' of
                Ok (d, x) \<Rightarrow> Int64 d \<noteq> 0 \<and> r = Ok x
              | Err _ \<Rightarrow> r = Err ''Failed to read session record''
              | Panic \<Rightarrow> r = Panic)))"

lemma polled_next:
  assumes "SetString sid 10 = Some i" "get (c i # h) = Ok (d, x)" "Int64 d = 0"
    and "polled get c n sid (CSleep # c i # h) r h'"
  shows "polled get c (Suc n) sid h r h'"
proof -
  let ?late = "\<lambda>k h0. h' = c i # rounds (c i) k @ h0 \<and> (case get h' of Ok (d, x) \<Rightarrow> Int64 d \<noteq> 0 \<and> r = Ok x
      | Err _ \<Rightarrow> r = Err ''Failed to read session record'' | Panic \<Rightarrow> r = Panic)"
  consider (out) "h' = rounds (c i) n @ CSleep # c i # h" "r = Err ''No secret to be read''"
      "\<forall>k < n. \<exists>d x. get (c i # rounds (c i) k @ CSleep # c i # h) = Ok (d, x) \<and> Int64 d = 0"
    | (late) k where "k < n" "?late k (CSleep # c i # h)"
    using assms(4) by (auto simp: polled_def assms(1))
  then show ?thesis
  proof cases
    case out
    have "\<exists>d x. get (c i # rounds (c i) k @ h) = Ok (d, x) \<and> Int64 d = 0" if "k < Suc n" for k
      using that out(3) assms(2,3) by (cases k) (auto simp: rounds_shift simp del: rounds.simps(2))
    with out(1,2) show ?thesis by (simp add: polled_def assms(1) rounds_shift del: rounds.simps)
  next
    case late
    then have "Suc k < Suc n \<and> ?late (Suc k) h" unfolding rounds_shift by blast
    then show ?thesis unfolding polled_def assms(1) by auto
  qed
qed

lemma wp_poll: "wp (poll n sid (\<lambda>i. ask (c i) get)) (\<lambda>r w'. polled get c n sid (hist w) r (hist w')) w"
proof (induction n arbitrary: w)
  case 0
  then show ?case by (simp add: wps polled_def split: option.split)
next
  case (Suc n)
  show ?case
  proof (cases "SetString sid 10")
    case None
    then show ?thesis by (simp add: wps polled_def opt_res_def)
  next
    case (Some i)
    have stop: "polled get c (Suc n) sid (hist w) r (c i # hist w)"
      if "case get (c i # hist w) of Ok (d, x) \<Rightarrow> Int64 d \<noteq> 0 \<and> r = Ok x
        | Err _ \<Rightarrow> r = Err ''Failed to read session record'' | Panic \<Rightarrow> r = Panic" for r
      using that by (auto simp: polled_def Some intro!: exI [of _ 0])
    have more: "wp (poll n sid (\<lambda>i. ask (c i) get)) (\<lambda>r w'. polled get c (Suc n) sid (hist w) r (hist w')) (w\<lparr>hist := CSleep # c i # hist w\<rparr>)"
      if "get (c i # hist w) = Ok (d, x)" "Int64 d = 0" for d x
      by (rule wp_mono [OF Suc]) (use polled_next [where c = c and get = get and h = "hist w", OF Some that] in simp)
    show ?thesis
      using stop more by (auto simp: wps Some opt_res_def split: res.split)
  qed
qed

lemma wp_read_secret:
  assumes "\<And>x. k x = ret (f x)"
  shows "wp (check (poll n sid (\<lambda>i. ask (c i) get)) (\<lambda>e. ret (Err e)) k)
    (\<lambda>r w'. \<exists>v. polled get c n sid (hist w) v (hist w') \<and> r = res_bind v f) w"
  unfolding wp_check
proof (rule wp_mono [OF wp_poll])
  fix r and w' :: "'b world_scheme"
  assume "polled get c n sid (hist w) r (hist w')"
  then show "case r of Ok v \<Rightarrow> wp (k v) (\<lambda>r w'. \<exists>v. polled get c n sid (hist w) v (hist w') \<and> r = res_bind v f) w'
    | Err e \<Rightarrow> wp (ret (Err e)) (\<lambda>r w'. \<exists>v. polled get c n sid (hist w) v (hist w') \<and> r = res_bind v f) w'
    | Panic \<Rightarrow> \<exists>v. polled get c n sid (hist w) v (hist w') \<and> Panic = res_bind v f"
    using assms by (cases r) (auto simp: wp_return intro: exI [of _ r])
qed

text \<open>
  C20. Waiting for the seller's secret ends, whatever the contract answers: each of the four readers
  asks the contract at most twenty times, always for the same record, and pauses at most twenty
  times. It gives up with no secret exactly after twenty answers whose date is zero, and it returns
  a secret only from a record whose date is not zero.
\<close>

theorem secret_polling_ends:
  "wp (readScrtForComplaint E sid a b) (\<lambda>r w'. \<exists>v. polled (GetRecordComplaint E)
       (CGetRecordComplaint (HexToAddress E a) (HexToAddress E b)) 20 sid (hist w) v (hist w') \<and>
       r = res_bind v (\<lambda>seed0. Ok \<lparr>csc_S = EncodeToString seed0\<rparr>)) w \<and>
   wp (readScrtForAtomicSwap E sid a b) (\<lambda>r w'. \<exists>v. polled (GetRecordAtomicSwap E)
       (CGetRecordAtomicSwap (HexToAddress E a) (HexToAddress E b)) 20 sid (hist w) v (hist w') \<and>
       r = res_bind v (\<lambda>seed0. Ok \<lparr>asc_S = EncodeToString seed0\<rparr>)) w \<and>
   wp (readScrtForAtomicSwapVc E sid a b) (\<lambda>r w'. \<exists>v. polled (GetRecordAtomicSwapVC E)
       (CGetRecordAtomicSwapVC (HexToAddress E a) (HexToAddress E b)) 20 sid (hist w) v (hist w') \<and>
       r = res_bind v (\<lambda>(seed0, rnd). Ok \<lparr>vsc_S = FormatInt seed0, vsc_R = FormatInt rnd\<rparr>)) w \<and>
   wp (readScrtForVRFQ E sid a b) (\<lambda>r w'. \<exists>v. polled (GetRecordVRF E)
       (CGetRecordVRF (HexToAddress E a) (HexToAddress E b)) 20 sid (hist w) v (hist w') \<and>
       r = res_bind v (\<lambda>x. Ok \<lparr>fsc_R = FormatInt x\<rparr>)) w"
  unfolding readScrtForComplaint_def readScrtForAtomicSwap_def readScrtForAtomicSwapVc_def readScrtForVRFQ_def
  by (intro conjI wp_read_secret) (auto split: prod.split)

end
