(* ===== verification/Modes.thy ===== *)
theory Modes
  imports Files
begin

text \<open>
  The names of the transaction modes of \<^verbatim>\<open>const.go\<close> and their numbers on the wire, from
  \<^verbatim>\<open>connection.go\<close>, and the JSON of the two structs the parties put on the wire.
\<close>

section \<open>Constants\<close>

definition TRANSACTION_MODE_PLAIN_POD :: string where "TRANSACTION_MODE_PLAIN_POD = ''plain''"
definition TRANSACTION_MODE_TABLE_POD :: string where "TRANSACTION_MODE_TABLE_POD = ''table''"
definition TRANSACTION_SUB_MODE_COMPLAINT :: string where
  "TRANSACTION_SUB_MODE_COMPLAINT = ''complaint''"
definition TRANSACTION_SUB_MODE_ATOMIC_SWAP :: string where
  "TRANSACTION_SUB_MODE_ATOMIC_SWAP = ''atomic_swap''"
definition TRANSACTION_SUB_MODE_ATOMIC_SWAP_VC :: string where
  "TRANSACTION_SUB_MODE_ATOMIC_SWAP_VC = ''atomic_swap_vc''"
definition TRANSACTION_SUB_MODE_VRF :: string where "TRANSACTION_SUB_MODE_VRF = ''vrf''"

lemmas mode_names = TRANSACTION_MODE_PLAIN_POD_def TRANSACTION_MODE_TABLE_POD_def
  TRANSACTION_SUB_MODE_COMPLAINT_def TRANSACTION_SUB_MODE_ATOMIC_SWAP_def
  TRANSACTION_SUB_MODE_ATOMIC_SWAP_VC_def TRANSACTION_SUB_MODE_VRF_def

section \<open>Mode numbers\<close>

definition modeToInt :: "string \<Rightarrow> string \<Rightarrow> bool \<Rightarrow> u8 res" where
  "modeToInt mode subMode ot =
     (if mode = TRANSACTION_MODE_PLAIN_POD then
        if subMode = TRANSACTION_SUB_MODE_COMPLAINT then
          Ok (if \<not> ot then ModePlainComplaintPoD else ModePlainOTComplaintPoD)
        else if subMode = TRANSACTION_SUB_MODE_ATOMIC_SWAP then Ok ModePlainAtomicSwapPoD
        else if subMode = TRANSACTION_SUB_MODE_ATOMIC_SWAP_VC then Ok ModePlainAtomicSwapVcPoD
        else Err ''invalid mode''
      else if mode = TRANSACTION_MODE_TABLE_POD then
        if subMode = TRANSACTION_SUB_MODE_COMPLAINT then
          Ok (if \<not> ot then ModeTableComplaintPoD else ModeTableOTComplaintPoD)
        else if subMode = TRANSACTION_SUB_MODE_ATOMIC_SWAP then Ok ModeTableAtomicSwapPoD
        else if subMode = TRANSACTION_SUB_MODE_ATOMIC_SWAP_VC then Ok ModeTableAtomicSwapVcPoD
        else if subMode = TRANSACTION_SUB_MODE_VRF then
          Ok (if \<not> ot then ModeTableVRFQuery else ModeTableOTVRFQuery)
        else Err ''invalid mode''
      else Err ''invalid mode'')"

definition modeFromInt :: "u8 \<Rightarrow> (string \<times> string \<times> bool) res" where
  "modeFromInt netMode =
     (if netMode = ModePlainComplaintPoD then
        Ok (TRANSACTION_MODE_PLAIN_POD, TRANSACTION_SUB_MODE_COMPLAINT, False)
      else if netMode = ModePlainOTComplaintPoD then
        Ok (TRANSACTION_MODE_PLAIN_POD, TRANSACTION_SUB_MODE_COMPLAINT, True)
      else if netMode = ModePlainAtomicSwapPoD then
        Ok (TRANSACTION_MODE_PLAIN_POD, TRANSACTION_SUB_MODE_ATOMIC_SWAP, False)
      else if netMode = ModePlainAtomicSwapVcPoD then
        Ok (TRANSACTION_MODE_PLAIN_POD, TRANSACTION_SUB_MODE_ATOMIC_SWAP_VC, False)
      else if netMode = ModeTableComplaintPoD then
        Ok (TRANSACTION_MODE_TABLE_POD, TRANSACTION_SUB_MODE_COMPLAINT, False)
      else if netMode = ModeTableOTComplaintPoD then
        Ok (TRANSACTION_MODE_TABLE_POD, TRANSACTION_SUB_MODE_COMPLAINT, True)
      else if netMode = ModeTableAtomicSwapPoD then
        Ok (TRANSACTION_MODE_TABLE_POD, TRANSACTION_SUB_MODE_ATOMIC_SWAP, False)
      else if netMode = ModeTableAtomicSwapVcPoD then
        Ok (TRANSACTION_MODE_TABLE_POD, TRANSACTION_SUB_MODE_ATOMIC_SWAP_VC, False)
      else if netMode = ModeTableVRFQuery then
        Ok (TRANSACTION_MODE_TABLE_POD, TRANSACTION_SUB_MODE_VRF, False)
      else if netMode = ModeTableOTVRFQuery then
        Ok (TRANSACTION_MODE_TABLE_POD, TRANSACTION_SUB_MODE_VRF, True)
      else Err ''invalid mode'')"

text \<open>
  The mode switch of \<open>AliceAcceptTx\<close> and of \<open>BobPurchaseDataAPIHandler\<close>; a combination without
  a case does nothing.
\<close>

definition pkg_of :: "string \<Rightarrow> string \<Rightarrow> bool \<Rightarrow> pod_pkg option" where
  "pkg_of mode subMode ot =
     (if mode = TRANSACTION_MODE_PLAIN_POD then
        if subMode = TRANSACTION_SUB_MODE_COMPLAINT then Some (if ot then POC else PC)
        else if subMode = TRANSACTION_SUB_MODE_ATOMIC_SWAP then Some PAS
        else if subMode = TRANSACTION_SUB_MODE_ATOMIC_SWAP_VC then Some PASVC
        else None
      else if mode = TRANSACTION_MODE_TABLE_POD then
        if subMode = TRANSACTION_SUB_MODE_COMPLAINT then Some (if ot then TOC else TC)
        else if subMode = TRANSACTION_SUB_MODE_ATOMIC_SWAP then Some TAS
        else if subMode = TRANSACTION_SUB_MODE_ATOMIC_SWAP_VC then Some TASVC
        else if subMode = TRANSACTION_SUB_MODE_VRF then Some (if ot then TOQ else TQ)
        else None
      else None)"

lemma mode_from_to:
  assumes "modeFromInt m = Ok (mode, subMode, ot)"
  shows "modeToInt mode subMode ot = Ok m"
proof -
  have "mode = TRANSACTION_MODE_PLAIN_POD \<or> mode = TRANSACTION_MODE_TABLE_POD"
    using assms unfolding modeFromInt_def by (simp split: if_splits)
  then show ?thesis
    using assms unfolding modeFromInt_def modeToInt_def
    by (auto simp: mode_names split: if_splits)
qed

lemma mode_to_from:
  "modeToInt mode subMode ot = Ok m \<Longrightarrow>
     \<exists>ot'. modeFromInt m = Ok (mode, subMode, ot') \<and>
       (ot' = (ot \<and> subMode \<notin> {TRANSACTION_SUB_MODE_ATOMIC_SWAP, TRANSACTION_SUB_MODE_ATOMIC_SWAP_VC}))"
  unfolding modeToInt_def modeFromInt_def
  by (auto simp: mode_consts mode_names split: if_splits)

lemma unat_roundtrip: "word_of_nat (unat (w :: 'a::len word)) = w"
  by simp

lemma modeFromInt_range: "(\<exists>t. modeFromInt m = Ok t) \<longleftrightarrow> m < modeMax"
proof
  assume "\<exists>t. modeFromInt m = Ok t"
  then show "m < modeMax"
    by (auto simp: modeFromInt_def mode_consts split: if_splits)
next
  assume "m < modeMax"
  then have "unat m < 10" by (simp add: word_less_nat_alt modeMax_def)
  then have "unat m \<in> {0, 1, 2, 3, 4, 5, 6, 7, 8, 9}" by auto
  then have "m \<in> word_of_nat ` {0, 1, 2, 3, 4, 5, 6, 7, 8, 9}"
    by (metis image_eqI unat_roundtrip)
  then show "\<exists>t. modeFromInt m = Ok t"
    by (auto simp: modeFromInt_def mode_consts)
qed

text \<open>
  The numbers on the wire name the modes faithfully: exactly the numbers below \<open>modeMax\<close>
  decode, encoding the decoded mode gives the number back, and decoding an encoded mode gives
  the mode back, with the OT flag dropped for the atomic-swap modes, which have no OT variant.
  A mode that has no number is refused.
\<close>

theorem modes_roundtrip:
  "(modeFromInt m = Ok (mode, subMode, ot) \<longrightarrow> modeToInt mode subMode ot = Ok m) \<and>
   ((\<exists>t. modeFromInt m = Ok t) \<longleftrightarrow> m < modeMax) \<and>
   (modeToInt mode subMode ot = Ok m \<longrightarrow>
      modeFromInt m = Ok (mode, subMode, ot \<and> subMode \<notin>
        {TRANSACTION_SUB_MODE_ATOMIC_SWAP, TRANSACTION_SUB_MODE_ATOMIC_SWAP_VC})) \<and>
   (mode \<notin> {TRANSACTION_MODE_PLAIN_POD, TRANSACTION_MODE_TABLE_POD} \<longrightarrow>
      modeToInt mode subMode ot = Err ''invalid mode'')"
proof (intro conjI impI)
  show "modeToInt mode subMode ot = Ok m" if "modeFromInt m = Ok (mode, subMode, ot)"
    using that by (rule mode_from_to)
  show "(\<exists>t. modeFromInt m = Ok t) \<longleftrightarrow> m < modeMax" by (rule modeFromInt_range)
  show "modeFromInt m = Ok (mode, subMode, ot \<and> subMode \<notin>
      {TRANSACTION_SUB_MODE_ATOMIC_SWAP, TRANSACTION_SUB_MODE_ATOMIC_SWAP_VC})"
    if "modeToInt mode subMode ot = Ok m"
    using mode_to_from [OF that] by (elim exE conjE) (simp only:)
  show "modeToInt mode subMode ot = Err ''invalid mode''"
    if "mode \<notin> {TRANSACTION_MODE_PLAIN_POD, TRANSACTION_MODE_TABLE_POD}"
    using that by (simp add: modeToInt_def)
qed

theorem modes_roundtrip_witness:
  "modeToInt TRANSACTION_MODE_TABLE_POD TRANSACTION_SUB_MODE_VRF True = Ok 5 \<and>
   modeToInt ''graph'' TRANSACTION_SUB_MODE_VRF False = Err ''invalid mode''"
  using modes_roundtrip [of 5 TRANSACTION_MODE_TABLE_POD TRANSACTION_SUB_MODE_VRF True]
    modes_roundtrip [of 5 "''graph''" TRANSACTION_SUB_MODE_VRF False]
  by (simp add: modeFromInt_def mode_consts mode_names)

section \<open>Wire structs\<close>

record requestExtra =
  re_Price :: int64
  re_Mode :: string
  re_SubMode :: string
  re_Ot :: bool

definition zero_requestExtra :: requestExtra where
  "zero_requestExtra = \<lparr>re_Price = 0, re_Mode = [], re_SubMode = [], re_Ot = False\<rparr>"

definition requestExtra_fields :: "requestExtra field list" where
  "requestExtra_fields = [
     field ''price'' dec_int64 re_Price re_Price_update,
     field ''mode'' dec_string re_Mode re_Mode_update,
     field ''subMode'' dec_string re_SubMode re_SubMode_update,
     field ''ot'' dec_bool re_Ot re_Ot_update]"

definition marshal_requestExtra :: "requestExtra \<Rightarrow> bytes" where
  "marshal_requestExtra re = enc_struct [
     (''price'', enc_int64 (re_Price re)), (''mode'', enc_string (re_Mode re)),
     (''subMode'', enc_string (re_SubMode re)), (''ot'', enc_bool (re_Ot re))]"

record ReceiptForConnection =
  rc_ReceiptByte :: bytes
  rc_ReceiptSign :: bytes
  rc_Price :: int64
  rc_ExpireAt :: int64

definition zero_ReceiptForConnection :: ReceiptForConnection where
  "zero_ReceiptForConnection = \<lparr>rc_ReceiptByte = [], rc_ReceiptSign = [], rc_Price = 0, rc_ExpireAt = 0\<rparr>"

definition ReceiptForConnection_fields :: "ReceiptForConnection field list" where
  "ReceiptForConnection_fields = [
     field ''receiptByte'' dec_bytes rc_ReceiptByte rc_ReceiptByte_update,
     field ''receiptSign'' dec_bytes rc_ReceiptSign rc_ReceiptSign_update,
     field ''price'' dec_int64 rc_Price rc_Price_update,
     field ''expireAt'' dec_int64 rc_ExpireAt rc_ExpireAt_update]"

definition marshal_ReceiptForConnection :: "ReceiptForConnection \<Rightarrow> bytes" where
  "marshal_ReceiptForConnection r = enc_struct [
     (''receiptByte'', enc_bytes (rc_ReceiptByte r)), (''receiptSign'', enc_bytes (rc_ReceiptSign r)),
     (''price'', enc_int64 (rc_Price r)), (''expireAt'', enc_int64 (rc_ExpireAt r))]"

lemma requestExtra_roundtrip:
  assumes "ascii (re_Mode re)" "ascii (re_SubMode re)"
  shows "Unmarshal requestExtra_fields (marshal_requestExtra re) r0 = Ok re"
proof -
  let ?ms = "[(''price'', enc_int64 (re_Price re), TNum (enc_int64 (re_Price re)), JNum (enc_int64 (re_Price re))),
    (''mode'', enc_string (re_Mode re), TStr (re_Mode re), JStr (re_Mode re)),
    (''subMode'', enc_string (re_SubMode re), TStr (re_SubMode re), JStr (re_SubMode re)),
    (''ot'', enc_bool (re_Ot re), if re_Ot re then TTrue else TFalse, JBool (re_Ot re))]"
  have "members_ok ?ms"
    using assms scalars unfolding members_ok_def by (simp add: ascii_def)
  from Unmarshal_struct [OF this, of requestExtra_fields r0] show ?thesis
    by (simp add: marshal_requestExtra_def requestExtra_fields_def find_field_def field_def)
qed

lemma receipt_roundtrip:
  "Unmarshal ReceiptForConnection_fields (marshal_ReceiptForConnection r) r0 = Ok r"
proof -
  let ?ms = "[(''receiptByte'', enc_bytes (rc_ReceiptByte r), TStr (b64_encode (rc_ReceiptByte r)),
       JStr (b64_encode (rc_ReceiptByte r))),
    (''receiptSign'', enc_bytes (rc_ReceiptSign r), TStr (b64_encode (rc_ReceiptSign r)),
       JStr (b64_encode (rc_ReceiptSign r))),
    (''price'', enc_int64 (rc_Price r), TNum (enc_int64 (rc_Price r)), JNum (enc_int64 (rc_Price r))),
    (''expireAt'', enc_int64 (rc_ExpireAt r), TNum (enc_int64 (rc_ExpireAt r)),
       JNum (enc_int64 (rc_ExpireAt r)))]"
  have "members_ok ?ms"
    using scalars unfolding members_ok_def by (simp add: ascii_def)
  from Unmarshal_struct [OF this, of ReceiptForConnection_fields r0] show ?thesis
    by (simp add: marshal_ReceiptForConnection_def ReceiptForConnection_fields_def find_field_def
        field_def)
qed

text \<open>
  What the parties put into JSON comes out of it unchanged: a receipt with any receipt and
  signature bytes, price and expiry time, and a session request's extra information with any
  price and OT flag and ASCII mode names, decode from their encodings, whatever the struct held
  before.
\<close>

theorem wire_json_roundtrip:
  "Unmarshal ReceiptForConnection_fields (marshal_ReceiptForConnection r) r0 = Ok r \<and>
   (ascii (re_Mode re) \<and> ascii (re_SubMode re) \<longrightarrow>
      Unmarshal requestExtra_fields (marshal_requestExtra re) re0 = Ok re)"
  using receipt_roundtrip requestExtra_roundtrip by blast

theorem wire_json_roundtrip_witness:
  "Unmarshal requestExtra_fields (marshal_requestExtra
     \<lparr>re_Price = 17, re_Mode = ''plain'', re_SubMode = ''complaint'', re_Ot = True\<rparr>) zero_requestExtra =
   Ok \<lparr>re_Price = 17, re_Mode = ''plain'', re_SubMode = ''complaint'', re_Ot = True\<rparr>"
  using wire_json_roundtrip [of zero_ReceiptForConnection zero_ReceiptForConnection
      "\<lparr>re_Price = 17, re_Mode = ''plain'', re_SubMode = ''complaint'', re_Ot = True\<rparr>" zero_requestExtra]
  by (simp add: ascii_def)

end
