(* ===== verification/Connection.thy ===== *)
theory Connection
  imports Contract Modes
begin

text \<open>
  \<^verbatim>\<open>connection.go\<close>: how the seller and the buyer open a session on a new connection, and the
  functions that move the files of a transaction between disk and node. \<open>preAliceTx\<close> and
  \<open>newSessID\<close>, which the seller runs in between, are from \<^verbatim>\<open>seller_tx.go\<close>.
\<close>

section \<open>The seller's side of a session\<close>

record AliceConnParam =
  ap_Mode :: string
  ap_SubMode :: string
  ap_OT :: bool
  ap_UnitPrice :: int64
  ap_SessionID :: string
  ap_Bulletin :: Bulletin

definition newSessID :: "ext \<Rightarrow> ('z world_scheme, string res) state" where
  "newSessID E = check (ask CRand (RandInt E)) (\<lambda>e. ret (Err e)) (\<lambda>n. ret (Ok (FormatUint 10 n)))"

text \<open>The sub mode a sale is made in: the one asked for if it is on offer, else the first offered.\<close>

definition choose_subMode :: "string list \<Rightarrow> string \<Rightarrow> string" where
  "choose_subMode offered wanted =
     (case find (\<lambda>s. wanted = s \<and> s \<noteq> []) offered of Some s \<Rightarrow> s | None \<Rightarrow> hd offered)"

definition preAliceTx :: "ext \<Rightarrow> BasicConfig \<Rightarrow> string \<Rightarrow> requestExtra \<Rightarrow>
    ('z world_scheme, (AliceConnParam \<times> requestExtra) res) state" where
  "preAliceTx E B mklroot re =
     (let publish = AliceDir B @ ''/publish/'' @ mklroot in
     check (readBulletinFile E (publish @ ''/bulletin'')) (\<lambda>_. ret (Err ''failed to read bulletin''))
       (\<lambda>bulletin.
     check (readExtraFile E (publish @ ''/extra.json'')) (\<lambda>_. ret (Err ''failed to extra file''))
       (\<lambda>extra.
     if sint (pe_UnitPrice extra) > sint (re_Price re) then ret (Err ''the price is too low'')
     else if elems (pe_SubMode extra) = [] then ret (Err ''no subMode'')
     else
       let subMode = choose_subMode (elems (pe_SubMode extra)) (re_SubMode re);
           ot = (re_Ot re \<and> \<not> (subMode = TRANSACTION_SUB_MODE_ATOMIC_SWAP \<or>
             subMode = TRANSACTION_SUB_MODE_ATOMIC_SWAP_VC));
           re' = re\<lparr>re_Mode := blt_Mode bulletin, re_SubMode := subMode, re_Ot := ot\<rparr> in
       attempt (calcuBltKey E bulletin) ''failed to calculate bltKey'' (\<lambda>bltByte.
       check (readDataStatusAtContract E bltByte) (\<lambda>_. ret (Err ''Failed to check data'')) (\<lambda>status.
       if status \<noteq> ''OK'' then ret (Err ''The data is not in salse'') else
       check (newSessID E) (\<lambda>_. ret (Err ''failed to create session Id'')) (\<lambda>sessionID.
       check (Mkdir E (AliceDir B @ ''/transaction/'' @ sessionID))
         (\<lambda>_. ret (Err ''failed to create folder'')) (\<lambda>_.
       ret (Ok (\<lparr>ap_Mode = blt_Mode bulletin, ap_SubMode = subMode, ap_OT = ot,
           ap_UnitPrice = re_Price re, ap_SessionID = sessionID, ap_Bulletin = bulletin\<rparr>, re')))))))))"

definition AliceNewConn ::
  "ext \<Rightarrow> enc_handshake \<Rightarrow> privkey \<Rightarrow> ('z world_scheme, pubkey res) state" where
  "AliceNewConn E doEnc key =
     check (on_node (on_conn (run_state (Handshake (Crypto E) doEnc [] key False))))
       (\<lambda>_. ret (Err ''failed to server-side handshake'')) (\<lambda>rkey. do {
     w \<leftarrow> State_Monad.get;
     check (ret (NewNode (Some (conn (nd w))) key rkey))
       (\<lambda>_. ret (Err ''failed to create server node'')) (\<lambda>node. do {
     State_Monad.update (\<lambda>w. w\<lparr>nd := node\<rparr>);
     ret (Ok rkey) }) })"

definition AliceRcvSessReq :: "('z world_scheme, (SessionRequest \<times> requestExtra) res) state" where
  "AliceRcvSessReq =
     check (on_node RecvSessionRequest) (\<lambda>_. ret (Err ''failed to receive session request'')) (\<lambda>req.
     if ID req \<noteq> 0 then ret (Err ''session ID not zero'') else
     attempt (Unmarshal requestExtra_fields (ExtraInfo req) zero_requestExtra)
       ''failed to parse extra info'' (\<lambda>re. ret (Ok (req, re))))"

definition preAliceConn ::
  "AliceConnParam \<Rightarrow> SessionRequest \<Rightarrow> ('z world_scheme, unit res) state" where
  "preAliceConn params req =
     attempt (ParseUint_res 16 (ap_SessionID params)) ''failed to convert sessionID'' (\<lambda>sessionIDInt.
     attempt (modeToInt (ap_Mode params) (ap_SubMode params) (ap_OT params))
       ''failed to convert mode to netMode'' (\<lambda>netMode.
     check (on_node (SendSessionAck sessionIDInt netMode (SigmaMklRoot req) (ExtraInfo req) True))
       (\<lambda>_. ret (Err ''failed to send session ack from server'')) (\<lambda>_.
     check (on_node (RecvSessionAck False))
       (\<lambda>_. ret (Err ''failed to receive session ack on server node'')) (\<lambda>ack.
     if ID ack \<noteq> sessionIDInt then ret (Err ''mismatch session ID on server node'')
     else ret (Ok ())))))"

text \<open>\<open>node.Close()\<close> and return of an error.\<close>

definition close_and_fail :: "string \<Rightarrow> ('z world_scheme, 'a res) state" where
  "close_and_fail e = do { on_node Node_Close; ret (Err e) }"

definition preAliceTxAndConn :: "ext \<Rightarrow> BasicConfig \<Rightarrow> enc_handshake \<Rightarrow> privkey \<Rightarrow>
    ('z world_scheme, (pubkey \<times> AliceConnParam) res) state" where
  "preAliceTxAndConn E B doEnc key =
     check (AliceNewConn E doEnc key) (\<lambda>e. ret (Err e)) (\<lambda>rkey.
     check AliceRcvSessReq close_and_fail (\<lambda>(req, re).
     check (preAliceTx E B (EncodeToString (SigmaMklRoot req)) re)
       (\<lambda>_. close_and_fail ''failed to prepare for transaction'') (\<lambda>(params, re).
     check (preAliceConn params (req\<lparr>ExtraInfo := marshal_requestExtra re\<rparr>)) close_and_fail (\<lambda>_.
     ret (Ok (rkey, params))))))"

section \<open>The buyer's side of a session\<close>

definition BobCreateSess :: "string \<Rightarrow> string \<Rightarrow> string \<Rightarrow> bool \<Rightarrow> int64 \<Rightarrow>
    ('z world_scheme, (string \<times> string \<times> string \<times> bool) res) state" where
  "BobCreateSess mklroot mode subMode ot unitPrice =
     attempt (DecodeString mklroot) ''failed to decode merkle root'' (\<lambda>mklrootByte.
     let extraByte = marshal_requestExtra
           \<lparr>re_Price = unitPrice, re_Mode = mode, re_SubMode = subMode, re_Ot = ot\<rparr> in
     check (on_node (SendNewSessionRequest 0 mklrootByte extraByte))
       (\<lambda>_. ret (Err ''failed to send session request'')) (\<lambda>_.
     check (on_node (RecvSessionAck True))
       (\<lambda>_. ret (Err ''failed to receive session ack on client node'')) (\<lambda>ack.
     attempt (modeFromInt (Mode ack)) ''invalid net mode'' (\<lambda>(mode, subMode, ot).
     check (on_node (SendSessionAck (ID ack) (Mode ack) mklrootByte (ExtraInfo ack) False))
       (\<lambda>_. ret (Err ''failed to send session ack from client'')) (\<lambda>_.
     ret (Ok (FormatUint 16 (unat (ID ack)), mode, subMode, ot)))))))"

section \<open>Identifiers of the parties\<close>

definition converAddr :: "string \<Rightarrow> bytes" where
  "converAddr address = (if length address < 40 then replicate 40 0
     else bytes_of_string (drop (length address - 40) address))"

section \<open>Files over the node\<close>

text \<open>
  \<open>os.OpenFile(path, O_WRONLY|O_CREATE, 0666)\<close> and \<open>Write\<close>, as every receiving function below
  ends: an older, longer file keeps its tail.
\<close>

definition save :: "ext \<Rightarrow> string \<Rightarrow> bytes \<Rightarrow> ('z world_scheme, unit res) state" where
  "save E path bs =
     check (OpenFile E path) (\<lambda>_. ret (Err ''failed to save file'')) (\<lambda>_.
     check (WriteOpened E path bs) (\<lambda>_. ret (Err ''failed to write to file'')) (\<lambda>_. ret (Ok ())))"

definition AliceRcvPODReq :: "ext \<Rightarrow> string \<Rightarrow> ('z world_scheme, unit res) state" where
  "AliceRcvPODReq E requestFile =
     check (on_node RecvTxRequest) (\<lambda>e. ret (Err e)) (\<lambda>(_, reqBuf). save E requestFile reqBuf)"

definition AliceSendPODResp :: "ext \<Rightarrow> string \<Rightarrow> ('z world_scheme, unit res) state" where
  "AliceSendPODResp E responseFile =
     check (ReadFile E responseFile) (\<lambda>_. ret (Err ''failed to read response file'')) (\<lambda>txResponse.
     on_node (SendTxResponse txResponse (len64 txResponse)))"

text \<open>
  The values are returned beside the error: the caller assigns the expiry time before it looks
  at the error.
\<close>

definition AliceRcvPODRecpt ::
  "ext \<Rightarrow> string \<Rightarrow> ('z world_scheme, (bytes \<times> int64 \<times> int64) \<times> unit res) state" where
  "AliceRcvPODRecpt E receiptFile = do {
     r \<leftarrow> on_node (RecvTxReceipt (Crypto E));
     (case r of
        Err e \<Rightarrow> ret (([], 0, 0), Err e)
      | Panic \<Rightarrow> ret (([], 0, 0), Panic)
      | Ok (receipt, _) \<Rightarrow>
          (case Unmarshal ReceiptForConnection_fields receipt zero_ReceiptForConnection of
             Err e \<Rightarrow> ret (([], 0, 0), Err ''failed to parse receipt.'')
           | Panic \<Rightarrow> ret (([], 0, 0), Panic)
           | Ok rc \<Rightarrow> do {
               s \<leftarrow> save E receiptFile (rc_ReceiptByte rc);
               ret ((rc_ReceiptSign rc, rc_Price rc, rc_ExpireAt rc), s) })) }"

definition AliceReceiveNegoReq :: "ext \<Rightarrow> string \<Rightarrow> ('z world_scheme, unit res) state" where
  "AliceReceiveNegoReq E bobNegoRequestFile =
     check (on_node RecvNegoRequest) (\<lambda>_. ret (Err ''failed to receive negotiation request''))
       (\<lambda>(_, reqBuf). save E bobNegoRequestFile reqBuf)"

definition AliceSendNegoResp :: "ext \<Rightarrow> string \<Rightarrow> string \<Rightarrow> ('z world_scheme, unit res) state" where
  "AliceSendNegoResp E negoResponseFile negoRequestFile =
     check (ReadFile E negoResponseFile) (\<lambda>_. ret (Err ''failed to read response file'')) (\<lambda>txResponse.
     check (ReadFile E negoRequestFile) (\<lambda>_. ret (Err ''failed to read ack file'')) (\<lambda>txRequest.
     check (on_node (SendNegoAckReq txResponse txRequest (len64 txResponse) (len64 txRequest)))
       (\<lambda>_. ret (Err ''failed to send nego ack+req'')) (\<lambda>_. ret (Ok ()))))"

definition AliceRcvNegoResp :: "ext \<Rightarrow> string \<Rightarrow> ('z world_scheme, unit res) state" where
  "AliceRcvNegoResp E bobNegoResponseFile =
     check (on_node RecvNegoAck) (\<lambda>_. ret (Err ''failed to receive nego ack''))
       (\<lambda>(_, negoRespBuf). save E bobNegoResponseFile negoRespBuf)"

definition BobSendPODReq :: "ext \<Rightarrow> string \<Rightarrow> ('z world_scheme, unit res) state" where
  "BobSendPODReq E requestFile =
     check (ReadFile E requestFile) (\<lambda>_. ret (Err ''failed to read transaction request file'')) (\<lambda>txReq.
     check (on_node (SendTxRequest txReq (len64 txReq)))
       (\<lambda>_. ret (Err ''failed to send Tx request'')) (\<lambda>_. ret (Ok ())))"

definition BobRcvPODResp :: "ext \<Rightarrow> string \<Rightarrow> ('z world_scheme, unit res) state" where
  "BobRcvPODResp E responseFile =
     check (on_node RecvTxResponse) (\<lambda>e. ret (Err e)) (\<lambda>(_, respBuf). save E responseFile respBuf)"

definition BobSendPODRecpt ::
  "ext \<Rightarrow> int64 \<Rightarrow> int64 \<Rightarrow> bytes \<Rightarrow> bytes \<Rightarrow> ('z world_scheme, unit res) state" where
  "BobSendPODRecpt E price expireAt receiptByte sign =
     (let receiptConnBytes = marshal_ReceiptForConnection
        \<lparr>rc_ReceiptByte = receiptByte, rc_ReceiptSign = sign, rc_Price = price, rc_ExpireAt = expireAt\<rparr>
      in on_node (SendTxReceipt (Crypto E) receiptConnBytes (len64 receiptConnBytes)))"

definition BobSendNegoReq :: "ext \<Rightarrow> string \<Rightarrow> ('z world_scheme, unit res) state" where
  "BobSendNegoReq E negoRequestFile =
     check (ReadFile E negoRequestFile) (\<lambda>_. ret (Err ''failed to read transaction receipt file''))
       (\<lambda>bobNegoReq.
     check (on_node (SendNegoRequest bobNegoReq (len64 bobNegoReq)))
       (\<lambda>_. ret (Err ''failed to send negotiation request'')) (\<lambda>_. ret (Ok ())))"

definition BobRcvNegoResp :: "ext \<Rightarrow> string \<Rightarrow> string \<Rightarrow> ('z world_scheme, unit res) state" where
  "BobRcvNegoResp E negoResponseFile negoAckFile =
     check (on_node RecvNegoAckReq) (\<lambda>_. ret (Err ''failed to receive nego ack+req''))
       (\<lambda>(respBuf, ackBuf, _, _).
     check (save E negoResponseFile respBuf) (\<lambda>e. ret (Err e)) (\<lambda>_. save E negoAckFile ackBuf))"

definition BobSendNegoResp :: "ext \<Rightarrow> string \<Rightarrow> ('z world_scheme, unit res) state" where
  "BobSendNegoResp E negoResponseFile =
     check (ReadFile E negoResponseFile) (\<lambda>_. ret (Err ''failed to read transaction receipt file''))
       (\<lambda>bobNegoResp.
     check (on_node (SendNegoAck bobNegoResp (len64 bobNegoResp)))
       (\<lambda>_. ret (Err ''failed to send nego ack'')) (\<lambda>_. ret (Ok ())))"

section \<open>Frame conditions\<close>

lemma keeps_res [frame]:
  "(\<And>v. keeps f (k v)) \<Longrightarrow> (\<And>e. keeps f (h e)) \<Longrightarrow> keeps f p \<Longrightarrow>
     keeps f (case r of Ok v \<Rightarrow> k v | Err e \<Rightarrow> h e | Panic \<Rightarrow> p)"
  by (cases r) simp_all

lemma keeps_save [frame]: "inert f \<Longrightarrow> keeps f (save E p bs)"
  unfolding save_def by (intro frame)

lemmas pod_message_defs = AliceRcvPODReq_def AliceSendPODResp_def AliceRcvPODRecpt_def
  AliceReceiveNegoReq_def AliceSendNegoResp_def AliceRcvNegoResp_def BobSendPODReq_def
  BobRcvPODResp_def BobSendPODRecpt_def BobSendNegoReq_def BobRcvNegoResp_def BobSendNegoResp_def

lemma keeps_pod_messages [frame]:
  assumes "inert f"
  shows "keeps f (AliceRcvPODReq E p)" "keeps f (AliceSendPODResp E p)"
    "keeps f (AliceRcvPODRecpt E p)" "keeps f (AliceReceiveNegoReq E p)"
    "keeps f (AliceSendNegoResp E p q)" "keeps f (AliceRcvNegoResp E p)"
    "keeps f (BobSendPODReq E p)" "keeps f (BobRcvPODResp E p)"
    "keeps f (BobSendPODRecpt E pr ex bs sg)" "keeps f (BobSendNegoReq E p)"
    "keeps f (BobRcvNegoResp E p q)" "keeps f (BobSendNegoResp E p)"
  unfolding pod_message_defs by (intro frame assms)+

section \<open>Session numbers\<close>

lemma session_number_text:
  assumes "n < 10 ^ 10"
  shows "\<exists>w. ParseUint_res 16 (FormatUint 10 n) = Ok w \<and>
    FormatUint 16 (unat w) = FormatUint 10 n \<and> unat w < 2 ^ 40 \<and>
    SetString (FormatUint 16 (unat w)) 10 = Some (int n) \<and> (w = 0 \<longleftrightarrow> n = 0)"
proof -
  let ?s = "FormatUint 10 n"
  have "canonical 10 ?s" by (rule canonical_Format) simp_all
  then have c: "canonical 16 ?s"
    by (rule canonical_mono) simp
  then obtain m where m: "parse_big 16 0 ?s = Some m" "FormatUint 16 m = ?s" "m < 16 ^ length ?s"
    "hd ?s \<noteq> digit 0 \<longrightarrow> 0 < m"
    using Format_parse [of 16 ?s] by auto
  have "length ?s \<le> 10" using length_Format [of 10 10 n] assms by simp
  then have "(16 :: nat) ^ length ?s \<le> 16 ^ 10" by (intro power_increasing) auto
  with m(3) have lt: "m < 16 ^ 10" by (rule less_le_trans)
  then have u: "unat (word_of_nat m :: u64) = m" by (intro unat_of_nat_small) simp
  have z: "m = 0 \<longleftrightarrow> n = 0"
    using m hd_Format_zero [of 10 n] hd_Format_zero [of 16 m]
    by (auto simp: FormatUint.simps [of 10 0] FormatUint.simps [of 16 0] digit_0)
  have "ParseUint_res 16 ?s = Ok (word_of_nat m)"
    using parse_uint_big [OF _ m(1)] lt by (simp add: ParseUint_res_def ParseUint_def)
  moreover have "(word_of_nat m :: u64) = 0 \<longleftrightarrow> m = 0"
  proof
    assume "(word_of_nat m :: u64) = 0"
    then have "unat (word_of_nat m :: u64) = unat (0 :: u64)" by (rule arg_cong)
    with u show "m = 0" by simp
  qed simp
  ultimately show ?thesis
    using m(2) u lt z SetString_Format [of n] by auto
qed

text \<open>
  The seller draws a decimal session number below \<open>10^10\<close>, reads the decimal text as a
  hexadecimal number to send it, and the buyer prints what it receives in hexadecimal: both ends
  hold the same text, it never overflows the 64 bits of the wire, and both convert it to the
  number drawn when they talk to the contract. The number 0 is sent as 0, which a session
  acknowledgement refuses.
\<close>

theorem session_number_agrees:
  assumes "n < 10 ^ 10"
  shows "\<exists>w. ParseUint_res 16 (FormatUint 10 n) = Ok w \<and>
    FormatUint 16 (unat w) = FormatUint 10 n \<and> unat w < 2 ^ 40 \<and>
    SetString (FormatUint 16 (unat w)) 10 = Some (int n) \<and> (w = 0 \<longleftrightarrow> n = 0)"
  using assms by (rule session_number_text)

theorem session_number_agrees_witness:
  "\<exists>w. ParseUint_res 16 (FormatUint 10 9876543210) = Ok w \<and>
    FormatUint 16 (unat w) = FormatUint 10 9876543210 \<and> w \<noteq> 0"
  using session_number_agrees [of 9876543210] by (auto simp del: FormatUint.simps)

section \<open>Opening a session\<close>

text \<open>What the seller does between accepting a connection and the first transaction message.\<close>

definition alice_opens :: "AliceConnParam \<Rightarrow> requestExtra \<Rightarrow> ('z world_scheme, requestExtra res) state" where
  "alice_opens params re' =
     check AliceRcvSessReq (\<lambda>e. ret (Err e)) (\<lambda>(req, re).
     check (preAliceConn params (req\<lparr>ExtraInfo := marshal_requestExtra re'\<rparr>)) (\<lambda>e. ret (Err e))
       (\<lambda>_. ret (Ok re)))"

definition inbox :: "rmsg list \<Rightarrow> 'z world_scheme \<Rightarrow> 'z world_scheme" where
  "inbox ms w = w\<lparr>nd := (nd w)\<lparr>conn := (conn (nd w))\<lparr>rlpx_in := ms\<rparr>\<rparr>\<rparr>"

abbreviation outbox :: "'z world_scheme \<Rightarrow> rmsg list" where
  "outbox w \<equiv> rlpx_out (conn (nd w))"

lemma outbox_inbox [simp]: "outbox (inbox ms w) = outbox w"
  by (simp add: inbox_def)

definition fresh :: "'z world_scheme \<Rightarrow> bool" where
  "fresh w \<longleftrightarrow> nstate (nd w) = stateConnected \<and> idle (nd w)"

lemma wp_alice_opens:
  fixes params re re' root i m ack1 ack2 w
  defines "req \<equiv> \<lparr>ID = 0, Mode = 0, SigmaMklRoot = root, ExtraInfo = marshal_requestExtra re\<rparr>"
    and "ack1 \<equiv> \<lparr>ID = i, Mode = m, SigmaMklRoot = root, ExtraInfo = marshal_requestExtra re'\<rparr>"
  assumes fr: "fresh w" and i: "ParseUint_res 16 (ap_SessionID params) = Ok i" "i \<noteq> 0"
    and m: "modeToInt (ap_Mode params) (ap_SubMode params) (ap_OT params) = Ok m"
    and len: "length root = 32" "length (marshal_requestExtra re) < 2 ^ 63"
      "length (marshal_requestExtra re') < 2 ^ 63"
    and asc: "ascii (re_Mode re)" "ascii (re_SubMode re)"
    and Q: "\<And>w'. outbox w' = wire_msg msgSessionAck (encodeSessionRequest ack1) \<Longrightarrow>
      nstate (nd w') = stateSessionEstablished \<Longrightarrow> sess (nd w') = \<lparr>sess_id = i, sess_mode = m\<rparr> \<Longrightarrow>
      Q (Ok re) w'"
  shows "wp (alice_opens params re') Q (inbox (wire_msg msgSessionRequest (encodeSessionRequest req) @
      wire_msg msgSessionAck (encodeSessionRequest ack1)) w)"
  unfolding alice_opens_def AliceRcvSessReq_def preAliceConn_def wps
  apply (rule wp_RecvSessionRequest [where req = req])
  using fr i m len asc
      apply (simp_all add: fresh_def inbox_def valid_request_def req_def mode_consts
        requestExtra_roundtrip wps)
  apply (rule wp_SendSessionAck [where ack = ack1])
      apply (simp_all add: link_defs idle_def valid_request_def ack1_def wps)
  apply (rule wp_RecvSessionAck [where ack = ack1 and rest = "[]"])
      apply (simp_all add: link_defs valid_request_def ack1_def wps)
  apply (rule Q)
    apply (simp_all add: ack1_def set_session_def)
  done

lemma wp_bob_opens:
  fixes mklroot re root i m ack1 w
  defines "req \<equiv> \<lparr>ID = 0, Mode = 0, SigmaMklRoot = root, ExtraInfo = marshal_requestExtra re\<rparr>"
  assumes fr: "fresh w" and i: "i \<noteq> 0" and m: "modeFromInt m = Ok (mode, subMode, ot)"
    and root: "DecodeString mklroot = Ok root"
    and ack1: "ack1 = \<lparr>ID = i, Mode = m, SigmaMklRoot = root, ExtraInfo = extra\<rparr>"
    and len: "length root = 32" "length (marshal_requestExtra re) < 2 ^ 63" "length extra < 2 ^ 63"
    and Q: "\<And>w'. outbox w' = wire_msg msgSessionRequest (encodeSessionRequest req) @
        wire_msg msgSessionAck (encodeSessionRequest ack1) \<Longrightarrow>
      nstate (nd w') = stateSessionEstablished \<Longrightarrow> sess (nd w') = \<lparr>sess_id = i, sess_mode = m\<rparr> \<Longrightarrow>
      Q (Ok (FormatUint 16 (unat i), mode, subMode, ot)) w'"
  shows "wp (BobCreateSess mklroot (re_Mode re) (re_SubMode re) (re_Ot re) (re_Price re)) Q
    (inbox (wire_msg msgSessionAck (encodeSessionRequest ack1)) w)"
proof -
  have re: "\<lparr>re_Price = re_Price re, re_Mode = re_Mode re, re_SubMode = re_SubMode re, re_Ot = re_Ot re\<rparr> = re"
    by simp
  show ?thesis
    unfolding BobCreateSess_def Let_def re wps
    using root apply simp
    apply (rule wp_SendNewSessionRequest)
    using fr i m len
        apply (simp_all add: fresh_def inbox_def valid_request_def mode_consts idle_def wps)
    apply (rule wp_RecvSessionAck [where ack = ack1 and rest = "[]"])
        apply (simp_all add: link_defs valid_request_def ack1 wps)
    apply (rule wp_SendSessionAck [where ack = ack1])
        apply (simp_all add: link_defs valid_request_def ack1 wps)
    apply (rule Q)
      apply (simp_all add: req_def ack1 set_session_def)
    done
qed

text \<open>
  C24. The two composed functions of \<^verbatim>\<open>connection.go\<close> agree on a session: there are messages such
  that the seller, given the buyer's messages, writes the others, and the buyer, given the
  seller's, writes those. Both succeed with their nodes in \<open>SessionEstablished\<close> and the same
  session number and mode; the seller has read the buyer's price and wishes exactly, and the
  buyer ends with the seller's session text and the mode the seller decided on.
\<close>

theorem session_opens:
  assumes "fresh wa" and "fresh wb"
    and n: "n < 10 ^ 10" "n \<noteq> 0" "ap_SessionID params = FormatUint 10 n"
    and m: "modeToInt (ap_Mode params) (ap_SubMode params) (ap_OT params) = Ok m"
    and root: "DecodeString mklroot = Ok root" "length root = 32"
    and re: "ascii (re_Mode re)" "ascii (re_SubMode re)"
      "length (marshal_requestExtra re) < 2 ^ 63" "length (marshal_requestExtra re') < 2 ^ 63"
  shows "\<exists>aliceMsgs bobMsgs wa' wb' i ot.
    run_state (alice_opens params re') (inbox bobMsgs wa) = (Ok re, wa') \<and> outbox wa' = aliceMsgs \<and>
    run_state (BobCreateSess mklroot (re_Mode re) (re_SubMode re) (re_Ot re) (re_Price re))
      (inbox aliceMsgs wb) = (Ok (ap_SessionID params, ap_Mode params, ap_SubMode params, ot), wb') \<and>
    outbox wb' = bobMsgs \<and>
    nstate (nd wa') = stateSessionEstablished \<and> nstate (nd wb') = stateSessionEstablished \<and>
    sess (nd wa') = \<lparr>sess_id = i, sess_mode = m\<rparr> \<and> sess (nd wb') = sess (nd wa') \<and>
    modeFromInt m = Ok (ap_Mode params, ap_SubMode params, ot)"
proof -
  obtain i where i: "ParseUint_res 16 (ap_SessionID params) = Ok i"
    "FormatUint 16 (unat i) = ap_SessionID params" "i \<noteq> 0"
    using session_number_text [OF n(1)] n(2,3) by auto
  obtain ot where ot: "modeFromInt m = Ok (ap_Mode params, ap_SubMode params, ot)"
    using mode_to_from [OF m] by blast
  define req where "req = \<lparr>ID = 0, Mode = 0, SigmaMklRoot = root, ExtraInfo = marshal_requestExtra re\<rparr>"
  define ack where "ack = \<lparr>ID = i, Mode = m, SigmaMklRoot = root, ExtraInfo = marshal_requestExtra re'\<rparr>"
  let ?a = "wire_msg msgSessionAck (encodeSessionRequest ack)"
  let ?b = "wire_msg msgSessionRequest (encodeSessionRequest req) @ ?a"
  have "wp (alice_opens params re') (\<lambda>r w'. r = Ok re \<and> outbox w' = ?a \<and>
      nstate (nd w') = stateSessionEstablished \<and> sess (nd w') = \<lparr>sess_id = i, sess_mode = m\<rparr>) (inbox ?b wa)"
    unfolding req_def ack_def
    by (rule wp_alice_opens [where i = i and m = m]) (use assms i in auto)
  moreover have "wp (BobCreateSess mklroot (re_Mode re) (re_SubMode re) (re_Ot re) (re_Price re))
      (\<lambda>r w'. r = Ok (ap_SessionID params, ap_Mode params, ap_SubMode params, ot) \<and> outbox w' = ?b \<and>
        nstate (nd w') = stateSessionEstablished \<and> sess (nd w') = \<lparr>sess_id = i, sess_mode = m\<rparr>) (inbox ?a wb)"
    by (rule wp_bob_opens [OF assms(2) i(3) ot root(1), where extra = "marshal_requestExtra re'"])
      (use assms i in \<open>auto simp: req_def ack_def\<close>)
  ultimately show ?thesis
    using ot by (fastforce simp: wp_def split: prod.splits)
qed

definition sample_params :: AliceConnParam where
  "sample_params = \<lparr>ap_Mode = TRANSACTION_MODE_PLAIN_POD, ap_SubMode = TRANSACTION_SUB_MODE_COMPLAINT,
     ap_OT = True, ap_UnitPrice = 2, ap_SessionID = FormatUint 10 12, ap_Bulletin =
       \<lparr>blt_Mode = ''plain'', blt_Size = ''1'', blt_S = ''1'', blt_N = ''1'', blt_SigmaMKLRoot = [],
        blt_VRFMetaDigest = []\<rparr>\<rparr>"

definition sample_extra :: requestExtra where
  "sample_extra = \<lparr>re_Price = 2, re_Mode = TRANSACTION_MODE_PLAIN_POD,
     re_SubMode = TRANSACTION_SUB_MODE_COMPLAINT, re_Ot = True\<rparr>"

lemma length_marshal_sample: "length (marshal_requestExtra sample_extra) < 2 ^ 63"
proof -
  have "length (marshal_requestExtra sample_extra) \<le> 99" by code_simp
  then show ?thesis by simp
qed

theorem session_opens_witness:
  "\<exists>bobMsgs wa'. run_state (alice_opens sample_params sample_extra) (inbox bobMsgs sample_world) =
     (Ok sample_extra, wa') \<and> nstate (nd wa') = stateSessionEstablished"
proof -
  have "fresh sample_world"
    by (simp add: fresh_def idle_def all_ok_def sample_world_def sample_node_def sample_conn_def)
  moreover have "ap_SessionID sample_params = FormatUint 10 12"
    "modeToInt (ap_Mode sample_params) (ap_SubMode sample_params) (ap_OT sample_params) = Ok 1"
    "ascii (re_Mode sample_extra)" "ascii (re_SubMode sample_extra)"
    by (simp_all only: sample_params_def sample_extra_def AliceConnParam.select_convs requestExtra.select_convs)
      (simp_all add: modeToInt_def mode_names mode_consts ascii_def)
  moreover have "DecodeString (EncodeToString (replicate 32 0)) = Ok (replicate 32 0)"
    by (rule Decode_Encode_hex)
  ultimately show ?thesis
    using session_opens [of sample_world sample_world 12 sample_params 1
        "EncodeToString (replicate 32 0)" "replicate 32 0" sample_extra sample_extra]
      length_marshal_sample
    by auto
qed

end
