(* ===== verification/Database.thy ===== *)
theory Database
  imports World
begin

text \<open>
  The seller's part of \<^verbatim>\<open>db.go\<close>: how a transaction is written to, updated in and read back from
  the table of the seller's transactions. The database driver is a service.
\<close>

text \<open>The row built by both \<open>insertAliceTxToDB\<close> and \<open>updateAliceTxToDB\<close>.\<close>

definition alice_row :: "Transaction \<Rightarrow> AliceTx" where
  "alice_row t = \<lparr>
     atx_SessionId = tx_SessionID t,
     atx_Status = tx_Status t,
     atx_AliceAddr = tx_AliceAddr t,
     atx_BobPubKey = [],
     atx_BobAddr = tx_BobAddr t,
     atx_Mode = tx_Mode t,
     atx_SubMode = tx_SubMode t,
     atx_OT = tx_OT t,
     atx_Size = blt_Size (tx_Bulletin t),
     atx_S = blt_S (tx_Bulletin t),
     atx_N = blt_N (tx_Bulletin t),
     atx_SigmaMKLRoot = blt_SigmaMKLRoot (tx_Bulletin t),
     atx_Price = tx_Price t,
     atx_UnitPrice = tx_UnitPrice t,
     atx_ExpireAt = tx_ExpireAt t,
     atx_Count = tx_Count t\<rparr>"

definition insertAliceTxToDB :: "ext \<Rightarrow> Transaction \<Rightarrow> ('z world_scheme, unit res) state" where
  "insertAliceTxToDB E t =
     check (ask (CInsertAliceTx (alice_row t)) (DBExec E))
       (\<lambda>_. ret (Err ''failed to insert transaction to Alice_tx.'')) (\<lambda>_. ret (Ok ()))"

definition updateAliceTxToDB :: "ext \<Rightarrow> Transaction \<Rightarrow> ('z world_scheme, unit res) state" where
  "updateAliceTxToDB E t =
     check (ask (CUpdateAliceTx (tx_SessionID t) (alice_row t)) (DBExec E))
       (\<lambda>_. ret (Err ''failed to insert transaction to Alice_tx.'')) (\<lambda>_. ret (Ok ()))"

definition zero_Transaction :: Transaction where
  "zero_Transaction = \<lparr>
     tx_SessionID = [], tx_Status = [],
     tx_Bulletin = \<lparr>blt_Mode = [], blt_Size = [], blt_S = [], blt_N = [], blt_SigmaMKLRoot = [],
       blt_VRFMetaDigest = []\<rparr>,
     tx_BobPubKey = [], tx_BobAddr = [], tx_AliceAddr = [], tx_Mode = [], tx_SubMode = [],
     tx_OT = False, tx_Price = 0, tx_UnitPrice = 0, tx_Count = 0, tx_ExpireAt = 0,
     tx_Session = (\<lambda>_. None)\<rparr>"

definition alice_of_row :: "AliceTx \<Rightarrow> Transaction" where
  "alice_of_row r = zero_Transaction\<lparr>
     tx_SessionID := atx_SessionId r,
     tx_Status := atx_Status r,
     tx_AliceAddr := atx_AliceAddr r,
     tx_BobAddr := atx_BobAddr r,
     tx_Mode := atx_Mode r,
     tx_SubMode := atx_SubMode r,
     tx_OT := atx_OT r,
     tx_Bulletin := \<lparr>blt_Mode = atx_Mode r, blt_Size = atx_Size r, blt_S = atx_S r, blt_N = atx_N r,
       blt_SigmaMKLRoot = atx_SigmaMKLRoot r, blt_VRFMetaDigest = []\<rparr>,
     tx_Price := atx_Price r,
     tx_UnitPrice := atx_UnitPrice r,
     tx_ExpireAt := atx_ExpireAt r,
     tx_Count := atx_Count r\<rparr>"

definition loadAliceFromDB :: "ext \<Rightarrow> string \<Rightarrow> ('z world_scheme, (Transaction \<times> bool) res) state" where
  "loadAliceFromDB E sessionID =
     check (ask (CGetAliceTx sessionID) (DBGetAliceTx E))
       (\<lambda>_. ret (Err ''failed to read transaction for Bob.'')) (\<lambda>row.
     ret (Ok (case row of None \<Rightarrow> (zero_Transaction, False) | Some r \<Rightarrow> (alice_of_row r, True))))"

lemma keeps_db [frame]:
  assumes "inert f"
  shows "keeps f (insertAliceTxToDB E t)" "keeps f (updateAliceTxToDB E t)"
    "keeps f (loadAliceFromDB E s)"
  unfolding insertAliceTxToDB_def updateAliceTxToDB_def loadAliceFromDB_def
  by (intro frame assms)+

text \<open>
  A transaction stored by the seller and loaded again is the one stored, when the driver
  returns the row it was given, except for what the table has no column for: the buyer's public
  key, the library sessions and the bulletin's VRF digest are lost, and the bulletin's mode is
  taken from the transaction's.
\<close>

theorem stored_sale_loads:
  assumes "DBGetAliceTx E (CGetAliceTx (tx_SessionID t) # hist w) = Ok (Some (alice_row t))"
  shows "fst (run_state (loadAliceFromDB E (tx_SessionID t)) w) =
    Ok (t\<lparr>tx_BobPubKey := [], tx_Session := (\<lambda>_. None),
          tx_Bulletin := (tx_Bulletin t)\<lparr>blt_Mode := tx_Mode t, blt_VRFMetaDigest := []\<rparr>\<rparr>, True)"
  using assms
  by (simp add: loadAliceFromDB_def run ask_def alice_of_row_def alice_row_def zero_Transaction_def)

theorem stored_sale_loads_witness:
  "fst (run_state (loadAliceFromDB (sample_ext\<lparr>DBGetAliceTx := (\<lambda>_. Ok (Some (alice_row
      (zero_Transaction\<lparr>tx_SessionID := ''12'', tx_Price := 5\<rparr>))))\<rparr>) ''12'') sample_world) =
    Ok (zero_Transaction\<lparr>tx_SessionID := ''12'', tx_Price := 5\<rparr>, True)"
  using stored_sale_loads [of "sample_ext\<lparr>DBGetAliceTx := (\<lambda>_. Ok (Some (alice_row
      (zero_Transaction\<lparr>tx_SessionID := ''12'', tx_Price := 5\<rparr>))))\<rparr>"
      "zero_Transaction\<lparr>tx_SessionID := ''12'', tx_Price := 5\<rparr>" sample_world]
  by (simp add: zero_Transaction_def)

end
