(* ===== verification/Receipts.thy ===== *)
theory Receipts
  imports Connection Database
begin

text \<open>
  What a buyer does to its files beside receiving them: signing a receipt, saving the secret read
  from the contract, and turning a claim file into a claim at the contract (\<^verbatim>\<open>file.go\<close> and
  \<^verbatim>\<open>contract.go\<close>); and how it opens its connection (\<^verbatim>\<open>connection.go\<close>).
\<close>

section \<open>Signing a receipt\<close>

text \<open>The part of the keystore's \<open>Key\<close> that is used.\<close>

record Key =
  key_Address :: address
  key_PrivateKey :: privkey

text \<open>The common end of the four signing functions.\<close>

definition sign_values :: "ext \<Rightarrow> Key \<Rightarrow> abi list \<Rightarrow> bytes res" where
  "sign_values E key values =
     (let receiptHash = SoliditySHA3WithPrefix E (SoliditySHA3 E values) in
      case Sign (Crypto E) receiptHash (key_PrivateKey key) of
        Err _ \<Rightarrow> Err ''signature error''
      | Panic \<Rightarrow> Panic
      | Ok sig \<Rightarrow> Ok sig)"

definition or_fail :: "'a res \<Rightarrow> string \<Rightarrow> ('a \<Rightarrow> 'b res) \<Rightarrow> 'b res" where
  "or_fail r e k = (case r of Ok v \<Rightarrow> k v | Err _ \<Rightarrow> Err e | Panic \<Rightarrow> Panic)"

definition signRecptForComplaint :: "ext \<Rightarrow> Key \<Rightarrow> string \<Rightarrow> string \<Rightarrow> ComplaintReceipt \<Rightarrow> int64 \<Rightarrow> int64 \<Rightarrow>
    Bulletin \<Rightarrow> bytes res" where
  "signRecptForComplaint E key aliceAddr sessionID receipt price expireAt bulletin =
     or_fail (opt_res (SetString sessionID 10) []) ''convert sessionId error'' (\<lambda>sessionInt.
     or_fail (calcuBltKey E bulletin) ''failed to calculate blt key'' (\<lambda>bltKey.
     sign_values E key [
       AbiUint256 sessionInt,
       AbiAddressHex (AddressHex E (key_Address key)),
       AbiAddressHex aliceAddr,
       AbiBytes32 bltKey,
       AbiBytes32Hex (''0x'' @ crc_S receipt),
       AbiBytes32Hex (''0x'' @ crc_K receipt),
       AbiUint64 (crc_C receipt),
       AbiUint256 (sint price),
       AbiUint256 (sint expireAt)]))"

definition signRecptForAtomicSwap :: "ext \<Rightarrow> Key \<Rightarrow> string \<Rightarrow> string \<Rightarrow> AtomicSwapReceipt \<Rightarrow> int64 \<Rightarrow> int64 \<Rightarrow>
    bytes res" where
  "signRecptForAtomicSwap E key aliceAddr sessionID receipt price expireAt =
     or_fail (opt_res (SetString sessionID 10) []) ''convert sessionId error'' (\<lambda>sessionInt.
     or_fail (opt_res (SetString (arc_VW receipt) 10) []) ''failed to convert vw'' (\<lambda>vwInt.
     sign_values E key [
       AbiUint256 sessionInt,
       AbiAddressHex (AddressHex E (key_Address key)),
       AbiAddressHex aliceAddr,
       AbiBytes32Hex (''0x'' @ arc_S receipt),
       AbiUint256 vwInt,
       AbiUint64 (arc_C receipt),
       AbiUint256 (sint price),
       AbiUint256 (sint expireAt)]))"

definition signRecptForAtomicSwapVc :: "ext \<Rightarrow> Key \<Rightarrow> string \<Rightarrow> string \<Rightarrow> AtomicSwapVcReceipt \<Rightarrow> int64 \<Rightarrow> int64 \<Rightarrow>
    bytes res" where
  "signRecptForAtomicSwapVc E key aliceAddr sessionID receipt price expireAt =
     or_fail (opt_res (SetString sessionID 10) []) ''convert sessionId error'' (\<lambda>sessionInt.
     or_fail (opt_res (SetString (vrc_D receipt) 10) []) ''failed to convert digestInt'' (\<lambda>digestInt.
     sign_values E key [
       AbiUint256 sessionInt,
       AbiAddressHex (AddressHex E (key_Address key)),
       AbiAddressHex aliceAddr,
       AbiUint256 digestInt,
       AbiUint256 (sint price),
       AbiUint256 (sint expireAt)]))"

definition signRecptForVRFQ :: "ext \<Rightarrow> Key \<Rightarrow> string \<Rightarrow> string \<Rightarrow> VRFReceipt \<Rightarrow> int64 \<Rightarrow> int64 \<Rightarrow> bytes res" where
  "signRecptForVRFQ E key aliceAddr sessionID receipt price expireAt =
     or_fail (opt_res (SetString sessionID 10) []) ''convert sessionId error'' (\<lambda>sessionInt.
     let gs = Split (CHR '' '') (frc_G receipt) in
     if length gs \<noteq> 3 then Err ''invalid g. '' else
     or_fail (opt_res (SetString (gs ! 1) 10) []) ''failed to convert g[1]'' (\<lambda>g0.
     or_fail (opt_res (SetString (gs ! 2) 10) []) ''failed to convert g[2]'' (\<lambda>g1.
     sign_values E key [
       AbiUint256 sessionInt,
       AbiAddressHex (AddressHex E (key_Address key)),
       AbiAddressHex aliceAddr,
       AbiUint256 g0,
       AbiUint256 g1,
       AbiUint256 (sint price),
       AbiUint256 (sint expireAt)])))"

section \<open>Saving a secret\<close>

definition marshal_ComplaintSecret :: "ComplaintSecret \<Rightarrow> bytes" where
  "marshal_ComplaintSecret s = enc_struct [(''s'', enc_string (csc_S s))]"

definition marshal_AtomicSwapSecret :: "AtomicSwapSecret \<Rightarrow> bytes" where
  "marshal_AtomicSwapSecret s = enc_struct [(''s'', enc_string (asc_S s))]"

definition marshal_AtomicSwapVcSecret :: "AtomicSwapVcSecret \<Rightarrow> bytes" where
  "marshal_AtomicSwapVcSecret s = enc_struct [(''s'', enc_string (vsc_S s)), (''r'', enc_string (vsc_R s))]"

definition marshal_VRFSecret :: "VRFSecret \<Rightarrow> bytes" where
  "marshal_VRFSecret s = enc_struct [(''r'', enc_string (fsc_R s))]"

text \<open>\<open>json.Marshal\<close> of these structs cannot fail: they hold only strings.\<close>

definition BobSaveSecretForComplaint ::
  "ext \<Rightarrow> ComplaintSecret \<Rightarrow> string \<Rightarrow> ('z world_scheme, unit res) state" where
  "BobSaveSecretForComplaint E secret filePath =
     check (WriteFile E filePath (marshal_ComplaintSecret secret))
       (\<lambda>_. ret (Err ''Save bulletin file error'')) (\<lambda>_. ret (Ok ()))"

definition BobSaveSecretForAtomicSwap ::
  "ext \<Rightarrow> AtomicSwapSecret \<Rightarrow> string \<Rightarrow> ('z world_scheme, unit res) state" where
  "BobSaveSecretForAtomicSwap E secret filePath =
     check (WriteFile E filePath (marshal_AtomicSwapSecret secret))
       (\<lambda>_. ret (Err ''Save bulletin file error'')) (\<lambda>_. ret (Ok ()))"

definition BobSaveSecretForAtomicSwapVc ::
  "ext \<Rightarrow> AtomicSwapVcSecret \<Rightarrow> string \<Rightarrow> ('z world_scheme, unit res) state" where
  "BobSaveSecretForAtomicSwapVc E secret filePath =
     check (WriteFile E filePath (marshal_AtomicSwapVcSecret secret))
       (\<lambda>_. ret (Err ''save bulletin file error'')) (\<lambda>_. ret (Ok ()))"

definition BobSaveSecretForVRFQ ::
  "ext \<Rightarrow> VRFSecret \<Rightarrow> string \<Rightarrow> ('z world_scheme, unit res) state" where
  "BobSaveSecretForVRFQ E secret filePath =
     check (WriteFile E filePath (marshal_VRFSecret secret))
       (\<lambda>_. ret (Err ''Save bulletin file error'')) (\<lambda>_. ret (Ok ()))"

section \<open>Claims\<close>

record Claim =
  clm_I :: u64
  clm_J :: u64
  clm_K :: string
  clm_M :: "string list"

definition Claim_fields :: "Claim field list" where
  "Claim_fields = [
     field ''i'' dec_uint64 clm_I clm_I_update, field ''j'' dec_uint64 clm_J clm_J_update,
     field ''k'' dec_string clm_K clm_K_update, field ''m'' dec_strings clm_M clm_M_update]"

definition readClaim :: "ext \<Rightarrow> string \<Rightarrow> ('z world_scheme, Claim res) state" where
  "readClaim E filePath =
     check (read_json E Claim_fields \<lparr>clm_I = 0, clm_J = 0, clm_K = [], clm_M = []\<rparr>
         ''failed to read claim file'' ''failed to parse claim file'' filePath)
       (\<lambda>e. ret (Err e)) (\<lambda>(_, c). ret (Ok c))"

text \<open>The loop over the path of a claim; \<open>byte32\<close> panics on a node that is not 32 bytes long.\<close>

primrec decode_path :: "string list \<Rightarrow> bytes list res" where
  "decode_path [] = Ok []"
| "decode_path (v # vs) =
     or_fail (DecodeString v) ''failed to decode merkle root'' (\<lambda>mklbyte.
     res_bind (byte32 mklbyte) (\<lambda>b. res_bind (decode_path vs) (\<lambda>bs. Ok (b # bs))))"

definition claimToContractForComplaint ::
  "ext \<Rightarrow> string \<Rightarrow> Bulletin \<Rightarrow> string \<Rightarrow> string \<Rightarrow> ('z world_scheme, string res) state" where
  "claimToContractForComplaint E sessionID bulletin claimFile aliceAddr =
     attempt (opt_res (SetString sessionID 10) []) ''Failed to convert sessionId'' (\<lambda>sessionInt.
     check (readClaim E claimFile) (\<lambda>_. ret (Err ''Failed to read claim'')) (\<lambda>claim.
     check (ret (decode_path (clm_M claim))) (\<lambda>e. ret (Err e)) (\<lambda>mkls.
     let ks = Split (CHR '' '') (clm_K claim) in
     if length ks < 3 then ret (Err ''Invalid k in claim'') else
     attempt (opt_res (SetString (ks ! 1) 10) []) ''Failed to convert k[1]'' (\<lambda>tx.
     attempt (opt_res (SetString (ks ! 2) 10) []) ''Failed to convert k[2]'' (\<lambda>ty.
     attempt (ParseUint_res 10 (blt_S bulletin)) ''failed to convert sCnt'' (\<lambda>sCnt.
     transact E (\<lambda>v. CClaimComplaint v (HexToAddress E aliceAddr) sessionInt (clm_I claim) (clm_J claim)
         tx ty mkls sCnt) ''Failed to submit claim''))))))"

definition settleDealForComplaint ::
  "ext \<Rightarrow> string \<Rightarrow> string \<Rightarrow> string \<Rightarrow> ('z world_scheme, string res) state" where
  "settleDealForComplaint E sessionID aliceAddr bobAddr =
     attempt (opt_res (SetString sessionID 10) []) ''failed to convert sessionId'' (\<lambda>sessionInt.
     transact E (\<lambda>v. CSettleComplaintDeal v (HexToAddress E aliceAddr) (HexToAddress E bobAddr) sessionInt) ''failed to settle deal.'')"

section \<open>The buyer's connection\<close>

record BobConnParam =
  bp_AliceIPAddr :: string
  bp_AliceAddr :: string
  bp_Mode :: string
  bp_SubMode :: string
  bp_OT :: bool
  bp_UnitPrice :: int64
  bp_SessionID :: string
  bp_MerkleRoot :: string

text \<open>
  \<open>Dial\<close> of \<^verbatim>\<open>net/rlpx/transport.go\<close>: the connection knows the address it was dialled with.
\<close>

definition Dial :: "ext \<Rightarrow> addr \<Rightarrow> ('z world_scheme, connection res) state" where
  "Dial E a =
     check (ask (CDial (TCPAddr a)) (NetDial E)) (\<lambda>_. ret (Err ''failed to dial''))
       (\<lambda>c. ret (Ok (c\<lparr>raddr := Some a\<rparr>)))"

definition buyNewConn ::
  "ext \<Rightarrow> enc_handshake \<Rightarrow> bytes \<Rightarrow> string \<Rightarrow> string \<Rightarrow> privkey \<Rightarrow> ('z world_scheme, unit res) state" where
  "buyNewConn E doEnc random aliceIPAddr aliceAddr key =
     check (ask (CResolve aliceIPAddr) (ResolveTCPAddr E)) (\<lambda>e. ret (Err e)) (\<lambda>tcpAddr.
     check (Dial E \<lparr>TCPAddr = tcpAddr, EthAddr = HexToAddress E aliceAddr\<rparr>)
       (\<lambda>_. ret (Err ''failed to dial'')) (\<lambda>c.
     case run_state (Handshake (Crypto E) doEnc random key True) c of (r, c) \<Rightarrow>
     attempt r ''client-side handshake failed'' (\<lambda>rkey.
     attempt (NewNode (Some c) key rkey) ''failed to create client node'' (\<lambda>node. do {
     State_Monad.update (\<lambda>w. w\<lparr>nd := node\<rparr>);
     ret (Ok ()) }))))"

definition preBobConn :: "ext \<Rightarrow> BasicConfig \<Rightarrow> enc_handshake \<Rightarrow> bytes \<Rightarrow> BobConnParam \<Rightarrow> privkey \<Rightarrow>
    ('z world_scheme, BobConnParam res) state" where
  "preBobConn E B doEnc random params key =
     check (buyNewConn E doEnc random (bp_AliceIPAddr params) (bp_AliceAddr params) key)
       (\<lambda>_. ret (Err ''failed to new connection'')) (\<lambda>_.
     check (BobCreateSess (bp_MerkleRoot params) (bp_Mode params) (bp_SubMode params) (bp_OT params)
         (bp_UnitPrice params))
       (\<lambda>_. ret (Err ''failed to create net session'')) (\<lambda>(sessionID, mode, subMode, ot).
     check (Mkdir E (BobDir B @ ''/transaction/'' @ sessionID))
       (\<lambda>_. ret (Err ''failed to create folder'')) (\<lambda>_.
     ret (Ok (params\<lparr>bp_SessionID := sessionID, bp_Mode := mode, bp_SubMode := subMode, bp_OT := ot\<rparr>)))))"

section \<open>Frame conditions\<close>

lemmas receipt_defs = BobSaveSecretForComplaint_def BobSaveSecretForAtomicSwap_def
  BobSaveSecretForAtomicSwapVc_def BobSaveSecretForVRFQ_def readClaim_def
  claimToContractForComplaint_def settleDealForComplaint_def

lemma keeps_receipts [frame]:
  assumes "inert f"
  shows "keeps f (BobSaveSecretForComplaint E cs p)" "keeps f (BobSaveSecretForAtomicSwap E as p)"
    "keeps f (BobSaveSecretForAtomicSwapVc E vs p)" "keeps f (BobSaveSecretForVRFQ E qs p)"
    "keeps f (readClaim E p)" "keeps f (claimToContractForComplaint E sid b p a)"
    "keeps f (settleDealForComplaint E sid a a')"
  unfolding receipt_defs by (intro frame assms)+

section \<open>The seller accepts what the buyer signed\<close>

text \<open>
  What signing and checking a signature rely on: a signature is 65 bytes long and recovers to the
  signer's key.
\<close>

definition signing_laws :: "ext \<Rightarrow> bool" where
  "signing_laws E \<longleftrightarrow> (\<forall>h k sig. Sign (Crypto E) h k = Ok sig \<longrightarrow>
     length sig = 65 \<and> SigToPub E h sig = Ok (PublicKey (Crypto E) k))"

text \<open>\<open>SoliditySHA3\<close> packs the hex text of an address like the address.\<close>

definition packs_address :: "ext \<Rightarrow> string \<Rightarrow> bool" where
  "packs_address E s \<longleftrightarrow> (\<forall>pre post.
     SoliditySHA3 E (pre @ AbiAddressHex s # post) = SoliditySHA3 E (pre @ AbiAddress (HexToAddress E s) # post))"

text \<open>The seller's transaction names the holder of the key as the buyer.\<close>

definition names_buyer :: "ext \<Rightarrow> Key \<Rightarrow> Transaction \<Rightarrow> bool" where
  "names_buyer E key t \<longleftrightarrow> key_Address key = PubkeyToAddress (Crypto E) (PublicKey (Crypto E) (key_PrivateKey key)) \<and>
     tx_BobAddr t = AddressHex E (key_Address key) \<and> HexToAddress E (tx_BobAddr t) = key_Address key \<and>
     packs_address E (tx_BobAddr t) \<and> packs_address E (tx_AliceAddr t)"

lemma packs_addressD:
  "packs_address E s \<Longrightarrow> SoliditySHA3 E (a # AbiAddressHex s # post) = SoliditySHA3 E (a # AbiAddress (HexToAddress E s) # post)"
  "packs_address E s \<Longrightarrow> SoliditySHA3 E (a # b # AbiAddressHex s # post) = SoliditySHA3 E (a # b # AbiAddress (HexToAddress E s) # post)"
  using packs_address_def [of E s] by (metis append_Cons append_Nil)+

lemma signed_values_verify:
  assumes "signing_laws E" and "names_buyer E key t"
    and "sign_values E key (sid # AbiAddressHex (AddressHex E (key_Address key)) # AbiAddressHex (tx_AliceAddr t) # vals) = Ok sign"
  shows "signed_by_bob E t (sid # AbiAddress (HexToAddress E (tx_BobAddr t)) #
      AbiAddress (HexToAddress E (tx_AliceAddr t)) # vals) sign = Ok ()"
proof -
  have b: "tx_BobAddr t = AddressHex E (key_Address key)" and p: "packs_address E (tx_BobAddr t)"
    "packs_address E (tx_AliceAddr t)" using assms(2) unfolding names_buyer_def by blast+
  have "sign_values E key (sid # AbiAddress (HexToAddress E (tx_BobAddr t)) #
      AbiAddress (HexToAddress E (tx_AliceAddr t)) # vals) = Ok sign"
    using assms(3) unfolding sign_values_def b [symmetric] packs_addressD(2) [OF p(2)]
      packs_addressD(1) [OF p(1)] .
  with assms(1,2) show ?thesis
    by (auto simp: sign_values_def signed_by_bob_def signing_laws_def names_buyer_def Let_def
        split: res.splits)
qed

lemma or_fail_Ok: "or_fail r e k = Ok v \<longleftrightarrow> (\<exists>u. r = Ok u \<and> k u = Ok v)"
  by (cases r) (auto simp: or_fail_def)

lemma opt_res_Ok: "opt_res v e = Ok u \<longleftrightarrow> v = Some u"
  by (cases v) (auto simp: opt_res_def)

text \<open>
  C17. What an honest buyer signs, the seller accepts, in each of the four kinds of sale: if the
  buyer's signing function returns a signature on a receipt for the price and the expiry time the
  seller's transaction has, then the seller's check of this signature succeeds. It relies on
  signatures recovering to the signer's key and on the hash function packing an address and its
  text alike.
\<close>

theorem signed_receipt_verifies:
  assumes "signing_laws E" and "names_buyer E key t" and "price = tx_UnitPrice t * tx_Count t"
    and "SetString (tx_SessionID t) 10 = Some sid"
  shows "(calcuBltKey E (tx_Bulletin t) = Ok bltKey \<and>
      signRecptForComplaint E key (tx_AliceAddr t) (tx_SessionID t) cr price (tx_ExpireAt t) (tx_Bulletin t) = Ok sign \<longrightarrow>
      verifySigntureForComplaint E t sid bltKey sign cr = Ok ()) \<and>
    (SetString (arc_VW ar) 10 = Some vw \<and>
      signRecptForAtomicSwap E key (tx_AliceAddr t) (tx_SessionID t) ar price (tx_ExpireAt t) = Ok sign \<longrightarrow>
      verifySigntureForAtomicSwap E t sid vw sign ar = Ok ()) \<and>
    (SetString (vrc_D vr) 10 = Some d \<and>
      signRecptForAtomicSwapVc E key (tx_AliceAddr t) (tx_SessionID t) vr price (tx_ExpireAt t) = Ok sign \<longrightarrow>
      verifySigntureForAtomicSwapVc E t sid sign d = Ok ()) \<and>
    (Split (CHR '' '') (frc_G fr) = [g, g1, g2] \<and> SetString g1 10 = Some i1 \<and> SetString g2 10 = Some i2 \<and>
      signRecptForVRFQ E key (tx_AliceAddr t) (tx_SessionID t) fr price (tx_ExpireAt t) = Ok sign \<longrightarrow>
      verifySigntureForVRFQ E t sid (i1, i2) sign = Ok ())"
  using assms(4)
  unfolding verifySigntureForComplaint_def verifySigntureForAtomicSwap_def verifySigntureForAtomicSwapVc_def
    verifySigntureForVRFQ_def signRecptForComplaint_def signRecptForAtomicSwap_def signRecptForAtomicSwapVc_def
    signRecptForVRFQ_def assms(3)
  by (intro conjI impI; intro signed_values_verify [OF assms(1,2)]; clarsimp simp: or_fail_Ok opt_res_Ok)

definition sample_signer :: ext where
  "sample_signer = sample_ext\<lparr>SigToPub := (\<lambda>_ sig. Ok sig)\<rparr>"

definition sample_owner :: Key where
  "sample_owner = \<lparr>key_Address = replicate 20 1, key_PrivateKey = sample_key\<rparr>"

definition sample_sale :: Transaction where
  "sample_sale = zero_Transaction\<lparr>tx_SessionID := FormatUint 10 12, tx_UnitPrice := 2, tx_Count := 3,
     tx_BobAddr := replicate 20 (char_of (1 :: nat))\<rparr>"

lemma sample_signing: "signing_laws sample_signer" "names_buyer sample_signer sample_owner sample_sale"
  by (auto simp: signing_laws_def names_buyer_def packs_address_def sample_signer_def sample_ext_def
      sample_crypto_def sample_owner_def sample_sale_def sample_key_def bytes_of_string_def min_def)

theorem signed_receipt_verifies_witness:
  "\<exists>sign. signRecptForAtomicSwapVc sample_signer sample_owner [] (tx_SessionID sample_sale)
       \<lparr>vrc_D = FormatUint 10 5\<rparr> 6 0 = Ok sign \<and>
     verifySigntureForAtomicSwapVc sample_signer sample_sale 12 sign 5 = Ok ()"
proof -
  have i: "SetString (tx_SessionID sample_sale) 10 = Some 12" "SetString (FormatUint 10 5) 10 = Some 5"
    using SetString_Format [of 12] SetString_Format [of 5] by (simp_all add: sample_sale_def)
  have t: "tx_AliceAddr sample_sale = []" "tx_UnitPrice sample_sale * tx_Count sample_sale = 6"
    "tx_ExpireAt sample_sale = 0"
    by (simp_all add: sample_sale_def zero_Transaction_def)
  have s: "\<exists>sign. signRecptForAtomicSwapVc sample_signer sample_owner [] (tx_SessionID sample_sale)
      \<lparr>vrc_D = FormatUint 10 5\<rparr> 6 0 = Ok sign"
    unfolding signRecptForAtomicSwapVc_def i AtomicSwapVcReceipt.select_convs
    by (simp add: or_fail_def opt_res_def sign_values_def sample_signer_def sample_ext_def sample_crypto_def)
  show ?thesis
    using signed_receipt_verifies [OF sample_signing t(2) [symmetric] i(1),
        where vr = "\<lparr>vrc_D = FormatUint 10 5\<rparr>" and d = 5] s i(2)
    unfolding t AtomicSwapVcReceipt.select_convs by blast
qed

section \<open>A saved secret is read back\<close>

lemma wp_WriteFile:
  "wp (WriteFile E p bs) (\<lambda>r w'. r = Ok () \<longrightarrow> fs w' p = Some (File bs)) w"
  by (auto simp: WriteFile_def WriteOpened_def set_fs_def wps overlay_def contents_def split: option.splits)

lemma saved_file:
  assumes "run_state (check (WriteFile E p bs) (\<lambda>_. ret (Err e)) (\<lambda>_. ret (Ok ()))) w = (Ok (), w')"
  shows "fs w' p = Some (File bs)"
  using assms wpD [OF wp_WriteFile [of E p bs w]] by (auto simp: run split: prod.splits res.splits)

lemma read_saved:
  assumes "fs w p = Some (File bs)" and "\<not> OsFault E (COs OsRead p # hist w)"
    and "Unmarshal flds bs zero = Ok v"
  shows "fst (run_state (check (read_json E flds zero e1 e2 p) (\<lambda>e. ret (Err e)) (\<lambda>(_, s). ret (Ok s))) w) = Ok v"
  using assms by (simp add: read_json_def ReadFile_def run ask_def)

lemma secret_json:
  "ascii (csc_S cs) \<Longrightarrow> Unmarshal ComplaintSecret_fields (marshal_ComplaintSecret cs) cs0 = Ok cs"
  "ascii (asc_S as) \<Longrightarrow> Unmarshal AtomicSwapSecret_fields (marshal_AtomicSwapSecret as) as0 = Ok as"
  "ascii (vsc_S vs) \<Longrightarrow> ascii (vsc_R vs) \<Longrightarrow>
     Unmarshal AtomicSwapVcSecret_fields (marshal_AtomicSwapVcSecret vs) vs0 = Ok vs"
  "ascii (fsc_R qs) \<Longrightarrow> Unmarshal VRFSecret_fields (marshal_VRFSecret qs) qs0 = Ok qs"
proof -
  have one: "ascii v \<Longrightarrow> members_ok [([k], enc_string v, TStr v, JStr v)]"
    "ascii v \<Longrightarrow> ascii u \<Longrightarrow> members_ok [([k], enc_string v, TStr v, JStr v), ([l], enc_string u, TStr u, JStr u)]"
    if "cn k < 128" "cn l < 128" for k l v u
    using that scalar_string by (auto simp: members_ok_def ascii_def)
  note ev = marshal_ComplaintSecret_def marshal_AtomicSwapSecret_def marshal_AtomicSwapVcSecret_def
    marshal_VRFSecret_def ComplaintSecret_fields_def AtomicSwapSecret_fields_def
    AtomicSwapVcSecret_fields_def VRFSecret_fields_def find_field_def field_def
  show "ascii (csc_S cs) \<Longrightarrow> Unmarshal ComplaintSecret_fields (marshal_ComplaintSecret cs) cs0 = Ok cs"
    using Unmarshal_struct [OF one(1), of "CHR ''s''" "CHR ''s''" "csc_S cs" ComplaintSecret_fields cs0] by (simp add: ev)
  show "ascii (asc_S as) \<Longrightarrow> Unmarshal AtomicSwapSecret_fields (marshal_AtomicSwapSecret as) as0 = Ok as"
    using Unmarshal_struct [OF one(1), of "CHR ''s''" "CHR ''s''" "asc_S as" AtomicSwapSecret_fields as0] by (simp add: ev)
  show "ascii (vsc_S vs) \<Longrightarrow> ascii (vsc_R vs) \<Longrightarrow>
      Unmarshal AtomicSwapVcSecret_fields (marshal_AtomicSwapVcSecret vs) vs0 = Ok vs"
    using Unmarshal_struct [OF one(2), of "CHR ''s''" "CHR ''r''" "vsc_S vs" "vsc_R vs" AtomicSwapVcSecret_fields vs0]
    by (simp add: ev)
  show "ascii (fsc_R qs) \<Longrightarrow> Unmarshal VRFSecret_fields (marshal_VRFSecret qs) qs0 = Ok qs"
    using Unmarshal_struct [OF one(1), of "CHR ''r''" "CHR ''r''" "fsc_R qs" VRFSecret_fields qs0] by (simp add: ev)
qed

text \<open>
  A secret the buyer saved is the secret a reader of the file gets, in each of the four
  formats: if saving succeeded, whatever the file held before, and the file can be read, then
  reading and decoding it gives the secret back. The texts are ASCII, as the texts made from the
  contract's record are.
\<close>

theorem saved_secret_reads_back:
  assumes "\<not> OsFault E (COs OsRead p # hist w')"
  shows "(run_state (BobSaveSecretForComplaint E cs p) w = (Ok (), w') \<and> ascii (csc_S cs) \<longrightarrow>
      fst (run_state (readSeed0ForComplaint E p) w') = Ok cs) \<and>
    (run_state (BobSaveSecretForAtomicSwap E as p) w = (Ok (), w') \<and> ascii (asc_S as) \<longrightarrow>
      fst (run_state (readSeed0ForAtomicSwap E p) w') = Ok as) \<and>
    (run_state (BobSaveSecretForAtomicSwapVc E vs p) w = (Ok (), w') \<and> ascii (vsc_S vs) \<and> ascii (vsc_R vs) \<longrightarrow>
      fst (run_state (readSeed0ForAtomicSwapVc E p) w') = Ok vs) \<and>
    (run_state (BobSaveSecretForVRFQ E qs p) w = (Ok (), w') \<and> ascii (fsc_R qs) \<longrightarrow>
      fst (run_state (readSeed0ForVRFQ E p) w') = Ok qs)"
  unfolding receipt_defs readSeed0ForComplaint_def readSeed0ForAtomicSwap_def
    readSeed0ForAtomicSwapVc_def readSeed0ForVRFQ_def
  by (intro conjI impI) (elim conjE, rule read_saved [OF _ assms], erule saved_file, simp add: secret_json)+

theorem saved_secret_reads_back_witness:
  "fst (run_state (readSeed0ForAtomicSwapVc sample_ext ''b/secret'')
     (snd (run_state (BobSaveSecretForAtomicSwapVc sample_ext \<lparr>vsc_S = ''17'', vsc_R = ''4''\<rparr> ''b/secret'') sample_world))) =
   Ok \<lparr>vsc_S = ''17'', vsc_R = ''4''\<rparr>"
proof -
  let ?w = "snd (run_state (BobSaveSecretForAtomicSwapVc sample_ext \<lparr>vsc_S = ''17'', vsc_R = ''4''\<rparr> ''b/secret'') sample_world)"
  have "run_state (BobSaveSecretForAtomicSwapVc sample_ext \<lparr>vsc_S = ''17'', vsc_R = ''4''\<rparr> ''b/secret'') sample_world = (Ok (), ?w)"
    by (simp add: BobSaveSecretForAtomicSwapVc_def WriteFile_def WriteOpened_def set_fs_def run ask_def
        sample_ext_def sample_world_def)
  then show ?thesis
    using saved_secret_reads_back [of sample_ext "''b/secret''" ?w, where vs = "\<lparr>vsc_S = ''17'', vsc_R = ''4''\<rparr>"
        and w = sample_world]
    by (simp add: sample_ext_def ascii_def)
qed

end
