(* ===== verification/BuyerDb.thy ===== *)
theory BuyerDb
  imports Database Modes
begin

text \<open>
  The buyer's part of \<^verbatim>\<open>db.go\<close>: how a purchase is written to, updated in and read back from the
  table of the buyer's transactions, with what was asked for as JSON text, and the table of logs.
\<close>

section \<open>JSON of slices\<close>

definition enc_uint64 :: "u64 \<Rightarrow> string" where
  "enc_uint64 v = FormatUint 10 (unat v)"

fun commas :: "string list \<Rightarrow> string" where
  "commas [] = []"
| "commas [s] = s"
| "commas (s # ss) = s @ CHR '','' # commas ss"

text \<open>\<open>json.Marshal\<close> of a slice: null for nil.\<close>

definition enc_slice :: "('a \<Rightarrow> string) \<Rightarrow> 'a gslice \<Rightarrow> string" where
  "enc_slice enc s = (case s of None \<Rightarrow> ''null'' | Some xs \<Rightarrow> CHR ''['' # commas (map enc xs) @ '']'')"

definition enc_Demand :: "Demand \<Rightarrow> string" where
  "enc_Demand d = CHR ''{'' # enc_members [(''demand_start'', enc_uint64 (DemandStart d)),
     (''demand_count'', enc_uint64 (DemandCount d))] @ ''}''"

definition enc_Phantom :: "PhantomRange \<Rightarrow> string" where
  "enc_Phantom p = CHR ''{'' # enc_members [(''phantom_start'', enc_uint64 (PhantomStart p)),
     (''phantom_count'', enc_uint64 (PhantomCount p))] @ ''}''"

definition Demand_fields :: "Demand field list" where
  "Demand_fields = [
     field ''demand_start'' dec_uint64 DemandStart DemandStart_update,
     field ''demand_count'' dec_uint64 DemandCount DemandCount_update]"

definition Phantom_fields :: "PhantomRange field list" where
  "Phantom_fields = [
     field ''phantom_start'' dec_uint64 PhantomStart PhantomStart_update,
     field ''phantom_count'' dec_uint64 PhantomCount PhantomCount_update]"

definition dec_struct :: "'r field list \<Rightarrow> json \<Rightarrow> 'r \<Rightarrow> 'r res" where
  "dec_struct flds v old = (case v of JObj kvs \<Rightarrow> dec_members flds kvs old | JNull \<Rightarrow> Ok old | _ \<Rightarrow> Err typeError)"

text \<open>\<open>json.Unmarshal\<close> of a text into a nil slice.\<close>

definition dec_slice :: "(json \<Rightarrow> 'a \<Rightarrow> 'a res) \<Rightarrow> 'a \<Rightarrow> string \<Rightarrow> 'a gslice res" where
  "dec_slice d z txt = (case json_parse txt of
     None \<Rightarrow> Err ''invalid character in JSON''
   | Some JNull \<Rightarrow> Ok None
   | Some (JArr vs) \<Rightarrow> res_bind (dec_elems d z vs []) (\<lambda>xs. Ok (Some xs))
   | Some _ \<Rightarrow> Err typeError)"

definition dec_Demands :: "string \<Rightarrow> Demand gslice res" where
  "dec_Demands = dec_slice (dec_struct Demand_fields) \<lparr>DemandStart = 0, DemandCount = 0\<rparr>"

definition dec_Phantoms :: "string \<Rightarrow> PhantomRange gslice res" where
  "dec_Phantoms = dec_slice (dec_struct Phantom_fields) \<lparr>PhantomStart = 0, PhantomCount = 0\<rparr>"

definition dec_Strings :: "string \<Rightarrow> string gslice res" where
  "dec_Strings = dec_slice dec_string []"

section \<open>Writing a purchase\<close>

text \<open>What \<open>insertBobTxToDB\<close> and \<open>updateBobTxToDB\<close> both copy.\<close>

definition bob_row :: "BobTransaction \<Rightarrow> BobTx" where
  "bob_row t = \<lparr>
     btx_SessionId = bt_SessionID t,
     btx_Status = bt_Status t,
     btx_AliceIP = bt_AliceIP t,
     btx_AliceAddr = bt_AliceAddr t,
     btx_BobAddr = bt_BobAddr t,
     btx_Mode = bt_Mode t,
     btx_SubMode = bt_SubMode t,
     btx_OT = bt_OT t,
     btx_Size = blt_Size (bt_Bulletin t),
     btx_S = blt_S (bt_Bulletin t),
     btx_N = blt_N (bt_Bulletin t),
     btx_SigmaMKLRoot = blt_SigmaMKLRoot (bt_Bulletin t),
     btx_Price = bt_Price t,
     btx_UnitPrice = 0,
     btx_ExpireAt = bt_ExpireAt t,
     btx_Count = bt_Count t,
     btx_Demands = [], btx_Phantoms = [], btx_KeyName = [], btx_KeyValue = [], btx_PhantomKeyValue = []\<rparr>"

definition put_demands :: "PoDBob \<Rightarrow> BobTx \<Rightarrow> BobTx" where
  "put_demands p r = r\<lparr>btx_Demands := enc_slice enc_Demand (Demands p)\<rparr>"

definition put_phantoms :: "PoDBob \<Rightarrow> BobTx \<Rightarrow> BobTx" where
  "put_phantoms p r = r\<lparr>btx_Phantoms := enc_slice enc_Phantom (Phantoms p)\<rparr>"

definition put_keys :: "PoDBob \<Rightarrow> BobTx \<Rightarrow> BobTx" where
  "put_keys p r = r\<lparr>btx_KeyName := KeyName p, btx_KeyValue := enc_slice enc_string (KeyValue p)\<rparr>"

definition put_phantomKeys :: "PoDBob \<Rightarrow> BobTx \<Rightarrow> BobTx" where
  "put_phantomKeys p r = r\<lparr>btx_PhantomKeyValue := enc_slice enc_string (PhantomKeyValue p)\<rparr>"

text \<open>
  The switch on mode and sub mode of both functions. The branch for table data reads the fields
  of the plain packages and the other branch those of the table packages.
\<close>

definition put_wanted :: "BobTransaction \<Rightarrow> BobTx \<Rightarrow> BobTx" where
  "put_wanted t r = (let P = bt_PoD t in
     if btx_Mode r = TRANSACTION_MODE_TABLE_POD then
       if btx_SubMode r = TRANSACTION_SUB_MODE_COMPLAINT then
         if btx_OT r then put_phantoms (P POC) (put_demands (P POC) r) else put_demands (P PC) r
       else if btx_SubMode r = TRANSACTION_SUB_MODE_ATOMIC_SWAP then put_demands (P PAS) r
       else if btx_SubMode r = TRANSACTION_SUB_MODE_ATOMIC_SWAP_VC then put_demands (P PASVC) r
       else r
     else
       if btx_SubMode r = TRANSACTION_SUB_MODE_COMPLAINT then
         if btx_OT r then put_phantoms (P TOC) (put_demands (P TOC) r) else put_demands (P TC) r
       else if btx_SubMode r = TRANSACTION_SUB_MODE_ATOMIC_SWAP then put_demands (P TAS) r
       else if btx_SubMode r = TRANSACTION_SUB_MODE_ATOMIC_SWAP_VC then put_demands (P TASVC) r
       else if btx_SubMode r = TRANSACTION_SUB_MODE_VRF then
         if btx_OT r then put_phantomKeys (P TOQ) (put_keys (P TOQ) r) else put_keys (P TQ) r
       else r)"

definition insertBobTxToDB :: "ext \<Rightarrow> BobTransaction \<Rightarrow> ('z world_scheme, unit res) state" where
  "insertBobTxToDB E t =
     check (ask (CInsertBobTx (put_wanted t (bob_row t))) (DBExec E))
       (\<lambda>_. ret (Err ''failed to insert transaction to Bob_tx.'')) (\<lambda>_. ret (Ok ()))"

text \<open>Only the update copies the unit price.\<close>

definition updated_row :: "BobTransaction \<Rightarrow> BobTx" where
  "updated_row t = put_wanted t ((bob_row t)\<lparr>btx_UnitPrice := bt_UnitPrice t\<rparr>)"

definition updateBobTxToDB :: "ext \<Rightarrow> BobTransaction \<Rightarrow> ('z world_scheme, unit res) state" where
  "updateBobTxToDB E t =
     check (ask (CUpdateBobTx (bt_SessionID t) (updated_row t)) (DBExec E))
       (\<lambda>_. ret (Err ''failed to insert transaction to Bob_tx.'')) (\<lambda>_. ret (Ok ()))"

section \<open>Reading a purchase\<close>

definition zero_BobTransaction :: BobTransaction where
  "zero_BobTransaction = \<lparr>
     bt_SessionID = [], bt_Status = [], bt_AliceIP = [], bt_AliceAddr = [], bt_BobAddr = [], bt_Mode = [],
     bt_SubMode = [], bt_OT = False,
     bt_Bulletin = \<lparr>blt_Mode = [], blt_Size = [], blt_S = [], blt_N = [], blt_SigmaMKLRoot = [],
       blt_VRFMetaDigest = []\<rparr>,
     bt_Price = 0, bt_UnitPrice = 0, bt_Count = 0, bt_ExpireAt = 0, bt_PoD = (\<lambda>_. zero_PoDBob)\<rparr>"

definition bob_of_row :: "BobTx \<Rightarrow> BobTransaction" where
  "bob_of_row r = zero_BobTransaction\<lparr>
     bt_SessionID := btx_SessionId r,
     bt_Status := btx_Status r,
     bt_AliceIP := btx_AliceIP r,
     bt_AliceAddr := btx_AliceAddr r,
     bt_BobAddr := btx_BobAddr r,
     bt_Mode := btx_Mode r,
     bt_SubMode := btx_SubMode r,
     bt_OT := btx_OT r,
     bt_Bulletin := \<lparr>blt_Mode = btx_Mode r, blt_Size = btx_Size r, blt_S = btx_S r, blt_N = btx_N r,
       blt_SigmaMKLRoot = btx_SigmaMKLRoot r, blt_VRFMetaDigest = []\<rparr>,
     bt_Price := btx_Price r,
     bt_UnitPrice := btx_UnitPrice r,
     bt_Count := btx_Count r,
     bt_ExpireAt := btx_ExpireAt r\<rparr>"

definition set_pod :: "pod_pkg \<Rightarrow> (PoDBob \<Rightarrow> PoDBob) \<Rightarrow> BobTransaction \<Rightarrow> BobTransaction" where
  "set_pod pkg f t = t\<lparr>bt_PoD := (bt_PoD t)(pkg := f (bt_PoD t pkg))\<rparr>"

definition parsed :: "'a res \<Rightarrow> string \<Rightarrow> ('a \<Rightarrow> 'b res) \<Rightarrow> 'b res" where
  "parsed r e k = (case r of Ok v \<Rightarrow> k v | Err _ \<Rightarrow> Err e | Panic \<Rightarrow> Panic)"

definition get_demands :: "pod_pkg \<Rightarrow> BobTx \<Rightarrow> BobTransaction \<Rightarrow> BobTransaction res" where
  "get_demands pkg r t = parsed (dec_Demands (btx_Demands r)) ''failed to parse demands''
     (\<lambda>ds. Ok (set_pod pkg (\<lambda>p. p\<lparr>Demands := ds\<rparr>) t))"

definition get_phantoms :: "pod_pkg \<Rightarrow> BobTx \<Rightarrow> BobTransaction \<Rightarrow> BobTransaction res" where
  "get_phantoms pkg r t = parsed (dec_Phantoms (btx_Phantoms r)) ''failed to parse phantoms''
     (\<lambda>ps. Ok (set_pod pkg (\<lambda>p. p\<lparr>Phantoms := ps\<rparr>) t))"

definition get_keys :: "pod_pkg \<Rightarrow> BobTx \<Rightarrow> BobTransaction \<Rightarrow> BobTransaction res" where
  "get_keys pkg r t = parsed (dec_Strings (btx_KeyValue r)) ''failed to parse keyvalue''
     (\<lambda>ks. Ok (set_pod pkg (\<lambda>p. p\<lparr>KeyName := btx_KeyName r, KeyValue := ks\<rparr>) t))"

definition get_phantomKeys :: "pod_pkg \<Rightarrow> BobTx \<Rightarrow> BobTransaction \<Rightarrow> BobTransaction res" where
  "get_phantomKeys pkg r t = parsed (dec_Strings (btx_PhantomKeyValue r)) ''failed to parse phantomKeyValue''
     (\<lambda>ks. Ok (set_pod pkg (\<lambda>p. p\<lparr>PhantomKeyValue := ks\<rparr>) t))"

text \<open>The switch of the loading functions, with the same exchange of plain and table.\<close>

definition get_wanted :: "BobTx \<Rightarrow> BobTransaction \<Rightarrow> BobTransaction res" where
  "get_wanted r t =
     (if bt_Mode t = TRANSACTION_MODE_TABLE_POD then
        if bt_SubMode t = TRANSACTION_SUB_MODE_COMPLAINT then
          if bt_OT t then res_bind (get_demands POC r t) (get_phantoms POC r) else get_demands PC r t
        else if bt_SubMode t = TRANSACTION_SUB_MODE_ATOMIC_SWAP then get_demands PAS r t
        else if bt_SubMode t = TRANSACTION_SUB_MODE_ATOMIC_SWAP_VC then get_demands PASVC r t
        else Ok t
      else
        if bt_SubMode t = TRANSACTION_SUB_MODE_COMPLAINT then
          if bt_OT t then res_bind (get_demands TOC r t) (get_phantoms TOC r) else get_demands TC r t
        else if bt_SubMode t = TRANSACTION_SUB_MODE_ATOMIC_SWAP then get_demands TAS r t
        else if bt_SubMode t = TRANSACTION_SUB_MODE_ATOMIC_SWAP_VC then get_demands TASVC r t
        else if bt_SubMode t = TRANSACTION_SUB_MODE_VRF then
          if bt_OT t then res_bind (get_keys TOQ r t) (get_phantomKeys TOQ r) else get_keys TQ r t
        else Ok t)"

definition loadBobTxFromDB :: "ext \<Rightarrow> string \<Rightarrow> ('z world_scheme, BobTransaction res) state" where
  "loadBobTxFromDB E sessionID =
     check (ask (CGetBobTx sessionID) (DBGetBobTx E))
       (\<lambda>_. ret (Err ''failed to read transaction for Bob.'')) (\<lambda>row.
     ret (case row of None \<Rightarrow> Ok zero_BobTransaction | Some r \<Rightarrow> get_wanted r (bob_of_row r)))"

primrec bobs_of_rows :: "BobTx list \<Rightarrow> BobTransaction list res" where
  "bobs_of_rows [] = Ok []"
| "bobs_of_rows (r # rs) =
     res_bind (get_wanted r (bob_of_row r)) (\<lambda>t. res_bind (bobs_of_rows rs) (\<lambda>ts. Ok (t # ts)))"

definition loadBobTxListFromDB :: "ext \<Rightarrow> ('z world_scheme, BobTransaction list res) state" where
  "loadBobTxListFromDB E =
     check (ask CFindBobTx (DBFindBobTx E))
       (\<lambda>_. ret (Err ''failed to read transaction for Bob.'')) (\<lambda>rows. ret (bobs_of_rows rows))"

text \<open>\<open>loadAliceTxListToDB\<close> reads the rows of the buyer's table as sales.\<close>

definition sale_of_bob_row :: "BobTx \<Rightarrow> Transaction" where
  "sale_of_bob_row r = zero_Transaction\<lparr>
     tx_SessionID := btx_SessionId r,
     tx_Status := btx_Status r,
     tx_AliceAddr := btx_AliceAddr r,
     tx_BobAddr := btx_BobAddr r,
     tx_Mode := btx_Mode r,
     tx_SubMode := btx_SubMode r,
     tx_OT := btx_OT r,
     tx_Bulletin := \<lparr>blt_Mode = btx_Mode r, blt_Size = btx_Size r, blt_S = btx_S r, blt_N = btx_N r,
       blt_SigmaMKLRoot = btx_SigmaMKLRoot r, blt_VRFMetaDigest = []\<rparr>,
     tx_Price := btx_Price r,
     tx_UnitPrice := btx_UnitPrice r,
     tx_ExpireAt := btx_ExpireAt r,
     tx_Count := btx_Count r\<rparr>"

definition loadAliceTxListToDB :: "ext \<Rightarrow> ('z world_scheme, Transaction list res) state" where
  "loadAliceTxListToDB E =
     check (ask CFindBobTx (DBFindBobTx E))
       (\<lambda>_. ret (Err ''failed to read transaction for Bob.'')) (\<lambda>rows. ret (Ok (map sale_of_bob_row rows)))"

section \<open>Logs\<close>

definition insertLogToDB :: "ext \<Rightarrow> PodLog \<Rightarrow> ('z world_scheme, unit res) state" where
  "insertLogToDB E plog =
     check (ask (CInsertLog plog) (DBExec E)) (\<lambda>_. ret (Err ''failed to insert log to pod_log.''))
       (\<lambda>_. ret (Ok ()))"

definition loadLogListByOperatorFromDB :: "ext \<Rightarrow> string \<Rightarrow> ('z world_scheme, PodLog list res) state" where
  "loadLogListByOperatorFromDB E operator =
     check (ask (CFindLogs operator) (DBFindLogs E)) (\<lambda>_. ret (Err ''failed to load logs.''))
       (\<lambda>l. ret (Ok l))"

lemma keeps_buyer_db [frame]:
  assumes "inert f"
  shows "keeps f (insertBobTxToDB E t)" "keeps f (updateBobTxToDB E t)" "keeps f (loadBobTxFromDB E s)"
    "keeps f (insertLogToDB E plog)"
  unfolding insertBobTxToDB_def updateBobTxToDB_def loadBobTxFromDB_def insertLogToDB_def
  by (intro frame assms)+

section \<open>What a stored purchase keeps\<close>

text \<open>The mode, sub mode and OT flag each package of the library serves.\<close>

primrec mode_of :: "pod_pkg \<Rightarrow> string \<times> string \<times> bool" where
  "mode_of PC = (TRANSACTION_MODE_PLAIN_POD, TRANSACTION_SUB_MODE_COMPLAINT, False)"
| "mode_of POC = (TRANSACTION_MODE_PLAIN_POD, TRANSACTION_SUB_MODE_COMPLAINT, True)"
| "mode_of PAS = (TRANSACTION_MODE_PLAIN_POD, TRANSACTION_SUB_MODE_ATOMIC_SWAP, False)"
| "mode_of PASVC = (TRANSACTION_MODE_PLAIN_POD, TRANSACTION_SUB_MODE_ATOMIC_SWAP_VC, False)"
| "mode_of TC = (TRANSACTION_MODE_TABLE_POD, TRANSACTION_SUB_MODE_COMPLAINT, False)"
| "mode_of TOC = (TRANSACTION_MODE_TABLE_POD, TRANSACTION_SUB_MODE_COMPLAINT, True)"
| "mode_of TAS = (TRANSACTION_MODE_TABLE_POD, TRANSACTION_SUB_MODE_ATOMIC_SWAP, False)"
| "mode_of TASVC = (TRANSACTION_MODE_TABLE_POD, TRANSACTION_SUB_MODE_ATOMIC_SWAP_VC, False)"
| "mode_of TQ = (TRANSACTION_MODE_TABLE_POD, TRANSACTION_SUB_MODE_VRF, False)"
| "mode_of TOQ = (TRANSACTION_MODE_TABLE_POD, TRANSACTION_SUB_MODE_VRF, True)"

lemma null_slices: "dec_Demands ''null'' = Ok None" "dec_Phantoms ''null'' = Ok None"
proof -
  have "json_parse ''null'' = Some JNull" by code_simp
  then show "dec_Demands ''null'' = Ok None" "dec_Phantoms ''null'' = Ok None"
    by (simp_all add: dec_Demands_def dec_Phantoms_def dec_slice_def)
qed

lemma updated_row_fields:
  "btx_Mode (updated_row t) = bt_Mode t" "btx_SubMode (updated_row t) = bt_SubMode t"
  "btx_OT (updated_row t) = bt_OT t"
  "bob_of_row (updated_row t) = t\<lparr>bt_PoD := (\<lambda>_. zero_PoDBob),
     bt_Bulletin := (bt_Bulletin t)\<lparr>blt_Mode := bt_Mode t, blt_VRFMetaDigest := []\<rparr>\<rparr>"
  by (simp_all add: updated_row_def put_wanted_def Let_def put_demands_def put_phantoms_def put_keys_def
      put_phantomKeys_def bob_row_def bob_of_row_def zero_BobTransaction_def)

lemma get_own_wanted:
  assumes "(bt_Mode t, bt_SubMode t, bt_OT t) = mode_of pkg" and "\<And>q. q \<noteq> pkg \<Longrightarrow> bt_PoD t q = zero_PoDBob"
    and "u = t\<lparr>bt_PoD := (\<lambda>_. zero_PoDBob), bt_Bulletin := b\<rparr>"
  shows "get_wanted (updated_row t) u = Ok u"
  using assms
  by (cases pkg)
    (simp_all add: get_wanted_def updated_row_def put_wanted_def mode_names bob_row_def Let_def
      put_demands_def put_phantoms_def put_keys_def put_phantomKeys_def enc_slice_def zero_PoDBob_def
      get_demands_def get_phantoms_def get_keys_def get_phantomKeys_def parsed_def null_slices set_pod_def
      fun_upd_idem)

text \<open>
  C38. What a purchase asked for is not kept by the database: for a purchase in any of the ten
  modes, which holds its demands or keys in the field of its own package, the row written at its
  end loads, when the driver returns it unchanged, as the same purchase but without demands,
  phantoms and keys, since the functions look for them under the packages of the other kind of
  data. Price, unit price, count, expiry time, parties and status come back.
\<close>

theorem stored_purchase_forgets_request:
  assumes "(bt_Mode t, bt_SubMode t, bt_OT t) = mode_of pkg"
    and "\<And>q. q \<noteq> pkg \<Longrightarrow> bt_PoD t q = zero_PoDBob"
    and "DBGetBobTx E (CGetBobTx (bt_SessionID t) # hist w) = Ok (Some (updated_row t))"
  shows "fst (run_state (loadBobTxFromDB E (bt_SessionID t)) w) =
    Ok (t\<lparr>bt_PoD := (\<lambda>_. zero_PoDBob),
          bt_Bulletin := (bt_Bulletin t)\<lparr>blt_Mode := bt_Mode t, blt_VRFMetaDigest := []\<rparr>\<rparr>)"
  using assms(3)
  by (simp add: loadBobTxFromDB_def run ask_def updated_row_fields(4) get_own_wanted [OF assms(1,2) refl])

definition sample_purchase :: BobTransaction where
  "sample_purchase = zero_BobTransaction\<lparr>bt_SessionID := ''12'', bt_Mode := TRANSACTION_MODE_TABLE_POD,
     bt_SubMode := TRANSACTION_SUB_MODE_COMPLAINT, bt_UnitPrice := 2, bt_Count := 3,
     bt_PoD := (\<lambda>_. zero_PoDBob)(TC := zero_PoDBob\<lparr>Demands := Some [\<lparr>DemandStart = 0, DemandCount = 3\<rparr>]\<rparr>)\<rparr>"

theorem stored_purchase_forgets_request_witness:
  "fst (run_state (loadBobTxFromDB (sample_ext\<lparr>DBGetBobTx := (\<lambda>_. Ok (Some (updated_row sample_purchase)))\<rparr>)
      (bt_SessionID sample_purchase)) sample_world) =
   Ok (sample_purchase\<lparr>bt_PoD := (\<lambda>_. zero_PoDBob),
     bt_Bulletin := (bt_Bulletin sample_purchase)\<lparr>blt_Mode := bt_Mode sample_purchase, blt_VRFMetaDigest := []\<rparr>\<rparr>)"
  by (rule stored_purchase_forgets_request [of sample_purchase TC])
    (simp_all add: sample_purchase_def zero_BobTransaction_def)

end
