(* ===== verification/Status.thy ===== *)
theory Status
  imports Main
begin

text \<open>
  The names of the statuses a transaction goes through, from \<^verbatim>\<open>const.go\<close>, as the seller's and
  the buyer's handlers write them to their transactions.
\<close>

definition TRANSACTION_STATUS_START :: string where "TRANSACTION_STATUS_START = ''start''"
definition TRANSACTION_STATUS_START_FAILED :: string where
  "TRANSACTION_STATUS_START_FAILED = ''startFailed''"
definition TRANSACTION_STATUS_NEGO :: string where "TRANSACTION_STATUS_NEGO = ''nego''"
definition TRANSACTION_STATUS_NEGO_FAILED :: string where "TRANSACTION_STATUS_NEGO_FAILED = ''NegoFailed''"
definition TRANSACTION_STATUS_RECEIVED_REQUEST :: string where
  "TRANSACTION_STATUS_RECEIVED_REQUEST = ''requested''"
definition TRANSACTION_STATUS_INVALID_REQUEST :: string where
  "TRANSACTION_STATUS_INVALID_REQUEST = ''invalidRequest''"
definition TRANSACTION_STATUS_RECEIVED_REQUEST_FAILED :: string where
  "TRANSACTION_STATUS_RECEIVED_REQUEST_FAILED = ''requestFailed''"
definition TRANSACTION_STATUS_RECEIVED_DEPOSIT_NOT_ENOUGH :: string where
  "TRANSACTION_STATUS_RECEIVED_DEPOSIT_NOT_ENOUGH = ''depositNotEnough''"
definition TRANSACTION_STATUS_RECEIVED_RESPONSE :: string where
  "TRANSACTION_STATUS_RECEIVED_RESPONSE = ''responsed''"
definition TRANSACTION_STATUS_GENERATE_RESPONSE :: string where
  "TRANSACTION_STATUS_GENERATE_RESPONSE = ''generateResponse''"
definition TRANSACTION_STATUS_SEND_RESPONSE_FAILED :: string where
  "TRANSACTION_STATUS_SEND_RESPONSE_FAILED = ''responseFailed''"
definition TRANSACTION_STATUS_RECEIVED_RECEIPT_FAILED :: string where
  "TRANSACTION_STATUS_RECEIVED_RECEIPT_FAILED = ''receiptFailed''"
definition TRANSACTION_STATUS_RECEIPT :: string where "TRANSACTION_STATUS_RECEIPT = ''receipted''"
definition TRANSACTION_STATUS_GENERATE_SECRET :: string where
  "TRANSACTION_STATUS_GENERATE_SECRET = ''generateSecret''"
definition TRANSACTION_STATUS_GENERATE_SECRET_FAILED :: string where
  "TRANSACTION_STATUS_GENERATE_SECRET_FAILED = ''generateSecretFailed''"
definition TRANSACTION_STATUS_GOT_SECRET :: string where "TRANSACTION_STATUS_GOT_SECRET = ''GotSecret''"
definition TRANSACTION_STATUS_SEND_SECRET_FAILED :: string where
  "TRANSACTION_STATUS_SEND_SECRET_FAILED = ''secretFailed''"
definition TRANSACTION_STATUS_GOT_SECRET_FAILED :: string where
  "TRANSACTION_STATUS_GOT_SECRET_FAILED = ''secretGotFailed''"
definition TRANSACTION_STATUS_SEND_SECRET_TERMINATED :: string where
  "TRANSACTION_STATUS_SEND_SECRET_TERMINATED = ''secretterminated''"
definition TRANSACTION_STATUS_SEND_CLIAM :: string where "TRANSACTION_STATUS_SEND_CLIAM = ''claimed''"
definition TRANSACTION_STATUS_SEND_CLIAM_FAILED :: string where
  "TRANSACTION_STATUS_SEND_CLIAM_FAILED = ''claimFailed''"
definition TRANSACTION_STATUS_VERIFY_FAILED :: string where
  "TRANSACTION_STATUS_VERIFY_FAILED = ''verifyFailed''"
definition TRANSACTION_STATUS_DECRYPT_FAILED :: string where
  "TRANSACTION_STATUS_DECRYPT_FAILED = ''decryptFailed''"
definition TRANSACTION_STATUS_CLOSED :: string where "TRANSACTION_STATUS_CLOSED = ''closed''"

lemmas status_defs = TRANSACTION_STATUS_START_def
  TRANSACTION_STATUS_START_FAILED_def
  TRANSACTION_STATUS_NEGO_def
  TRANSACTION_STATUS_NEGO_FAILED_def
  TRANSACTION_STATUS_RECEIVED_REQUEST_def
  TRANSACTION_STATUS_INVALID_REQUEST_def
  TRANSACTION_STATUS_RECEIVED_REQUEST_FAILED_def
  TRANSACTION_STATUS_RECEIVED_DEPOSIT_NOT_ENOUGH_def
  TRANSACTION_STATUS_RECEIVED_RESPONSE_def
  TRANSACTION_STATUS_GENERATE_RESPONSE_def
  TRANSACTION_STATUS_SEND_RESPONSE_FAILED_def
  TRANSACTION_STATUS_RECEIVED_RECEIPT_FAILED_def
  TRANSACTION_STATUS_RECEIPT_def
  TRANSACTION_STATUS_GENERATE_SECRET_def
  TRANSACTION_STATUS_GENERATE_SECRET_FAILED_def
  TRANSACTION_STATUS_GOT_SECRET_def
  TRANSACTION_STATUS_SEND_SECRET_FAILED_def
  TRANSACTION_STATUS_GOT_SECRET_FAILED_def
  TRANSACTION_STATUS_SEND_SECRET_TERMINATED_def
  TRANSACTION_STATUS_SEND_CLIAM_def
  TRANSACTION_STATUS_SEND_CLIAM_FAILED_def
  TRANSACTION_STATUS_VERIFY_FAILED_def
  TRANSACTION_STATUS_DECRYPT_FAILED_def
  TRANSACTION_STATUS_CLOSED_def

text \<open>A sale or a purchase that went through, and the statuses on the way or after a failure.\<close>

lemma failures_not_closed:
  "TRANSACTION_STATUS_START \<noteq> TRANSACTION_STATUS_CLOSED"
  "TRANSACTION_STATUS_START_FAILED \<noteq> TRANSACTION_STATUS_CLOSED"
  "TRANSACTION_STATUS_NEGO \<noteq> TRANSACTION_STATUS_CLOSED"
  "TRANSACTION_STATUS_NEGO_FAILED \<noteq> TRANSACTION_STATUS_CLOSED"
  "TRANSACTION_STATUS_RECEIVED_REQUEST \<noteq> TRANSACTION_STATUS_CLOSED"
  "TRANSACTION_STATUS_INVALID_REQUEST \<noteq> TRANSACTION_STATUS_CLOSED"
  "TRANSACTION_STATUS_RECEIVED_REQUEST_FAILED \<noteq> TRANSACTION_STATUS_CLOSED"
  "TRANSACTION_STATUS_RECEIVED_DEPOSIT_NOT_ENOUGH \<noteq> TRANSACTION_STATUS_CLOSED"
  "TRANSACTION_STATUS_RECEIVED_RESPONSE \<noteq> TRANSACTION_STATUS_CLOSED"
  "TRANSACTION_STATUS_GENERATE_RESPONSE \<noteq> TRANSACTION_STATUS_CLOSED"
  "TRANSACTION_STATUS_SEND_RESPONSE_FAILED \<noteq> TRANSACTION_STATUS_CLOSED"
  "TRANSACTION_STATUS_RECEIVED_RECEIPT_FAILED \<noteq> TRANSACTION_STATUS_CLOSED"
  "TRANSACTION_STATUS_RECEIPT \<noteq> TRANSACTION_STATUS_CLOSED"
  "TRANSACTION_STATUS_GENERATE_SECRET \<noteq> TRANSACTION_STATUS_CLOSED"
  "TRANSACTION_STATUS_GENERATE_SECRET_FAILED \<noteq> TRANSACTION_STATUS_CLOSED"
  "TRANSACTION_STATUS_GOT_SECRET \<noteq> TRANSACTION_STATUS_CLOSED"
  "TRANSACTION_STATUS_SEND_SECRET_FAILED \<noteq> TRANSACTION_STATUS_CLOSED"
  "TRANSACTION_STATUS_GOT_SECRET_FAILED \<noteq> TRANSACTION_STATUS_CLOSED"
  "TRANSACTION_STATUS_SEND_SECRET_TERMINATED \<noteq> TRANSACTION_STATUS_CLOSED"
  "TRANSACTION_STATUS_SEND_CLIAM \<noteq> TRANSACTION_STATUS_CLOSED"
  "TRANSACTION_STATUS_SEND_CLIAM_FAILED \<noteq> TRANSACTION_STATUS_CLOSED"
  "TRANSACTION_STATUS_VERIFY_FAILED \<noteq> TRANSACTION_STATUS_CLOSED"
  "TRANSACTION_STATUS_DECRYPT_FAILED \<noteq> TRANSACTION_STATUS_CLOSED"
  by (simp_all add: status_defs)

end
