(* ===== verification/Buyer.thy ===== *)
theory Buyer
  imports Receipts BuyerDb Status
begin

text \<open>
  The buyer's transactions of \<^verbatim>\<open>buyer_tx.go\<close>, one handler for each mode. As on the seller's side a
  step that several handlers have is one definition, with the places where they differ as
  arguments, and the local variable \<open>tx\<close>, which the deferred functions read when the handler
  returns, is a component of the state while the handler runs. A handler returns the text of its
  answer to the HTTP request; it never returns an error.
\<close>

section \<open>Answers\<close>

definition quoted :: "string \<Rightarrow> string" where
  "quoted s = CHR 0x22 # s @ [CHR 0x22]"

definition answer :: "string \<Rightarrow> string \<Rightarrow> string" where
  "answer code msg = CHR ''{'' # quoted ''code'' @ CHR '':'' # quoted code @ CHR '','' #
     quoted ''message'' @ CHR '':'' # quoted msg @ ''}''"

definition RESPONSE_SUCCESS :: "string \<Rightarrow> string" where
  "RESPONSE_SUCCESS msg = answer ''0'' msg"

definition RESPONSE_TRANSACTION_FAILED :: "string \<Rightarrow> string" where
  "RESPONSE_TRANSACTION_FAILED msg = answer ''20017'' msg"

definition step_failed :: "char \<Rightarrow> string" where
  "step_failed n = RESPONSE_TRANSACTION_FAILED (''step'' @ n # '': failed to purchase data.'')"

definition purchased :: "string \<Rightarrow> string" where
  "purchased sessionID = RESPONSE_SUCCESS (''purchase data successfully. sessionID='' @ sessionID)"

section \<open>Counting what is asked for\<close>

text \<open>The counts are summed in an \<open>int64\<close>.\<close>

definition calcuDCnt :: "Demand gslice \<Rightarrow> int64" where
  "calcuDCnt demands = foldl (\<lambda>count d. count + DemandCount d) 0 (elems demands)"

definition calcuPCnt :: "PhantomRange gslice \<Rightarrow> int64" where
  "calcuPCnt phantoms = foldl (\<lambda>count p. count + PhantomCount p) 0 (elems phantoms)"

section \<open>The state of a handler\<close>

record bob_st = world +
  bcur :: BobTransaction

type_synonym bob = "(bob_st, string res) state"

definition with_purchase :: "BobTransaction \<Rightarrow> bob \<Rightarrow> (world, string res) state" where
  "with_purchase t m = State (\<lambda>w. case run_state m (world.extend w (bob_st.fields t)) of
     (r, s) \<Rightarrow> (r, world.truncate s))"

definition set_bt :: "(BobTransaction \<Rightarrow> BobTransaction) \<Rightarrow> (bob_st, unit) state" where
  "set_bt f = State_Monad.update (\<lambda>s. s\<lparr>bcur := f (bcur s)\<rparr>)"

text \<open>\<open>BobTxMap[tx.SessionID] = tx\<close>.\<close>

definition bput_map :: "(bob_st, unit) state" where
  "bput_map = State_Monad.update (\<lambda>s.
     s\<lparr>BobTxMap := (BobTxMap s)(bt_SessionID (bcur s) \<mapsto> bcur s)\<rparr>)"

definition bmark :: "string \<Rightarrow> (bob_st, unit) state" where
  "bmark st = do { set_bt (\<lambda>t. t\<lparr>bt_Status := st\<rparr>); bput_map }"

text \<open>Leave the handler at step \<open>n\<close>; some places do not write the map.\<close>

definition give_up :: "bool \<Rightarrow> string \<Rightarrow> char \<Rightarrow> bob" where
  "give_up inMap st n = do {
     set_bt (\<lambda>t. t\<lparr>bt_Status := st\<rparr>);
     (if inMap then bput_map else ret ());
     ret (Ok (step_failed n)) }"

definition must :: "(bob_st, 'a res) state \<Rightarrow> string \<Rightarrow> char \<Rightarrow> ('a \<Rightarrow> bob) \<Rightarrow> bob" where
  "must m st n k = check m (\<lambda>_. give_up True st n) k"

definition must_true :: "(bob_st, bool res) state \<Rightarrow> string \<Rightarrow> char \<Rightarrow> bob \<Rightarrow> bob" where
  "must_true m st n k = check m (\<lambda>_. give_up True st n) (\<lambda>rs. if \<not> rs then give_up True st n else k)"

definition succeed :: "string \<Rightarrow> bob" where
  "succeed st = do {
     bmark st;
     s \<leftarrow> State_Monad.get;
     ret (Ok (purchased (bt_SessionID (bcur s)))) }"

section \<open>Methods of the library sessions\<close>

definition bob_lib :: "ext \<Rightarrow> pod_pkg \<Rightarrow> lib_op \<Rightarrow> (bob_st, nat res) state" where
  "bob_lib E pkg lop = do {
     s \<leftarrow> State_Monad.get;
     ask_lib E pkg (BobSession (bt_PoD (bcur s) pkg)) lop }"

definition bob_bool :: "ext \<Rightarrow> pod_pkg \<Rightarrow> lib_op \<Rightarrow> (bob_st, bool res) state" where
  "bob_bool E pkg lop = check (bob_lib E pkg lop) (\<lambda>_. ret (Ok False)) (\<lambda>_. ret (Ok True))"

definition BobNewReq :: "ext \<Rightarrow> pod_pkg \<Rightarrow> string \<Rightarrow> (bob_st, unit res) state" where
  "BobNewReq E pkg requestFile =
     check (bob_lib E pkg (GetRequest requestFile)) (\<lambda>_. ret (Err ''Failed to create request file''))
       (\<lambda>_. ret (Ok ()))"

definition BobVerifyResp :: "ext \<Rightarrow> pod_pkg \<Rightarrow> string \<Rightarrow> string \<Rightarrow> (bob_st, bool res) state" where
  "BobVerifyResp E pkg responseFile receiptFile = bob_bool E pkg (OnResponse responseFile receiptFile)"

definition BobVerifySecret :: "ext \<Rightarrow> pod_pkg \<Rightarrow> string \<Rightarrow> (bob_st, bool res) state" where
  "BobVerifySecret E pkg secretFile = bob_bool E pkg (OnSecret secretFile)"

text \<open>\<open>BobVerifySecret\<close> of the two query packages.\<close>

definition BobVerifySecretQ :: "ext \<Rightarrow> pod_pkg \<Rightarrow> string \<Rightarrow> string \<Rightarrow> (bob_st, bool res) state" where
  "BobVerifySecretQ E pkg secretFile tablePosition = bob_bool E pkg (OnSecretTo secretFile tablePosition)"

definition BobGeneClaim :: "ext \<Rightarrow> pod_pkg \<Rightarrow> string \<Rightarrow> (bob_st, bool res) state" where
  "BobGeneClaim E pkg claimFile = bob_bool E pkg (GenerateClaim claimFile)"

definition BobDecrypt :: "ext \<Rightarrow> pod_pkg \<Rightarrow> string \<Rightarrow> (bob_st, bool res) state" where
  "BobDecrypt E pkg outFile = bob_bool E pkg (Decrypt outFile)"

definition BobGeneNegoReq :: "ext \<Rightarrow> pod_pkg \<Rightarrow> string \<Rightarrow> (bob_st, bool res) state" where
  "BobGeneNegoReq E pkg requestFile = bob_bool E pkg (GetNegoRequest requestFile)"

definition BobGeneNegoResp :: "ext \<Rightarrow> pod_pkg \<Rightarrow> string \<Rightarrow> string \<Rightarrow> (bob_st, bool res) state" where
  "BobGeneNegoResp E pkg requestFile responseFile = bob_bool E pkg (OnNegoRequest requestFile responseFile)"

definition BobDealNegoResp :: "ext \<Rightarrow> pod_pkg \<Rightarrow> string \<Rightarrow> (bob_st, bool res) state" where
  "BobDealNegoResp E pkg responseFile = bob_bool E pkg (OnNegoResponse responseFile)"

text \<open>A new session; the struct returned beside an error has no session.\<close>

definition new_session :: "ext \<Rightarrow> pod_pkg \<Rightarrow> lib_op \<Rightarrow> PoDBob \<Rightarrow> PoDBob \<Rightarrow>
    ('z world_scheme, PoDBob \<times> unit res) state" where
  "new_session E pkg lop filled failed = do {
     r \<leftarrow> ask_lib E pkg None lop;
     ret (case r of
        Ok h \<Rightarrow> (filled\<lparr>BobSession := Some h\<rparr>, Ok ())
      | Err _ \<Rightarrow> (failed, Err ''failed to create session for Bob'')
      | Panic \<Rightarrow> (failed, Panic)) }"

abbreviation demand_ranges :: "Demand gslice \<Rightarrow> (u64 \<times> u64) list" where
  "demand_ranges ds \<equiv> map (\<lambda>d. (DemandStart d, DemandCount d)) (elems ds)"

abbreviation phantom_ranges :: "PhantomRange gslice \<Rightarrow> (u64 \<times> u64) list" where
  "phantom_ranges ps \<equiv> map (\<lambda>p. (PhantomStart p, PhantomCount p)) (elems ps)"

text \<open>\<open>BobNewSessForPC\<close>, and for PAS, PASVC, TC, TAS and TASVC.\<close>

definition BobNewSess :: "ext \<Rightarrow> pod_pkg \<Rightarrow> Demand gslice \<Rightarrow> string \<Rightarrow> string \<Rightarrow> bytes \<Rightarrow> bytes \<Rightarrow>
    ('z world_scheme, PoDBob \<times> unit res) state" where
  "BobNewSess E pkg demands bulletin publicPath aliceID bobID = (let pc = zero_PoDBob\<lparr>Demands := demands\<rparr> in
     new_session E pkg (NewBobSession bulletin publicPath aliceID bobID (Ranges (demand_ranges demands))) pc pc)"

text \<open>\<open>BobNewSessForPOC\<close>, and for TOC.\<close>

definition BobNewSessOT :: "ext \<Rightarrow> pod_pkg \<Rightarrow> Demand gslice \<Rightarrow> PhantomRange gslice \<Rightarrow> string \<Rightarrow> string \<Rightarrow>
    bytes \<Rightarrow> bytes \<Rightarrow> ('z world_scheme, PoDBob \<times> unit res) state" where
  "BobNewSessOT E pkg demands phantoms bulletin publicPath aliceID bobID =
     (let poc = zero_PoDBob\<lparr>Demands := demands, Phantoms := phantoms\<rparr> in
      new_session E pkg (NewBobSession bulletin publicPath aliceID bobID
        (OTRanges (demand_ranges demands) (phantom_ranges phantoms))) poc poc)"

definition BobNewSessForTQ :: "ext \<Rightarrow> string \<Rightarrow> string gslice \<Rightarrow> string \<Rightarrow> string \<Rightarrow> bytes \<Rightarrow> bytes \<Rightarrow>
    ('z world_scheme, PoDBob \<times> unit res) state" where
  "BobNewSessForTQ E keyName keyValue bulletin publicPath aliceID bobID =
     new_session E TQ (NewBobSession bulletin publicPath aliceID bobID (Keys keyName (elems keyValue)))
       (zero_PoDBob\<lparr>KeyName := keyName, KeyValue := keyValue\<rparr>) zero_PoDBob"

definition BobNewSessForTOQ :: "ext \<Rightarrow> string \<Rightarrow> string gslice \<Rightarrow> string gslice \<Rightarrow> string \<Rightarrow> string \<Rightarrow>
    bytes \<Rightarrow> bytes \<Rightarrow> ('z world_scheme, PoDBob \<times> unit res) state" where
  "BobNewSessForTOQ E keyName keyValue phantomKeyValue bulletin publicPath aliceID bobID =
     new_session E TOQ (NewBobSession bulletin publicPath aliceID bobID
         (OTKeys keyName (elems keyValue) (elems phantomKeyValue)))
       (zero_PoDBob\<lparr>KeyName := keyName, KeyValue := keyValue, PhantomKeyValue := phantomKeyValue\<rparr>) zero_PoDBob"

section \<open>Steps of the handlers\<close>

text \<open>The first deferred function: update the database, then drop the transaction from the map.\<close>

definition finish_purchase :: "ext \<Rightarrow> (bob_st, unit) state" where
  "finish_purchase E = do {
     s \<leftarrow> State_Monad.get;
     r \<leftarrow> updateBobTxToDB E (bcur s);
     (case r of
        Ok _ \<Rightarrow> State_Monad.update (\<lambda>s. s\<lparr>BobTxMap := (BobTxMap s)(bt_SessionID (bcur s) := None)\<rparr>)
      | _ \<Rightarrow> ret ()) }"

text \<open>The second deferred function.\<close>

definition free_session :: "ext \<Rightarrow> pod_pkg \<Rightarrow> (bob_st, unit) state" where
  "free_session E pkg = do { bob_lib E pkg FreeSession; ret () }"

definition start_session :: "ext \<Rightarrow> pod_pkg \<Rightarrow> (bob_st, PoDBob \<times> unit res) state \<Rightarrow> bool \<Rightarrow> bob \<Rightarrow> bob" where
  "start_session E pkg newSess inMap k = do {
     (p, r) \<leftarrow> newSess;
     (case r of
        Panic \<Rightarrow> ret Panic
      | Err _ \<Rightarrow> do {
          set_bt (\<lambda>t. t\<lparr>bt_PoD := (bt_PoD t)(pkg := p)\<rparr>);
          give_up inMap TRANSACTION_STATUS_START_FAILED (CHR ''1'') }
      | Ok _ \<Rightarrow> do {
          set_bt (\<lambda>t. t\<lparr>bt_PoD := (bt_PoD t)(pkg := p)\<rparr>);
          deferring (free_session E pkg) k }) }"

definition bob_negotiate :: "ext \<Rightarrow> pod_pkg \<Rightarrow> string \<Rightarrow> bob \<Rightarrow> bob" where
  "bob_negotiate E pkg dir k = (let st = TRANSACTION_STATUS_NEGO_FAILED; n = CHR ''2'' in
     must_true (BobGeneNegoReq E pkg (dir @ ''/Bob_nego_request'')) st n
     (must (BobSendNegoReq E (dir @ ''/Bob_nego_request'')) st n (\<lambda>_.
     must (BobRcvNegoResp E (dir @ ''/Alice_nego_response'') (dir @ ''/Alice_nego_request'')) st n (\<lambda>_.
     must_true (BobDealNegoResp E pkg (dir @ ''/Alice_nego_response'')) st n
     (must_true (BobGeneNegoResp E pkg (dir @ ''/Alice_nego_request'') (dir @ ''/Bob_nego_response'')) st n
     (must (BobSendNegoResp E (dir @ ''/Bob_nego_response'')) st n (\<lambda>_.
     do { bmark TRANSACTION_STATUS_NEGO; k })))))))"

text \<open>
  \<open>st1\<close> and \<open>st2\<close> are the statuses of the two failures; \<open>noted\<close> says whether the status is
  written when the request is sent, which only \<open>BobTxForTC\<close> leaves out.
\<close>

definition send_request :: "ext \<Rightarrow> pod_pkg \<Rightarrow> string \<Rightarrow> char \<Rightarrow> string \<Rightarrow> string \<Rightarrow> bool \<Rightarrow> bob \<Rightarrow> bob" where
  "send_request E pkg dir n st1 st2 noted k =
     must (BobNewReq E pkg (dir @ ''/request'')) st1 n (\<lambda>_.
     must (BobSendPODReq E (dir @ ''/request'')) st2 n (\<lambda>_.
     if noted then do { bmark TRANSACTION_STATUS_RECEIVED_REQUEST; k } else k))"

definition receive_response :: "ext \<Rightarrow> pod_pkg \<Rightarrow> string \<Rightarrow> char \<Rightarrow> bool \<Rightarrow> bob \<Rightarrow> bob" where
  "receive_response E pkg dir n inMap k =
     check (BobRcvPODResp E (dir @ ''/response''))
       (\<lambda>_. give_up inMap TRANSACTION_STATUS_SEND_RESPONSE_FAILED n) (\<lambda>_.
     must_true (BobVerifyResp E pkg (dir @ ''/response'') (dir @ ''/receipt''))
       TRANSACTION_STATUS_SEND_RESPONSE_FAILED n
     (do { bmark TRANSACTION_STATUS_RECEIVED_RESPONSE; k }))"

definition send_receipt :: "ext \<Rightarrow> string \<Rightarrow> char \<Rightarrow> (string \<Rightarrow> (bob_st, (bytes \<times> 'r) res) state) \<Rightarrow>
    (BobTransaction \<Rightarrow> 'r \<Rightarrow> bytes res) \<Rightarrow> bob \<Rightarrow> bob" where
  "send_receipt E dir n readReceipt sign k = (let st = TRANSACTION_STATUS_RECEIVED_RECEIPT_FAILED in
     must (readReceipt (dir @ ''/receipt'')) st n (\<lambda>(receiptByte, receipt). do {
     set_bt (\<lambda>t. t\<lparr>bt_Price := bt_UnitPrice t * bt_Count t\<rparr>);
     now \<leftarrow> ask CNow (Now E);
     set_bt (\<lambda>t. t\<lparr>bt_ExpireAt := now + 36000\<rparr>);
     s \<leftarrow> State_Monad.get;
     must (ret (sign (bcur s) receipt)) st n (\<lambda>sig.
     must (BobSendPODRecpt E (bt_Price (bcur s)) (bt_ExpireAt (bcur s)) receiptByte sig) st n (\<lambda>_. do {
     bmark TRANSACTION_STATUS_RECEIPT;
     k })) }))"

definition fetch_secret :: "string \<Rightarrow> char \<Rightarrow> (string \<Rightarrow> string \<Rightarrow> string \<Rightarrow> (bob_st, 'x res) state) \<Rightarrow>
    ('x \<Rightarrow> string \<Rightarrow> (bob_st, unit res) state) \<Rightarrow> string \<Rightarrow> string \<Rightarrow> bob \<Rightarrow> bob" where
  "fetch_secret dir n readScrt saveSecret st1 st2 k = do {
     s \<leftarrow> State_Monad.get;
     must (readScrt (bt_SessionID (bcur s)) (bt_AliceAddr (bcur s)) (bt_BobAddr (bcur s))) st1 n (\<lambda>secret.
     must (saveSecret secret (dir @ ''/secret'')) st2 n (\<lambda>_. k)) }"

text \<open>
  The secret is verified; the status says that it was got before (\<open>early\<close>) or after that.
\<close>

definition verify_secret :: "(bob_st, bool res) state \<Rightarrow> bool \<Rightarrow> bob \<Rightarrow> bob \<Rightarrow> bob" where
  "verify_secret verify early wrong right = do {
     (if early then bmark TRANSACTION_STATUS_GOT_SECRET else ret ());
     check verify (\<lambda>_. wrong) (\<lambda>rs. do {
     (if early then ret () else bmark TRANSACTION_STATUS_GOT_SECRET);
     (if \<not> rs then wrong else right) }) }"

definition decrypt :: "ext \<Rightarrow> pod_pkg \<Rightarrow> string \<Rightarrow> char \<Rightarrow> bob" where
  "decrypt E pkg dir n =
     must_true (BobDecrypt E pkg (dir @ ''/output'')) TRANSACTION_STATUS_DECRYPT_FAILED n
       (succeed TRANSACTION_STATUS_CLOSED)"

text \<open>A purchase that ends in a claim is answered like one that ends with the data.\<close>

definition claim :: "ext \<Rightarrow> pod_pkg \<Rightarrow> string \<Rightarrow> char \<Rightarrow> bob" where
  "claim E pkg dir n = do {
     bmark TRANSACTION_STATUS_VERIFY_FAILED;
     must_true (BobGeneClaim E pkg (dir @ ''/claim'')) TRANSACTION_STATUS_SEND_CLIAM_FAILED n (do {
     s \<leftarrow> State_Monad.get;
     must (claimToContractForComplaint E (bt_SessionID (bcur s)) (bt_Bulletin (bcur s)) (dir @ ''/claim'')
         (bt_AliceAddr (bcur s))) TRANSACTION_STATUS_SEND_CLIAM_FAILED n (\<lambda>_.
     succeed TRANSACTION_STATUS_SEND_CLIAM) }) }"

definition complaint_end :: "ext \<Rightarrow> pod_pkg \<Rightarrow> string \<Rightarrow> char \<Rightarrow> bool \<Rightarrow> bob" where
  "complaint_end E pkg dir n early =
     verify_secret (BobVerifySecret E pkg (dir @ ''/secret'')) early (claim E pkg dir n) (decrypt E pkg dir n)"

definition query_end :: "ext \<Rightarrow> pod_pkg \<Rightarrow> string \<Rightarrow> char \<Rightarrow> bob" where
  "query_end E pkg dir n =
     verify_secret (BobVerifySecretQ E pkg (dir @ ''/secret'') (dir @ ''/positions'')) True
       (give_up True TRANSACTION_STATUS_VERIFY_FAILED n) (succeed TRANSACTION_STATUS_CLOSED)"

section \<open>The ten handlers\<close>

definition bobDir :: "BasicConfig \<Rightarrow> BobTransaction \<Rightarrow> string" where
  "bobDir B tx = BobDir B @ ''/transaction/'' @ bt_SessionID tx"

text \<open>The transaction's fields that the four signing functions are called with.\<close>

definition sign_complaint :: "ext \<Rightarrow> Key \<Rightarrow> BobTransaction \<Rightarrow> ComplaintReceipt \<Rightarrow> bytes res" where
  "sign_complaint E key t receipt = signRecptForComplaint E key (bt_AliceAddr t) (bt_SessionID t) receipt
     (bt_Price t) (bt_ExpireAt t) (bt_Bulletin t)"

definition sign_swap :: "ext \<Rightarrow> Key \<Rightarrow> BobTransaction \<Rightarrow> AtomicSwapReceipt \<Rightarrow> bytes res" where
  "sign_swap E key t receipt = signRecptForAtomicSwap E key (bt_AliceAddr t) (bt_SessionID t) receipt
     (bt_Price t) (bt_ExpireAt t)"

definition sign_swap_vc :: "ext \<Rightarrow> Key \<Rightarrow> BobTransaction \<Rightarrow> AtomicSwapVcReceipt \<Rightarrow> bytes res" where
  "sign_swap_vc E key t receipt = signRecptForAtomicSwapVc E key (bt_AliceAddr t) (bt_SessionID t) receipt
     (bt_Price t) (bt_ExpireAt t)"

definition sign_query :: "ext \<Rightarrow> Key \<Rightarrow> BobTransaction \<Rightarrow> VRFReceipt \<Rightarrow> bytes res" where
  "sign_query E key t receipt = signRecptForVRFQ E key (bt_AliceAddr t) (bt_SessionID t) receipt
     (bt_Price t) (bt_ExpireAt t)"

definition BobTxForPC :: "ext \<Rightarrow> BasicConfig \<Rightarrow> Key \<Rightarrow> BobTransaction \<Rightarrow> Demand gslice \<Rightarrow> string \<Rightarrow> string \<Rightarrow>
    (world, string res) state" where
  "BobTxForPC E B key tx demands bulletinFile publicPath = (let dir = bobDir B tx in
     with_purchase tx (deferring (finish_purchase E) (
     start_session E PC (BobNewSess E PC demands bulletinFile publicPath
         (converAddr (bt_AliceAddr tx)) (converAddr (bt_BobAddr tx))) True
     (send_request E PC dir (CHR ''2'') TRANSACTION_STATUS_INVALID_REQUEST
       TRANSACTION_STATUS_RECEIVED_REQUEST_FAILED True
     (receive_response E PC dir (CHR ''3'') True
     (send_receipt E dir (CHR ''4'') (readReceiptForComplaint E) (sign_complaint E key)
     (fetch_secret dir (CHR ''5'') (readScrtForComplaint E) (BobSaveSecretForComplaint E)
       TRANSACTION_STATUS_GOT_SECRET_FAILED TRANSACTION_STATUS_GOT_SECRET_FAILED
     (complaint_end E PC dir (CHR ''6'') True))))))))"

definition BobTxForPOC :: "ext \<Rightarrow> BasicConfig \<Rightarrow> Key \<Rightarrow> BobTransaction \<Rightarrow> Demand gslice \<Rightarrow> PhantomRange gslice \<Rightarrow> string \<Rightarrow> string \<Rightarrow>
    (world, string res) state" where
  "BobTxForPOC E B key tx demands phantoms bulletinFile publicPath = (let dir = bobDir B tx in
     with_purchase tx (deferring (finish_purchase E) (
     start_session E POC (BobNewSessOT E POC demands phantoms bulletinFile publicPath
         (converAddr (bt_AliceAddr tx)) (converAddr (bt_BobAddr tx))) True
     (bob_negotiate E POC dir
     (send_request E POC dir (CHR ''3'') TRANSACTION_STATUS_INVALID_REQUEST
       TRANSACTION_STATUS_RECEIVED_REQUEST_FAILED True
     (receive_response E POC dir (CHR ''4'') True
     (send_receipt E dir (CHR ''5'') (readReceiptForComplaint E) (sign_complaint E key)
     (fetch_secret dir (CHR ''6'') (readScrtForComplaint E) (BobSaveSecretForComplaint E)
       TRANSACTION_STATUS_GOT_SECRET_FAILED TRANSACTION_STATUS_GOT_SECRET_FAILED
     (complaint_end E POC dir (CHR ''7'') False)))))))))"

definition BobTxForPAS :: "ext \<Rightarrow> BasicConfig \<Rightarrow> Key \<Rightarrow> BobTransaction \<Rightarrow> Demand gslice \<Rightarrow> string \<Rightarrow> string \<Rightarrow>
    (world, string res) state" where
  "BobTxForPAS E B key tx demands bulletinFile publicPath = (let dir = bobDir B tx in
     with_purchase tx (deferring (finish_purchase E) (
     start_session E PAS (BobNewSess E PAS demands bulletinFile publicPath
         (converAddr (bt_AliceAddr tx)) (converAddr (bt_BobAddr tx))) False
     (send_request E PAS dir (CHR ''2'') TRANSACTION_STATUS_INVALID_REQUEST
       TRANSACTION_STATUS_RECEIVED_REQUEST_FAILED True
     (receive_response E PAS dir (CHR ''3'') True
     (send_receipt E dir (CHR ''4'') (readReceiptForAtomicSwap E) (sign_swap E key)
     (fetch_secret dir (CHR ''5'') (readScrtForAtomicSwap E) (BobSaveSecretForAtomicSwap E)
       TRANSACTION_STATUS_SEND_SECRET_FAILED TRANSACTION_STATUS_SEND_SECRET_FAILED
     (verify_secret (BobVerifySecret E PAS (dir @ ''/secret'')) False
       (give_up False TRANSACTION_STATUS_VERIFY_FAILED (CHR ''1'')) (decrypt E PAS dir (CHR ''6''))))))))))"

definition BobTxForPASVC :: "ext \<Rightarrow> BasicConfig \<Rightarrow> Key \<Rightarrow> BobTransaction \<Rightarrow> Demand gslice \<Rightarrow> string \<Rightarrow> string \<Rightarrow>
    (world, string res) state" where
  "BobTxForPASVC E B key tx demands bulletinFile publicPath = (let dir = bobDir B tx in
     with_purchase tx (deferring (finish_purchase E) (
     start_session E PASVC (BobNewSess E PASVC demands bulletinFile publicPath
         (converAddr (bt_AliceAddr tx)) (converAddr (bt_BobAddr tx))) False
     (send_request E PASVC dir (CHR ''2'') TRANSACTION_STATUS_INVALID_REQUEST
       TRANSACTION_STATUS_RECEIVED_REQUEST_FAILED True
     (receive_response E PASVC dir (CHR ''3'') True
     (send_receipt E dir (CHR ''4'') (readReceiptForAtomicSwapVc E) (sign_swap_vc E key)
     (fetch_secret dir (CHR ''5'') (readScrtForAtomicSwapVc E) (BobSaveSecretForAtomicSwapVc E)
       TRANSACTION_STATUS_SEND_SECRET_FAILED TRANSACTION_STATUS_SEND_SECRET_FAILED
     (verify_secret (BobVerifySecret E PASVC (dir @ ''/secret'')) False
       (give_up False TRANSACTION_STATUS_VERIFY_FAILED (CHR ''1'')) (decrypt E PASVC dir (CHR ''6''))))))))))"

definition BobTxForTC :: "ext \<Rightarrow> BasicConfig \<Rightarrow> Key \<Rightarrow> BobTransaction \<Rightarrow> Demand gslice \<Rightarrow> string \<Rightarrow> string \<Rightarrow>
    (world, string res) state" where
  "BobTxForTC E B key tx demands bulletinFile publicPath = (let dir = bobDir B tx in
     with_purchase tx (deferring (finish_purchase E) (
     start_session E TC (BobNewSess E TC demands bulletinFile publicPath
         (converAddr (bt_AliceAddr tx)) (converAddr (bt_BobAddr tx))) True
     (send_request E TC dir (CHR ''2'') TRANSACTION_STATUS_INVALID_REQUEST
       TRANSACTION_STATUS_RECEIVED_REQUEST_FAILED False
     (receive_response E TC dir (CHR ''3'') True
     (send_receipt E dir (CHR ''4'') (readReceiptForComplaint E) (sign_complaint E key)
     (fetch_secret dir (CHR ''5'') (readScrtForComplaint E) (BobSaveSecretForComplaint E)
       TRANSACTION_STATUS_GOT_SECRET_FAILED TRANSACTION_STATUS_GOT_SECRET_FAILED
     (complaint_end E TC dir (CHR ''6'') True))))))))"

definition BobTxForTOC :: "ext \<Rightarrow> BasicConfig \<Rightarrow> Key \<Rightarrow> BobTransaction \<Rightarrow> Demand gslice \<Rightarrow> PhantomRange gslice \<Rightarrow> string \<Rightarrow> string \<Rightarrow>
    (world, string res) state" where
  "BobTxForTOC E B key tx demands phantoms bulletinFile publicPath = (let dir = bobDir B tx in
     with_purchase tx (deferring (finish_purchase E) (
     start_session E TOC (BobNewSessOT E TOC demands phantoms bulletinFile publicPath
         (converAddr (bt_AliceAddr tx)) (converAddr (bt_BobAddr tx))) True
     (bob_negotiate E TOC dir
     (send_request E TOC dir (CHR ''3'') TRANSACTION_STATUS_INVALID_REQUEST
       TRANSACTION_STATUS_RECEIVED_REQUEST_FAILED True
     (receive_response E TOC dir (CHR ''4'') True
     (send_receipt E dir (CHR ''5'') (readReceiptForComplaint E) (sign_complaint E key)
     (fetch_secret dir (CHR ''6'') (readScrtForComplaint E) (BobSaveSecretForComplaint E)
       TRANSACTION_STATUS_SEND_SECRET_FAILED TRANSACTION_STATUS_SEND_SECRET_FAILED
     (complaint_end E TOC dir (CHR ''7'') True)))))))))"

definition BobTxForTAS :: "ext \<Rightarrow> BasicConfig \<Rightarrow> Key \<Rightarrow> BobTransaction \<Rightarrow> Demand gslice \<Rightarrow> string \<Rightarrow> string \<Rightarrow>
    (world, string res) state" where
  "BobTxForTAS E B key tx demands bulletinFile publicPath = (let dir = bobDir B tx in
     with_purchase tx (deferring (finish_purchase E) (
     start_session E TAS (BobNewSess E TAS demands bulletinFile publicPath
         (converAddr (bt_AliceAddr tx)) (converAddr (bt_BobAddr tx))) True
     (send_request E TAS dir (CHR ''2'') TRANSACTION_STATUS_INVALID_REQUEST
       TRANSACTION_STATUS_RECEIVED_REQUEST_FAILED True
     (receive_response E TAS dir (CHR ''3'') False
     (send_receipt E dir (CHR ''4'') (readReceiptForAtomicSwap E) (sign_swap E key)
     (fetch_secret dir (CHR ''5'') (readScrtForAtomicSwap E) (BobSaveSecretForAtomicSwap E)
       TRANSACTION_STATUS_GOT_SECRET_FAILED TRANSACTION_STATUS_SEND_SECRET_FAILED
     (verify_secret (BobVerifySecret E TAS (dir @ ''/secret'')) True
       (give_up True TRANSACTION_STATUS_VERIFY_FAILED (CHR ''6'')) (decrypt E TAS dir (CHR ''6''))))))))))"

definition BobTxForTASVC :: "ext \<Rightarrow> BasicConfig \<Rightarrow> Key \<Rightarrow> BobTransaction \<Rightarrow> Demand gslice \<Rightarrow> string \<Rightarrow> string \<Rightarrow>
    (world, string res) state" where
  "BobTxForTASVC E B key tx demands bulletinFile publicPath = (let dir = bobDir B tx in
     with_purchase tx (deferring (finish_purchase E) (
     start_session E TASVC (BobNewSess E TASVC demands bulletinFile publicPath
         (converAddr (bt_AliceAddr tx)) (converAddr (bt_BobAddr tx))) True
     (send_request E TASVC dir (CHR ''2'') TRANSACTION_STATUS_INVALID_REQUEST
       TRANSACTION_STATUS_RECEIVED_REQUEST_FAILED True
     (receive_response E TASVC dir (CHR ''3'') False
     (send_receipt E dir (CHR ''4'') (readReceiptForAtomicSwapVc E) (sign_swap_vc E key)
     (fetch_secret dir (CHR ''5'') (readScrtForAtomicSwapVc E) (BobSaveSecretForAtomicSwapVc E)
       TRANSACTION_STATUS_GOT_SECRET_FAILED TRANSACTION_STATUS_SEND_SECRET_FAILED
     (verify_secret (BobVerifySecret E TASVC (dir @ ''/secret'')) True
       (give_up True TRANSACTION_STATUS_VERIFY_FAILED (CHR ''6'')) (decrypt E TASVC dir (CHR ''6''))))))))))"

definition BobTxForTQ :: "ext \<Rightarrow> BasicConfig \<Rightarrow> Key \<Rightarrow> BobTransaction \<Rightarrow> string \<Rightarrow> string gslice \<Rightarrow> string \<Rightarrow> string \<Rightarrow>
    (world, string res) state" where
  "BobTxForTQ E B key tx keyName keyValue bulletinFile publicPath = (let dir = bobDir B tx in
     with_purchase tx (deferring (finish_purchase E) (
     start_session E TQ (BobNewSessForTQ E keyName keyValue bulletinFile publicPath
         (converAddr (bt_AliceAddr tx)) (converAddr (bt_BobAddr tx))) True
     (send_request E TQ dir (CHR ''2'') TRANSACTION_STATUS_INVALID_REQUEST
       TRANSACTION_STATUS_INVALID_REQUEST True
     (receive_response E TQ dir (CHR ''3'') True
     (send_receipt E dir (CHR ''4'') (readVRFReceipt E) (sign_query E key)
     (fetch_secret dir (CHR ''5'') (readScrtForVRFQ E) (BobSaveSecretForVRFQ E)
       TRANSACTION_STATUS_GOT_SECRET_FAILED TRANSACTION_STATUS_GOT_SECRET_FAILED
     (query_end E TQ dir (CHR ''6'')))))))))"

definition BobTxForTOQ :: "ext \<Rightarrow> BasicConfig \<Rightarrow> Key \<Rightarrow> BobTransaction \<Rightarrow> string \<Rightarrow> string gslice \<Rightarrow> string gslice \<Rightarrow> string \<Rightarrow> string \<Rightarrow>
    (world, string res) state" where
  "BobTxForTOQ E B key tx keyName keyValue phantomKeyValue bulletinFile publicPath = (let dir = bobDir B tx in
     with_purchase tx (deferring (finish_purchase E) (
     start_session E TOQ (BobNewSessForTOQ E keyName keyValue phantomKeyValue bulletinFile publicPath
         (converAddr (bt_AliceAddr tx)) (converAddr (bt_BobAddr tx))) True
     (bob_negotiate E TOQ dir
     (send_request E TOQ dir (CHR ''3'') TRANSACTION_STATUS_RECEIVED_REQUEST_FAILED
       TRANSACTION_STATUS_RECEIVED_REQUEST_FAILED True
     (receive_response E TOQ dir (CHR ''4'') True
     (send_receipt E dir (CHR ''5'') (readVRFReceipt E) (sign_query E key)
     (fetch_secret dir (CHR ''6'') (readScrtForVRFQ E) (BobSaveSecretForVRFQ E)
       TRANSACTION_STATUS_GOT_SECRET_FAILED TRANSACTION_STATUS_GOT_SECRET_FAILED
     (query_end E TOQ dir (CHR ''7''))))))))))"

lemmas purchase_defs = BobTxForPC_def
  BobTxForPOC_def
  BobTxForPAS_def
  BobTxForPASVC_def
  BobTxForTC_def
  BobTxForTOC_def
  BobTxForTAS_def
  BobTxForTASVC_def
  BobTxForTQ_def
  BobTxForTOQ_def

text \<open>What a purchase request carries for the handlers.\<close>

record request =
  rq_Demands :: "Demand gslice"
  rq_Phantoms :: "PhantomRange gslice"
  rq_KeyName :: string
  rq_KeyValue :: "string gslice"
  rq_PhantomKeyValue :: "string gslice"

primrec BobTxFor :: "pod_pkg \<Rightarrow> ext \<Rightarrow> BasicConfig \<Rightarrow> Key \<Rightarrow> BobTransaction \<Rightarrow> request \<Rightarrow> string \<Rightarrow> string \<Rightarrow>
    (world, string res) state" where
  "BobTxFor PC E B key tx q bf pp = BobTxForPC E B key tx (rq_Demands q) bf pp"
| "BobTxFor POC E B key tx q bf pp = BobTxForPOC E B key tx (rq_Demands q) (rq_Phantoms q) bf pp"
| "BobTxFor PAS E B key tx q bf pp = BobTxForPAS E B key tx (rq_Demands q) bf pp"
| "BobTxFor PASVC E B key tx q bf pp = BobTxForPASVC E B key tx (rq_Demands q) bf pp"
| "BobTxFor TC E B key tx q bf pp = BobTxForTC E B key tx (rq_Demands q) bf pp"
| "BobTxFor TOC E B key tx q bf pp = BobTxForTOC E B key tx (rq_Demands q) (rq_Phantoms q) bf pp"
| "BobTxFor TAS E B key tx q bf pp = BobTxForTAS E B key tx (rq_Demands q) bf pp"
| "BobTxFor TASVC E B key tx q bf pp = BobTxForTASVC E B key tx (rq_Demands q) bf pp"
| "BobTxFor TQ E B key tx q bf pp = BobTxForTQ E B key tx (rq_KeyName q) (rq_KeyValue q) bf pp"
| "BobTxFor TOQ E B key tx q bf pp = BobTxForTOQ E B key tx (rq_KeyName q) (rq_KeyValue q) (rq_PhantomKeyValue q) bf pp"

end
