(* ===== verification/Seller.thy ===== *)
theory Seller
  imports Connection Database Status
begin

text \<open>
  The seller's transactions of \<^verbatim>\<open>seller_tx.go\<close>, one handler for each mode, and the handling of an
  accepted connection from \<^verbatim>\<open>connection.go\<close>. The handlers share their steps almost word for
  word; a step that several of them have is one definition here, with the places where they
  differ as arguments. The local variable \<open>tx\<close> of a handler, which its deferred functions read
  when it returns, is a component of the state while the handler runs. Log output and the time
  measurements made only for it are left out.
\<close>

section \<open>The state of a handler\<close>

record alice_st = world +
  cur :: Transaction

type_synonym alice = "(alice_st, unit res) state"

definition with_tx :: "Transaction \<Rightarrow> alice \<Rightarrow> (world, unit res) state" where
  "with_tx t m = State (\<lambda>w. case run_state m (world.extend w (alice_st.fields t)) of
     (r, s) \<Rightarrow> (r, world.truncate s))"

definition set_tx :: "(Transaction \<Rightarrow> Transaction) \<Rightarrow> (alice_st, unit) state" where
  "set_tx f = State_Monad.update (\<lambda>s. s\<lparr>cur := f (cur s)\<rparr>)"

text \<open>\<open>AliceTxMap[tx.SessionID] = tx\<close>.\<close>

definition put_map :: "(alice_st, unit) state" where
  "put_map = State_Monad.update (\<lambda>s.
     s\<lparr>AliceTxMap := (AliceTxMap s)(tx_SessionID (cur s) \<mapsto> cur s)\<rparr>)"

text \<open>\<open>tx.Status = ...; AliceTxMap[tx.SessionID] = tx\<close>.\<close>

definition mark :: "string \<Rightarrow> (alice_st, unit) state" where
  "mark st = do { set_tx (\<lambda>t. t\<lparr>tx_Status := st\<rparr>); put_map }"

definition fail_tx :: "string \<Rightarrow> string \<Rightarrow> alice" where
  "fail_tx st msg = do { mark st; ret (Err msg) }"

text \<open>\<open>err = m; if err != nil { status, map, return }\<close>.\<close>

definition step_ok :: "(alice_st, 'a res) state \<Rightarrow> string \<Rightarrow> string \<Rightarrow> alice \<Rightarrow> alice" where
  "step_ok m st msg k = check m (\<lambda>_. fail_tx st msg) (\<lambda>_. k)"

text \<open>\<open>rs = m; if !rs { status, map, return }\<close>.\<close>

definition step_true :: "(alice_st, bool res) state \<Rightarrow> string \<Rightarrow> string \<Rightarrow> alice \<Rightarrow> alice" where
  "step_true m st msg k =
     check m (\<lambda>_. fail_tx st msg) (\<lambda>rs. if \<not> rs then fail_tx st msg else k)"

section \<open>Methods of the library sessions\<close>

text \<open>The wrappers of \<^verbatim>\<open>plain_complaint.go\<close> and its siblings turn an error into false.\<close>

definition lib_bool :: "ext \<Rightarrow> pod_pkg \<Rightarrow> lib_op \<Rightarrow> (alice_st, bool res) state" where
  "lib_bool E pkg lop = do {
     s \<leftarrow> State_Monad.get;
     check (ask_lib E pkg (tx_Session (cur s) pkg) lop) (\<lambda>_. ret (Ok False)) (\<lambda>_. ret (Ok True)) }"

definition AliceVerifyReq :: "ext \<Rightarrow> pod_pkg \<Rightarrow> string \<Rightarrow> string \<Rightarrow> (alice_st, bool res) state" where
  "AliceVerifyReq E pkg requestFile responseFile = lib_bool E pkg (OnRequest requestFile responseFile)"

definition AliceVerifyReceipt :: "ext \<Rightarrow> pod_pkg \<Rightarrow> string \<Rightarrow> string \<Rightarrow> (alice_st, bool res) state" where
  "AliceVerifyReceipt E pkg receiptFile secretFile = lib_bool E pkg (OnReceipt receiptFile secretFile)"

definition AliceGeneNegoReq :: "ext \<Rightarrow> pod_pkg \<Rightarrow> string \<Rightarrow> (alice_st, bool res) state" where
  "AliceGeneNegoReq E pkg requestFile = lib_bool E pkg (GetNegoRequest requestFile)"

definition AliceGeneNegoResp :: "ext \<Rightarrow> pod_pkg \<Rightarrow> string \<Rightarrow> string \<Rightarrow> (alice_st, bool res) state" where
  "AliceGeneNegoResp E pkg requestFile responseFile = lib_bool E pkg (OnNegoRequest requestFile responseFile)"

definition AliceDealNegoResp :: "ext \<Rightarrow> pod_pkg \<Rightarrow> string \<Rightarrow> (alice_st, bool res) state" where
  "AliceDealNegoResp E pkg responseFile = lib_bool E pkg (OnNegoResponse responseFile)"

text \<open>\<open>AliceNewSessForPC\<close> and its siblings.\<close>

definition AliceNewSess ::
  "ext \<Rightarrow> pod_pkg \<Rightarrow> string \<Rightarrow> bytes \<Rightarrow> bytes \<Rightarrow> ('z world_scheme, nat res) state" where
  "AliceNewSess E pkg publishPath aliceID bobID =
     check (pathExists E publishPath) (\<lambda>e. ret (Err e)) (\<lambda>rs.
     if \<not> rs then ret (Err ''the path does not exist'') else
     check (ask_lib E pkg None (NewAliceSession publishPath aliceID bobID))
       (\<lambda>_. ret (Err ''failed to create session for Alice'')) (\<lambda>h. ret (Ok h)))"

section \<open>Steps of the handlers\<close>

text \<open>The first deferred function: update the database, then drop the transaction from the map.\<close>

definition finish :: "ext \<Rightarrow> (alice_st, unit) state" where
  "finish E = do {
     s \<leftarrow> State_Monad.get;
     r \<leftarrow> updateAliceTxToDB E (cur s);
     (case r of
        Ok _ \<Rightarrow> State_Monad.update (\<lambda>s. s\<lparr>AliceTxMap := (AliceTxMap s)(tx_SessionID (cur s) := None)\<rparr>)
      | _ \<Rightarrow> ret ()) }"

definition receive_request :: "ext \<Rightarrow> string \<Rightarrow> alice \<Rightarrow> alice" where
  "receive_request E requestFile k =
     step_ok (AliceRcvPODReq E requestFile) TRANSACTION_STATUS_RECEIVED_REQUEST_FAILED
       ''failed to receive transaction request''
       (do { mark TRANSACTION_STATUS_RECEIVED_REQUEST; k })"

text \<open>The count is assigned also when counting fails; it is 0 then.\<close>

definition count_request :: "(alice_st, int64 res) state \<Rightarrow> alice \<Rightarrow> alice" where
  "count_request m k = do {
     r \<leftarrow> m;
     (case r of
        Ok c \<Rightarrow> do {
          set_tx (\<lambda>t. t\<lparr>tx_Count := c\<rparr>);
          put_map;
          set_tx (\<lambda>t. t\<lparr>tx_Price := tx_Count t * tx_UnitPrice t\<rparr>);
          k }
      | Err _ \<Rightarrow> do {
          set_tx (\<lambda>t. t\<lparr>tx_Count := 0\<rparr>);
          ret (Err ''invalid request file or response file'') }
      | Panic \<Rightarrow> ret Panic) }"

text \<open>The second deferred function.\<close>

definition unlock :: "(alice_st, unit) state" where
  "unlock = State_Monad.update (\<lambda>s. let k = tx_AliceAddr (cur s) @ tx_BobAddr (cur s) in
     s\<lparr>DepositLockMap := (DepositLockMap s)(k := DepositLockMap s k - tx_Price (cur s))\<rparr>)"

definition lock_deposit :: "ext \<Rightarrow> alice \<Rightarrow> alice" where
  "lock_deposit E k = do {
     s \<leftarrow> State_Monad.get;
     check (calcuDeposit E (tx_AliceAddr (cur s)) (tx_BobAddr (cur s)) (tx_Price (cur s)))
       (\<lambda>_. fail_tx TRANSACTION_STATUS_RECEIVED_DEPOSIT_NOT_ENOUGH ''failed to verify deposit eth'')
       (\<lambda>rs. if \<not> rs
         then fail_tx TRANSACTION_STATUS_RECEIVED_DEPOSIT_NOT_ENOUGH ''no enough deposit eth''
         else deferring unlock k) }"

text \<open>\<open>st\<close> is the status after it; only the VRF handlers also write it to the map.\<close>

definition verify_request :: "ext \<Rightarrow> pod_pkg \<Rightarrow> string \<Rightarrow> string \<Rightarrow> string \<Rightarrow> string \<Rightarrow> bool \<Rightarrow> alice \<Rightarrow> alice" where
  "verify_request E pkg requestFile responseFile msg st inMap k =
     step_true (AliceVerifyReq E pkg requestFile responseFile) TRANSACTION_STATUS_INVALID_REQUEST msg
       (do { set_tx (\<lambda>t. t\<lparr>tx_Status := st\<rparr>); (if inMap then put_map else ret ()); k })"

definition send_response :: "ext \<Rightarrow> string \<Rightarrow> alice \<Rightarrow> alice" where
  "send_response E responseFile k =
     step_ok (AliceSendPODResp E responseFile) TRANSACTION_STATUS_SEND_RESPONSE_FAILED
       ''failed to send transaction response''
       (do { mark TRANSACTION_STATUS_RECEIVED_RESPONSE; k })"

definition receive_receipt :: "ext \<Rightarrow> string \<Rightarrow> string \<Rightarrow> string \<Rightarrow> (bytes \<Rightarrow> alice) \<Rightarrow> alice" where
  "receive_receipt E receiptFile msg st k = do {
     (v, r) \<leftarrow> AliceRcvPODRecpt E receiptFile;
     (case v of (sign, price, expireAt) \<Rightarrow> (case r of
        Panic \<Rightarrow> ret Panic
      | Err _ \<Rightarrow> do {
          set_tx (\<lambda>t. t\<lparr>tx_ExpireAt := expireAt\<rparr>);
          fail_tx TRANSACTION_STATUS_RECEIVED_RECEIPT_FAILED msg }
      | Ok _ \<Rightarrow> do {
          set_tx (\<lambda>t. t\<lparr>tx_ExpireAt := expireAt\<rparr>);
          mark st;
          s \<leftarrow> State_Monad.get;
          if price \<noteq> tx_Price (cur s)
          then fail_tx TRANSACTION_STATUS_RECEIVED_RECEIPT_FAILED ''invalid price in signature''
          else k sign })) }"

definition verify_receipt :: "ext \<Rightarrow> pod_pkg \<Rightarrow> string \<Rightarrow> string \<Rightarrow> string \<Rightarrow> string \<Rightarrow> alice \<Rightarrow> alice" where
  "verify_receipt E pkg receiptFile secretFile failed st k =
     step_true (AliceVerifyReceipt E pkg receiptFile secretFile) failed
       ''invalid receipt file or secret file'' (do { mark st; k })"

definition check_expiry :: "ext \<Rightarrow> alice \<Rightarrow> alice" where
  "check_expiry E k = do {
     now \<leftarrow> ask CNow (Now E);
     s \<leftarrow> State_Monad.get;
     if sint (now + 600) > sint (tx_ExpireAt (cur s))
     then fail_tx TRANSACTION_STATUS_SEND_SECRET_TERMINATED ''the receipt signature timeout''
     else k }"

text \<open>Only the error of \<open>checkDeposit\<close> is looked at, not its answer.\<close>

definition recheck_deposit :: "ext \<Rightarrow> alice \<Rightarrow> alice" where
  "recheck_deposit E k = do {
     s \<leftarrow> State_Monad.get;
     step_ok (checkDeposit E (tx_AliceAddr (cur s)) (tx_BobAddr (cur s)) (tx_Price (cur s)))
       TRANSACTION_STATUS_SEND_SECRET_TERMINATED ''deposit is not enough or expired'' k }"

definition submit_secret :: "(Transaction \<Rightarrow> (alice_st, string res) state) \<Rightarrow>
    (string \<Rightarrow> string \<Rightarrow> string \<Rightarrow> (alice_st, 'a res) state) \<Rightarrow> alice" where
  "submit_secret submit readScrt = do {
     s \<leftarrow> State_Monad.get;
     step_ok (submit (cur s)) TRANSACTION_STATUS_SEND_SECRET_FAILED ''failed to send secret'' (do {
     s \<leftarrow> State_Monad.get;
     step_ok (readScrt (tx_SessionID (cur s)) (tx_AliceAddr (cur s)) (tx_BobAddr (cur s)))
       TRANSACTION_STATUS_SEND_SECRET_FAILED ''failed to send secret'' (do {
     mark TRANSACTION_STATUS_CLOSED;
     ret (Ok ()) }) }) }"

definition negotiate :: "ext \<Rightarrow> pod_pkg \<Rightarrow> string \<Rightarrow> alice \<Rightarrow> alice" where
  "negotiate E pkg dir k =
     step_ok (AliceReceiveNegoReq E (dir @ ''/Bob_nego_request'')) TRANSACTION_STATUS_NEGO_FAILED
       ''failed to receive transaction nego request''
     (step_true (AliceGeneNegoResp E pkg (dir @ ''/Bob_nego_request'') (dir @ ''/Alice_nego_response''))
       TRANSACTION_STATUS_NEGO_FAILED ''invalid nego request file or nego response file''
     (step_true (AliceGeneNegoReq E pkg (dir @ ''/Alice_nego_request'')) TRANSACTION_STATUS_NEGO_FAILED
       ''failed to generate nego request file''
     (step_ok (AliceSendNegoResp E (dir @ ''/Alice_nego_response'') (dir @ ''/Alice_nego_request''))
       TRANSACTION_STATUS_NEGO_FAILED ''failed to receive transaction nego response''
     (step_ok (AliceRcvNegoResp E (dir @ ''/Bob_nego_response'')) TRANSACTION_STATUS_NEGO_FAILED
       ''failed to receive transaction nego response''
     (step_true (AliceDealNegoResp E pkg (dir @ ''/Bob_nego_response'')) TRANSACTION_STATUS_NEGO_FAILED
       ''failed to deal with nego response''
     (do { mark TRANSACTION_STATUS_NEGO; k }))))))"

section \<open>The ten handlers\<close>

definition AliceTxForPC :: "ext \<Rightarrow> BasicConfig \<Rightarrow> Transaction \<Rightarrow> (world, unit res) state" where
  "AliceTxForPC E B tx = (let dir = txDir B tx in
     with_tx tx (deferring (finish E) (
     receive_request E (dir @ ''/request'')
     (count_request (calcuCntforComplaint E (dir @ ''/request''))
     (lock_deposit E
     (verify_request E PC (dir @ ''/request'') (dir @ ''/response'')
       ''invalid request file or response file'' TRANSACTION_STATUS_RECEIVED_REQUEST False
     (send_response E (dir @ ''/response'')
     (receive_receipt E (dir @ ''/receipt'') ''failed to receive transaction receipt''
       TRANSACTION_STATUS_RECEIPT (\<lambda>sign.
     verify_receipt E PC (dir @ ''/receipt'') (dir @ ''/secret'')
       TRANSACTION_STATUS_GENERATE_SECRET_FAILED TRANSACTION_STATUS_RECEIVED_REQUEST
     (check_expiry E
     (submit_secret (\<lambda>t. submitScrtForComplaint E B t sign) (readScrtForComplaint E))))))))))))"

definition AliceTxForPOC :: "ext \<Rightarrow> BasicConfig \<Rightarrow> Transaction \<Rightarrow> (world, unit res) state" where
  "AliceTxForPOC E B tx = (let dir = txDir B tx in
     with_tx tx (deferring (finish E) (
     negotiate E POC dir
     (receive_request E (dir @ ''/request'')
     (count_request (calcuCntforOtComplaint E (dir @ ''/request''))
     (lock_deposit E
     (verify_request E POC (dir @ ''/request'') (dir @ ''/response'')
       ''invalid request file or response file.'' TRANSACTION_STATUS_RECEIVED_REQUEST False
     (send_response E (dir @ ''/response'')
     (receive_receipt E (dir @ ''/receipt'') ''failed to receive transaction receipt''
       TRANSACTION_STATUS_RECEIPT (\<lambda>sign.
     verify_receipt E POC (dir @ ''/receipt'') (dir @ ''/secret'')
       TRANSACTION_STATUS_GENERATE_SECRET_FAILED TRANSACTION_STATUS_GENERATE_SECRET
     (check_expiry E
     (recheck_deposit E
     (submit_secret (\<lambda>t. submitScrtForComplaint E B t sign) (readScrtForComplaint E))))))))))))))"

definition AliceTxForPAS :: "ext \<Rightarrow> BasicConfig \<Rightarrow> Transaction \<Rightarrow> (world, unit res) state" where
  "AliceTxForPAS E B tx = (let dir = txDir B tx in
     with_tx tx (deferring (finish E) (
     receive_request E (dir @ ''/request'')
     (count_request (calcuCntforAS E (dir @ ''/request''))
     (lock_deposit E
     (verify_request E PAS (dir @ ''/request'') (dir @ ''/response'')
       ''invalid request file or response file'' TRANSACTION_STATUS_GENERATE_RESPONSE False
     (send_response E (dir @ ''/response'')
     (receive_receipt E (dir @ ''/receipt'') ''failed to receive transaction receipt''
       TRANSACTION_STATUS_RECEIPT (\<lambda>sign.
     verify_receipt E PAS (dir @ ''/receipt'') (dir @ ''/secret'')
       TRANSACTION_STATUS_GENERATE_SECRET_FAILED TRANSACTION_STATUS_GENERATE_SECRET
     (check_expiry E
     (recheck_deposit E
     (submit_secret (\<lambda>t. submitScrtForAtomicSwap E B t sign) (readScrtForAtomicSwap E)))))))))))))"

definition AliceTxForPASVC :: "ext \<Rightarrow> BasicConfig \<Rightarrow> Transaction \<Rightarrow> (world, unit res) state" where
  "AliceTxForPASVC E B tx = (let dir = txDir B tx in
     with_tx tx (deferring (finish E) (
     receive_request E (dir @ ''/request'')
     (count_request (calcuCntforASVC E (dir @ ''/request''))
     (lock_deposit E
     (verify_request E PASVC (dir @ ''/request'') (dir @ ''/response'')
       ''invalid request file or response file'' TRANSACTION_STATUS_GENERATE_RESPONSE False
     (send_response E (dir @ ''/response'')
     (receive_receipt E (dir @ ''/receipt'') ''failed to receive transaction receipt''
       TRANSACTION_STATUS_RECEIPT (\<lambda>sign.
     verify_receipt E PASVC (dir @ ''/receipt'') (dir @ ''/secret'')
       TRANSACTION_STATUS_GENERATE_SECRET_FAILED TRANSACTION_STATUS_GENERATE_SECRET
     (check_expiry E
     (recheck_deposit E
     (submit_secret (\<lambda>t. submitScrtForAtomicSwapVc E B t sign) (readScrtForAtomicSwapVc E)))))))))))))"

definition AliceTxForTC :: "ext \<Rightarrow> BasicConfig \<Rightarrow> Transaction \<Rightarrow> (world, unit res) state" where
  "AliceTxForTC E B tx = (let dir = txDir B tx in
     with_tx tx (deferring (finish E) (
     receive_request E (dir @ ''/request'')
     (count_request (calcuCntforComplaint E (dir @ ''/request''))
     (lock_deposit E
     (verify_request E TC (dir @ ''/request'') (dir @ ''/response'')
       ''invalid request file or response file'' TRANSACTION_STATUS_GENERATE_RESPONSE False
     (send_response E (dir @ ''/response'')
     (receive_receipt E (dir @ ''/receipt'') ''failed to receive transaction receipt''
       TRANSACTION_STATUS_RECEIPT (\<lambda>sign.
     verify_receipt E TC (dir @ ''/receipt'') (dir @ ''/secret'')
       TRANSACTION_STATUS_GENERATE_SECRET_FAILED TRANSACTION_STATUS_GENERATE_SECRET
     (check_expiry E
     (recheck_deposit E
     (submit_secret (\<lambda>t. submitScrtForComplaint E B t sign) (readScrtForComplaint E)))))))))))))"

definition AliceTxForTOC :: "ext \<Rightarrow> BasicConfig \<Rightarrow> Transaction \<Rightarrow> (world, unit res) state" where
  "AliceTxForTOC E B tx = (let dir = txDir B tx in
     with_tx tx (deferring (finish E) (
     negotiate E TOC dir
     (receive_request E (dir @ ''/request'')
     (count_request (calcuCntforOtComplaint E (dir @ ''/request''))
     (lock_deposit E
     (verify_request E TOC (dir @ ''/request'') (dir @ ''/response'')
       ''invalid request file or response file'' TRANSACTION_STATUS_RECEIVED_RESPONSE False
     (send_response E (dir @ ''/response'')
     (receive_receipt E (dir @ ''/receipt'') ''failed to receive transaction receipt''
       TRANSACTION_STATUS_RECEIPT (\<lambda>sign.
     verify_receipt E TOC (dir @ ''/receipt'') (dir @ ''/secret'')
       TRANSACTION_STATUS_GENERATE_SECRET_FAILED TRANSACTION_STATUS_GENERATE_SECRET
     (check_expiry E
     (recheck_deposit E
     (submit_secret (\<lambda>t. submitScrtForComplaint E B t sign) (readScrtForComplaint E))))))))))))))"

definition AliceTxForTAS :: "ext \<Rightarrow> BasicConfig \<Rightarrow> Transaction \<Rightarrow> (world, unit res) state" where
  "AliceTxForTAS E B tx = (let dir = txDir B tx in
     with_tx tx (deferring (finish E) (
     receive_request E (dir @ ''/request'')
     (count_request (calcuCntforAS E (dir @ ''/request''))
     (lock_deposit E
     (verify_request E TAS (dir @ ''/request'') (dir @ ''/response'')
       ''invalid request file or response file'' TRANSACTION_STATUS_GENERATE_RESPONSE False
     (send_response E (dir @ ''/response'')
     (receive_receipt E (dir @ ''/receipt'') ''failed to receive transaction receipt''
       TRANSACTION_STATUS_RECEIPT (\<lambda>sign.
     verify_receipt E TAS (dir @ ''/receipt'') (dir @ ''/secret'')
       TRANSACTION_STATUS_GENERATE_SECRET_FAILED TRANSACTION_STATUS_GENERATE_SECRET
     (check_expiry E
     (recheck_deposit E
     (submit_secret (\<lambda>t. submitScrtForAtomicSwap E B t sign) (readScrtForAtomicSwap E)))))))))))))"

definition AliceTxForTASVC :: "ext \<Rightarrow> BasicConfig \<Rightarrow> Transaction \<Rightarrow> (world, unit res) state" where
  "AliceTxForTASVC E B tx = (let dir = txDir B tx in
     with_tx tx (deferring (finish E) (
     receive_request E (dir @ ''/request'')
     (count_request (calcuCntforASVC E (dir @ ''/request''))
     (lock_deposit E
     (verify_request E TASVC (dir @ ''/request'') (dir @ ''/response'')
       ''invalid request file or response file'' TRANSACTION_STATUS_GENERATE_RESPONSE False
     (send_response E (dir @ ''/response'')
     (receive_receipt E (dir @ ''/receipt'') ''failed to receive transaction receipt''
       TRANSACTION_STATUS_RECEIPT (\<lambda>sign.
     verify_receipt E TASVC (dir @ ''/receipt'') (dir @ ''/secret'')
       TRANSACTION_STATUS_GENERATE_SECRET_FAILED TRANSACTION_STATUS_GENERATE_SECRET
     (check_expiry E
     (recheck_deposit E
     (submit_secret (\<lambda>t. submitScrtForAtomicSwapVc E B t sign) (readScrtForAtomicSwapVc E)))))))))))))"

definition AliceTxForTQ :: "ext \<Rightarrow> BasicConfig \<Rightarrow> Transaction \<Rightarrow> (world, unit res) state" where
  "AliceTxForTQ E B tx = (let dir = txDir B tx in
     with_tx tx (deferring (finish E) (do {
     set_tx (\<lambda>t. t\<lparr>tx_Price := tx_UnitPrice t\<rparr>);
     lock_deposit E
     (receive_request E (dir @ ''/request'')
     (verify_request E TQ (dir @ ''/request'') (dir @ ''/response'')
       ''invalid request file or response file'' TRANSACTION_STATUS_GENERATE_RESPONSE True
     (send_response E (dir @ ''/response'')
     (receive_receipt E (dir @ ''/receipt'') ''failed to receive receipt''
       TRANSACTION_STATUS_RECEIPT (\<lambda>sign.
     verify_receipt E TQ (dir @ ''/receipt'') (dir @ ''/secret'')
       TRANSACTION_STATUS_GENERATE_SECRET_FAILED TRANSACTION_STATUS_GENERATE_SECRET
     (check_expiry E
     (recheck_deposit E
     (submit_secret (\<lambda>t. submitScrtForVRFQ E B t sign) (readScrtForVRFQ E))))))))) })))"

definition AliceTxForTOQ :: "ext \<Rightarrow> BasicConfig \<Rightarrow> Transaction \<Rightarrow> (world, unit res) state" where
  "AliceTxForTOQ E B tx = (let dir = txDir B tx in
     with_tx tx (deferring (finish E) (do {
     set_tx (\<lambda>t. t\<lparr>tx_Price := tx_UnitPrice t\<rparr>);
     lock_deposit E
     (negotiate E TOQ dir
     (receive_request E (dir @ ''/request'')
     (verify_request E TOQ (dir @ ''/request'') (dir @ ''/response'')
       ''invalid request file or response file'' TRANSACTION_STATUS_GENERATE_RESPONSE True
     (send_response E (dir @ ''/response'')
     (receive_receipt E (dir @ ''/receipt'') ''failed to receive receipt''
       TRANSACTION_STATUS_RECEIVED_RESPONSE (\<lambda>sign.
     verify_receipt E TOQ (dir @ ''/receipt'') (dir @ ''/secret'')
       TRANSACTION_STATUS_RECEIVED_RECEIPT_FAILED TRANSACTION_STATUS_GENERATE_SECRET
     (check_expiry E
     (recheck_deposit E
     (submit_secret (\<lambda>t. submitScrtForVRFQ E B t sign) (readScrtForVRFQ E)))))))))) })))"

lemmas handler_defs = AliceTxForPC_def AliceTxForPOC_def AliceTxForPAS_def AliceTxForPASVC_def
  AliceTxForTC_def AliceTxForTOC_def AliceTxForTAS_def AliceTxForTASVC_def AliceTxForTQ_def
  AliceTxForTOQ_def

section \<open>Accepting a connection\<close>

primrec AliceTxFor :: "pod_pkg \<Rightarrow> ext \<Rightarrow> BasicConfig \<Rightarrow> Transaction \<Rightarrow> (world, unit res) state" where
  "AliceTxFor PC = AliceTxForPC"
| "AliceTxFor POC = AliceTxForPOC"
| "AliceTxFor PAS = AliceTxForPAS"
| "AliceTxFor PASVC = AliceTxForPASVC"
| "AliceTxFor TC = AliceTxForTC"
| "AliceTxFor TOC = AliceTxForTOC"
| "AliceTxFor TAS = AliceTxForTAS"
| "AliceTxFor TASVC = AliceTxForTASVC"
| "AliceTxFor TQ = AliceTxForTQ"
| "AliceTxFor TOQ = AliceTxForTOQ"

definition new_tx :: "ext \<Rightarrow> string \<Rightarrow> pubkey \<Rightarrow> AliceConnParam \<Rightarrow> Transaction" where
  "new_tx E aliceAddr pub params = zero_Transaction\<lparr>
     tx_SessionID := ap_SessionID params,
     tx_Status := TRANSACTION_STATUS_START,
     tx_BobPubKey := pub,
     tx_BobAddr := AddressHex E (PubkeyToAddress (Crypto E) pub),
     tx_Bulletin := ap_Bulletin params,
     tx_Mode := ap_Mode params,
     tx_SubMode := ap_SubMode params,
     tx_OT := ap_OT params,
     tx_UnitPrice := ap_UnitPrice params,
     tx_AliceAddr := aliceAddr,
     tx_Count := 1\<rparr>"

definition run_sale :: "ext \<Rightarrow> BasicConfig \<Rightarrow> pod_pkg \<Rightarrow> Transaction \<Rightarrow> (world, unit res) state" where
  "run_sale E B pkg tx =
     check (AliceNewSess E pkg (AliceDir B @ ''/publish/'' @ blt_SigmaMKLRoot (tx_Bulletin tx))
         (converAddr (tx_AliceAddr tx)) (converAddr (tx_BobAddr tx)))
       (\<lambda>e. ret (Err e)) (\<lambda>h.
     deferring (do { ask_lib E pkg (Some h) FreeSession; ret () })
       (AliceTxFor pkg E B (tx\<lparr>tx_Session := (tx_Session tx)(pkg := Some h)\<rparr>)))"

text \<open>
  The result of the transaction is only logged, and a panic is recovered; here both are the
  result. The node is closed whenever a session was opened.
\<close>

definition AliceAcceptTx :: "ext \<Rightarrow> BasicConfig \<Rightarrow> enc_handshake \<Rightarrow> privkey \<Rightarrow> string \<Rightarrow>
    (world, unit res) state" where
  "AliceAcceptTx E B doEnc key aliceAddr =
     check (preAliceTxAndConn E B doEnc key) (\<lambda>e. ret (Err e)) (\<lambda>(pub, params).
     deferring (do { on_node Node_Close; ret () }) (
     let tx = new_tx E aliceAddr pub params in do {
     State_Monad.update (\<lambda>w. w\<lparr>AliceTxMap := (AliceTxMap w)(tx_SessionID tx \<mapsto> tx)\<rparr>);
     check (insertAliceTxToDB E tx) (\<lambda>e. ret (Err e)) (\<lambda>_.
     (case pkg_of (tx_Mode tx) (tx_SubMode tx) (tx_OT tx) of
        None \<Rightarrow> ret (Ok ())
      | Some pkg \<Rightarrow> run_sale E B pkg tx)) }))"

end
