(* ===== verification/Sales.thy ===== *)
theory Sales
  imports Seller
begin

text \<open>
  What holds of every sale, whatever its mode and however it ends: the contract the ten handlers
  of the seller share, and what \<open>AliceAcceptTx\<close>, which runs one of them, gets from it.
\<close>

section \<open>Components the steps leave alone\<close>

text \<open>
  A component of the handler's state that no service, no change of the status or the expiry time
  and no writing of the transaction to the map of running transactions changes.
\<close>

definition steady :: "(alice_st \<Rightarrow> 'b) \<Rightarrow> bool" where
  "steady f \<longleftrightarrow> inert f \<and> 
     (\<forall>s. f (s\<lparr>AliceTxMap := (AliceTxMap s)(tx_SessionID (cur s) \<mapsto> cur s)\<rparr>) = f s) \<and>
     (\<forall>s x. f (s\<lparr>cur := (cur s)\<lparr>tx_Status := x\<rparr>\<rparr>) = f s) \<and>
     (\<forall>s x. f (s\<lparr>cur := (cur s)\<lparr>tx_ExpireAt := x\<rparr>\<rparr>) = f s)"

lemma steady_inert: "steady f \<Longrightarrow> inert f"
  by (simp add: steady_def)

lemma keeps_status: "steady f \<Longrightarrow> keeps f (set_tx (\<lambda>t. t\<lparr>tx_Status := st\<rparr>))"
  by (simp add: set_tx_def keeps_update steady_def)

lemma keeps_expire: "steady f \<Longrightarrow> keeps f (set_tx (\<lambda>t. t\<lparr>tx_ExpireAt := x\<rparr>))"
  by (simp add: set_tx_def keeps_update steady_def)

lemma keeps_put_map: "steady f \<Longrightarrow> keeps f put_map"
  by (simp add: put_map_def keeps_update steady_def)

lemmas steady_frame = keeps_status keeps_expire keeps_put_map

lemma keeps_mark: "steady f \<Longrightarrow> keeps f (mark st)"
  unfolding mark_def by (intro frame steady_frame)

lemma keeps_fail_tx: "steady f \<Longrightarrow> keeps f (fail_tx st msg)"
  unfolding fail_tx_def by (intro frame keeps_mark)

lemma keeps_step_ok: "steady f \<Longrightarrow> keeps f m \<Longrightarrow> keeps f k \<Longrightarrow> keeps f (step_ok m st msg k)"
  unfolding step_ok_def by (intro frame keeps_fail_tx)

lemma keeps_step_true: "steady f \<Longrightarrow> keeps f m \<Longrightarrow> keeps f k \<Longrightarrow> keeps f (step_true m st msg k)"
  unfolding step_true_def by (intro frame keeps_fail_tx)

lemma keeps_lib_bool: "steady f \<Longrightarrow> keeps f (lib_bool E pkg lop)"
  unfolding lib_bool_def by (intro frame steady_inert)

lemmas lib_method_defs = AliceVerifyReq_def AliceVerifyReceipt_def AliceGeneNegoReq_def
  AliceGeneNegoResp_def AliceDealNegoResp_def

lemmas steady_rules = keeps_mark keeps_fail_tx keeps_step_ok keeps_step_true keeps_lib_bool
  steady_frame steady_inert

lemma keeps_steps:
  assumes f: "steady f" and k: "keeps f k"
  shows "keeps f (receive_request E p k)" "keeps f (verify_request E pkg p q msg st b k)"
    "keeps f (send_response E p k)" "keeps f (verify_receipt E pkg p q st st' k)"
    "keeps f (check_expiry E k)" "keeps f (recheck_deposit E k)" "keeps f (negotiate E pkg dir k)"
  unfolding receive_request_def verify_request_def send_response_def
    verify_receipt_def check_expiry_def recheck_deposit_def negotiate_def lib_method_defs
  by (intro frame steady_rules f k)+

lemma keeps_receive_receipt:
  assumes f: "steady f" and k: "\<And>x. keeps f (k x)"
  shows "keeps f (receive_receipt E p msg st k)"
  unfolding receive_receipt_def by (intro frame steady_rules f k)

lemma keeps_submit_secret:
  assumes "steady f" "\<And>t. keeps f (sub t)" "\<And>x y z. keeps f (rd x y z)"
  shows "keeps f (submit_secret sub rd)"
  unfolding submit_secret_def by (intro frame steady_rules assms)

lemma keeps_alice_contract:
  assumes "steady f"
  shows "keeps f (submitScrtForComplaint E B tx sign)" "keeps f (submitScrtForAtomicSwap E B tx sign)"
    "keeps f (submitScrtForAtomicSwapVc E B tx sign)" "keeps f (submitScrtForVRFQ E B tx sign)"
    "keeps f (readScrtForComplaint E s a b)" "keeps f (readScrtForAtomicSwap E s a b)"
    "keeps f (readScrtForAtomicSwapVc E s a b)" "keeps f (readScrtForVRFQ E s a b)"
  by (intro frame steady_inert assms)+

lemmas sale_frame = keeps_steps keeps_receive_receipt keeps_submit_secret keeps_alice_contract

section \<open>The deposit lock\<close>

abbreviation locked :: "alice_st \<Rightarrow> (string \<Rightarrow> int64) \<times> string \<times> string \<times> int64" where
  "locked s \<equiv> (DepositLockMap s, tx_AliceAddr (cur s), tx_BobAddr (cur s), tx_Price (cur s))"

lemma steady_locked: "steady locked"
  by (simp add: steady_def inert_def)

lemma steady_DepositLockMap: "steady DepositLockMap"
  by (simp add: steady_def inert_def)

lemma wp_calcuDeposit_lock:
  "wp (calcuDeposit E a b v) (\<lambda>r w'. DepositLockMap w' = (if r = Ok True
      then (DepositLockMap w)(a @ b := DepositLockMap w (a @ b) + v) else DepositLockMap w)) w"
  unfolding calcuDeposit_def by (auto simp: wps split: res.splits)

lemma keeps_calcuDeposit:
  "inert f \<Longrightarrow> (\<And>w d. f (w\<lparr>DepositLockMap := d\<rparr>) = f w) \<Longrightarrow> keeps f (calcuDeposit E a b v)"
  unfolding calcuDeposit_def by (intro frame keeps_update)

abbreviation cur_key :: "alice_st \<Rightarrow> string \<times> string \<times> int64" where
  "cur_key s \<equiv> (tx_AliceAddr (cur s), tx_BobAddr (cur s), tx_Price (cur s))"

lemma wp_lock_deposit_lock:
  assumes k: "keeps locked k"
  shows "wp (lock_deposit E k) (\<lambda>r s'. DepositLockMap s' = DepositLockMap s) s"
proof -
  let ?a = "tx_AliceAddr (cur s)" and ?b = "tx_BobAddr (cur s)" and ?v = "tx_Price (cur s)"
  have "wp (calcuDeposit E ?a ?b ?v) (\<lambda>r s'. (DepositLockMap s' = (if r = Ok True
      then (DepositLockMap s)(?a @ ?b := DepositLockMap s (?a @ ?b) + ?v) else DepositLockMap s)) \<and>
      cur_key s' = cur_key s) s"
    unfolding wp_conj
    by (intro conjI wp_calcuDeposit_lock keeps_wp [where f = cur_key] keeps_calcuDeposit)
      (simp_all add: inert_def)
  moreover have "wp (fail_tx st msg) (\<lambda>_ s2. DepositLockMap s2 = DepositLockMap s) s'"
    if "DepositLockMap s' = DepositLockMap s" for s' st msg
    using keeps_wp [OF keeps_fail_tx [OF steady_DepositLockMap], of st msg s'] that by simp
  moreover have "wp k (\<lambda>_. wp unlock (\<lambda>_ s2. DepositLockMap s2 = DepositLockMap s)) s'"
    if "DepositLockMap s' = (DepositLockMap s)(?a @ ?b := DepositLockMap s (?a @ ?b) + ?v)"
      "cur_key s' = cur_key s" for s'
    using that by (intro wp_keeps [OF k]) (auto simp: unlock_def wps Let_def)
  ultimately show ?thesis
    unfolding lock_deposit_def wp_bind wp_get wp_check
    by (elim wp_mono) (auto simp: wp_deferring split: res.split if_splits)
qed

lemma keeps_lock_deposit: "keeps locked k \<Longrightarrow> keeps DepositLockMap (lock_deposit E k)"
  using wp_lock_deposit_lock by (intro keepsI) (blast dest: wpD)

lemma keeps_count_request:
  "keeps DepositLockMap m \<Longrightarrow> keeps DepositLockMap k \<Longrightarrow> keeps DepositLockMap (count_request m k)"
  unfolding count_request_def set_tx_def
  by (intro frame keeps_update steady_rules steady_DepositLockMap) simp_all

lemma keeps_finish: "keeps DepositLockMap (finish E)"
  unfolding finish_def
  by (intro frame keeps_update) (simp_all add: inert_def)

lemma keeps_with_tx:
  "keeps f m \<Longrightarrow> (\<And>w. f (world.extend w (alice_st.fields t)) = g w) \<Longrightarrow>
     (\<And>s. f s = g (world.truncate s)) \<Longrightarrow> keeps g (with_tx t m)"
  by (auto simp: keeps_def with_tx_def split: prod.splits) (metis snd_conv)

lemma with_tx_lock:
  "keeps DepositLockMap m \<Longrightarrow> keeps DepositLockMap (with_tx t m)"
  by (rule keeps_with_tx [where f = DepositLockMap]) (simp_all add: world.defs alice_st.defs)

lemmas lock_rules = with_tx_lock keeps_lock_deposit keeps_count_request keeps_finish sale_frame
  steady_locked steady_DepositLockMap keeps_deferring keeps_bind keeps_file_readers
  steady_inert [OF steady_DepositLockMap]

lemma keeps_set_price: "keeps DepositLockMap (set_tx f)"
  by (simp add: set_tx_def keeps_update)

lemma handlers_keep_lock:
  "keeps DepositLockMap (AliceTxForPC E B t)" "keeps DepositLockMap (AliceTxForPOC E B t)"
  "keeps DepositLockMap (AliceTxForPAS E B t)" "keeps DepositLockMap (AliceTxForPASVC E B t)"
  "keeps DepositLockMap (AliceTxForTC E B t)" "keeps DepositLockMap (AliceTxForTOC E B t)"
  "keeps DepositLockMap (AliceTxForTAS E B t)" "keeps DepositLockMap (AliceTxForTASVC E B t)"
  "keeps DepositLockMap (AliceTxForTQ E B t)" "keeps DepositLockMap (AliceTxForTOQ E B t)"
  unfolding handler_defs Let_def by (intro lock_rules keeps_set_price)+

section \<open>The other transactions\<close>

text \<open>A component that also the count, the price and the lock of the transaction do not change.\<close>

definition sealed :: "(alice_st \<Rightarrow> 'b) \<Rightarrow> bool" where
  "sealed f \<longleftrightarrow> steady f \<and>
     (\<forall>s x. f (s\<lparr>cur := (cur s)\<lparr>tx_Count := x\<rparr>\<rparr>) = f s) \<and>
     (\<forall>s x. f (s\<lparr>cur := (cur s)\<lparr>tx_Price := x\<rparr>\<rparr>) = f s) \<and>
     (\<forall>s d. f (s\<lparr>DepositLockMap := d\<rparr>) = f s)"

lemma sealed_steady: "sealed f \<Longrightarrow> steady f"
  by (simp add: sealed_def)

lemma sealed_steps:
  assumes f: "sealed f" and k: "keeps f k"
  shows "keeps f m \<Longrightarrow> keeps f (count_request m k)" "keeps f (lock_deposit E k)"
    "keeps f (do { set_tx (\<lambda>t. t\<lparr>tx_Price := tx_UnitPrice t\<rparr>); k })"
proof -
  have c: "keeps f (set_tx (\<lambda>t. t\<lparr>tx_Count := x\<rparr>))" "keeps f (set_tx (\<lambda>t. t\<lparr>tx_Price := g t\<rparr>))" for x g
    using f by (simp_all add: set_tx_def keeps_update sealed_def)
  have u: "keeps f unlock" "keeps f (calcuDeposit E a b v)" for E a b v
    using f by (auto simp: unlock_def Let_def sealed_def steady_def intro!: keeps_update keeps_calcuDeposit)
  show "keeps f (count_request m k)" if "keeps f m"
    unfolding count_request_def by (intro frame steady_rules sealed_steady [OF f] c k that)
  show "keeps f (lock_deposit E k)"
    unfolding lock_deposit_def by (intro frame steady_rules sealed_steady [OF f] u k)
  show "keeps f (do { set_tx (\<lambda>t. t\<lparr>tx_Price := tx_UnitPrice t\<rparr>); k })"
    by (intro frame c k)
qed

lemmas sealed_frame = sealed_steps sale_frame sealed_steady keeps_file_readers

text \<open>The transaction's number and the map entries of all others.\<close>

abbreviation others :: "alice_st \<Rightarrow> string \<times> (string \<Rightarrow> Transaction option)" where
  "others s \<equiv> (tx_SessionID (cur s), (AliceTxMap s)(tx_SessionID (cur s) := None))"

lemma sealed_others: "sealed others"
  by (simp add: sealed_def steady_def inert_def)

section \<open>The result is the recorded status\<close>

definition honest :: "alice \<Rightarrow> bool" where
  "honest m \<longleftrightarrow> (\<forall>s. tx_Status (cur s) \<noteq> TRANSACTION_STATUS_CLOSED \<longrightarrow>
     wp m (\<lambda>r s'. r = Ok () \<longleftrightarrow> tx_Status (cur s') = TRANSACTION_STATUS_CLOSED) s)"

abbreviation cur_status :: "alice_st \<Rightarrow> string" where "cur_status s \<equiv> tx_Status (cur s)"

lemma inert_status: "inert cur_status"
  by (simp add: inert_def)

lemma honest_bind:
  "keeps cur_status m \<Longrightarrow> (\<And>x. honest (k x)) \<Longrightarrow> honest (State_Monad.bind m k)"
  unfolding honest_def wps by (auto intro!: wp_keeps [where m = m and f = cur_status])

lemma honest_check:
  "keeps cur_status m \<Longrightarrow> (\<And>e. honest (h e)) \<Longrightarrow> (\<And>v. honest (k v)) \<Longrightarrow> honest (check m h k)"
  unfolding honest_def wps
  by (auto intro!: wp_keeps [where m = m and f = cur_status] split: res.split)

lemma honest_simple:
  "honest (ret (Err e))" "honest (ret Panic)" "honest a \<Longrightarrow> honest b \<Longrightarrow> honest (if c then a else b)"
  "(\<And>v. honest (ok v)) \<Longrightarrow> (\<And>e. honest (er e)) \<Longrightarrow> honest pa \<Longrightarrow>
     honest (case x of Ok v \<Rightarrow> ok v | Err e \<Rightarrow> er e | Panic \<Rightarrow> pa)"
  "(\<And>u v. honest (g u v)) \<Longrightarrow> honest (case y of (u, v) \<Rightarrow> g u v)"
  by (simp_all add: honest_def wps split: res.split prod.split)

lemma honest_set:
  assumes "honest k"
  shows "st \<noteq> TRANSACTION_STATUS_CLOSED \<Longrightarrow> honest (do { mark st; k })"
    "st \<noteq> TRANSACTION_STATUS_CLOSED \<Longrightarrow> honest (do { set_tx (\<lambda>t. t\<lparr>tx_Status := st\<rparr>); k })"
    "honest (do { set_tx (\<lambda>t. t\<lparr>tx_Count := c\<rparr>); k })"
    "honest (do { set_tx (\<lambda>t. t\<lparr>tx_Price := p t\<rparr>); k })"
    "honest (do { set_tx (\<lambda>t. t\<lparr>tx_ExpireAt := c\<rparr>); k })"
    "honest (do { put_map; k })"
  using assms by (simp_all add: honest_def wps mark_def set_tx_def put_map_def)

lemma honest_fail: "st \<noteq> TRANSACTION_STATUS_CLOSED \<Longrightarrow> honest (fail_tx st msg)"
  unfolding fail_tx_def by (intro honest_set honest_simple)

lemma honest_close: "honest (do { mark TRANSACTION_STATUS_CLOSED; ret (Ok ()) })"
  by (simp add: honest_def wps mark_def set_tx_def put_map_def)

lemma honest_deferring: "keeps cur_status d \<Longrightarrow> honest m \<Longrightarrow> honest (deferring d m)"
proof -
  assume d: "keeps cur_status d" and m: "honest m"
  have "wp d (\<lambda>_ s'. (r = Ok ()) = (cur_status s' = TRANSACTION_STATUS_CLOSED)) s"
    if "(r = Ok ()) = (cur_status s = TRANSACTION_STATUS_CLOSED)" for r :: "unit res" and s
    using that by (intro wp_keeps [OF d]) simp
  with m show "honest (deferring d m)"
    unfolding honest_def wp_deferring by (blast intro: wp_mono)
qed

lemma keeps_unlock_status: "keeps cur_status unlock" "keeps cur_status put_map"
  by (simp_all add: unlock_def put_map_def keeps_update Let_def)

lemma keeps_status_ops: "keeps cur_status (calcuDeposit E a b v)" "keeps cur_status (lib_bool E pkg lop)"
  by (auto simp: lib_bool_def intro!: keeps_calcuDeposit frame inert_status)

lemmas honest_rules = honest_close honest_fail honest_set honest_simple honest_check honest_deferring
  honest_bind keeps_unlock_status keeps_status_ops frame inert_status

lemma honest_steps:
  assumes k: "honest k"
  shows "honest (receive_request E p k)" "honest (send_response E p k)"
    "honest (check_expiry E k)" "honest (recheck_deposit E k)" "honest (negotiate E pkg dir k)"
    "honest (lock_deposit E k)" "keeps cur_status m \<Longrightarrow> honest (count_request m k)"
    "st \<noteq> TRANSACTION_STATUS_CLOSED \<Longrightarrow> honest (verify_request E pkg p q msg st b k)"
    "st \<noteq> TRANSACTION_STATUS_CLOSED \<Longrightarrow> st' \<noteq> TRANSACTION_STATUS_CLOSED \<Longrightarrow>
       honest (verify_receipt E pkg p q st st' k)"
  unfolding receive_request_def send_response_def check_expiry_def recheck_deposit_def negotiate_def
    lock_deposit_def count_request_def verify_request_def verify_receipt_def step_ok_def step_true_def
    lib_method_defs
  by (intro honest_rules k failures_not_closed | assumption)+

lemma honest_receive_receipt:
  assumes "\<And>x. honest (k x)" and "st \<noteq> TRANSACTION_STATUS_CLOSED"
  shows "honest (receive_receipt E p msg st k)"
  unfolding receive_receipt_def by (intro honest_rules failures_not_closed assms)

lemma honest_submit_secret:
  assumes "\<And>t. keeps cur_status (sub t)" and "\<And>x y z. keeps cur_status (rd x y z)"
  shows "honest (submit_secret sub rd)"
  unfolding submit_secret_def step_ok_def by (intro honest_rules failures_not_closed assms)

section \<open>The contract of a handler\<close>

text \<open>
  What a finished sale of transaction \<open>t\<close> leaves behind: the last call is the update of its row,
  the row says \<open>closed\<close> exactly if the sale succeeded, the entries of other transactions are
  untouched, and the transaction's own entry is gone if the database took the update.
\<close>

definition recorded :: "ext \<Rightarrow> Transaction \<Rightarrow> world \<Rightarrow> unit res \<Rightarrow> world \<Rightarrow> bool" where
  "recorded E t w r w' \<longleftrightarrow>
     (\<exists>row h. hist w' = CUpdateAliceTx (tx_SessionID t) row # h \<and> atx_SessionId row = tx_SessionID t \<and>
        (r = Ok () \<longleftrightarrow> atx_Status row = TRANSACTION_STATUS_CLOSED)) \<and>
     (\<forall>k. k \<noteq> tx_SessionID t \<longrightarrow> AliceTxMap w' k = AliceTxMap w k) \<and>
     (DBExec E (hist w') = Ok () \<longrightarrow> AliceTxMap w' (tx_SessionID t) = None)"

lemma wp_finish:
  "wp (finish E) (\<lambda>_ s'. hist s' = CUpdateAliceTx (tx_SessionID (cur s)) (alice_row (cur s)) # hist s \<and>
     others s' = others s \<and>
     (DBExec E (hist s') = Ok () \<longrightarrow> AliceTxMap s' (tx_SessionID (cur s)) = None)) s"
  by (auto simp: finish_def updateAliceTxToDB_def wps split: res.splits)

lemma handler_records:
  assumes h: "honest m" and k: "keeps others m" and st: "tx_Status t \<noteq> TRANSACTION_STATUS_CLOSED"
    and run: "run_state (with_tx t (deferring (finish E) m)) w = (r, w')"
  shows "recorded E t w r w'"
proof -
  let ?s0 = "world.extend w (alice_st.fields t)"
  have s0: "cur ?s0 = t" "AliceTxMap ?s0 = AliceTxMap w" by (simp_all add: world.defs alice_st.defs)
  obtain r1 s1 where m: "run_state m ?s0 = (r1, s1)" by (metis surj_pair)
  obtain u s2 where f: "run_state (finish E) s1 = (u, s2)" by (metis surj_pair)
  from run m f have r: "r = r1" "w' = world.truncate s2"
    by (simp_all add: with_tx_def run_deferring)
  have o: "others s1 = others ?s0" using keepsD [OF k m] .
  have c: "r = Ok () \<longleftrightarrow> cur_status s1 = TRANSACTION_STATUS_CLOSED"
    using h st m s0 unfolding honest_def wp_def r by (metis (mono_tags, lifting) case_prod_conv)
  from wpD [OF wp_finish f] have f': "hist s2 = CUpdateAliceTx (tx_SessionID (cur s1)) (alice_row (cur s1)) # hist s1"
    "others s2 = others s1" "DBExec E (hist s2) = Ok () \<longrightarrow> AliceTxMap s2 (tx_SessionID (cur s1)) = None"
    by auto
  have t: "hist w' = hist s2" "AliceTxMap w' = AliceTxMap s2" by (simp_all add: r world.defs)
  have "AliceTxMap w' k = AliceTxMap w k" if "k \<noteq> tx_SessionID t" for k
    using o f'(2) that by (simp add: t s0) (metis fun_upd_other)
  then show ?thesis
    unfolding recorded_def using f' c o s0 t by (auto simp: alice_row_def)
qed

lemmas handler_honest = honest_steps honest_receive_receipt honest_submit_secret honest_set
  failures_not_closed keeps_file_readers keeps_contract inert_status

lemma handlers_record:
  assumes "tx_Status t \<noteq> TRANSACTION_STATUS_CLOSED" "run_state (AliceTxFor pkg E B t) w = (r, w')"
  shows "recorded E t w r w'"
  using assms(2)
  by (cases pkg; simp only: AliceTxFor.simps handler_defs Let_def;
      elim handler_records [OF _ _ assms(1), rotated -1];
      intro handler_honest sealed_frame sealed_others steady_inert)

lemma handlers_release: "keeps DepositLockMap (AliceTxFor pkg E B t)"
  by (cases pkg) (simp_all only: AliceTxFor.simps handlers_keep_lock)

text \<open>The interface between \<open>AliceAcceptTx\<close> and the handler it runs.\<close>

locale sale_handler =
  fixes handler :: "ext \<Rightarrow> BasicConfig \<Rightarrow> Transaction \<Rightarrow> (world, unit res) state"
  assumes releases: "keeps DepositLockMap (handler E B t)"
    and records: "tx_Status t \<noteq> TRANSACTION_STATUS_CLOSED \<Longrightarrow>
      run_state (handler E B t) w = (r, w') \<Longrightarrow> recorded E t w r w'"
begin

text \<open>A handler with the release of its library session deferred.\<close>

lemma freed_releases:
  "keeps DepositLockMap (deferring (do { ask_lib E pkg h FreeSession; ret () }) (handler E B t))"
  by (intro frame releases) (simp add: inert_def)

lemma freed_records:
  assumes "tx_Status t \<noteq> TRANSACTION_STATUS_CLOSED"
    and "run_state (deferring (do { ask_lib E pkg h FreeSession; ret () }) (handler E B t)) w = (r, w')"
  shows "\<exists>row h2. hist w' = CLib pkg h FreeSession # CUpdateAliceTx (tx_SessionID t) row # h2 \<and>
    (r = Ok () \<longleftrightarrow> atx_Status row = TRANSACTION_STATUS_CLOSED) \<and>
    (\<forall>k. k \<noteq> tx_SessionID t \<longrightarrow> AliceTxMap w' k = AliceTxMap w k)"
proof -
  obtain r1 w1 where h: "run_state (handler E B t) w = (r1, w1)" by (metis surj_pair)
  from records [OF assms(1) h] assms(2) h show ?thesis
    unfolding recorded_def by (auto simp: run ask_lib_def split: prod.splits)
qed

end

interpretation sale: sale_handler "AliceTxFor pkg" for pkg
  by unfold_locales (simp_all add: handlers_release handlers_record)

text \<open>
  C2. However a sale ends, by success, by any error or by a panic, in any of the ten modes and
  whatever the services and the buyer do, the seller has given back the lock on the buyer's
  deposit: the map of locked deposits is what it was before the sale.
\<close>

theorem sale_releases_deposit:
  "DepositLockMap (snd (run_state (AliceTxFor pkg E B t) w)) = DepositLockMap w"
  using sale.releases by (simp add: keeps_def)

text \<open>
  C18. However a sale ends, its last act is to update its row in the database; the row says
  \<open>closed\<close> exactly if the handler reports success. The map entries of all other transactions are
  untouched, and the sale's own entry is gone if the database took the update.
\<close>

theorem sale_is_recorded:
  assumes "tx_Status t \<noteq> TRANSACTION_STATUS_CLOSED"
    and "run_state (AliceTxFor pkg E B t) w = (r, w')"
  shows "(\<exists>row h. hist w' = CUpdateAliceTx (tx_SessionID t) row # h \<and> atx_SessionId row = tx_SessionID t \<and>
       (r = Ok () \<longleftrightarrow> atx_Status row = TRANSACTION_STATUS_CLOSED)) \<and>
    (\<forall>k. k \<noteq> tx_SessionID t \<longrightarrow> AliceTxMap w' k = AliceTxMap w k) \<and>
    (DBExec E (hist w') = Ok () \<longrightarrow> AliceTxMap w' (tx_SessionID t) = None)"
  using sale.records [OF assms] by (simp add: recorded_def)

theorem sale_is_recorded_witness:
  "\<exists>row h. hist (snd (run_state (AliceTxFor TOC sample_ext sample_dirs
      (zero_Transaction\<lparr>tx_SessionID := ''12''\<rparr>)) sample_world)) = CUpdateAliceTx ''12'' row # h"
  using sale_is_recorded [OF _ surjective_pairing, of "zero_Transaction\<lparr>tx_SessionID := ''12''\<rparr>" TOC sample_ext
      sample_dirs sample_world]
  by (auto simp: zero_Transaction_def status_defs)

section \<open>Accepting a connection\<close>

lemma keeps_run_sale: "keeps DepositLockMap (run_sale E B pkg tx)"
  unfolding run_sale_def AliceNewSess_def
  by (intro frame sale.freed_releases) (simp_all add: inert_def)

lemma keeps_preAliceTxAndConn:
  assumes f: "inert f"
  shows "keeps f (preAliceTxAndConn E B doEnc key)"
proof -
  have "keeps f (State_Monad.update (\<lambda>w. w\<lparr>nd := n\<rparr>))" for n
    using f by (intro keeps_update) (simp add: inert_def)
  then show ?thesis
    unfolding preAliceTxAndConn_def AliceNewConn_def AliceRcvSessReq_def preAliceTx_def preAliceConn_def
      newSessID_def close_and_fail_def Let_def
    by (intro frame f)
qed

lemma wp_Close: "wp (do { on_node Node_Close; ret () }) (\<lambda>_ w'. nstate (nd w') = stateClosed) w"
  by (simp add: wps Node_Close_def)

lemma wp_closing:
  "wp (deferring (do { on_node Node_Close; ret () }) m) (\<lambda>_ w'. nstate (nd w') = stateClosed) w"
  unfolding wp_deferring by (intro wpI wp_Close)

text \<open>
  Handling a connection never leaves a deposit locked, whether or not a sale came about, and
  a connection on which a session was opened is always left with its node closed, also when the
  sale panics.
\<close>

theorem accepted_connection_cleans_up:
  assumes "run_state (AliceAcceptTx E B doEnc key addr) w = (r, w')"
  shows "DepositLockMap w' = DepositLockMap w \<and>
    (is_ok (fst (run_state (preAliceTxAndConn E B doEnc key) w)) \<longrightarrow> nstate (nd w') = stateClosed)"
proof
  have "keeps DepositLockMap (State_Monad.update (\<lambda>w. w\<lparr>AliceTxMap := m w\<rparr>))" for m :: "world \<Rightarrow> _"
    by (simp add: keeps_update)
  moreover have "inert (DepositLockMap :: world \<Rightarrow> _)" by (simp add: inert_def)
  ultimately have "keeps DepositLockMap (AliceAcceptTx E B doEnc key addr)"
    unfolding AliceAcceptTx_def Let_def by (intro frame keeps_preAliceTxAndConn keeps_run_sale)
  then show "DepositLockMap w' = DepositLockMap w" using assms by (rule keepsD)
next
  obtain p w1 where p: "run_state (preAliceTxAndConn E B doEnc key) w = (p, w1)" by (metis surj_pair)
  show "is_ok (fst (run_state (preAliceTxAndConn E B doEnc key) w)) \<longrightarrow> nstate (nd w') = stateClosed"
  proof
    assume "is_ok (fst (run_state (preAliceTxAndConn E B doEnc key) w))"
    then obtain pub params where "p = Ok (pub, params)" using p by (auto simp: is_ok_ex)
    with assms p show "nstate (nd w') = stateClosed"
      unfolding AliceAcceptTx_def run_check by (simp add: wpD [OF wp_closing])
  qed
qed

theorem accepted_connection_cleans_up_witness:
  "DepositLockMap (snd (run_state (AliceAcceptTx sample_ext sample_dirs
      (\<lambda>_ _. ret (Ok sample_key)) sample_key ''0x01'') sample_world)) = (\<lambda>_. 0)"
  using accepted_connection_cleans_up [OF surjective_pairing, of sample_ext
      sample_dirs "\<lambda>_ _. ret (Ok sample_key)" sample_key "''0x01''" sample_world]
  by (simp add: sample_world_def)

end
