(* ===== verification/Safety.thy ===== *)
theory Safety
  imports Sales "HOL-Library.Sublist"
begin

text \<open>
  When the seller gives its secret away: a submission of the secret to the contract is only ever
  made after the buyer's receipt passed every check, and only on the terms the buyer signed.
\<close>

section \<open>Submissions\<close>

text \<open>The price, the expiry time and the signature a submission carries.\<close>

fun sub_terms :: "call \<Rightarrow> (int \<times> int \<times> bytes) option" where
  "sub_terms (CSubmitProofComplaint v seed0 sid ps blt seed2 mkl cnt price expireAt sig) =
     Some (price, expireAt, sig)"
| "sub_terms (CSubmitProofAtomicSwap v seed0 sCnt sid ps seed2 vw cnt price expireAt sig) =
     Some (price, expireAt, sig)"
| "sub_terms (CSubmitProofAtomicSwapVC v seed0 rnd sid ps digest price expireAt sig) =
     Some (price, expireAt, sig)"
| "sub_terms (CSubmitProofVRF v r sid ps g price expireAt sig) = Some (price, expireAt, sig)"
| "sub_terms _ = None"

text \<open>The history has grown by calls that submit nothing.\<close>

definition quietly :: "call list \<Rightarrow> call list \<Rightarrow> bool" where
  "quietly h h' \<longleftrightarrow> (\<exists>new. h' = new @ h \<and> (\<forall>c \<in> set new. sub_terms c = None))"

lemma quietly_refl [simp]: "quietly h h"
  by (simp add: quietly_def)

lemma quietly_trans: "quietly h1 h2 \<Longrightarrow> quietly h2 h3 \<Longrightarrow> quietly h1 h3"
  unfolding quietly_def by (metis Un_iff append.assoc set_append)

lemma quietly_Cons: "sub_terms c = None \<Longrightarrow> quietly h (c # h)"
  unfolding quietly_def by (rule exI [of _ "[c]"]) simp

lemma quietly_suffix: "quietly h h' \<Longrightarrow> suffix h h'"
  by (auto simp: quietly_def suffix_def)

section \<open>Programs that submit nothing\<close>

definition calm :: "('z world_scheme, 'a) state \<Rightarrow> bool" where
  "calm m \<longleftrightarrow> (\<forall>s. wp m (\<lambda>_ s'. quietly (hist s) (hist s')) s)"

lemma calmD: "calm m \<Longrightarrow> quietly h (hist s) \<Longrightarrow> wp m (\<lambda>_ s'. quietly h (hist s')) s"
  unfolding calm_def by (blast intro: wp_mono quietly_trans)

lemma calm_bind: "calm m \<Longrightarrow> (\<And>x. calm (k x)) \<Longrightarrow> calm (State_Monad.bind m k)"
  unfolding calm_def wps by (blast intro: wp_mono quietly_trans)

lemma calm_check:
  assumes "calm m" "\<And>e. calm (h e)" "\<And>v. calm (k v)"
  shows "calm (check m h k)"
proof -
  have "wp m (\<lambda>r s'. case r of Ok v \<Rightarrow> wp (k v) (\<lambda>_ s'. quietly (hist s) (hist s')) s'
      | Err e \<Rightarrow> wp (h e) (\<lambda>_ s'. quietly (hist s) (hist s')) s' | Panic \<Rightarrow> quietly (hist s) (hist s')) s" for s
    by (rule wp_mono [OF calmD [OF assms(1) quietly_refl]])
      (auto split: res.split intro: calmD assms(2,3))
  then show ?thesis by (simp add: calm_def wp_check)
qed

lemma calm_deferring: "calm d \<Longrightarrow> calm m \<Longrightarrow> calm (deferring d m)"
  unfolding calm_def wps by (blast intro: wp_mono quietly_trans)

lemma calm_simple:
  "calm (ret x)" "calm State_Monad.get" "calm a \<Longrightarrow> calm b \<Longrightarrow> calm (if c then a else b)"
  "(\<And>u v. calm (g u v)) \<Longrightarrow> calm (case y of (u, v) \<Rightarrow> g u v)"
  "calm n \<Longrightarrow> (\<And>v. calm (j v)) \<Longrightarrow> calm (case z of None \<Rightarrow> n | Some v \<Rightarrow> j v)"
  "(\<And>v. calm (ok v)) \<Longrightarrow> (\<And>e. calm (er e)) \<Longrightarrow> calm pa \<Longrightarrow>
     calm (case x' of Ok v \<Rightarrow> ok v | Err e \<Rightarrow> er e | Panic \<Rightarrow> pa)"
  "(\<And>v. calm (fi v)) \<Longrightarrow> calm di \<Longrightarrow> calm (case fn of File v \<Rightarrow> fi v | Dir \<Rightarrow> di)"
  "calm (k' v') \<Longrightarrow> calm (Let v' k')"
  by (simp_all add: calm_def wps split: prod.split option.split res.split fnode.split)

lemma calm_update: "(\<And>s. hist (f s) = hist s) \<Longrightarrow> calm (State_Monad.update f)"
  by (simp add: calm_def wps)

lemma calm_ask: "sub_terms c = None \<Longrightarrow> calm (ask c f)"
  by (simp add: calm_def wps quietly_Cons)

lemma calm_ask_lib: "calm (ask_lib E pkg h lop)"
  by (simp add: calm_def wps quietly_Cons split: prod.split)

lemma calm_on_node: "calm (on_node m)"
  unfolding calm_def wps by (intro allI wpI) simp

lemma calm_set_fs: "calm (set_fs F)"
  by (simp add: set_fs_def calm_update)

lemmas calm_rules = calm_simple calm_check calm_deferring calm_bind calm_ask calm_ask_lib
  calm_on_node calm_set_fs calm_update sub_terms.simps

lemma calm_files:
  "calm (ReadFile E p)" "calm (OpenFile E p)" "calm (WriteOpened E p bs)" "calm (Mkdir E p)"
  "calm (pathExists E p)" "calm (read_json E flds z e1 e2 p)" "calm (save E p bs)"
  unfolding ReadFile_def OpenFile_def WriteOpened_def Mkdir_def pathExists_def read_json_def save_def
  by (intro calm_rules)+

lemma calm_readers:
  "calm (readReceiptForComplaint E p)" "calm (readReceiptForAtomicSwap E p)"
  "calm (readReceiptForAtomicSwapVc E p)" "calm (readVRFReceipt E p)"
  "calm (readSeed0ForComplaint E p)" "calm (readSeed0ForAtomicSwap E p)"
  "calm (readSeed0ForAtomicSwapVc E p)" "calm (readSeed0ForVRFQ E p)"
  "calm (calcuCntforComplaint E p)" "calm (calcuCntforOtComplaint E p)"
  "calm (calcuCntforAS E p)" "calm (calcuCntforASVC E p)"
  unfolding file_reader_defs by (intro calm_rules calm_files)+

lemma calm_poll: "(\<And>i. calm (g i)) \<Longrightarrow> calm (poll n s g)"
  by (induction n) (simp_all, (intro calm_rules | simp)+)

lemma calm_contract:
  "calm (checkDeposit E a b v)" "calm (calcuDeposit E a b v)"
  "calm (readScrtForComplaint E s a b)" "calm (readScrtForAtomicSwap E s a b)"
  "calm (readScrtForAtomicSwapVc E s a b)" "calm (readScrtForVRFQ E s a b)"
  unfolding contract_defs calcuDeposit_def by ((intro calm_rules calm_poll | simp)+)

lemma calm_messages:
  "calm (AliceRcvPODReq E p)" "calm (AliceSendPODResp E p)" "calm (AliceRcvPODRecpt E p)"
  "calm (AliceReceiveNegoReq E p)" "calm (AliceSendNegoResp E p q)" "calm (AliceRcvNegoResp E p)"
  unfolding pod_message_defs by (intro calm_rules calm_files)+

section \<open>The submitting functions\<close>

text \<open>Programs that submit nothing, or end with one submission that satisfies \<open>P\<close>.\<close>

definition submits :: "(call \<Rightarrow> bool) \<Rightarrow> ('z world_scheme, 'a) state \<Rightarrow> bool" where
  "submits P m \<longleftrightarrow> (\<forall>s. wp m (\<lambda>_ s'. quietly (hist s) (hist s') \<or>
     (\<exists>c h. hist s' = c # h \<and> quietly (hist s) h \<and> P c)) s)"

lemma submits_calm: "calm m \<Longrightarrow> submits P m"
  unfolding calm_def submits_def by (blast intro: wp_mono)

text \<open>The two ways a submitting program may leave the history, from \<open>h0\<close> on.\<close>

abbreviation ended :: "(call \<Rightarrow> bool) \<Rightarrow> call list \<Rightarrow> call list \<Rightarrow> bool" where
  "ended P h0 h1 \<equiv> quietly h0 h1 \<or> (\<exists>c h. h1 = c # h \<and> quietly h0 h \<and> P c)"

lemma submitsD: "submits P m \<Longrightarrow> quietly h (hist s) \<Longrightarrow> wp m (\<lambda>_ s'. ended P h (hist s')) s"
  unfolding submits_def by (blast intro: wp_mono quietly_trans)

lemma submits_check:
  assumes m: "calm m" and h: "\<And>e. calm (h e)" and k: "\<And>v. submits P (k v)"
  shows "submits P (check m h k)"
proof -
  have "wp m (\<lambda>r s'. case r of Ok v \<Rightarrow> wp (k v) (\<lambda>_ s'. ended P (hist s) (hist s')) s'
      | Err e \<Rightarrow> wp (h e) (\<lambda>_ s'. ended P (hist s) (hist s')) s'
      | Panic \<Rightarrow> ended P (hist s) (hist s')) s" for s
    by (rule wp_mono [OF calmD [OF m quietly_refl]])
      (auto split: res.split intro: submitsD k submits_calm h)
  then show ?thesis by (simp add: submits_def wp_check)
qed

lemma submits_attempt:
  "(\<And>v. r = Ok v \<Longrightarrow> submits P (k v)) \<Longrightarrow> submits P (attempt r e k)"
  by (cases r) (simp_all add: submits_def wps)

lemma submits_transact:
  assumes "\<And>v. P (c v)"
  shows "submits P (transact E c msg)"
  using assms by (auto simp: submits_def wps Let_def split: res.split intro!: exI [of _ "c _"])

text \<open>The terms of a submission are the transaction's, and the buyer signed them.\<close>

definition signed_terms :: "ext \<Rightarrow> Transaction \<Rightarrow> bytes \<Rightarrow> call \<Rightarrow> bool" where
  "signed_terms E t sign c \<longleftrightarrow> sub_terms c = Some (sint (tx_Price t), sint (tx_ExpireAt t), sign) \<and>
     (\<exists>vals. signed_by_bob E t vals sign = Ok () \<and>
        AbiUint256 (sint (tx_UnitPrice t * tx_Count t)) \<in> set vals \<and>
        AbiUint256 (sint (tx_ExpireAt t)) \<in> set vals)"

lemma submits_prod: "(\<And>u v. submits P (g u v)) \<Longrightarrow> submits P (case y of (u, v) \<Rightarrow> g u v)"
  by (cases y) simp

lemma submits_Let: "submits P (k v) \<Longrightarrow> submits P (Let v k)"
  by simp

lemma submits_if: "submits P b \<Longrightarrow> submits P (if c then ret x else b)"
  by (simp add: submits_calm calm_simple)

lemmas submits_rules = submits_transact submits_attempt submits_check submits_prod submits_Let submits_if
  calm_readers calm_simple

lemma signed_termsI:
  assumes "signed_by_bob E t vals sign = Ok u"
    and "sub_terms c = Some (sint (tx_Price t), sint (tx_ExpireAt t), sign)"
    and "AbiUint256 (sint (tx_UnitPrice t * tx_Count t)) \<in> set vals"
    and "AbiUint256 (sint (tx_ExpireAt t)) \<in> set vals"
  shows "signed_terms E t sign c"
  using assms by (auto simp: signed_terms_def)

lemma submitScrtForComplaint_signed:
  "submits (signed_terms E t sign) (submitScrtForComplaint E B t sign)"
  unfolding submitScrtForComplaint_def verifySigntureForComplaint_def
  by (rule submits_rules | rule signed_termsI, assumption, simp_all)+

lemma submitScrtForAtomicSwap_signed:
  "submits (signed_terms E t sign) (submitScrtForAtomicSwap E B t sign)"
  unfolding submitScrtForAtomicSwap_def verifySigntureForAtomicSwap_def
  by (rule submits_rules | rule signed_termsI, assumption, simp_all)+

lemma submitScrtForAtomicSwapVc_signed:
  "submits (signed_terms E t sign) (submitScrtForAtomicSwapVc E B t sign)"
  unfolding submitScrtForAtomicSwapVc_def verifySigntureForAtomicSwapVc_def
  by (rule submits_rules | rule signed_termsI, assumption, simp_all)+

lemma submitScrtForVRFQ_signed:
  "submits (signed_terms E t sign) (submitScrtForVRFQ E B t sign)"
  unfolding submitScrtForVRFQ_def verifySigntureForVRFQ_def
  by (rule submits_rules | rule signed_termsI, assumption, simp_all)+

lemmas submit_functions = submitScrtForComplaint_signed submitScrtForAtomicSwap_signed
  submitScrtForAtomicSwapVc_signed submitScrtForVRFQ_signed

section \<open>Guarded handlers\<close>

text \<open>
  \<open>safe G h0 h1\<close>: since \<open>h0\<close> at most one submission was made, and it was made in a history that
  satisfies \<open>G\<close>.
\<close>

definition safe :: "(call \<Rightarrow> call list \<Rightarrow> bool) \<Rightarrow> call list \<Rightarrow> call list \<Rightarrow> bool" where
  "safe G h0 h1 \<longleftrightarrow> quietly h0 h1 \<or> (\<exists>c h. quietly h0 h \<and> G c h \<and> quietly (c # h) h1)"

lemma safe_still: "quietly h0 h1 \<Longrightarrow> safe G h0 h1"
  by (simp add: safe_def)

lemma safe_quietly: "safe G h0 h1 \<Longrightarrow> quietly h1 h2 \<Longrightarrow> safe G h0 h2"
  unfolding safe_def by (blast intro: quietly_trans)

lemma ended_safe:
  "ended P h1 h2 \<Longrightarrow> quietly h0 h1 \<Longrightarrow> (\<And>c h. P c \<Longrightarrow> quietly h1 h \<Longrightarrow> G c h) \<Longrightarrow> safe G h0 h2"
  unfolding safe_def by (metis quietly_refl quietly_trans)

text \<open>What a step of a handler leaves alone: the transaction but for its status, and the locks.\<close>

abbreviation core :: "alice_st \<Rightarrow> Transaction \<times> (string \<Rightarrow> int64)" where
  "core s \<equiv> ((cur s)\<lparr>tx_Status := []\<rparr>, DepositLockMap s)"

definition stable :: "(alice_st \<Rightarrow> bool) \<Rightarrow> bool" where
  "stable A \<longleftrightarrow> (\<forall>s s'. A s \<longrightarrow> quietly (hist s) (hist s') \<longrightarrow> core s' = core s \<longrightarrow> A s')"

definition guards :: "(call \<Rightarrow> call list \<Rightarrow> bool) \<Rightarrow> call list \<Rightarrow> (alice_st \<Rightarrow> bool) \<Rightarrow>
    (alice_st, 'a) state \<Rightarrow> bool" where
  "guards G h0 A m \<longleftrightarrow> (\<forall>s. quietly h0 (hist s) \<longrightarrow> A s \<longrightarrow> wp m (\<lambda>_ s'. safe G h0 (hist s')) s)"

lemma guards_calm: "calm m \<Longrightarrow> guards G h0 A m"
  unfolding guards_def safe_def by (blast intro: wp_mono [OF calmD])

lemma wp_calm_core:
  assumes "calm m" "keeps core m" "stable A" "quietly h0 (hist s)" "A s"
  shows "wp m (\<lambda>_ s'. quietly h0 (hist s') \<and> A s') s"
proof -
  have "wp m (\<lambda>_ s'. quietly (hist s) (hist s') \<and> core s' = core s) s"
    unfolding wp_conj using calmD [OF assms(1) quietly_refl] keeps_wp [OF assms(2)] by blast
  then show ?thesis
    by (rule wp_mono) (use assms in \<open>auto simp: stable_def intro: quietly_trans\<close>)
qed

lemma guards_bind:
  assumes "calm m" "keeps core m" "stable A" "\<And>x. guards G h0 A (k x)"
  shows "guards G h0 A (State_Monad.bind m k)"
  unfolding guards_def wp_bind
  using assms(4) by (auto simp: guards_def intro!: wp_mono [OF wp_calm_core [OF assms(1-3)]])

lemma guards_check:
  assumes "calm m" "keeps core m" "stable A" "\<And>e. guards G h0 A (h e)" "\<And>v. guards G h0 A (k v)"
  shows "guards G h0 A (check m h k)"
  unfolding guards_def wp_check
  using assms(4,5)
  by (auto simp: guards_def safe_def intro!: wp_mono [OF wp_calm_core [OF assms(1-3)]] split: res.split)

lemma guards_deferring: "calm d \<Longrightarrow> guards G h0 A m \<Longrightarrow> guards G h0 A (deferring d m)"
proof -
  assume d: "calm d" and m: "guards G h0 A m"
  have "wp d (\<lambda>_ s'. safe G h0 (hist s')) s" if "safe G h0 (hist s)" for s
    using that by (intro wp_mono [OF calmD [OF d quietly_refl]]) (rule safe_quietly)
  with m show ?thesis unfolding guards_def wp_deferring by (blast intro: wp_mono)
qed

lemma guards_if: "guards G h0 A a \<Longrightarrow> guards G h0 A b \<Longrightarrow> guards G h0 A (if c then a else b)"
  by simp

lemma guards_cases:
  "(\<And>u v. guards G h0 A (g u v)) \<Longrightarrow> guards G h0 A (case y of (u, v) \<Rightarrow> g u v)"
  "(\<And>v. guards G h0 A (ok v)) \<Longrightarrow> (\<And>e. guards G h0 A (er e)) \<Longrightarrow> guards G h0 A pa \<Longrightarrow>
     guards G h0 A (case x of Ok v \<Rightarrow> ok v | Err e \<Rightarrow> er e | Panic \<Rightarrow> pa)"
  by (simp_all split: prod.split res.split)

lemma keeps_core_marks:
  "keeps core (mark st)" "keeps core put_map" "keeps core (set_tx (\<lambda>t. t\<lparr>tx_Status := st\<rparr>))"
  "keeps core (fail_tx st msg)"
  unfolding mark_def fail_tx_def set_tx_def put_map_def
  by (intro frame keeps_update | simp)+

lemma calm_marks:
  "calm (mark st)" "calm put_map" "calm (set_tx f)" "calm (fail_tx st msg)" "calm unlock"
  "calm (lib_bool E pkg lop)" "calm (finish E)"
  unfolding mark_def fail_tx_def set_tx_def put_map_def unlock_def lib_bool_def finish_def
    updateAliceTxToDB_def
  by (intro calm_rules | simp add: Let_def)+

lemma inert_core: "inert core"
  by (simp add: inert_def)

lemma keeps_core_lib: "keeps core (lib_bool E pkg lop)"
  unfolding lib_bool_def by (intro frame inert_core)

lemmas guard_rules = guards_check guards_bind guards_if guards_calm keeps_core_marks calm_marks
  keeps_core_lib calm_messages calm_contract keeps_pod_messages keeps_contract inert_core calm_simple
  keeps_ret

lemma guards_steps:
  assumes A: "stable A" and k: "guards G h0 A k"
  shows "guards G h0 A (receive_request E p k)" "guards G h0 A (send_response E p k)"
    "guards G h0 A (recheck_deposit E k)" "guards G h0 A (negotiate E pkg dir k)"
    "guards G h0 A (verify_request E pkg p q msg st b k)"
  unfolding receive_request_def send_response_def recheck_deposit_def negotiate_def
    verify_request_def step_ok_def step_true_def lib_method_defs
  by (cases b; (rule A k guard_rules frame | simp only: if_True if_False)+)+

section \<open>What the checks establish\<close>

text \<open>The clock, when last asked before the submission or earlier, was ten minutes before \<open>x\<close>.\<close>

definition in_time :: "ext \<Rightarrow> int \<Rightarrow> call list \<Rightarrow> bool" where
  "in_time E x h \<longleftrightarrow> (\<exists>h1. suffix (CNow # h1) h \<and> sint (Now E (CNow # h1) + 600) \<le> x)"

text \<open>The proof library accepted the receipt.\<close>

definition accepted :: "ext \<Rightarrow> pod_pkg \<Rightarrow> string \<Rightarrow> string \<Rightarrow> call list \<Rightarrow> bool" where
  "accepted E pkg f g h \<longleftrightarrow> (\<exists>h1 hd F. suffix (CLib pkg hd (OnReceipt f g) # h1) h \<and>
     is_ok (fst (Lib E (CLib pkg hd (OnReceipt f g) # h1) F)))"

text \<open>The contract said that the buyer's deposit covers the price and the locks of other sales.\<close>

definition covered :: "ext \<Rightarrow> string \<Rightarrow> string \<Rightarrow> int64 \<Rightarrow> int64 \<Rightarrow> call list \<Rightarrow> bool" where
  "covered E a b p lock h \<longleftrightarrow> (\<exists>h1 d.
     suffix (CBobDeposits (HexToAddress E b) (HexToAddress E a) # h1) h \<and>
     BobDeposits E (CBobDeposits (HexToAddress E b) (HexToAddress E a) # h1) = Ok d \<and>
     dpst_Stat d \<noteq> 1 \<and> sint (p + lock) \<le> sint (Int64 (dpst_Value d)))"

lemma evidence_mono:
  assumes "suffix h h'"
  shows "in_time E x h \<Longrightarrow> in_time E x h'" "accepted E pkg f g h \<Longrightarrow> accepted E pkg f g h'"
    "covered E a b p lock h \<Longrightarrow> covered E a b p lock h'"
  using assms unfolding in_time_def accepted_def covered_def by (meson suffix_order.trans)+

text \<open>Everything the seller has before it submits.\<close>

definition guard :: "ext \<Rightarrow> Transaction \<Rightarrow> (string \<Rightarrow> int64) \<Rightarrow> pod_pkg \<Rightarrow> string \<Rightarrow> string \<Rightarrow>
    call \<Rightarrow> call list \<Rightarrow> bool" where
  "guard E t D pkg f g c h \<longleftrightarrow> (\<exists>p x sign. sub_terms c = Some (sint p, x, sign) \<and>
     covered E (tx_AliceAddr t) (tx_BobAddr t) p (D (tx_AliceAddr t @ tx_BobAddr t)) h \<and>
     accepted E pkg f g h \<and> in_time E x h \<and>
     (\<exists>vals. signed_by_bob E t vals sign = Ok () \<and> AbiUint256 (sint p) \<in> set vals \<and>
        AbiUint256 x \<in> set vals))"

definition started :: "Transaction \<Rightarrow> (string \<Rightarrow> int64) \<Rightarrow> alice_st \<Rightarrow> bool" where
  "started t D s \<longleftrightarrow> tx_AliceAddr (cur s) = tx_AliceAddr t \<and> tx_BobAddr (cur s) = tx_BobAddr t \<and>
     DepositLockMap s = D"

definition priced :: "Transaction \<Rightarrow> (string \<Rightarrow> int64) \<Rightarrow> alice_st \<Rightarrow> bool" where
  "priced t D s \<longleftrightarrow> started t D s \<and> tx_Price (cur s) = tx_UnitPrice (cur s) * tx_Count (cur s)"

definition secured :: "ext \<Rightarrow> Transaction \<Rightarrow> (string \<Rightarrow> int64) \<Rightarrow> alice_st \<Rightarrow> bool" where
  "secured E t D s \<longleftrightarrow> tx_AliceAddr (cur s) = tx_AliceAddr t \<and> tx_BobAddr (cur s) = tx_BobAddr t \<and>
     tx_Price (cur s) = tx_UnitPrice (cur s) * tx_Count (cur s) \<and>
     covered E (tx_AliceAddr t) (tx_BobAddr t) (tx_Price (cur s)) (D (tx_AliceAddr t @ tx_BobAddr t)) (hist s)"

definition receipted :: "ext \<Rightarrow> Transaction \<Rightarrow> (string \<Rightarrow> int64) \<Rightarrow> pod_pkg \<Rightarrow> string \<Rightarrow> string \<Rightarrow> alice_st \<Rightarrow> bool" where
  "receipted E t D pkg f g s \<longleftrightarrow> secured E t D s \<and> accepted E pkg f g (hist s)"

definition timely :: "ext \<Rightarrow> Transaction \<Rightarrow> (string \<Rightarrow> int64) \<Rightarrow> pod_pkg \<Rightarrow> string \<Rightarrow> string \<Rightarrow> alice_st \<Rightarrow> bool" where
  "timely E t D pkg f g s \<longleftrightarrow> receipted E t D pkg f g s \<and> in_time E (sint (tx_ExpireAt (cur s))) (hist s)"

definition same_tx :: "alice_st \<Rightarrow> alice_st \<Rightarrow> bool" where
  "same_tx s' s \<longleftrightarrow> tx_AliceAddr (cur s') = tx_AliceAddr (cur s) \<and> tx_BobAddr (cur s') = tx_BobAddr (cur s) \<and>
     tx_Price (cur s') = tx_Price (cur s) \<and> tx_UnitPrice (cur s') = tx_UnitPrice (cur s) \<and>
     tx_Count (cur s') = tx_Count (cur s) \<and> tx_ExpireAt (cur s') = tx_ExpireAt (cur s) \<and>
     DepositLockMap s' = DepositLockMap s"

lemma core_eqD: "core s' = core s \<Longrightarrow> same_tx s' s"
  by (cases "cur s"; cases "cur s'") (simp add: same_tx_def)

lemma stable_assertions:
  "stable (started t D)" "stable (priced t D)" "stable (secured E t D)"
  "stable (receipted E t D pkg f g)" "stable (timely E t D pkg f g)"
proof -
  have stableI: "stable A" if "\<And>s s'. suffix (hist s) (hist s') \<Longrightarrow> same_tx s' s \<Longrightarrow> A s \<Longrightarrow> A s'" for A
    unfolding stable_def by (blast intro: that quietly_suffix core_eqD)
  show "stable (started t D)" "stable (priced t D)" "stable (secured E t D)"
    "stable (receipted E t D pkg f g)" "stable (timely E t D pkg f g)"
    by (rule stableI, auto simp: same_tx_def started_def priced_def secured_def receipted_def timely_def
        intro: evidence_mono)+
qed

lemma guards_count:
  assumes m: "calm m" "keeps core m" and k: "guards G h0 (priced t D) k"
  shows "guards G h0 (started t D) (count_request m k)"
proof -
  have "wp (do { set_tx (\<lambda>t. t\<lparr>tx_Count := c\<rparr>); put_map;
      set_tx (\<lambda>t. t\<lparr>tx_Price := tx_Count t * tx_UnitPrice t\<rparr>); k }) (\<lambda>_ s'. safe G h0 (hist s')) s"
    if "quietly h0 (hist s)" "started t D s" for c s
    using k that by (simp add: guards_def wps set_tx_def put_map_def priced_def started_def mult.commute)
  moreover have "wp (do { set_tx (\<lambda>t. t\<lparr>tx_Count := 0\<rparr>);
      ret (Err ''invalid request file or response file'') }) (\<lambda>_ s'. safe G h0 (hist s')) s"
    if "quietly h0 (hist s)" for s
    using that by (simp add: wps set_tx_def safe_def)
  ultimately show ?thesis
    unfolding guards_def count_request_def wp_bind [of m]
    by (auto intro!: wp_mono [OF wp_calm_core [OF m stable_assertions(1)]] simp: wp_return safe_def
        split: res.split)
qed

lemma guards_vrf_price:
  assumes "guards G h0 (priced t D) k"
  shows "guards G h0 (\<lambda>s. started t D s \<and> tx_Count (cur s) = 1)
    (do { set_tx (\<lambda>t. t\<lparr>tx_Price := tx_UnitPrice t\<rparr>); k })"
  using assms by (simp add: guards_def wps set_tx_def priced_def started_def)

lemma wp_calcuDeposit_covers:
  "wp (calcuDeposit E a b v) (\<lambda>r s'. r = Ok True \<longrightarrow>
     covered E a b v (DepositLockMap s (a @ b)) (hist s')) s"
  unfolding calcuDeposit_def
  by (auto simp: wps covered_def not_less suffix_ConsI split: res.splits intro!: exI)

lemma keeps_cur_calcuDeposit: "keeps cur (calcuDeposit E a b v)"
  by (rule keeps_calcuDeposit) (simp_all add: inert_def)

lemma safe_fail: "quietly h0 (hist s) \<Longrightarrow> wp (fail_tx st msg) (\<lambda>_ s'. safe G h0 (hist s')) s"
  by (blast intro: wp_mono calmD calm_marks safe_still)

lemma guards_lock:
  assumes k: "guards G h0 (secured E t D) k"
  shows "guards G h0 (priced t D) (lock_deposit E k)"
  unfolding guards_def
proof (intro allI impI)
  fix s assume h: "quietly h0 (hist s)" and s: "priced t D s"
  let ?a = "tx_AliceAddr t" and ?b = "tx_BobAddr t" and ?v = "tx_Price (cur s)"
  have k': "guards G h0 (secured E t D) (deferring unlock k)"
    using k calm_marks by (intro guards_deferring)
  have "wp (calcuDeposit E ?a ?b ?v) (\<lambda>r s'. quietly h0 (hist s') \<and>
      (r = Ok True \<longrightarrow> covered E ?a ?b ?v (DepositLockMap s (?a @ ?b)) (hist s')) \<and> cur s' = cur s) s"
    unfolding wp_conj
    by (intro conjI wp_calcuDeposit_covers keeps_wp keeps_cur_calcuDeposit calmD calm_contract h)
  with s show "wp (lock_deposit E k) (\<lambda>_ s'. safe G h0 (hist s')) s"
    unfolding lock_deposit_def wp_bind wp_get wp_check priced_def started_def
    by (auto elim!: wp_mono split: res.split
        intro!: safe_fail safe_still k' [unfolded guards_def, rule_format] simp: secured_def)
qed

lemma guards_strengthen:
  assumes "\<And>s. A s \<Longrightarrow> wp m (\<lambda>r s'. quietly (hist s) (hist s') \<and> (r = Ok True \<longrightarrow> A' s')) s"
    and "guards G h0 A' k"
  shows "guards G h0 A (step_true m st msg k)"
  unfolding guards_def step_true_def wp_check
proof (intro allI impI)
  fix s assume "quietly h0 (hist s)" "A s"
  with assms(2) show "wp m (\<lambda>r s'. case r of
      Ok v \<Rightarrow> wp (if \<not> v then fail_tx st msg else k) (\<lambda>_ s'. safe G h0 (hist s')) s'
    | Err e \<Rightarrow> wp (fail_tx st msg) (\<lambda>_ s'. safe G h0 (hist s')) s'
    | Panic \<Rightarrow> safe G h0 (hist s')) s"
    by (intro wp_mono [OF assms(1)])
      (auto split: res.split simp: guards_def intro: safe_still safe_fail quietly_trans)
qed

lemma wp_accepts:
  assumes "secured E t D s"
  shows "wp (AliceVerifyReceipt E pkg f g) (\<lambda>r s'. quietly (hist s) (hist s') \<and>
    (r = Ok True \<longrightarrow> receipted E t D pkg f g s')) s"
proof -
  have "wp (AliceVerifyReceipt E pkg f g) (\<lambda>r s'. r = Ok True \<longrightarrow> accepted E pkg f g (hist s')) s"
    unfolding AliceVerifyReceipt_def lib_bool_def accepted_def
    by (auto simp: wps is_ok_ex split: prod.split res.split) (metis fst_conv suffix_order.refl)
  moreover have "wp (AliceVerifyReceipt E pkg f g) (\<lambda>_ s'. quietly (hist s) (hist s') \<and> secured E t D s') s"
    unfolding AliceVerifyReceipt_def
    by (intro wp_calm_core calm_marks keeps_core_lib stable_assertions assms quietly_refl)
  ultimately have "wp (AliceVerifyReceipt E pkg f g) (\<lambda>r s'. (r = Ok True \<longrightarrow> accepted E pkg f g (hist s')) \<and>
      quietly (hist s) (hist s') \<and> secured E t D s') s"
    by (simp add: wp_conj)
  then show ?thesis by (rule wp_mono) (simp add: receipted_def)
qed

lemma guards_verify_receipt:
  assumes "guards G h0 (receipted E t D pkg f g) k"
  shows "guards G h0 (secured E t D) (verify_receipt E pkg f g failed st k)"
  unfolding verify_receipt_def
  by (rule guards_strengthen [OF wp_accepts], assumption)
    (rule guards_bind calm_marks keeps_core_marks stable_assertions assms)+

lemma guards_check_expiry:
  assumes "guards G h0 (timely E t D pkg f g) k"
  shows "guards G h0 (receipted E t D pkg f g) (check_expiry E k)"
proof -
  have "quietly h0 (hist s) \<Longrightarrow> quietly h0 (CNow # hist s)" for s :: alice_st
    using quietly_Cons [of CNow] quietly_trans by force
  moreover have "timely E t D pkg f g (s\<lparr>hist := CNow # hist s\<rparr>)"
    if "receipted E t D pkg f g s" "sint (Now E (CNow # hist s) + 600) \<le> sint (tx_ExpireAt (cur s))" for s
  proof -
    have "suffix (hist s) (CNow # hist s)" by (simp add: suffix_ConsI)
    with that show ?thesis
      by (auto simp: timely_def receipted_def secured_def in_time_def intro: evidence_mono)
  qed
  ultimately show ?thesis
    using assms unfolding guards_def check_expiry_def
    by (auto simp: wps not_less intro!: safe_fail)
qed

lemma guards_receive_receipt:
  assumes "\<And>sign. guards G h0 (secured E t D) (k sign)"
  shows "guards G h0 (secured E t D) (receive_receipt E p msg st k)"
proof -
  have ex: "guards G h0 (secured E t D) (do { set_tx (\<lambda>t. t\<lparr>tx_ExpireAt := x\<rparr>); m })"
    if "guards G h0 (secured E t D) m" for x and m :: alice
    unfolding guards_def set_tx_def wps
    by (intro allI impI that [unfolded guards_def, rule_format]) (auto simp: secured_def)
  show ?thesis
    unfolding receive_receipt_def
    by (rule ex assms guards_cases guard_rules stable_assertions frame)+
qed

lemma signed_by_bob_cong: "tx_BobAddr t = tx_BobAddr t' \<Longrightarrow> signed_by_bob E t = signed_by_bob E t'"
  by (auto simp: signed_by_bob_def fun_eq_iff split: res.split)

lemma guards_submit:
  assumes sub: "\<And>t'. submits (signed_terms E t' sign) (sub t')" and rd: "\<And>x y z. calm (rd x y z)"
  shows "guards (guard E t D pkg f g) h0 (timely E t D pkg f g) (submit_secret sub rd)"
  unfolding guards_def
proof (intro allI impI)
  fix s assume h: "quietly h0 (hist s)" and s: "timely E t D pkg f g s"
  let ?G = "guard E t D pkg f g"
  have g: "?G c h" if "signed_terms E (cur s) sign c" "quietly (hist s) h" for c h
  proof -
    have b: "signed_by_bob E (cur s) = signed_by_bob E t"
      using s by (intro signed_by_bob_cong) (simp add: timely_def receipted_def secured_def)
    from that(1) obtain vals where "signed_by_bob E t vals sign = Ok ()"
      "sub_terms c = Some (sint (tx_Price (cur s)), sint (tx_ExpireAt (cur s)), sign)"
      "AbiUint256 (sint (tx_UnitPrice (cur s) * tx_Count (cur s))) \<in> set vals"
      "AbiUint256 (sint (tx_ExpireAt (cur s))) \<in> set vals"
      by (auto simp: signed_terms_def b)
    with s show ?thesis
      unfolding guard_def timely_def receipted_def secured_def
      using evidence_mono [OF quietly_suffix [OF that(2)]] by metis
  qed
  have rest: "wp m (\<lambda>_ s'. safe ?G h0 (hist s')) s'" if "safe ?G h0 (hist s')" "calm m"
    for s' and m :: alice
    using that by (blast intro: wp_mono [OF calmD] safe_quietly quietly_refl)
  have "wp (sub (cur s)) (\<lambda>_ s'. safe ?G h0 (hist s')) s"
    by (rule wp_mono [OF submitsD [OF sub quietly_refl]]) (erule ended_safe [OF _ h g])
  then show "wp (submit_secret sub rd) (\<lambda>_ s'. safe ?G h0 (hist s')) s"
    unfolding submit_secret_def step_ok_def
    by (simp only: wp_bind [of State_Monad.get] wp_get wp_check [of "sub _"])
      (erule wp_mono, auto split: res.split intro!: rest calm_marks calm_check calm_bind calm_simple rd)
qed

section \<open>The secret is guarded\<close>

lemmas sale_guards = guards_count guards_vrf_price guards_lock guards_receive_receipt
  guards_verify_receipt guards_check_expiry guards_submit guards_steps stable_assertions
  submit_functions calm_contract calm_readers keeps_file_readers inert_core guards_deferring calm_marks

lemma safe_with_tx:
  assumes "guards G (hist w) (\<lambda>s. started t (DepositLockMap w) s \<and> tx_Count (cur s) = tx_Count t) m"
  shows "safe G (hist w) (hist (snd (run_state (with_tx t m) w)))"
proof -
  let ?s = "world.extend w (alice_st.fields t)"
  have "wp m (\<lambda>_ s'. safe G (hist w) (hist s')) ?s"
    by (rule assms [unfolded guards_def, rule_format])
      (simp_all add: world.defs alice_st.defs started_def)
  then show ?thesis
    by (simp add: with_tx_def wp_def world.defs split: prod.splits)
qed

lemma guards_weaken: "guards G h0 A m \<Longrightarrow> (\<And>s. A' s \<Longrightarrow> A s) \<Longrightarrow> guards G h0 A' m"
  by (simp add: guards_def)

lemma safe_counted:
  "guards G (hist w) (started t (DepositLockMap w)) m \<Longrightarrow>
     safe G (hist w) (hist (snd (run_state (with_tx t m) w)))"
  by (rule safe_with_tx) (auto elim: guards_weaken)

lemma safe_vrf:
  "guards G (hist w) (\<lambda>s. started t (DepositLockMap w) s \<and> tx_Count (cur s) = 1) m \<Longrightarrow> tx_Count t = 1 \<Longrightarrow>
     safe G (hist w) (hist (snd (run_state (with_tx t m) w)))"
  by (rule safe_with_tx) simp

text \<open>What the seller has in hand at a submission of the sale \<open>t\<close> started in the world \<open>w\<close>.\<close>

abbreviation sale_guard :: "ext \<Rightarrow> BasicConfig \<Rightarrow> pod_pkg \<Rightarrow> Transaction \<Rightarrow> world \<Rightarrow> call \<Rightarrow> call list \<Rightarrow> bool" where
  "sale_guard E B pkg t w \<equiv>
     guard E t (DepositLockMap w) pkg (txDir B t @ ''/receipt'') (txDir B t @ ''/secret'')"

lemma counted_handlers_guarded:
  "safe (sale_guard E B PC t w) (hist w) (hist (snd (run_state (AliceTxForPC E B t) w)))"
  "safe (sale_guard E B POC t w) (hist w) (hist (snd (run_state (AliceTxForPOC E B t) w)))"
  "safe (sale_guard E B PAS t w) (hist w) (hist (snd (run_state (AliceTxForPAS E B t) w)))"
  "safe (sale_guard E B PASVC t w) (hist w) (hist (snd (run_state (AliceTxForPASVC E B t) w)))"
  "safe (sale_guard E B TC t w) (hist w) (hist (snd (run_state (AliceTxForTC E B t) w)))"
  "safe (sale_guard E B TOC t w) (hist w) (hist (snd (run_state (AliceTxForTOC E B t) w)))"
  "safe (sale_guard E B TAS t w) (hist w) (hist (snd (run_state (AliceTxForTAS E B t) w)))"
  "safe (sale_guard E B TASVC t w) (hist w) (hist (snd (run_state (AliceTxForTASVC E B t) w)))"
  unfolding handler_defs Let_def by (rule safe_counted sale_guards)+

lemma vrf_handlers_guarded:
  assumes "tx_Count t = 1"
  shows "safe (sale_guard E B TQ t w) (hist w) (hist (snd (run_state (AliceTxForTQ E B t) w)))"
    "safe (sale_guard E B TOQ t w) (hist w) (hist (snd (run_state (AliceTxForTOQ E B t) w)))"
  unfolding handler_defs Let_def by (rule safe_vrf [OF _ assms] sale_guards)+

text \<open>
  C1. The seller gives its secret away at most once in a sale, and only when the buyer's receipt
  has passed every check: the price submitted was covered by the buyer's deposit beside the locks
  of the running sales, the proof library accepted the receipt, the expiry time submitted was at
  least ten minutes ahead when the clock was read, and the buyer signed exactly this price and
  this expiry time. A query sale charges for one unit; the transaction of an accepted connection
  has this count.
\<close>

theorem secret_guarded:
  assumes "run_state (AliceTxFor pkg E B t) w = (r, w')"
    and "pkg \<in> {TQ, TOQ} \<longrightarrow> tx_Count t = 1"
  shows "safe (guard E t (DepositLockMap w) pkg (txDir B t @ ''/receipt'') (txDir B t @ ''/secret''))
    (hist w) (hist w')"
  using counted_handlers_guarded [of E t w B] vrf_handlers_guarded [of t E w B] assms
  by (cases pkg) auto

lemma sample_AliceDir: "AliceDir sample_dirs = ''a''"
  by (simp add: sample_dirs_def)

theorem secret_guarded_witness:
  "safe (guard sample_ext (zero_Transaction\<lparr>tx_Count := 1\<rparr>) (\<lambda>_. 0) TQ ''a/transaction//receipt'' ''a/transaction//secret'')
     [] (hist (snd (run_state (AliceTxFor TQ sample_ext sample_dirs
        (zero_Transaction\<lparr>tx_Count := 1\<rparr>)) sample_world)))"
  using secret_guarded [OF surjective_pairing, of TQ "zero_Transaction\<lparr>tx_Count := 1\<rparr>" sample_ext
      sample_world sample_dirs]
  by (simp add: txDir_def zero_Transaction_def sample_world_def sample_AliceDir)

end
