(* ===== verification/Purchases.thy ===== *)
theory Purchases
  imports Buyer Safety
begin

text \<open>
  What holds of every purchase, whatever its mode and however it ends: what the answer, the row
  in the database and the receipt sent to the seller stand for.
\<close>

section \<open>Programs that only move the state along a relation\<close>

definition always :: "('s \<Rightarrow> 's \<Rightarrow> bool) \<Rightarrow> ('s, 'a) state \<Rightarrow> bool" where
  "always R m \<longleftrightarrow> (\<forall>s. wp m (\<lambda>_ s'. R s s') s)"

text \<open>The interface: a relation that every piece of a program may rely on and has to keep.\<close>

locale progress =
  fixes R :: "'s \<Rightarrow> 's \<Rightarrow> bool"
  assumes refl: "R s s"
    and trans: "R s s' \<Longrightarrow> R s' s'' \<Longrightarrow> R s s''"
begin

lemma always_from: "always R m \<Longrightarrow> R s0 s \<Longrightarrow> wp m (\<lambda>_ s'. R s0 s') s"
  unfolding always_def by (blast intro: wp_mono trans)

lemma always_bind: "always R m \<Longrightarrow> (\<And>x. always R (k x)) \<Longrightarrow> always R (State_Monad.bind m k)"
  unfolding always_def wps by (blast intro: wp_mono trans)

lemma always_deferring: "always R d \<Longrightarrow> always R m \<Longrightarrow> always R (deferring d m)"
  unfolding always_def wps by (blast intro: wp_mono trans)

lemma always_check:
  assumes "always R m" "\<And>e. always R (h e)" "\<And>v. always R (k v)"
  shows "always R (check m h k)"
proof -
  have "wp m (\<lambda>r s'. case r of Ok v \<Rightarrow> wp (k v) (\<lambda>_ s'. R s s') s' | Err e \<Rightarrow> wp (h e) (\<lambda>_ s'. R s s') s'
      | Panic \<Rightarrow> R s s') s" for s
    by (rule wp_mono [OF always_from [OF assms(1) refl]])
      (auto split: res.split intro: always_from assms(2,3))
  then show ?thesis by (simp add: always_def wp_check)
qed

lemma always_simple:
  "always R (ret x)" "always R State_Monad.get" "always R a \<Longrightarrow> always R b \<Longrightarrow> always R (if c then a else b)"
  "(\<And>u v. always R (g u v)) \<Longrightarrow> always R (case y of (u, v) \<Rightarrow> g u v)"
  "always R n \<Longrightarrow> (\<And>v. always R (j v)) \<Longrightarrow> always R (case z of None \<Rightarrow> n | Some v \<Rightarrow> j v)"
  "(\<And>v. always R (ok v)) \<Longrightarrow> (\<And>e. always R (er e)) \<Longrightarrow> always R pa \<Longrightarrow>
     always R (case x' of Ok v \<Rightarrow> ok v | Err e \<Rightarrow> er e | Panic \<Rightarrow> pa)"
  "(\<And>v. always R (fi v)) \<Longrightarrow> always R di \<Longrightarrow> always R (case fn of File v \<Rightarrow> fi v | Dir \<Rightarrow> di)"
  "always R (k' v') \<Longrightarrow> always R (Let v' k')"
  by (simp_all add: always_def wps refl split: prod.split option.split res.split fnode.split)

end

section \<open>What the services leave behind\<close>

text \<open>The buyer's node is waiting for the secret exactly when the receipt has been sent.\<close>

abbreviation receipt_sent :: "'z world_scheme \<Rightarrow> bool" where
  "receipt_sent s \<equiv> nstate (nd s) = stateTxSecretWait"

text \<open>
  From one state of a handler to another the history grew, by nothing but calls that submit no
  proof, the local transaction is the same and no receipt was sent.
\<close>

definition onward :: "bob_st \<Rightarrow> bob_st \<Rightarrow> bool" where
  "onward s s' \<longleftrightarrow> quietly (hist s) (hist s') \<and> bcur s' = bcur s \<and> (receipt_sent s' \<longrightarrow> receipt_sent s)"

interpretation service: progress onward
  by unfold_locales (auto simp: onward_def intro: quietly_trans)

lemma always_services:
  "sub_terms c = None \<Longrightarrow> always onward (ask c f)" "always onward (ask_lib E pkg h lop)"
  "always onward (set_fs F)"
  by (simp_all add: always_def onward_def wps quietly_Cons set_fs_def split: prod.split)

text \<open>The same of the node alone.\<close>

definition unpaid :: "node \<Rightarrow> node \<Rightarrow> bool" where
  "unpaid n n' \<longleftrightarrow> (nstate n' = stateTxSecretWait \<longrightarrow> nstate n = stateTxSecretWait)"

interpretation message: progress unpaid
  by unfold_locales (auto simp: unpaid_def)

lemma always_on_node: "always unpaid m \<Longrightarrow> always onward (on_node m)"
  unfolding always_def unpaid_def wps onward_def by (auto elim!: wp_mono)

lemma always_messages:
  "post \<noteq> stateTxSecretWait \<Longrightarrow> always unpaid (sendTxMsg ty p sz pre post)"
  "post \<noteq> stateTxSecretWait \<Longrightarrow> always unpaid (recvTxMsg ty pre post)"
  unfolding always_def unpaid_def
  by (auto intro!: wp_mono [OF wp_sendTxMsg_moves] wp_mono [OF wp_recvTxMsg_moves]
      simp: moves_def split: if_splits)

lemmas message_rules = message.always_simple message.always_check message.always_bind always_messages

lemma always_bob_messages:
  "always unpaid (SendTxRequest req sz)" "always unpaid RecvTxResponse"
  "always unpaid (SendNegoRequest req sz)" "always unpaid RecvNegoAckReq"
  "always unpaid (SendNegoAck req sz)"
  unfolding SendTxRequest_def RecvTxResponse_def SendNegoRequest_def RecvNegoAckReq_def SendNegoAck_def
  by ((intro message_rules | simp)+)

lemmas service_rules = service.always_simple service.always_check service.always_deferring
  service.always_bind always_services always_on_node always_bob_messages sub_terms.simps

lemma onward_files:
  "always onward (ReadFile E p)" "always onward (OpenFile E p)" "always onward (WriteOpened E p bs)"
  "always onward (WriteFile E p bs)" "always onward (read_json E flds z e1 e2 p)" "always onward (save E p bs)"
  unfolding ReadFile_def OpenFile_def WriteFile_def WriteOpened_def read_json_def save_def
  by (intro service_rules)+

lemma onward_poll: "(\<And>i. always onward (g i)) \<Longrightarrow> always onward (poll n sid g)"
  by (induction n) (simp_all, (intro service_rules | simp)+)

lemma onward_operations:
  "always onward (readReceiptForComplaint E p)" "always onward (readReceiptForAtomicSwap E p)"
  "always onward (readReceiptForAtomicSwapVc E p)" "always onward (readVRFReceipt E p)"
  "always onward (readScrtForComplaint E sid a b)" "always onward (readScrtForAtomicSwap E sid a b)"
  "always onward (readScrtForAtomicSwapVc E sid a b)" "always onward (readScrtForVRFQ E sid a b)"
  "always onward (BobSaveSecretForComplaint E cs p)" "always onward (BobSaveSecretForAtomicSwap E as p)"
  "always onward (BobSaveSecretForAtomicSwapVc E vs p)" "always onward (BobSaveSecretForVRFQ E qs p)"
  "always onward (BobSendPODReq E p)" "always onward (BobRcvPODResp E p)"
  "always onward (BobSendNegoReq E p)" "always onward (BobRcvNegoResp E p q)" "always onward (BobSendNegoResp E p)"
  unfolding file_reader_defs contract_defs receipt_defs pod_message_defs
  by ((intro service_rules onward_files onward_poll | simp)+)

lemma onward_library:
  "always onward (bob_lib E pkg lop)" "always onward (bob_bool E pkg lop)" "always onward (BobNewReq E pkg p)"
  "always onward (free_session E pkg)" "always onward (new_session E pkg lop fi fa)"
  unfolding bob_lib_def bob_bool_def BobNewReq_def free_session_def new_session_def
  by (intro service_rules)+

section \<open>Evidence in the history\<close>

text \<open>The library answered the call \<open>lop\<close> of package \<open>pkg\<close> with a result, or with an error.\<close>

definition accepted :: "ext \<Rightarrow> pod_pkg \<Rightarrow> lib_op \<Rightarrow> call list \<Rightarrow> bool" where
  "accepted E pkg lop h \<longleftrightarrow> (\<exists>x h2 F. suffix (CLib pkg x lop # h2) h \<and> is_ok (fst (Lib E (CLib pkg x lop # h2) F)))"

definition refused :: "ext \<Rightarrow> pod_pkg \<Rightarrow> lib_op \<Rightarrow> call list \<Rightarrow> bool" where
  "refused E pkg lop h \<longleftrightarrow> (\<exists>x h2 F e. suffix (CLib pkg x lop # h2) h \<and> fst (Lib E (CLib pkg x lop # h2) F) = Err e)"

text \<open>The contract took a claim against the seller \<open>a\<close> for the session \<open>sid\<close>.\<close>

definition claimed :: "ext \<Rightarrow> address \<Rightarrow> int \<Rightarrow> call list \<Rightarrow> bool" where
  "claimed E a sid h \<longleftrightarrow> (\<exists>v i j x y ms n h2. suffix (CClaimComplaint v a sid i j x y ms n # h2) h \<and>
     is_ok (Transact E (CClaimComplaint v a sid i j x y ms n # h2)))"

lemma evidence_lasts:
  assumes "suffix h h'"
  shows "accepted E pkg lop h \<Longrightarrow> accepted E pkg lop h'" "refused E pkg lop h \<Longrightarrow> refused E pkg lop h'"
    "claimed E a sid h \<Longrightarrow> claimed E a sid h'"
  using assms unfolding accepted_def refused_def claimed_def by (blast intro: suffix_order.trans)+

text \<open>The library call by which the package checks the secret.\<close>

definition secret_check :: "pod_pkg \<Rightarrow> string \<Rightarrow> lib_op" where
  "secret_check pkg dir = (if pkg \<in> {TQ, TOQ} then OnSecretTo (dir @ ''/secret'') (dir @ ''/positions'')
     else OnSecret (dir @ ''/secret''))"

abbreviation response_check :: "string \<Rightarrow> lib_op" where
  "response_check dir \<equiv> OnResponse (dir @ ''/response'') (dir @ ''/receipt'')"

text \<open>What a purchase that is recorded as closed, or as claimed, has gone through.\<close>

definition delivered :: "ext \<Rightarrow> pod_pkg \<Rightarrow> string \<Rightarrow> call list \<Rightarrow> bool" where
  "delivered E pkg dir h \<longleftrightarrow> accepted E pkg (response_check dir) h \<and> accepted E pkg (secret_check pkg dir) h \<and>
     (pkg \<notin> {TQ, TOQ} \<longrightarrow> accepted E pkg (Decrypt (dir @ ''/output'')) h)"

definition complained :: "ext \<Rightarrow> pod_pkg \<Rightarrow> BobTransaction \<Rightarrow> string \<Rightarrow> call list \<Rightarrow> bool" where
  "complained E pkg t dir h \<longleftrightarrow> pkg \<in> {PC, POC, TC, TOC} \<and> accepted E pkg (response_check dir) h \<and>
     refused E pkg (secret_check pkg dir) h \<and> accepted E pkg (GenerateClaim (dir @ ''/claim'')) h \<and>
     (\<exists>sid. SetString (bt_SessionID t) 10 = Some sid \<and> claimed E (HexToAddress E (bt_AliceAddr t)) sid h)"

text \<open>The terms on which a receipt was sent, after the library accepted the seller's response.\<close>

definition committed :: "ext \<Rightarrow> pod_pkg \<Rightarrow> string \<Rightarrow> BobTransaction \<Rightarrow> call list \<Rightarrow> bool" where
  "committed E pkg dir t h \<longleftrightarrow> (\<exists>h2. suffix (CNow # h2) h \<and> accepted E pkg (response_check dir) h2 \<and>
     bt_Price t = bt_UnitPrice t * bt_Count t \<and> bt_ExpireAt t = Now E (CNow # h2) + 36000)"

lemma records_last:
  assumes "suffix h h'"
  shows "delivered E pkg dir h \<Longrightarrow> delivered E pkg dir h'" "complained E pkg t dir h \<Longrightarrow> complained E pkg t dir h'"
    "committed E pkg dir t h \<Longrightarrow> committed E pkg dir t h'"
  using evidence_lasts [OF assms] assms unfolding delivered_def complained_def committed_def
  by (blast intro: suffix_order.trans)+

section \<open>Purchases that tell the truth\<close>

abbreviation bstatus :: "bob_st \<Rightarrow> string" where
  "bstatus s \<equiv> bt_Status (bcur s)"

definition final :: "string \<Rightarrow> bool" where
  "final st \<longleftrightarrow> st \<in> {TRANSACTION_STATUS_CLOSED, TRANSACTION_STATUS_SEND_CLIAM}"

text \<open>The part of the local transaction that no step after the receipt changes.\<close>

abbreviation terms :: "BobTransaction \<Rightarrow> BobTransaction" where
  "terms t \<equiv> t\<lparr>bt_Status := []\<rparr>"

text \<open>What identifies the purchase; no step changes it.\<close>

abbreviation identity :: "BobTransaction \<Rightarrow> string \<times> string \<times> int64 \<times> int64" where
  "identity t \<equiv> (bt_SessionID t, bt_AliceAddr t, bt_UnitPrice t, bt_Count t)"

definition truthful :: "ext \<Rightarrow> pod_pkg \<Rightarrow> string \<Rightarrow> BobTransaction \<Rightarrow> string res \<Rightarrow> bob_st \<Rightarrow> bool" where
  "truthful E pkg dir t r s \<longleftrightarrow> identity (bcur s) = identity t \<and>
     (r = Panic \<or> (\<exists>n. r = Ok (step_failed n)) \<or> r = Ok (purchased (bt_SessionID t))) \<and>
     (r = Ok (purchased (bt_SessionID t)) \<longleftrightarrow> final (bstatus s)) \<and>
     (bstatus s = TRANSACTION_STATUS_CLOSED \<longrightarrow> delivered E pkg dir (hist s)) \<and>
     (bstatus s = TRANSACTION_STATUS_SEND_CLIAM \<longrightarrow> complained E pkg t dir (hist s)) \<and>
     (receipt_sent s \<longrightarrow> committed E pkg dir (bcur s) (hist s))"

text \<open>
  \<open>tells A m\<close>: from a state of this purchase that has no final status yet and satisfies \<open>A\<close>, the
  rest \<open>m\<close> of the handler ends truthfully.
\<close>

definition tells :: "ext \<Rightarrow> pod_pkg \<Rightarrow> string \<Rightarrow> BobTransaction \<Rightarrow> (bob_st \<Rightarrow> bool) \<Rightarrow> bob \<Rightarrow> bool" where
  "tells E pkg dir t A m \<longleftrightarrow> (\<forall>s. identity (bcur s) = identity t \<longrightarrow> \<not> final (bstatus s) \<longrightarrow> A s \<longrightarrow>
     wp m (truthful E pkg dir t) s)"

text \<open>Assertions that survive services and changes of the status.\<close>

definition durable :: "(bob_st \<Rightarrow> bool) \<Rightarrow> bool" where
  "durable A \<longleftrightarrow> (\<forall>s s'. A s \<longrightarrow> quietly (hist s) (hist s') \<longrightarrow> terms (bcur s') = terms (bcur s) \<longrightarrow>
     (receipt_sent s' \<longrightarrow> receipt_sent s) \<longrightarrow> A s')"

text \<open>Before the receipt, and after it.\<close>

definition before :: "(call list \<Rightarrow> bool) \<Rightarrow> bob_st \<Rightarrow> bool" where
  "before ev s \<longleftrightarrow> \<not> receipt_sent s \<and> ev (hist s)"

definition after :: "ext \<Rightarrow> pod_pkg \<Rightarrow> string \<Rightarrow> (call list \<Rightarrow> bool) \<Rightarrow> bob_st \<Rightarrow> bool" where
  "after E pkg dir ev s \<longleftrightarrow> (receipt_sent s \<longrightarrow> committed E pkg dir (bcur s) (hist s)) \<and> ev (hist s)"

definition lasting :: "(call list \<Rightarrow> bool) \<Rightarrow> bool" where
  "lasting ev \<longleftrightarrow> (\<forall>h h'. ev h \<longrightarrow> suffix h h' \<longrightarrow> ev h')"

lemma lasting_rules:
  "lasting (\<lambda>_. True)" "lasting (accepted E pkg lop)" "lasting (refused E pkg lop)"
  "lasting ev \<Longrightarrow> lasting ev' \<Longrightarrow> lasting (\<lambda>h. ev h \<and> ev' h)"
  unfolding lasting_def by (blast intro: evidence_lasts)+

lemma committed_terms: "terms t' = terms t \<Longrightarrow> committed E pkg dir t' h = committed E pkg dir t h"
proof -
  assume "terms t' = terms t"
  then have "bt_Price t' = bt_Price t" "bt_UnitPrice t' = bt_UnitPrice t" "bt_Count t' = bt_Count t"
    "bt_ExpireAt t' = bt_ExpireAt t" by (metis BobTransaction.select_convs BobTransaction.surjective BobTransaction.update_convs(2))+
  then show ?thesis by (simp add: committed_def)
qed

lemma durable_before: "lasting ev \<Longrightarrow> durable (before ev)"
  unfolding durable_def before_def lasting_def by (blast dest: quietly_suffix)

lemma durable_after: "lasting ev \<Longrightarrow> durable (after E pkg dir ev)"
  unfolding durable_def after_def lasting_def
  by (metis committed_terms quietly_suffix records_last(3))

text \<open>An assertion the steps can be checked with: durable, and truthful about a receipt sent.\<close>

definition sound :: "ext \<Rightarrow> pod_pkg \<Rightarrow> string \<Rightarrow> (bob_st \<Rightarrow> bool) \<Rightarrow> bool" where
  "sound E pkg dir A \<longleftrightarrow> durable A \<and>
     (\<forall>s. A s \<longrightarrow> receipt_sent s \<longrightarrow> committed E pkg dir (bcur s) (hist s))"

lemma sound_before: "lasting ev \<Longrightarrow> sound E pkg dir (before ev)"
  by (simp add: sound_def durable_before) (simp add: before_def)

lemma sound_after: "lasting ev \<Longrightarrow> sound E pkg dir (after E pkg dir ev)"
  by (simp add: sound_def durable_after) (simp add: after_def)

lemmas sound_rules = sound_before sound_after lasting_rules

lemma not_purchased: "step_failed n \<noteq> purchased sid"
  by (simp add: step_failed_def purchased_def RESPONSE_TRANSACTION_FAILED_def RESPONSE_SUCCESS_def
      answer_def quoted_def)

lemma statuses_not_final:
  "\<not> final TRANSACTION_STATUS_START" "\<not> final TRANSACTION_STATUS_START_FAILED"
  "\<not> final TRANSACTION_STATUS_NEGO" "\<not> final TRANSACTION_STATUS_NEGO_FAILED"
  "\<not> final TRANSACTION_STATUS_RECEIVED_REQUEST" "\<not> final TRANSACTION_STATUS_INVALID_REQUEST"
  "\<not> final TRANSACTION_STATUS_RECEIVED_REQUEST_FAILED" "\<not> final TRANSACTION_STATUS_RECEIVED_RESPONSE"
  "\<not> final TRANSACTION_STATUS_SEND_RESPONSE_FAILED" "\<not> final TRANSACTION_STATUS_RECEIVED_RECEIPT_FAILED"
  "\<not> final TRANSACTION_STATUS_RECEIPT" "\<not> final TRANSACTION_STATUS_GOT_SECRET"
  "\<not> final TRANSACTION_STATUS_GOT_SECRET_FAILED" "\<not> final TRANSACTION_STATUS_SEND_SECRET_FAILED"
  "\<not> final TRANSACTION_STATUS_VERIFY_FAILED" "\<not> final TRANSACTION_STATUS_SEND_CLIAM_FAILED"
  "\<not> final TRANSACTION_STATUS_DECRYPT_FAILED"
  by (simp_all add: final_def status_defs)

lemma truthful_failed:
  assumes "identity (bcur s) = identity t" "\<not> final (bstatus s)" "r = Panic \<or> (\<exists>n. r = Ok (step_failed n))"
    and "receipt_sent s \<longrightarrow> committed E pkg dir (bcur s) (hist s)"
  shows "truthful E pkg dir t r s"
  using assms by (auto simp: truthful_def final_def not_purchased)

lemma durable_status:
  assumes "durable A" "A s"
  shows "A (s\<lparr>bcur := (bcur s)\<lparr>bt_Status := st\<rparr>\<rparr>)"
    "A (s\<lparr>bcur := (bcur s)\<lparr>bt_Status := st\<rparr>, BobTxMap := M\<rparr>)"
  using assms unfolding durable_def by (auto elim!: allE [of _ s] dest!: spec)

lemma durable_onward:
  assumes "durable A" "A s" "onward s s'"
  shows "A s'"
  using assms unfolding durable_def onward_def by metis

lemma committed_status [simp]: "committed E pkg dir (t\<lparr>bt_Status := st\<rparr>) h = committed E pkg dir t h"
  by (simp add: committed_def)

lemma tells_give_up:
  assumes "sound E pkg dir A" "\<not> final st"
  shows "tells E pkg dir t A (give_up b st n)"
  using assms durable_status [of A]
  by (auto simp: tells_def give_up_def set_bt_def bput_map_def wps sound_def not_purchased
      intro!: truthful_failed)

lemma tells_mark:
  assumes "sound E pkg dir A" "\<not> final st" "tells E pkg dir t A k"
  shows "tells E pkg dir t A (do { bmark st; k })"
  using assms durable_status [of A]
  by (simp add: tells_def bmark_def set_bt_def bput_map_def wps sound_def)

text \<open>A step that keeps the assertion and the local transaction, whatever it answers.\<close>

lemma tells_check_keep:
  assumes m: "\<And>s. A s \<Longrightarrow> wp m (\<lambda>_ s'. bcur s' = bcur s \<and> A s') s"
    and A: "\<And>s. A s \<Longrightarrow> receipt_sent s \<Longrightarrow> committed E pkg dir (bcur s) (hist s)"
    and h: "\<And>e. tells E pkg dir t A (h e)" and k: "\<And>v. tells E pkg dir t A (k v)"
  shows "tells E pkg dir t A (check m h k)"
  unfolding tells_def wp_check
proof (intro allI impI)
  fix s assume s: "identity (bcur s) = identity t" "\<not> final (bstatus s)" "A s"
  have "wp m (\<lambda>_ s'. identity (bcur s') = identity t \<and> \<not> final (bstatus s') \<and> A s') s"
    by (rule wp_mono [OF m [OF s(3)]]) (use s in auto)
  then show "wp m (\<lambda>r s'. case r of Ok v \<Rightarrow> wp (k v) (truthful E pkg dir t) s'
      | Err e \<Rightarrow> wp (h e) (truthful E pkg dir t) s' | Panic \<Rightarrow> truthful E pkg dir t Panic s') s"
    by (rule wp_mono) (use h k A in \<open>auto simp: tells_def split: res.split intro!: truthful_failed\<close>)
qed

lemma tells_check:
  assumes A: "sound E pkg dir A" and m: "always onward m"
    and h: "\<And>e. tells E pkg dir t A (h e)" and k: "\<And>v. tells E pkg dir t A (k v)"
  shows "tells E pkg dir t A (check m h k)"
proof (rule tells_check_keep [OF _ _ h k])
  show "wp m (\<lambda>_ s'. bcur s' = bcur s \<and> A s') s" if "A s" for s
    by (rule wp_mono [OF m [unfolded always_def, rule_format]])
      (use that A in \<open>auto simp: sound_def onward_def [of s] intro: durable_onward\<close>)
  show "A s \<Longrightarrow> receipt_sent s \<Longrightarrow> committed E pkg dir (bcur s) (hist s)" for s
    using A by (simp add: sound_def)
qed

lemma tells_must:
  assumes "sound E pkg dir A" "\<not> final st" "always onward m" "\<And>v. tells E pkg dir t A (k v)"
  shows "tells E pkg dir t A (must m st n k)"
  unfolding must_def by (intro tells_check tells_give_up assms)

text \<open>What a library call of the package adds to the evidence.\<close>

lemma evidence_now:
  assumes "Lib E (CLib pkg x lop # h) F = (r, F')"
  shows "r = Ok v \<Longrightarrow> accepted E pkg lop (CLib pkg x lop # h)"
    "r = Err e \<Longrightarrow> refused E pkg lop (CLib pkg x lop # h)"
  unfolding accepted_def refused_def
  by (rule exI [of _ x], rule exI [of _ h], rule exI [of _ F], use assms in simp)+

lemma wp_bob_bool:
  "wp (bob_bool E pkg lop) (\<lambda>r s'. onward s s' \<and> (r = Ok True \<longrightarrow> accepted E pkg lop (hist s')) \<and>
     (r = Ok False \<longrightarrow> refused E pkg lop (hist s')) \<and> (\<forall>e. r \<noteq> Err e)) s"
  unfolding bob_bool_def bob_lib_def onward_def
  by (auto simp: wps quietly_Cons evidence_now split: prod.split res.split)

lemma tells_bob_bool:
  assumes A: "durable A" and m: "\<And>s. A s \<Longrightarrow> receipt_sent s \<Longrightarrow> committed E pkg dir (bcur s) (hist s)"
    and yes: "tells E pkg dir t (\<lambda>s. A s \<and> accepted E pkg lop (hist s)) (k True)"
    and no: "tells E pkg dir t (\<lambda>s. A s \<and> refused E pkg lop (hist s)) (k False)"
  shows "tells E pkg dir t A (check (bob_bool E pkg lop) h k)"
  unfolding tells_def wp_check
proof (intro allI impI)
  fix s assume s: "identity (bcur s) = identity t" "\<not> final (bstatus s)" "A s"
  have "wp (bob_bool E pkg lop) (\<lambda>r s'. identity (bcur s') = identity t \<and> \<not> final (bstatus s') \<and> A s' \<and>
      (r = Ok True \<longrightarrow> accepted E pkg lop (hist s')) \<and> (r = Ok False \<longrightarrow> refused E pkg lop (hist s')) \<and>
      (\<forall>e. r \<noteq> Err e)) s"
    by (rule wp_mono [OF wp_bob_bool]) (use s A in \<open>auto simp: onward_def intro: durable_onward\<close>)
  then show "wp (bob_bool E pkg lop) (\<lambda>r s'. case r of Ok v \<Rightarrow> wp (k v) (truthful E pkg dir t) s'
      | Err e \<Rightarrow> wp (h e) (truthful E pkg dir t) s' | Panic \<Rightarrow> truthful E pkg dir t Panic s') s"
    by (rule wp_mono)
      (use m yes no in \<open>auto simp: tells_def split: res.split intro!: truthful_failed; metis (full_types)\<close>)
qed

lemma tells_weaken: "tells E pkg dir t A m \<Longrightarrow> (\<And>s. A' s \<Longrightarrow> A s) \<Longrightarrow> tells E pkg dir t A' m"
  by (simp add: tells_def)

lemma tells_lib:
  assumes A: "sound E pkg dir A"
    and "tells E pkg dir t (\<lambda>s. A s \<and> accepted E pkg lop (hist s)) k" and "\<not> final st"
  shows "tells E pkg dir t A (must_true (bob_bool E pkg lop) st n k)"
  unfolding must_true_def
proof (rule tells_bob_bool)
  show "durable A" using A by (simp add: sound_def)
  show "A s \<Longrightarrow> receipt_sent s \<Longrightarrow> committed E pkg dir (bcur s) (hist s)" for s
    using A by (simp add: sound_def)
  show "tells E pkg dir t (\<lambda>s. A s \<and> accepted E pkg lop (hist s))
      (if \<not> True then give_up True st n else k)" using assms(2) by simp
  show "tells E pkg dir t (\<lambda>s. A s \<and> refused E pkg lop (hist s))
      (if \<not> False then give_up True st n else k)"
    by simp (rule tells_weaken [OF tells_give_up [OF A assms(3)]], simp)
qed

lemma tells_succeed:
  assumes "\<And>s. A s \<Longrightarrow> receipt_sent s \<Longrightarrow> committed E pkg dir (bcur s) (hist s)"
    and "st = TRANSACTION_STATUS_CLOSED \<and> (\<forall>s. A s \<longrightarrow> delivered E pkg dir (hist s)) \<or>
      st = TRANSACTION_STATUS_SEND_CLIAM \<and> (\<forall>s. A s \<longrightarrow> complained E pkg t dir (hist s))"
  shows "tells E pkg dir t A (succeed st)"
  using assms unfolding tells_def succeed_def bmark_def set_bt_def bput_map_def wps truthful_def
  by (auto simp: final_def status_defs)

lemma truthful_onward:
  "truthful E pkg dir t r s \<Longrightarrow> onward s s' \<Longrightarrow> truthful E pkg dir t r s'"
  unfolding truthful_def onward_def by (auto dest: quietly_suffix intro: records_last)

lemma tells_deferring: "always onward d \<Longrightarrow> tells E pkg dir t A m \<Longrightarrow> tells E pkg dir t A (deferring d m)"
proof -
  assume d: "always onward d" and m: "tells E pkg dir t A m"
  have "wp d (\<lambda>_. truthful E pkg dir t r) s" if "truthful E pkg dir t r s" for r s
    by (rule wp_mono [OF d [unfolded always_def, rule_format]]) (rule truthful_onward [OF that])
  with m show ?thesis unfolding tells_def wp_deferring by (blast intro: wp_mono)
qed

lemma tells_get: "(\<And>x. tells E pkg dir t A (f x)) \<Longrightarrow> tells E pkg dir t A (State_Monad.bind State_Monad.get f)"
  by (simp add: tells_def wps)

lemma tells_if: "tells E pkg dir t A a \<Longrightarrow> tells E pkg dir t A b \<Longrightarrow> tells E pkg dir t A (if c then a else b)"
  by simp

lemma tells_prod: "(\<And>u v. tells E pkg dir t A (g u v)) \<Longrightarrow> tells E pkg dir t A (case y of (u, v) \<Rightarrow> g u v)"
  by (cases y) simp

text \<open>A library call whose answer is not needed later.\<close>

lemma tells_lib_plain:
  "sound E pkg dir A \<Longrightarrow> \<not> final st \<Longrightarrow> tells E pkg dir t A k \<Longrightarrow>
     tells E pkg dir t A (must_true (bob_bool E pkg lop) st n k)"
  by (rule tells_lib) (auto elim: tells_weaken)

section \<open>The steps of a purchase\<close>

lemma tells_start:
  assumes ev: "lasting ev" and k: "tells E pkg dir t (before ev) k"
  shows "tells E pkg dir t (before ev) (start_session E pkg (new_session E pkg lop fi fa) b k)"
proof -
  have pod: "tells E pkg dir t (before ev) (do { set_bt (\<lambda>u. u\<lparr>bt_PoD := f u\<rparr>); m })"
    if "tells E pkg dir t (before ev) m" for f m
    using that by (simp add: tells_def set_bt_def wps before_def)
  note rest = pod [OF tells_give_up [OF sound_before [OF ev] statuses_not_final(2)]]
    pod [OF tells_deferring [OF onward_library(4) k]]
  show ?thesis
    unfolding tells_def start_session_def new_session_def wps
  proof (intro allI impI, goal_cases)
    case (1 s)
    then have "before ev (s\<lparr>hist := CLib pkg None lop # hist s, fs := F\<rparr>)" for F
      using ev by (auto simp: before_def lasting_def suffix_Cons)
    with 1 rest show ?case
      by (auto simp: tells_def wps before_def split: prod.split res.split intro!: truthful_failed)
  qed
qed

lemma tells_negotiate:
  assumes "sound E pkg dir A" and "tells E pkg dir t A k"
  shows "tells E pkg dir t A (bob_negotiate E pkg dir k)"
  unfolding bob_negotiate_def Let_def BobGeneNegoReq_def BobDealNegoResp_def BobGeneNegoResp_def
  by (intro tells_lib_plain tells_must tells_mark assms statuses_not_final onward_operations)

lemma tells_send_request:
  assumes "sound E pkg dir A" and "tells E pkg dir t A k" and "\<not> final st" and "\<not> final st'"
  shows "tells E pkg dir t A (send_request E pkg dir n st st' noted k)"
  unfolding send_request_def
  by (intro tells_must tells_mark tells_if assms statuses_not_final onward_operations onward_library)

lemma before_and: "(\<lambda>s. before ev s \<and> ev' (hist s)) = before (\<lambda>h. ev h \<and> ev' h)"
  by (auto simp: before_def)

lemma after_and: "(\<lambda>s. after E pkg dir ev s \<and> ev' (hist s)) = after E pkg dir (\<lambda>h. ev h \<and> ev' h)"
  by (auto simp: after_def)

lemma tells_receive_response:
  assumes "tells E pkg dir t (before (accepted E pkg (response_check dir))) k"
  shows "tells E pkg dir t (before (\<lambda>_. True)) (receive_response E pkg dir n inMap k)"
  unfolding receive_response_def BobVerifyResp_def
  by (intro tells_check tells_give_up tells_lib sound_rules onward_operations statuses_not_final,
      unfold before_and simp_thms, intro tells_mark sound_rules statuses_not_final assms)

text \<open>Between fixing the terms and sending the receipt.\<close>

definition ready :: "ext \<Rightarrow> pod_pkg \<Rightarrow> string \<Rightarrow> (call list \<Rightarrow> bool) \<Rightarrow> bob_st \<Rightarrow> bool" where
  "ready E pkg dir ev s \<longleftrightarrow> committed E pkg dir (bcur s) (hist s) \<and> ev (hist s)"

lemma sound_ready: "lasting ev \<Longrightarrow> sound E pkg dir (ready E pkg dir ev)"
  unfolding sound_def durable_def ready_def lasting_def
  by (metis committed_terms quietly_suffix records_last(3))

lemma tells_terms:
  assumes ev: "lasting ev" "\<And>h. ev h \<Longrightarrow> accepted E pkg (response_check dir) h"
    and k: "tells E pkg dir t (ready E pkg dir ev) k"
  shows "tells E pkg dir t (before ev) (do {
     set_bt (\<lambda>t. t\<lparr>bt_Price := bt_UnitPrice t * bt_Count t\<rparr>);
     now \<leftarrow> ask CNow (Now E);
     set_bt (\<lambda>t. t\<lparr>bt_ExpireAt := now + 36000\<rparr>);
     k })"
  unfolding tells_def set_bt_def wps
proof (intro allI impI k [unfolded tells_def, rule_format], goal_cases)
  case (3 s)
  then have e: "ev (hist s)" by (simp add: before_def)
  then have "ev (CNow # hist s)" using ev(1) by (auto simp: lasting_def suffix_Cons)
  with ev(2) [OF e] show ?case by (auto simp: ready_def committed_def)
qed simp_all

lemma tells_send_PODRecpt:
  assumes ev: "lasting ev" and k: "tells E pkg dir t (after E pkg dir ev) k" and "\<not> final st"
  shows "tells E pkg dir t (ready E pkg dir ev) (must (BobSendPODRecpt E p x bs sg) st n (\<lambda>_. k))"
  unfolding must_def
proof (rule tells_check_keep)
  show "wp (BobSendPODRecpt E p x bs sg) (\<lambda>_ s'. bcur s' = bcur s \<and> ready E pkg dir ev s') s"
    if "ready E pkg dir ev s" for s
    using that unfolding BobSendPODRecpt_def Let_def wps by (intro wpI) (simp add: ready_def)
  show "tells E pkg dir t (ready E pkg dir ev) k"
    by (rule tells_weaken [OF k]) (simp add: ready_def after_def)
  show "tells E pkg dir t (ready E pkg dir ev) (give_up True st n)"
    by (rule tells_give_up [OF sound_ready [OF ev] assms(3)])
qed (simp add: ready_def)

lemma tells_send_receipt:
  assumes ev: "lasting ev" "\<And>h. ev h \<Longrightarrow> accepted E pkg (response_check dir) h"
    and rd: "\<And>p. always onward (rd p)" and k: "tells E pkg dir t (after E pkg dir ev) k"
  shows "tells E pkg dir t (before ev) (send_receipt E dir n rd sg k)"
  unfolding send_receipt_def Let_def
  by (intro tells_must tells_prod tells_terms [OF ev] tells_get tells_send_PODRecpt [OF ev(1)]
      tells_mark rd k sound_before sound_ready sound_after ev(1) statuses_not_final service.always_simple)

lemma tells_fetch_secret:
  assumes "sound E pkg dir A" "\<And>x y z. always onward (rd x y z)" "\<And>x y. always onward (sv x y)"
    and "\<not> final st" "\<not> final st'" "tells E pkg dir t A k"
  shows "tells E pkg dir t A (fetch_secret dir n rd sv st st' k)"
  unfolding fetch_secret_def by (intro tells_get tells_must assms)

lemma tells_verify_secret:
  assumes ev: "lasting ev"
    and wrong: "tells E pkg dir t (after E pkg dir (\<lambda>h. ev h \<and> refused E pkg lop h)) wrong"
    and right: "tells E pkg dir t (after E pkg dir (\<lambda>h. ev h \<and> accepted E pkg lop h)) right"
  shows "tells E pkg dir t (after E pkg dir ev) (verify_secret (bob_bool E pkg lop) early wrong right)"
proof -
  have S: "sound E pkg dir (after E pkg dir ev')" if "lasting ev'" for ev'
    using that by (rule sound_after)
  have marked: "tells E pkg dir t (after E pkg dir ev') (do { (if b then ret () else bmark TRANSACTION_STATUS_GOT_SECRET); m })"
    if "tells E pkg dir t (after E pkg dir ev') m" "lasting ev'" for b ev' m
    using that tells_mark [OF S [OF that(2)] statuses_not_final(12) that(1)] by (cases b) simp_all
  have "tells E pkg dir t (after E pkg dir ev) (check (bob_bool E pkg lop) (\<lambda>_. wrong) (\<lambda>rs. do {
     (if early then ret () else bmark TRANSACTION_STATUS_GOT_SECRET);
     (if \<not> rs then wrong else right) }))"
    by (rule tells_bob_bool [OF durable_after [OF ev]], simp add: after_def, unfold after_and)
      (simp_all add: marked wrong right lasting_rules ev)
  from marked [OF this ev, of "\<not> early"] show ?thesis
    unfolding verify_secret_def by (cases early) simp_all
qed

text \<open>How a purchase ends, once the response was accepted.\<close>

lemma tells_decrypt:
  assumes ev: "lasting ev"
    "\<And>h. ev h \<Longrightarrow> accepted E pkg (response_check dir) h \<and> accepted E pkg (secret_check pkg dir) h"
  shows "tells E pkg dir t (after E pkg dir ev) (decrypt E pkg dir n)"
  unfolding decrypt_def BobDecrypt_def
proof (rule tells_lib)
  show "tells E pkg dir t (\<lambda>s. after E pkg dir ev s \<and> accepted E pkg (Decrypt (dir @ ''/output'')) (hist s))
      (succeed TRANSACTION_STATUS_CLOSED)"
    by (rule tells_succeed) (use ev(2) in \<open>auto simp: after_def delivered_def\<close>)
qed (simp_all add: sound_after ev(1) statuses_not_final)

lemma wp_claimToContract:
  "wp (claimToContractForComplaint E sid b p a) (\<lambda>r s'. onward s s' \<and>
     (is_ok r \<longrightarrow> (\<exists>i. SetString sid 10 = Some i \<and> claimed E (HexToAddress E a) i (hist s')))) s"
proof -
  have "always onward (readClaim E p :: (bob_st, Claim res) state)"
    unfolding readClaim_def by (intro service_rules onward_files)
  then have rc: "wp (readClaim E p) (\<lambda>_ s'. onward s s') s"
    by (simp add: always_def)
  have grow: "onward s (s'\<lparr>hist := CClaimComplaint x0 x1 x2 x3 x4 x5 x6 x7 x8 # hist s'\<rparr>)"
    if "onward s s'" for s' x0 x1 x2 x3 x4 x5 x6 x7 x8
    using that by (auto simp: onward_def intro: quietly_trans [OF _ quietly_Cons])
  have call: "claimed E x1 x2 (CClaimComplaint x0 x1 x2 x3 x4 x5 x6 x7 x8 # h)"
    if "Transact E (CClaimComplaint x0 x1 x2 x3 x4 x5 x6 x7 x8 # h) = Ok v" for x0 x1 x2 x3 x4 x5 x6 x7 x8 h v
    unfolding claimed_def by (intro exI conjI, rule suffix_order.refl, simp add: that)
  show ?thesis
    unfolding claimToContractForComplaint_def Let_def wps
    by (auto simp: opt_res_def service.refl wps split: option.split res.split intro!: wp_mono [OF rc] grow call)
qed

lemma tells_claim:
  assumes ev: "lasting ev" "pkg \<in> {PC, POC, TC, TOC}"
    "\<And>h. ev h \<Longrightarrow> accepted E pkg (response_check dir) h \<and> refused E pkg (secret_check pkg dir) h"
  shows "tells E pkg dir t (after E pkg dir ev) (claim E pkg dir n)"
proof -
  let ?gen = "accepted E pkg (GenerateClaim (dir @ ''/claim''))"
  let ?ev = "\<lambda>h. ev h \<and> ?gen h"
  have S: "sound E pkg dir (after E pkg dir ?ev)" by (intro sound_rules ev)
  have fin: "tells E pkg dir t (\<lambda>s. after E pkg dir ?ev s \<and>
      (\<exists>i. SetString (bt_SessionID t) 10 = Some i \<and> claimed E (HexToAddress E (bt_AliceAddr t)) i (hist s)))
      (succeed TRANSACTION_STATUS_SEND_CLIAM)"
    by (rule tells_succeed) (use ev in \<open>auto simp: after_def complained_def\<close>)
  have sub: "tells E pkg dir t (after E pkg dir ?ev) (do {
     s \<leftarrow> State_Monad.get;
     must (claimToContractForComplaint E (bt_SessionID (bcur s)) (bt_Bulletin (bcur s)) (dir @ ''/claim'')
         (bt_AliceAddr (bcur s))) TRANSACTION_STATUS_SEND_CLIAM_FAILED n (\<lambda>_.
     succeed TRANSACTION_STATUS_SEND_CLIAM) })"
    unfolding tells_def wps must_def
  proof (intro allI impI, goal_cases)
    case (1 s)
    have "wp (claimToContractForComplaint E (bt_SessionID (bcur s)) (bt_Bulletin (bcur s)) (dir @ ''/claim'')
        (bt_AliceAddr (bcur s))) (\<lambda>r s'. identity (bcur s') = identity t \<and> \<not> final (bstatus s') \<and>
          after E pkg dir ?ev s' \<and> (is_ok r \<longrightarrow> (\<exists>i. SetString (bt_SessionID t) 10 = Some i \<and>
            claimed E (HexToAddress E (bt_AliceAddr t)) i (hist s')))) s"
      by (rule wp_mono [OF wp_claimToContract])
        (use 1 S in \<open>auto simp: sound_def onward_def [of s] intro: durable_onward\<close>)
    then show ?case
      by (rule wp_mono)
        (use fin tells_give_up [OF S statuses_not_final(16), of t True n] S
          in \<open>auto simp: tells_def sound_def split: res.split intro!: truthful_failed\<close>)
  qed
  show ?thesis
    unfolding claim_def BobGeneClaim_def
    by (intro tells_mark tells_lib; (unfold after_and)?; intro sub sound_rules ev statuses_not_final)
qed

lemma tells_complaint_end:
  assumes "pkg \<in> {PC, POC, TC, TOC}"
  shows "tells E pkg dir t (after E pkg dir (accepted E pkg (response_check dir))) (complaint_end E pkg dir n early)"
proof -
  have "OnSecret (dir @ ''/secret'') = secret_check pkg dir" using assms by (auto simp: secret_check_def)
  then show ?thesis
    unfolding complaint_end_def BobVerifySecret_def
    by (simp only:) (intro tells_verify_secret tells_claim tells_decrypt lasting_rules assms, simp_all)
qed

lemma tells_swap_end:
  assumes "pkg \<notin> {TQ, TOQ}" and "\<not> final st"
  shows "tells E pkg dir t (after E pkg dir (accepted E pkg (response_check dir)))
    (verify_secret (BobVerifySecret E pkg (dir @ ''/secret'')) early (give_up b st n) (decrypt E pkg dir m))"
proof -
  have "OnSecret (dir @ ''/secret'') = secret_check pkg dir" using assms by (auto simp: secret_check_def)
  then show ?thesis
    unfolding BobVerifySecret_def
    by (simp only:) (intro tells_verify_secret tells_give_up tells_decrypt sound_rules assms, simp_all)
qed

lemma tells_query_end:
  assumes "pkg \<in> {TQ, TOQ}"
  shows "tells E pkg dir t (after E pkg dir (accepted E pkg (response_check dir))) (query_end E pkg dir n)"
proof -
  have "OnSecretTo (dir @ ''/secret'') (dir @ ''/positions'') = secret_check pkg dir"
    using assms by (auto simp: secret_check_def)
  moreover have "tells E pkg dir t (after E pkg dir (\<lambda>h. accepted E pkg (response_check dir) h \<and>
      accepted E pkg (secret_check pkg dir) h)) (succeed TRANSACTION_STATUS_CLOSED)"
    by (rule tells_succeed) (use assms in \<open>auto simp: after_def delivered_def\<close>)
  ultimately show ?thesis
    unfolding query_end_def BobVerifySecretQ_def
    by (simp only:) (intro tells_verify_secret tells_give_up sound_rules statuses_not_final)
qed

section \<open>The map of running purchases\<close>

text \<open>The entries of the other purchases, and which purchase this is.\<close>

abbreviation other_purchases :: "bob_st \<Rightarrow> (string \<Rightarrow> BobTransaction option) \<times> string" where
  "other_purchases s \<equiv> ((BobTxMap s)(bt_SessionID (bcur s) := None), bt_SessionID (bcur s))"

lemma inert_other_purchases: "inert other_purchases"
  by (simp add: inert_def)

lemma keeps_set_bt: "(\<And>t. bt_SessionID (f t) = bt_SessionID t) \<Longrightarrow> keeps other_purchases (set_bt f)"
  by (simp add: set_bt_def keeps_update)

lemma keeps_bput_map: "keeps other_purchases bput_map"
  by (simp add: bput_map_def keeps_update)

lemmas purchase_step_defs = start_session_def bob_negotiate_def send_request_def receive_response_def
  send_receipt_def fetch_secret_def verify_secret_def complaint_end_def query_end_def decrypt_def claim_def
  succeed_def must_def must_true_def give_up_def bmark_def

lemmas bob_method_defs = BobVerifyResp_def BobVerifySecret_def BobVerifySecretQ_def BobGeneClaim_def
  BobDecrypt_def BobGeneNegoReq_def BobGeneNegoResp_def BobDealNegoResp_def BobNewReq_def
  free_session_def bob_bool_def bob_lib_def

lemmas bob_session_defs = BobNewSess_def BobNewSessOT_def BobNewSessForTQ_def BobNewSessForTOQ_def

lemma keeps_new_session [frame]: "inert f \<Longrightarrow> keeps f (new_session E pkg lop fi fa)"
  unfolding new_session_def by (intro frame)

section \<open>The contract of a purchase\<close>

text \<open>
  What a finished purchase of transaction \<open>t\<close> leaves behind: the last call is the update of its
  row, the row is truthful, the entries of other purchases are untouched and the purchase's own
  entry is gone if the database took the update.
\<close>

definition accounted :: "ext \<Rightarrow> pod_pkg \<Rightarrow> string \<Rightarrow> BobTransaction \<Rightarrow> world \<Rightarrow> string res \<Rightarrow> world \<Rightarrow> bool" where
  "accounted E pkg dir t w r w' \<longleftrightarrow>
     (\<exists>u h. hist w' = CUpdateBobTx (bt_SessionID t) (updated_row u) # h \<and> identity u = identity t \<and>
        (r = Ok (purchased (bt_SessionID t)) \<longleftrightarrow> final (bt_Status u)) \<and>
        (bt_Status u = TRANSACTION_STATUS_CLOSED \<longrightarrow> delivered E pkg dir h) \<and>
        (bt_Status u = TRANSACTION_STATUS_SEND_CLIAM \<longrightarrow> complained E pkg t dir h) \<and>
        (receipt_sent w' \<longrightarrow> committed E pkg dir u h)) \<and>
     (r = Panic \<or> (\<exists>n. r = Ok (step_failed n)) \<or> r = Ok (purchased (bt_SessionID t))) \<and>
     (\<forall>k. k \<noteq> bt_SessionID t \<longrightarrow> BobTxMap w' k = BobTxMap w k) \<and>
     (DBExec E (hist w') = Ok () \<longrightarrow> BobTxMap w' (bt_SessionID t) = None)"

lemma wp_finish_purchase:
  "wp (finish_purchase E) (\<lambda>_ s'. hist s' = CUpdateBobTx (bt_SessionID (bcur s)) (updated_row (bcur s)) # hist s \<and>
     other_purchases s' = other_purchases s \<and> nd s' = nd s \<and>
     (DBExec E (hist s') = Ok () \<longrightarrow> BobTxMap s' (bt_SessionID (bcur s)) = None)) s"
  by (auto simp: finish_purchase_def updateBobTxToDB_def wps split: res.splits)

lemma purchase_accounts:
  assumes m: "tells E pkg dir t (before (\<lambda>_. True)) m" and k: "keeps other_purchases m"
    and t: "\<not> final (bt_Status t)" and w: "\<not> receipt_sent w"
    and run: "run_state (with_purchase t (deferring (finish_purchase E) m)) w = (r, w')"
  shows "accounted E pkg dir t w r w'"
proof -
  let ?s0 = "world.extend w (bob_st.fields t)"
  have s0: "bcur ?s0 = t" "BobTxMap ?s0 = BobTxMap w" "nd ?s0 = nd w" by (simp_all add: world.defs bob_st.defs)
  obtain r1 s1 where m1: "run_state m ?s0 = (r1, s1)" by (metis surj_pair)
  obtain u s2 where f: "run_state (finish_purchase E) s1 = (u, s2)" by (metis surj_pair)
  from run m1 f have r: "r = r1" "w' = world.truncate s2"
    by (simp_all add: with_purchase_def run_deferring)
  have w2: "hist w' = hist s2" "BobTxMap w' = BobTxMap s2" "nd w' = nd s2" by (simp_all add: r world.defs)
  have tr: "truthful E pkg dir t r s1"
    using m t w s0 unfolding tells_def before_def r by (metis m1 wpD)
  have o: "other_purchases s1 = other_purchases ?s0" using keepsD [OF k m1] .
  from wpD [OF wp_finish_purchase f] have f': "hist s2 = CUpdateBobTx (bt_SessionID (bcur s1)) (updated_row (bcur s1)) # hist s1"
    "other_purchases s2 = other_purchases s1" "nd s2 = nd s1"
    "DBExec E (hist s2) = Ok () \<longrightarrow> BobTxMap s2 (bt_SessionID (bcur s1)) = None"
    by auto
  have "BobTxMap w' x = BobTxMap w x" if "x \<noteq> bt_SessionID t" for x
    using o f'(2) that by (simp add: w2 s0) (metis fun_upd_other)
  moreover have "\<exists>v h. hist w' = CUpdateBobTx (bt_SessionID t) (updated_row v) # h \<and> identity v = identity t \<and>
      (r = Ok (purchased (bt_SessionID t)) \<longleftrightarrow> final (bt_Status v)) \<and>
      (bt_Status v = TRANSACTION_STATUS_CLOSED \<longrightarrow> delivered E pkg dir h) \<and>
      (bt_Status v = TRANSACTION_STATUS_SEND_CLIAM \<longrightarrow> complained E pkg t dir h) \<and>
      (receipt_sent w' \<longrightarrow> committed E pkg dir v h)"
    using tr f'(1,3) by (intro exI [of _ "bcur s1"] exI [of _ "hist s1"]) (auto simp: truthful_def w2)
  ultimately show ?thesis
    unfolding accounted_def using f'(1,4) tr w2 by (auto simp: truthful_def)
qed

lemmas purchase_tells = tells_start tells_negotiate tells_send_request tells_receive_response
  tells_send_receipt tells_fetch_secret sound_rules statuses_not_final onward_operations

lemmas purchase_frame = frame keeps_set_bt keeps_bput_map inert_other_purchases

lemma keeps_purchase_steps:
  assumes k: "keeps other_purchases k"
  shows "keeps other_purchases (start_session E pkg (new_session E pkg lop fi fa) b k)"
    "keeps other_purchases (bob_negotiate E pkg dir k)"
    "keeps other_purchases (send_request E pkg dir n st1 st2 noted k)"
    "keeps other_purchases (receive_response E pkg dir n b k)"
    "(\<And>p. keeps other_purchases (rd p)) \<Longrightarrow> keeps other_purchases (send_receipt E dir n rd sg k)"
    "(\<And>x y z. keeps other_purchases (rs x y z)) \<Longrightarrow> (\<And>x y. keeps other_purchases (sv x y)) \<Longrightarrow>
       keeps other_purchases (fetch_secret dir n rs sv st1 st2 k)"
  unfolding purchase_step_defs bob_method_defs Let_def
  by (intro purchase_frame k | assumption | simp)+

lemma keeps_purchase_ends:
  "keeps other_purchases (complaint_end E pkg dir n early)" "keeps other_purchases (query_end E pkg dir n)"
  "keeps other_purchases (verify_secret (BobVerifySecret E pkg p) early (give_up b st n) (decrypt E pkg dir m))"
  unfolding purchase_step_defs bob_method_defs Let_def
  by (intro purchase_frame | simp)+

lemma handlers_account:
  assumes t: "\<not> final (bt_Status t)" and w: "\<not> receipt_sent w"
    and run: "run_state (BobTxFor pkg E B key t q bf pp) w = (r, w')"
  shows "accounted E pkg (bobDir B t) t w r w'"
  using run
  by (cases pkg; simp only: BobTxFor.simps purchase_defs Let_def bob_session_defs;
      elim purchase_accounts [OF _ _ t w, rotated -1];
      (intro purchase_tells tells_complaint_end tells_swap_end tells_query_end
         keeps_purchase_steps keeps_purchase_ends frame inert_other_purchases | simp)+)

text \<open>The interface between the HTTP handler of a purchase and the handler it runs.\<close>

locale purchase_handler =
  fixes handler :: "ext \<Rightarrow> BasicConfig \<Rightarrow> Key \<Rightarrow> BobTransaction \<Rightarrow> request \<Rightarrow> string \<Rightarrow> string \<Rightarrow> (world, string res) state"
    and pkg :: pod_pkg
  assumes accounts: "\<not> final (bt_Status t) \<Longrightarrow> \<not> receipt_sent w \<Longrightarrow>
      run_state (handler E B key t q bf pp) w = (r, w') \<Longrightarrow> accounted E pkg (bobDir B t) t w r w'"
begin

lemma row:
  assumes "\<not> final (bt_Status t)" "\<not> receipt_sent w" "run_state (handler E B key t q bf pp) w = (r, w')"
  obtains u h where "hist w' = CUpdateBobTx (bt_SessionID t) (updated_row u) # h" "identity u = identity t"
    "r = Ok (purchased (bt_SessionID t)) \<longleftrightarrow> final (bt_Status u)"
    "bt_Status u = TRANSACTION_STATUS_CLOSED \<Longrightarrow> delivered E pkg (bobDir B t) h"
    "bt_Status u = TRANSACTION_STATUS_SEND_CLIAM \<Longrightarrow> complained E pkg t (bobDir B t) h"
    "receipt_sent w' \<Longrightarrow> committed E pkg (bobDir B t) u h"
  using accounts [OF assms] unfolding accounted_def by blast

lemma entries:
  assumes "\<not> final (bt_Status t)" "\<not> receipt_sent w" "run_state (handler E B key t q bf pp) w = (r, w')"
  shows "k \<noteq> bt_SessionID t \<Longrightarrow> BobTxMap w' k = BobTxMap w k"
    "DBExec E (hist w') = Ok () \<Longrightarrow> BobTxMap w' (bt_SessionID t) = None"
  using accounts [OF assms] unfolding accounted_def by blast+

lemma answers:
  assumes "\<not> final (bt_Status t)" "\<not> receipt_sent w" "run_state (handler E B key t q bf pp) w = (r, w')"
  shows "r = Panic \<or> (\<exists>n. r = Ok (step_failed n)) \<or> r = Ok (purchased (bt_SessionID t))"
  using accounts [OF assms] unfolding accounted_def by blast

end

interpretation purchase: purchase_handler "BobTxFor pkg" pkg for pkg
  by unfold_locales (rule handlers_account)

lemma updated_row_simps:
  "btx_SessionId (updated_row u) = bt_SessionID u" "btx_Status (updated_row u) = bt_Status u"
  "btx_Price (updated_row u) = bt_Price u" "btx_ExpireAt (updated_row u) = bt_ExpireAt u"
  by (simp_all add: updated_row_def put_wanted_def Let_def put_demands_def put_phantoms_def put_keys_def
      put_phantomKeys_def bob_row_def)

text \<open>
  C11. However a purchase ends, by success, by any error or by a panic, in any of the ten modes and
  whatever the services and the seller do, its last act is to update its row in the database, and
  the answer says that the purchase succeeded exactly if the row says \<open>closed\<close> or \<open>claimed\<close>. The
  map entries of all other purchases are untouched, and the purchase's own entry is gone if the
  database took the update. The purchase starts with a status that is neither of the two, and
  before a receipt was sent on its connection.
\<close>

theorem purchase_is_recorded:
  assumes "bt_Status t \<notin> {TRANSACTION_STATUS_CLOSED, TRANSACTION_STATUS_SEND_CLIAM}" and "\<not> receipt_sent w"
    and "run_state (BobTxFor pkg E B key t q bulletinFile publicPath) w = (r, w')"
  shows "(\<exists>row h. hist w' = CUpdateBobTx (bt_SessionID t) row # h \<and> btx_SessionId row = bt_SessionID t \<and>
       (r = Ok (purchased (bt_SessionID t)) \<longleftrightarrow>
          btx_Status row \<in> {TRANSACTION_STATUS_CLOSED, TRANSACTION_STATUS_SEND_CLIAM})) \<and>
    (\<forall>k. k \<noteq> bt_SessionID t \<longrightarrow> BobTxMap w' k = BobTxMap w k) \<and>
    (DBExec E (hist w') = Ok () \<longrightarrow> BobTxMap w' (bt_SessionID t) = None)"
proof -
  have t: "\<not> final (bt_Status t)" using assms(1) by (simp add: final_def)
  show ?thesis
    using purchase.row [OF t assms(2,3)] purchase.entries [OF t assms(2,3)]
    by (metis final_def prod.inject updated_row_simps(1,2))
qed

definition sample_request :: request where
  "sample_request = \<lparr>rq_Demands = Some [\<lparr>DemandStart = 0, DemandCount = 3\<rparr>], rq_Phantoms = None, rq_KeyName = [],
     rq_KeyValue = None, rq_PhantomKeyValue = None\<rparr>"

theorem purchase_is_recorded_witness:
  "\<exists>row h. hist (snd (run_state (BobTxFor TC sample_ext sample_dirs sample_owner sample_purchase sample_request
      ''b/bulletin'' ''b/public'') sample_world)) = CUpdateBobTx (bt_SessionID sample_purchase) row # h"
proof -
  have "bt_Status sample_purchase \<notin> {TRANSACTION_STATUS_CLOSED, TRANSACTION_STATUS_SEND_CLIAM}"
    "\<not> receipt_sent sample_world"
    by (simp_all add: sample_purchase_def zero_BobTransaction_def status_defs sample_world_def sample_node_def)
  from purchase_is_recorded [OF this surjective_pairing, of TC sample_ext sample_dirs sample_owner sample_request
      "''b/bulletin''" "''b/public''"]
  show ?thesis by blast
qed

end
