(* ===== verification/Delivery.thy ===== *)
theory Delivery
  imports Purchases
begin

text \<open>
  What a purchase is good for: an honest seller and working services bring every purchase to its
  end, and what a purchase that ended as closed or claimed, or sent a receipt, has behind it.
\<close>

section \<open>Working services\<close>

text \<open>Nothing directly in the directory \<open>d\<close> of the transaction is itself a directory.\<close>

definition flat :: "string \<Rightarrow> filesys \<Rightarrow> bool" where
  "flat d F \<longleftrightarrow> (\<forall>p. F (d @ CHR ''/'' # p) \<noteq> Some Dir)"

text \<open>The file a method of the library writes and the node then reads.\<close>

fun out_file :: "lib_op \<Rightarrow> string option" where
  "out_file (GetRequest p) = Some p"
| "out_file (GetNegoRequest p) = Some p"
| "out_file (OnNegoRequest p q) = Some q"
| "out_file (OnResponse p q) = Some q"
| "out_file _ = None"

text \<open>
  The disk works, and the library accepts everything, writes the files it is told to and replaces
  no file by a directory. The receipt is \<open>rcpt\<close>.
\<close>

definition helpful :: "ext \<Rightarrow> pod_pkg \<Rightarrow> string \<Rightarrow> bytes \<Rightarrow> bool" where
  "helpful E pkg d rcpt \<longleftrightarrow> (\<forall>h. \<not> OsFault E h) \<and> (\<forall>h. WriteFault E h = None) \<and>
     (\<forall>x lop h F. \<exists>v F'. Lib E (CLib pkg x lop # h) F = (Ok v, F') \<and> (flat d F \<longrightarrow> flat d F') \<and>
        (\<forall>p. out_file lop = Some p \<longrightarrow> (\<exists>bs. F' p = Some (File bs) \<and> length bs < 2 ^ 60 \<and>
          ((\<exists>a b. lop = OnResponse a b) \<longrightarrow> bs = rcpt))))"

lemma helpful_os: "helpful E pkg d rcpt \<Longrightarrow> \<not> OsFault E h" "helpful E pkg d rcpt \<Longrightarrow> WriteFault E h = None"
  by (simp_all add: helpful_def)

text \<open>
  The part of a transaction that stays the same for the whole purchase, and what the steps of a
  purchase of \<open>t\<close> find: its files, its transaction and a node of the kind \<open>N\<close>.
\<close>

abbreviation fixed :: "BobTransaction \<Rightarrow> BobTransaction" where
  "fixed t \<equiv> t\<lparr>bt_Status := [], bt_Price := 0, bt_ExpireAt := 0, bt_PoD := (\<lambda>_. zero_PoDBob)\<rparr>"

definition reached :: "string \<Rightarrow> BobTransaction \<Rightarrow> (node \<Rightarrow> bool) \<Rightarrow> bob_st \<Rightarrow> bool" where
  "reached d t N s \<longleftrightarrow> flat d (fs s) \<and> fixed (bcur s) = fixed t \<and> N (nd s)"

definition goes :: "bob \<Rightarrow> string \<Rightarrow> BobTransaction \<Rightarrow> (node \<Rightarrow> bool) \<Rightarrow> (string res \<Rightarrow> bob_st \<Rightarrow> bool) \<Rightarrow> bool" where
  "goes m d t N Q \<longleftrightarrow> (\<forall>s. reached d t N s \<longrightarrow> wp m Q s)"

lemma goesI: "(\<And>s. reached d t N s \<Longrightarrow> wp m Q s) \<Longrightarrow> goes m d t N Q"
  by (simp add: goes_def)

lemma goesD: "goes m d t N Q \<Longrightarrow> reached d t N s \<Longrightarrow> wp m Q s"
  by (simp add: goes_def)

lemma reached_env: "reached d t N s \<Longrightarrow> flat d F \<Longrightarrow> reached d t N (s\<lparr>hist := h, fs := F\<rparr>)"
  by (simp add: reached_def)

lemma wp_lib_ok:
  assumes "helpful E pkg d rcpt" "flat d (fs s)"
    and "\<And>v h F. flat d F \<Longrightarrow> (\<And>p. out_file lop = Some p \<Longrightarrow> \<exists>bs. F p = Some (File bs) \<and> length bs < 2 ^ 60 \<and>
        ((\<exists>a b. lop = OnResponse a b) \<longrightarrow> bs = rcpt)) \<Longrightarrow> Q (Ok v) (s\<lparr>hist := h, fs := F\<rparr>)"
  shows "wp (ask_lib E pkg x lop) Q s"
proof -
  obtain v F where F: "Lib E (CLib pkg x lop # hist s) (fs s) = (Ok v, F)" "flat d (fs s) \<Longrightarrow> flat d F"
    "\<And>p. out_file lop = Some p \<Longrightarrow> \<exists>bs. F p = Some (File bs) \<and> length bs < 2 ^ 60 \<and>
        ((\<exists>a b. lop = OnResponse a b) \<longrightarrow> bs = rcpt)"
    using assms(1) unfolding helpful_def by meson
  have "Q (Ok v) (s\<lparr>hist := CLib pkg x lop # hist s, fs := F\<rparr>)"
    by (rule assms(3)) (use F assms(2) in auto)
  then show ?thesis by (simp add: wps F(1))
qed

lemma wp_ReadFile_ok:
  "helpful E pkg d rcpt \<Longrightarrow> fs s p = Some (File bs) \<Longrightarrow> (\<And>h. Q (Ok bs) (s\<lparr>hist := h\<rparr>)) \<Longrightarrow> wp (ReadFile E p) Q s"
  by (simp add: ReadFile_def wps helpful_os)

lemma wp_WriteFile_ok:
  assumes "helpful E pkg d rcpt" "flat d (fs s)" "\<And>h F. flat d F \<Longrightarrow> Q (Ok ()) (s\<lparr>hist := h, fs := F\<rparr>)"
  shows "wp (WriteFile E (d @ CHR ''/'' # p) bs) Q s"
  using assms by (simp add: WriteFile_def WriteOpened_def set_fs_def wps helpful_os flat_def)

lemma wp_save_ok:
  assumes "helpful E pkg d rcpt" "flat d (fs s)" "\<And>h F. flat d F \<Longrightarrow> Q (Ok ()) (s\<lparr>hist := h, fs := F\<rparr>)"
  shows "wp (save E (d @ CHR ''/'' # p) bs) Q s"
  using assms
  by (auto simp: save_def OpenFile_def WriteOpened_def set_fs_def wps helpful_os flat_def
      split: option.split fnode.split)

section \<open>Single steps\<close>

text \<open>The program constructors, without the calls.\<close>

lemmas flow = wp_check wp_bind wp_get wp_return wp_deferring wp_on_node

lemma goes_mark: "goes k d t N Q \<Longrightarrow> goes (do { bmark st; k }) d t N Q"
  by (simp add: goes_def reached_def bmark_def set_bt_def bput_map_def wps)

lemma goes_lib:
  assumes "helpful E pkg d rcpt" "goes k d t N Q"
  shows "goes (check (bob_lib E pkg lop) h (\<lambda>_. k)) d t N Q"
proof (rule goesI)
  fix s assume s: "reached d t N s"
  then have "flat d (fs s)" by (simp add: reached_def)
  then show "wp (check (bob_lib E pkg lop) h (\<lambda>_. k)) Q s"
    unfolding bob_lib_def flow
    by (rule wp_lib_ok [OF assms(1)]) (simp add: flow goesD [OF assms(2)] reached_env s)
qed

text \<open>A step of the node that succeeds, and one that saves what it received.\<close>

lemma goes_on_node:
  assumes "\<And>n Q'. N n \<Longrightarrow> (\<And>n'. N' n' \<Longrightarrow> Q' (Ok v) n') \<Longrightarrow> wp m Q' n" and "goes (k v) d t N' Q"
  shows "goes (check (on_node m) h k) d t N Q"
  unfolding goes_def reached_def flow
  by (auto intro!: assms(1) simp: goesD [OF assms(2)] reached_def)

lemma goes_save:
  assumes "helpful E pkg d rcpt" "goes (k ()) d t N Q"
  shows "goes (check (save E (d @ CHR ''/'' # p) bs) h k) d t N Q"
  unfolding goes_def reached_def flow
  by (auto intro!: wp_save_ok [OF assms(1)] simp: goesD [OF assms(2)] reached_def)

lemma check_assoc: "check (check m h k) h' k' = check m (\<lambda>e. check (h e) h' k') (\<lambda>v. check (k v) h' k')"
  by (rule state.expand) (auto simp: fun_eq_iff check_def run split: res.split prod.split)


lemma check_ret: "check (ret (Ok v)) h k = k v" "check (ret (Err e)) h k = h e" "check (ret Panic) h k = ret Panic"
  by (rule state.expand, simp add: fun_eq_iff check_def run)+

lemma check_if: "check (if b then m else m') h k = (if b then check m h k else check m' h k)"
  by simp

lemmas normal = must_def must_true_def bob_bool_def check_assoc check_ret check_if if_True if_False not_True_eq_False
  not_False_eq_True prod.case

text \<open>The library writes a file, which is read next; the status may be written in between.\<close>

lemma goes_write_read:
  assumes h: "helpful E pkg d rcpt" and p: "out_file lop = Some p"
    and k: "\<And>bs. length bs < 2 ^ 60 \<Longrightarrow> ((\<exists>a b. lop = OnResponse a b) \<Longrightarrow> bs = rcpt) \<Longrightarrow> goes (k bs) d t N Q"
  shows "goes (check (bob_lib E pkg lop) e (\<lambda>_. check (ReadFile E p) e' k)) d t N Q"
    and "goes (check (bob_lib E pkg lop) e (\<lambda>_. do { bmark st; check (ReadFile E p) e' k })) d t N Q"
proof -
  have read: "wp (check (ReadFile E p) e' k) Q s" if "reached d t N s" "fs s p = Some (File bs)"
    "length bs < 2 ^ 60" "(\<exists>a b. lop = OnResponse a b) \<Longrightarrow> bs = rcpt" for s bs
    unfolding flow by (rule wp_ReadFile_ok [OF h that(2)])
      (use that in \<open>auto intro!: goesD [OF k] simp: reached_def\<close>)
  have lib: "wp (check (bob_lib E pkg lop) e (\<lambda>_. m)) Q s" if s: "reached d t N s"
    and m: "\<And>h F bs. flat d F \<Longrightarrow> F p = Some (File bs) \<Longrightarrow> length bs < 2 ^ 60 \<Longrightarrow>
      ((\<exists>a b. lop = OnResponse a b) \<Longrightarrow> bs = rcpt) \<Longrightarrow> wp m Q (s\<lparr>hist := h, fs := F\<rparr>)" for m s
    unfolding bob_lib_def flow
    by (rule wp_lib_ok [OF h]) (use s m p in \<open>auto simp: reached_def\<close>)
  show "goes (check (bob_lib E pkg lop) e (\<lambda>_. check (ReadFile E p) e' k)) d t N Q"
    by (rule goesI, rule lib, assumption, rule read) (auto simp: reached_def)
  show "goes (check (bob_lib E pkg lop) e (\<lambda>_. do { bmark st; check (ReadFile E p) e' k })) d t N Q"
    unfolding bmark_def set_bt_def bput_map_def
    by (rule goesI, rule lib, assumption, simp only: wp_bind wp_update, rule read) (auto simp: reached_def)
qed

section \<open>The steps of an honest purchase\<close>

text \<open>The buyer's node in state \<open>st\<close>, with the messages \<open>ms\<close> to come.\<close>

definition poised :: "privkey \<Rightarrow> bool \<Rightarrow> nodeState \<Rightarrow> rmsg list \<Rightarrow> node \<Rightarrow> bool" where
  "poised key ot st ms n \<longleftrightarrow> lkey n = key \<and> isOTMode n = ot \<and> nstate n = st \<and> all_ok (conn n) \<and> rlpx_in (conn n) = ms"

lemma poisedD:
  assumes "poised key ot st ms n"
  shows "lkey n = key" "isOTMode n = ot" "nstate n = st" "all_ok (conn n)" "rlpx_in (conn n) = ms"
  using assms by (simp_all add: poised_def)

lemma poised_sent: "poised key ot st ms n \<Longrightarrow> poised key ot st' ms ((sent ty p n)\<lparr>nstate := st'\<rparr>)"
  by (simp add: poised_def sent_def isOTMode_def all_ok_def)

lemma poised_received: "poised key ot st ms n \<Longrightarrow> poised key ot st' rest ((received rest n)\<lparr>nstate := st'\<rparr>)"
  by (simp add: poised_def received_def isOTMode_def all_ok_def)

lemma goes_send_request:
  assumes h: "helpful E pkg d rcpt"
    and k: "goes k d t (poised key ot stateTxResponseWait ms) Q"
  shows "goes (send_request E pkg d c st1 st2 noted k) d t
    (poised key ot (if ot then stateNegotiated else stateSessionEstablished) ms) Q"
proof -
  have send: "goes (check (on_node (SendTxRequest bs (len64 bs))) e (\<lambda>_. k')) d t
      (poised key ot (if ot then stateNegotiated else stateSessionEstablished) ms) Q"
    if "length bs < 2 ^ 60" and k': "goes k' d t (poised key ot stateTxResponseWait ms) Q" for bs k' e
    by (rule goes_on_node [OF wp_SendTxRequest k'])
      (use that(1) in \<open>simp_all add: poisedD poised_sent txPreState_def\<close>)
  show ?thesis
    unfolding send_request_def BobNewReq_def BobSendPODReq_def normal
    by (intro goes_write_read [OF h] send) (simp_all add: k goes_mark)
qed


lemma goes_negotiate:
  assumes h: "helpful E pkg d rcpt" and len: "length ar < 2 ^ 60" "length aq < 2 ^ 60" "ar \<noteq> []"
    and k: "goes k d t (poised key True stateNegotiated ms) Q"
  shows "goes (bob_negotiate E pkg d k) d t (poised key True stateSessionEstablished
    (wire_msg msgNegoAckReq (EncodeUint64 (len64 ar) @ ar @ aq) @ ms)) Q"
proof -
  let ?ms = "wire_msg msgNegoAckReq (EncodeUint64 (len64 ar) @ ar @ aq) @ ms"
  have request: "goes (check (on_node (SendNegoRequest bs (len64 bs))) e (\<lambda>_. k')) d t
      (poised key True stateSessionEstablished ?ms) Q"
    if "length bs < 2 ^ 60" "goes k' d t (poised key True stateNegoAckReqWait ?ms) Q" for bs e k'
    unfolding SendNegoRequest_def
    by (rule goes_on_node [rotated], rule that(2)) (use that(1) in \<open>auto simp: flow wp_if poisedD poised_sent intro!: wp_sendTxMsg\<close>)
  have response: "goes (check (on_node RecvNegoAckReq) e k') d t (poised key True stateNegoAckReqWait ?ms) Q"
    if "goes (k' (ar, aq, len64 ar, len64 aq)) d t (poised key True stateNegoAckReqRecvd ms) Q" for e k'
  proof (rule goes_on_node [rotated], rule that)
    fix n Q' assume n: "poised key True stateNegoAckReqWait ?ms n"
      and Q': "\<And>n'. poised key True stateNegoAckReqRecvd ms n' \<Longrightarrow> Q' (Ok (ar, aq, len64 ar, len64 aq)) n'"
    have "length ar < 2 ^ 62" "length aq < 2 ^ 62" using len by simp_all
    then show "wp RecvNegoAckReq Q' n"
      using poisedD(2) [OF n]
      by (intro wp_RecvNegoAckReq [OF poisedD(3) [OF n] _ poisedD(5) [OF n] _ _ len(3)] Q' poised_received [OF n]) simp_all
  qed
  have ack: "goes (check (on_node (SendNegoAck bs (len64 bs))) e (\<lambda>_. do { bmark st; k })) d t
      (poised key True stateNegoAckReqRecvd ms) Q" if "length bs < 2 ^ 60" for bs e st
    unfolding SendNegoAck_def
    by (rule goes_on_node [rotated], rule goes_mark [OF k])
      (use that in \<open>auto simp: flow wp_if poisedD poised_sent intro!: wp_sendTxMsg\<close>)
  show ?thesis
    unfolding bob_negotiate_def Let_def BobGeneNegoReq_def BobSendNegoReq_def BobRcvNegoResp_def
      BobDealNegoResp_def BobGeneNegoResp_def BobSendNegoResp_def normal
    by (intro goes_write_read [OF h] request response goes_save [OF h] goes_lib [OF h] ack |
        simp only: normal | simp)+
qed

lemma length_b64: "length (b64_encode bs) \<le> 2 * length bs + 2"
  by (induction bs rule: b64_encode.induct) auto

lemma length_enc_int64: "length (enc_int64 v) \<le> 21"
proof -
  have "- (2 ^ 63) \<le> sint v" "sint v < 2 ^ 63" using sint_ge [of v] sint_lt [of v] by simp_all
  then have "nat (sint v) < 10 ^ 20" "nat (- sint v) < 10 ^ 20" by (simp_all add: nat_less_iff)
  then show ?thesis
    using length_Format [of 10 20 "nat (sint v)"] length_Format [of 10 20 "nat (- sint v)"]
    by (simp add: enc_int64_def FormatInt_def)
qed

lemma length_receipt:
  "length (marshal_ReceiptForConnection r) \<le> 2 * length (rc_ReceiptByte r) + 2 * length (rc_ReceiptSign r) + 200"
proof -
  have esc: "length (esc_str s) = length s" if "s \<in> {''receiptByte'', ''receiptSign'', ''price'', ''expireAt''}" for s
    using that by (auto simp: esc_str.simps esc_ascii_def)
  show ?thesis
    using length_b64 [of "rc_ReceiptByte r"] length_b64 [of "rc_ReceiptSign r"]
      length_enc_int64 [of "rc_Price r"] length_enc_int64 [of "rc_ExpireAt r"]
    by (simp add: marshal_ReceiptForConnection_def enc_struct_def bytes_of_string_def enc_string_def
        enc_bytes_def esc)
qed

text \<open>
  What the buyer's keys have to be like: the two hash functions return 32 bytes, and the key signs
  hashes of that length.
\<close>

definition signs :: "ext \<Rightarrow> privkey \<Rightarrow> bool" where
  "signs E key \<longleftrightarrow> ecdsa_laws (Crypto E) \<and> (\<forall>bs. length (Keccak256Hash (Crypto E) bs) = 32) \<and>
     (\<forall>bs. length (SoliditySHA3WithPrefix E bs) = 32) \<and>
     (\<forall>h. length h = 32 \<longrightarrow> (\<exists>sig. Sign (Crypto E) h key = Ok sig))"

lemma goes_sign_and_send:
  assumes "signs E key" and len: "length rcpt < 2 ^ 60"
    and sg: "\<And>u. fixed u = fixed t \<Longrightarrow> \<exists>sig. sg u rc = Ok sig \<and> length sig = 65"
    and k: "goes k d t (poised key ot stateTxSecretWait ms) Q"
  shows "goes (do {
     set_bt (\<lambda>t. t\<lparr>bt_Price := bt_UnitPrice t * bt_Count t\<rparr>);
     now \<leftarrow> ask CNow (Now E);
     set_bt (\<lambda>t. t\<lparr>bt_ExpireAt := now + 36000\<rparr>);
     s \<leftarrow> State_Monad.get;
     must (ret (sg (bcur s) rc)) st n (\<lambda>sig.
     must (BobSendPODRecpt E (bt_Price (bcur s)) (bt_ExpireAt (bcur s)) rcpt sig) st n (\<lambda>_. do {
     bmark TRANSACTION_STATUS_RECEIPT;
     k })) }) d t (poised key ot stateTxResponseRecvd ms) Q" (is "goes ?P d t _ Q")
proof -
  have send: "goes (check (BobSendPODRecpt E p x rcpt sig) e (\<lambda>_. do { bmark st; k })) d t
      (poised key ot stateTxResponseRecvd ms) Q" if "length sig = 65" for p x sig e st
  proof -
    let ?m = "marshal_ReceiptForConnection \<lparr>rc_ReceiptByte = rcpt, rc_ReceiptSign = sig, rc_Price = p, rc_ExpireAt = x\<rparr>"
    have m: "length ?m < 2 ^ 63"
      using length_receipt [of "\<lparr>rc_ReceiptByte = rcpt, rc_ReceiptSign = sig, rc_Price = p, rc_ExpireAt = x\<rparr>"] len that
      by simp
    obtain s where s: "Sign (Crypto E) (Keccak256Hash (Crypto E) ?m) key = Ok s" "ecdsa_laws (Crypto E)"
      using assms(1) unfolding signs_def by blast
    show ?thesis
      unfolding BobSendPODRecpt_def Let_def
      by (rule goes_on_node [rotated], rule goes_mark [OF k], rule wp_SendTxReceipt)
        (use m s in \<open>simp_all add: poisedD, (blast intro: poised_sent)?\<close>)
  qed
  show ?thesis
  proof (rule goesI)
    fix s assume s: "reached d t (poised key ot stateTxResponseRecvd ms) s"
    define s' where "s' = s\<lparr>hist := CNow # hist s, bcur := (bcur s)\<lparr>bt_Price := bt_UnitPrice (bcur s) * bt_Count (bcur s),
      bt_ExpireAt := Now E (CNow # hist s) + 36000\<rparr>\<rparr>"
    have s': "reached d t (poised key ot stateTxResponseRecvd ms) s'"
      using s by (simp add: reached_def s'_def)
    then obtain sig where "sg (bcur s') rc = Ok sig" "length sig = 65" using sg by (auto simp: reached_def)
    then show "wp ?P Q s"
      using goesD [OF send s'] by (simp add: wp_bind wp_update wp_get wp_ask set_bt_def normal s'_def)
  qed
qed


lemma goes_terms:
  assumes h: "helpful E pkg d rcpt" and "signs E key" and len: "length rcpt < 2 ^ 60" "length resp < 2 ^ 60"
    and rc: "Unmarshal flds rcpt z = Ok rc"
    and sg: "\<And>u. fixed u = fixed t \<Longrightarrow> \<exists>sig. sg u rc = Ok sig \<and> length sig = 65"
    and k: "goes k d t (poised key ot stateTxSecretWait ms) Q"
  shows "goes (receive_response E pkg d c b (send_receipt E d c' (read_json E flds z e1 e2) sg k)) d t
    (poised key ot stateTxResponseWait (wire_msg msgTxResponse resp @ ms)) Q"
proof -
  have receive: "goes (check (on_node RecvTxResponse) e k') d t
      (poised key ot stateTxResponseWait (wire_msg msgTxResponse resp @ ms)) Q"
    if "goes (k' (len64 resp, resp)) d t (poised key ot stateTxResponseRecvd ms) Q" for e k'
  proof (rule goes_on_node [rotated], rule that)
    fix n Q' assume n: "poised key ot stateTxResponseWait (wire_msg msgTxResponse resp @ ms) n"
      and Q': "\<And>n'. poised key ot stateTxResponseRecvd ms n' \<Longrightarrow> Q' (Ok (len64 resp, resp)) n'"
    have "length resp < 2 ^ 64" using len by simp
    then show "wp RecvTxResponse Q' n"
      unfolding RecvTxResponse_def
      by (intro wp_recvTxMsg [OF poisedD(3,5) [OF n]] Q' poised_received [OF n]) (simp_all add: msg_consts)
  qed
  show ?thesis
    unfolding receive_response_def BobRcvPODResp_def BobVerifyResp_def normal
    apply (rule receive)
    apply (simp only: normal)
    apply (rule goes_save [OF h])
    apply (simp only: normal send_receipt_def Let_def read_json_def)
    apply (rule goes_write_read(2) [OF h])
     apply simp
    apply (simp add: normal rc)
    apply (rule goes_sign_and_send [where sg = sg and rc = rc, OF assms(2) len(1) sg k, unfolded normal])
    apply assumption
    done
qed

text \<open>
  The contract answers, and has the secret by the time it is asked for the twentieth time, that
  is after at most nineteen pauses.
\<close>

definition published :: "(call list \<Rightarrow> (int \<times> 'a) res) \<Rightarrow> bool" where
  "published get \<longleftrightarrow> (\<forall>h. \<exists>a v. get h = Ok (a, v) \<and> (19 \<le> count_list h CSleep \<longrightarrow> Int64 a \<noteq> 0))"

lemma wp_poll_ok:
  assumes g: "published get" and sid: "SetString sid 10 = Some i" and c: "\<And>i. c i \<noteq> CSleep"
    and n: "0 < n" "19 < n + count_list (hist s) CSleep"
    and Q: "\<And>v h. Q (Ok v) (s\<lparr>hist := h\<rparr>)"
  shows "wp (poll n sid (\<lambda>i. ask (c i) get)) Q s"
  using n Q
proof (induction n arbitrary: s)
  case (Suc n)
  obtain a v where a: "get (c i # hist s) = Ok (a, v)" "19 \<le> count_list (hist s) CSleep \<longrightarrow> Int64 a \<noteq> 0"
    using g c [of i] unfolding published_def by (metis count_list.simps(2))
  show ?case
  proof (cases "Int64 a = 0")
    case True
    have "wp (poll n sid (\<lambda>i. ask (c i) get)) Q (s\<lparr>hist := CSleep # c i # hist s\<rparr>)"
      by (rule Suc.IH) (use True a Suc.prems c [of i] in auto)
    with True a sid c [of i] show ?thesis by (simp add: wps opt_res_def)
  next
    case False
    with a sid Suc.prems show ?thesis by (simp add: wps opt_res_def)
  qed
qed simp

lemma goes_fetch:
  assumes h: "helpful E pkg d rcpt" and g: "published get" and sid: "SetString (bt_SessionID t) 10 = Some i"
    and c: "\<And>a b i. c a b i \<noteq> CSleep" and k: "goes k d t N Q"
    and rd: "\<And>sid a b. rd sid a b = check (poll 20 sid (\<lambda>i. ask (c a b i) get)) (\<lambda>e. ret (Err e)) (\<lambda>v. ret (Ok (f v)))"
    and sv: "\<And>v p. sv v p = check (WriteFile E p (enc v)) (\<lambda>_. ret (Err e)) (\<lambda>_. ret (Ok ()))"
  shows "goes (fetch_secret d n rd sv st1 st2 k) d t N Q"
proof (rule goesI)
  fix s assume s: "reached d t N s"
  then have same: "bt_SessionID (bcur s) = bt_SessionID t" and fl: "flat d (fs s)"
    by (auto simp: reached_def dest: arg_cong [where f = bt_SessionID])
  show "wp (fetch_secret d n rd sv st1 st2 k) Q s"
    unfolding fetch_secret_def rd sv normal wp_bind wp_get same
    unfolding flow
    apply (rule wp_poll_ok [OF g sid c])
      apply simp_all
    apply (rule wp_WriteFile_ok [OF h])
     apply (simp add: fl)
    apply (simp add: goesD [OF k] reached_env s)
    done
qed


section \<open>The end of an honest purchase\<close>

definition bought :: "string \<Rightarrow> BobTransaction \<Rightarrow> string res \<Rightarrow> bob_st \<Rightarrow> bool" where
  "bought d t r s \<longleftrightarrow> r = Ok (purchased (bt_SessionID t)) \<and> bt_SessionID (bcur s) = bt_SessionID t \<and>
     bstatus s = TRANSACTION_STATUS_CLOSED \<and> receipt_sent s \<and> flat d (fs s)"

lemma goes_succeed:
  "goes (succeed TRANSACTION_STATUS_CLOSED) d t (poised key ot stateTxSecretWait ms) (bought d t)"
  unfolding goes_def reached_def succeed_def bmark_def set_bt_def bput_map_def wps bought_def
  by (auto simp: poised_def dest: arg_cong [where f = bt_SessionID])

lemma goes_ends:
  assumes "helpful E pkg d rcpt"
  shows "goes (decrypt E pkg d n) d t (poised key ot stateTxSecretWait ms) (bought d t)"
    "goes (complaint_end E pkg d n early) d t (poised key ot stateTxSecretWait ms) (bought d t)"
    "goes (query_end E pkg d n) d t (poised key ot stateTxSecretWait ms) (bought d t)"
    "goes (verify_secret (BobVerifySecret E pkg p) early w (decrypt E pkg d n)) d t
       (poised key ot stateTxSecretWait ms) (bought d t)"
proof -
  have verify: "goes (verify_secret (bob_bool E pkg lop) early w k) d t N Q" if "goes k d t N Q" for lop early w k N Q
    unfolding verify_secret_def normal using that
    by (cases early) (simp_all add: normal goes_mark goes_lib [OF assms])
  show d: "goes (decrypt E pkg d n) d t (poised key ot stateTxSecretWait ms) (bought d t)" for n
    unfolding decrypt_def BobDecrypt_def normal by (intro goes_lib [OF assms] goes_succeed)
  show "goes (complaint_end E pkg d n early) d t (poised key ot stateTxSecretWait ms) (bought d t)"
    "goes (query_end E pkg d n) d t (poised key ot stateTxSecretWait ms) (bought d t)"
    "goes (verify_secret (BobVerifySecret E pkg p) early w (decrypt E pkg d n)) d t
       (poised key ot stateTxSecretWait ms) (bought d t)"
    unfolding complaint_end_def query_end_def BobVerifySecret_def BobVerifySecretQ_def
    by (intro verify d goes_succeed)+
qed

lemma goes_start:
  assumes h: "helpful E pkg d rcpt" and k: "goes k d t N (bought d t)"
  shows "goes (start_session E pkg (new_session E pkg lop fi fa) b k) d t N (bought d t)"
proof (rule goesI)
  fix s assume s: "reached d t N s"
  have free: "wp (free_session E pkg) (\<lambda>_. bought d t r) s'" if "bought d t r s'" for r s'
    unfolding free_session_def bob_lib_def flow
    by (rule wp_lib_ok [OF h]) (use that in \<open>simp_all add: bought_def\<close>)
  from s have "flat d (fs s)" by (simp add: reached_def)
  then show "wp (start_session E pkg (new_session E pkg lop fi fa) b k) (bought d t) s"
    unfolding start_session_def new_session_def flow
  proof (rule wp_lib_ok [OF h], goal_cases)
    case (1 v h' F)
    have "reached d t N (s\<lparr>hist := h', fs := F, bcur := (bcur s)\<lparr>bt_PoD := P\<rparr>\<rparr>)" for P
      using s 1 by (simp add: reached_def)
    with goesD [OF k this] show ?case
      by (simp add: wps set_bt_def) (blast intro: wp_mono free)
  qed
qed

lemma goes_completes:
  assumes g: "goes m d t N (bought d t)" and w: "flat d (fs w)" "N (nd w)"
  shows "\<exists>w' row h. run_state (with_purchase t (deferring (finish_purchase E) m)) w = (Ok (purchased (bt_SessionID t)), w') \<and>
    hist w' = CUpdateBobTx (bt_SessionID t) row # h \<and> btx_Status row = TRANSACTION_STATUS_CLOSED \<and> receipt_sent w'"
proof -
  let ?s0 = "world.extend w (bob_st.fields t)"
  have "reached d t N ?s0" using w by (simp add: reached_def world.defs bob_st.defs)
  from goesD [OF g this] have "wp m (bought d t) ?s0" .
  moreover obtain r s1 where m: "run_state m ?s0 = (r, s1)" by (metis surj_pair)
  ultimately have b: "bought d t r s1" by (blast dest: wpD)
  obtain u s2 where f: "run_state (finish_purchase E) s1 = (u, s2)" by (metis surj_pair)
  with wpD [OF wp_finish_purchase f] b m show ?thesis
    by (auto simp: bought_def with_purchase_def run_deferring world.defs updated_row_simps)
qed

section \<open>Honest runs of the ten handlers\<close>

text \<open>The receipt the library leaves can be read and signed in the mode of the purchase.\<close>

definition signable :: "ext \<Rightarrow> pod_pkg \<Rightarrow> BobTransaction \<Rightarrow> bytes \<Rightarrow> bool" where
  "signable E pkg t rcpt \<longleftrightarrow>
     (if pkg \<in> {PC, POC, TC, TOC} then
        is_ok (calcuBltKey E (bt_Bulletin t)) \<and>
        is_ok (Unmarshal ComplaintReceipt_fields rcpt \<lparr>crc_S = [], crc_K = [], crc_C = 0\<rparr>)
      else if pkg \<in> {PAS, TAS} then
        (\<exists>rc v. Unmarshal AtomicSwapReceipt_fields rcpt \<lparr>arc_S = [], arc_VW = [], arc_C = 0\<rparr> = Ok rc \<and>
           SetString (arc_VW rc) 10 = Some v)
      else if pkg \<in> {PASVC, TASVC} then
        (\<exists>rc v. Unmarshal AtomicSwapVcReceipt_fields rcpt \<lparr>vrc_D = []\<rparr> = Ok rc \<and> SetString (vrc_D rc) 10 = Some v)
      else
        (\<exists>rc a b c x y. Unmarshal VRFReceipt_fields rcpt \<lparr>frc_G = []\<rparr> = Ok rc \<and>
           Split (CHR '' '') (frc_G rc) = [a, b, c] \<and> SetString b 10 = Some x \<and> SetString c 10 = Some y))"

definition secret_published :: "ext \<Rightarrow> pod_pkg \<Rightarrow> bool" where
  "secret_published E pkg \<longleftrightarrow>
     (if pkg \<in> {PC, POC, TC, TOC} then published (GetRecordComplaint E)
      else if pkg \<in> {PAS, TAS} then published (GetRecordAtomicSwap E)
      else if pkg \<in> {PASVC, TASVC} then published (GetRecordAtomicSwapVC E)
      else published (GetRecordVRF E))"

lemma sign_values_ok:
  assumes "signs E (key_PrivateKey key)"
  shows "\<exists>sig. sign_values E key vs = Ok sig \<and> length sig = 65"
proof -
  obtain sig where "Sign (Crypto E) (SoliditySHA3WithPrefix E (SoliditySHA3 E vs)) (key_PrivateKey key) = Ok sig"
    using assms unfolding signs_def by blast
  moreover from this have "length sig = 65" using assms unfolding signs_def ecdsa_laws_def by blast
  ultimately show ?thesis by (simp add: sign_values_def)
qed

lemma fixed_same:
  assumes "fixed u = fixed t"
  shows "bt_SessionID u = bt_SessionID t" "bt_Bulletin u = bt_Bulletin t"
  using arg_cong [OF assms, of bt_SessionID] arg_cong [OF assms, of bt_Bulletin] by simp_all

lemma signs_complaint:
  assumes "signs E (key_PrivateKey key)" "SetString (bt_SessionID t) 10 = Some i"
    "calcuBltKey E (bt_Bulletin t) = Ok b" "fixed u = fixed t"
  shows "\<exists>sig. sign_complaint E key u rc = Ok sig \<and> length sig = 65"
  using assms sign_values_ok [OF assms(1)]
  by (simp add: sign_complaint_def signRecptForComplaint_def or_fail_def opt_res_def fixed_same [OF assms(4)])

lemma signs_swap:
  assumes "signs E (key_PrivateKey key)" "SetString (bt_SessionID t) 10 = Some i"
    "SetString (arc_VW rc) 10 = Some v" "fixed u = fixed t"
  shows "\<exists>sig. sign_swap E key u rc = Ok sig \<and> length sig = 65"
  using assms sign_values_ok [OF assms(1)]
  by (simp add: sign_swap_def signRecptForAtomicSwap_def or_fail_def opt_res_def fixed_same [OF assms(4)])

lemma signs_swap_vc:
  assumes "signs E (key_PrivateKey key)" "SetString (bt_SessionID t) 10 = Some i"
    "SetString (vrc_D rc) 10 = Some v" "fixed u = fixed t"
  shows "\<exists>sig. sign_swap_vc E key u rc = Ok sig \<and> length sig = 65"
  using assms sign_values_ok [OF assms(1)]
  by (simp add: sign_swap_vc_def signRecptForAtomicSwapVc_def or_fail_def opt_res_def fixed_same [OF assms(4)])

lemma signs_query:
  assumes "signs E (key_PrivateKey key)" "SetString (bt_SessionID t) 10 = Some i"
    "Split (CHR '' '') (frc_G rc) = [a, b, c]" "SetString b 10 = Some x" "SetString c 10 = Some y" "fixed u = fixed t"
  shows "\<exists>sig. sign_query E key u rc = Ok sig \<and> length sig = 65"
  using assms sign_values_ok [OF assms(1)]
  by (simp add: sign_query_def signRecptForVRFQ_def or_fail_def opt_res_def fixed_same [OF assms(6)])

text \<open>From the response to the secret, in the four families of modes.\<close>

abbreviation deal where
  "deal E pkg d c b c' c'' rd sg rs sv st1 st2 k \<equiv> receive_response E pkg d c b (send_receipt E d c' rd sg
     (fetch_secret d c'' rs sv st1 st2 k))"

lemma goes_deal_complaint:
  assumes h: "helpful E pkg d rcpt" and key: "signs E (key_PrivateKey key)"
    and len: "length rcpt < 2 ^ 60" "length resp < 2 ^ 60" and sid: "SetString (bt_SessionID t) 10 = Some i"
    and sg: "signable E pkg t rcpt" and g: "secret_published E pkg" and pkg: "pkg \<in> {PC, POC, TC, TOC}"
    and k: "goes k d t (poised (key_PrivateKey key) ot stateTxSecretWait ms) Q"
  shows "goes (deal E pkg d c b c' c'' (readReceiptForComplaint E) (sign_complaint E key)
      (readScrtForComplaint E) (BobSaveSecretForComplaint E) st1 st2 k) d t
    (poised (key_PrivateKey key) ot stateTxResponseWait (wire_msg msgTxResponse resp @ ms)) Q"
proof -
  obtain rc bk where rc: "Unmarshal ComplaintReceipt_fields rcpt \<lparr>crc_S = [], crc_K = [], crc_C = 0\<rparr> = Ok rc"
    and bk: "calcuBltKey E (bt_Bulletin t) = Ok bk" using sg pkg unfolding signable_def is_ok_ex by auto
  have "published (GetRecordComplaint E)" using g pkg unfolding secret_published_def by (simp only: if_True)
  then show ?thesis
    unfolding readReceiptForComplaint_def
    by (intro goes_terms [where sg = "sign_complaint E key" and rc = rc, OF h key len rc]
        goes_fetch [OF h _ sid _ k readScrtForComplaint_def BobSaveSecretForComplaint_def]
        signs_complaint [OF key sid bk]) simp_all
qed

lemma goes_deal_swap:
  assumes h: "helpful E pkg d rcpt" and key: "signs E (key_PrivateKey key)"
    and len: "length rcpt < 2 ^ 60" "length resp < 2 ^ 60" and sid: "SetString (bt_SessionID t) 10 = Some i"
    and sg: "signable E pkg t rcpt" and g: "secret_published E pkg" and pkg: "pkg \<in> {PAS, TAS}"
    and k: "goes k d t (poised (key_PrivateKey key) ot stateTxSecretWait ms) Q"
  shows "goes (deal E pkg d c b c' c'' (readReceiptForAtomicSwap E) (sign_swap E key)
      (readScrtForAtomicSwap E) (BobSaveSecretForAtomicSwap E) st1 st2 k) d t
    (poised (key_PrivateKey key) ot stateTxResponseWait (wire_msg msgTxResponse resp @ ms)) Q"
proof -
  obtain rc v where rc: "Unmarshal AtomicSwapReceipt_fields rcpt \<lparr>arc_S = [], arc_VW = [], arc_C = 0\<rparr> = Ok rc"
    and v: "SetString (arc_VW rc) 10 = Some v" using sg pkg unfolding signable_def by auto
  have "published (GetRecordAtomicSwap E)" using g pkg by (auto simp: secret_published_def)
  then show ?thesis
    unfolding readReceiptForAtomicSwap_def
    by (intro goes_terms [where sg = "sign_swap E key" and rc = rc, OF h key len rc]
        goes_fetch [OF h _ sid _ k readScrtForAtomicSwap_def BobSaveSecretForAtomicSwap_def]
        signs_swap [OF key sid v]) simp_all
qed

lemma goes_deal_swap_vc:
  assumes h: "helpful E pkg d rcpt" and key: "signs E (key_PrivateKey key)"
    and len: "length rcpt < 2 ^ 60" "length resp < 2 ^ 60" and sid: "SetString (bt_SessionID t) 10 = Some i"
    and sg: "signable E pkg t rcpt" and g: "secret_published E pkg" and pkg: "pkg \<in> {PASVC, TASVC}"
    and k: "goes k d t (poised (key_PrivateKey key) ot stateTxSecretWait ms) Q"
  shows "goes (deal E pkg d c b c' c'' (readReceiptForAtomicSwapVc E) (sign_swap_vc E key)
      (readScrtForAtomicSwapVc E) (BobSaveSecretForAtomicSwapVc E) st1 st2 k) d t
    (poised (key_PrivateKey key) ot stateTxResponseWait (wire_msg msgTxResponse resp @ ms)) Q"
proof -
  obtain rc v where rc: "Unmarshal AtomicSwapVcReceipt_fields rcpt \<lparr>vrc_D = []\<rparr> = Ok rc"
    and v: "SetString (vrc_D rc) 10 = Some v" using sg pkg unfolding signable_def by auto
  have rd: "readScrtForAtomicSwapVc E s x y = check (poll 20 s (\<lambda>j. ask (CGetRecordAtomicSwapVC (HexToAddress E x)
      (HexToAddress E y) j) (GetRecordAtomicSwapVC E))) (\<lambda>e. ret (Err e))
      (\<lambda>v. ret (Ok \<lparr>vsc_S = FormatInt (fst v), vsc_R = FormatInt (snd v)\<rparr>))" for s x y
    by (simp add: readScrtForAtomicSwapVc_def split_def)
  have "published (GetRecordAtomicSwapVC E)" using g pkg by (auto simp: secret_published_def)
  then show ?thesis
    unfolding readReceiptForAtomicSwapVc_def
    by (intro goes_terms [where sg = "sign_swap_vc E key" and rc = rc, OF h key len rc]
        goes_fetch [OF h _ sid _ k rd BobSaveSecretForAtomicSwapVc_def]
        signs_swap_vc [OF key sid v]) simp_all
qed

lemma goes_deal_query:
  assumes h: "helpful E pkg d rcpt" and key: "signs E (key_PrivateKey key)"
    and len: "length rcpt < 2 ^ 60" "length resp < 2 ^ 60" and sid: "SetString (bt_SessionID t) 10 = Some i"
    and sg: "signable E pkg t rcpt" and g: "secret_published E pkg" and pkg: "pkg \<in> {TQ, TOQ}"
    and k: "goes k d t (poised (key_PrivateKey key) ot stateTxSecretWait ms) Q"
  shows "goes (deal E pkg d c b c' c'' (readVRFReceipt E) (sign_query E key)
      (readScrtForVRFQ E) (BobSaveSecretForVRFQ E) st1 st2 k) d t
    (poised (key_PrivateKey key) ot stateTxResponseWait (wire_msg msgTxResponse resp @ ms)) Q"
proof -
  obtain rc p q r x y where rc: "Unmarshal VRFReceipt_fields rcpt \<lparr>frc_G = []\<rparr> = Ok rc"
    and v: "Split (CHR '' '') (frc_G rc) = [p, q, r]" "SetString q 10 = Some x" "SetString r 10 = Some y"
    using sg pkg unfolding signable_def by auto
  have "published (GetRecordVRF E)" using g pkg by (auto simp: secret_published_def)
  then show ?thesis
    unfolding readVRFReceipt_def
    by (intro goes_terms [where sg = "sign_query E key" and rc = rc, OF h key len rc]
        goes_fetch [OF h _ sid _ k readScrtForVRFQ_def BobSaveSecretForVRFQ_def]
        signs_query [OF key sid v]) simp_all
qed


section \<open>Honest purchases complete\<close>

text \<open>Everything but the seller: disk, library, keys and contract, and the transaction itself.\<close>

definition cooperative :: "ext \<Rightarrow> pod_pkg \<Rightarrow> string \<Rightarrow> Key \<Rightarrow> BobTransaction \<Rightarrow> bytes \<Rightarrow> bool" where
  "cooperative E pkg d key t rcpt \<longleftrightarrow> helpful E pkg d rcpt \<and> length rcpt < 2 ^ 60 \<and>
     signs E (key_PrivateKey key) \<and> signable E pkg t rcpt \<and> secret_published E pkg \<and>
     SetString (bt_SessionID t) 10 \<noteq> None"

text \<open>The messages of an honest seller: its part of the negotiation, if any, and the response.\<close>

definition from_seller :: "pod_pkg \<Rightarrow> bytes \<Rightarrow> bytes \<Rightarrow> bytes \<Rightarrow> rmsg list" where
  "from_seller pkg negoResp negoReq resp =
     (if pkg \<in> {POC, TOC, TOQ} then wire_msg msgNegoAckReq (EncodeUint64 (len64 negoResp) @ negoResp @ negoReq) else []) @
     wire_msg msgTxResponse resp"

lemmas request_plain = goes_send_request [where ot = False, simplified if_False]
lemmas request_ot = goes_send_request [where ot = True, simplified if_True]

lemma handler_completes:
  "helpful E pkg (bobDir B t) rcpt \<Longrightarrow> signs E (key_PrivateKey key) \<Longrightarrow> length rcpt < 2 ^ 60 \<Longrightarrow> length resp < 2 ^ 60 \<Longrightarrow>
   SetString (bt_SessionID t) 10 = Some i \<Longrightarrow> signable E pkg t rcpt \<Longrightarrow> secret_published E pkg \<Longrightarrow>
   length negoResp < 2 ^ 60 \<Longrightarrow> length negoReq < 2 ^ 60 \<Longrightarrow> negoResp \<noteq> [] \<Longrightarrow> flat (bobDir B t) (fs w) \<Longrightarrow>
   poised (key_PrivateKey key) (pkg \<in> {POC, TOC, TOQ}) stateSessionEstablished (from_seller pkg negoResp negoReq resp @ rest) (nd w) \<Longrightarrow>
   \<exists>w' row h. run_state (BobTxFor pkg E B key t q bf pp) w = (Ok (purchased (bt_SessionID t)), w') \<and>
    hist w' = CUpdateBobTx (bt_SessionID t) row # h \<and> btx_Status row = TRANSACTION_STATUS_CLOSED \<and> receipt_sent w'"
  apply (cases pkg; hypsubst; simp only: BobTxFor.simps purchase_defs Let_def bob_session_defs from_seller_def;
      simp only: insert_iff empty_iff pod_pkg.distinct simp_thms if_True if_False append_assoc append_Nil)
  apply (rule goes_completes [where N = "poised key ot st ms" for key ot st ms],
      rule goes_start, assumption,
      ((rule goes_negotiate, assumption, assumption, assumption, assumption, rule request_ot) | rule request_plain), assumption,
      (rule goes_deal_complaint goes_deal_swap goes_deal_swap_vc goes_deal_query, assumption+, simp),
      rule goes_ends, assumption, assumption, assumption)+
  done

text \<open>
  C4. A purchase with an honest seller completes, in each of the ten modes: if the seller's
  messages arrive on an established session of the right kind, the library accepts them, disk and
  keys work and the contract shows the secret within the twenty polls, then the purchase
  terminates with the success answer, its receipt sent and its row closed. No bound is set on the
  contents of the messages but their length, and none on what else the services do.
\<close>

theorem honest_purchase_completes:
  assumes "cooperative E pkg (bobDir B t) key t rcpt"
    and "flat (bobDir B t) (fs w)"
    and "poised (key_PrivateKey key) (pkg \<in> {POC, TOC, TOQ}) stateSessionEstablished
      (from_seller pkg negoResp negoReq resp @ rest) (nd w)"
    and "length resp < 2 ^ 60" "length negoResp < 2 ^ 60" "length negoReq < 2 ^ 60" "negoResp \<noteq> []"
  shows "\<exists>w' row h. run_state (BobTxFor pkg E B key t q bulletinFile publicPath) w = (Ok (purchased (bt_SessionID t)), w') \<and>
    hist w' = CUpdateBobTx (bt_SessionID t) row # h \<and> btx_Status row = TRANSACTION_STATUS_CLOSED \<and> receipt_sent w'"
proof -
  obtain i where "SetString (bt_SessionID t) 10 = Some i" using assms(1) unfolding cooperative_def by blast
  then show ?thesis
    using assms(1) handler_completes [OF _ _ _ assms(4) _ _ _ assms(5-7,2,3)] unfolding cooperative_def by blast
qed


text \<open>A library that writes the same receipt into every file it is asked for.\<close>

definition sample_receipt :: bytes where
  "sample_receipt = enc_struct [(''d'', enc_string ''5'')]"

definition sample_hash :: "bytes \<Rightarrow> bytes" where
  "sample_hash bs = take 32 (bs @ replicate 32 0)"

definition helpful_ext :: ext where
  "helpful_ext = sample_ext\<lparr>Crypto := sample_crypto\<lparr>Keccak256Hash := sample_hash,
       Sign := (\<lambda>h k. if length h = 32 then Sign sample_crypto h k else Err ''hash is required to be exactly 32 bytes'')\<rparr>,
     SoliditySHA3WithPrefix := sample_hash, Lib := (\<lambda>h F. (Ok 0, case h of
     CLib _ _ lop # _ \<Rightarrow> (case out_file lop of Some p \<Rightarrow> F(p \<mapsto> File sample_receipt) | None \<Rightarrow> F) | _ \<Rightarrow> F))\<rparr>"

definition sample_swap :: BobTransaction where
  "sample_swap = sample_purchase\<lparr>bt_SubMode := TRANSACTION_SUB_MODE_ATOMIC_SWAP_VC\<rparr>"

definition sample_buying :: world where
  "sample_buying = sample_world\<lparr>nd := sample_node\<lparr>nstate := stateSessionEstablished,
     conn := sample_conn\<lparr>rlpx_in := from_seller TASVC [0] [] [7]\<rparr>\<rparr>\<rparr>"

abbreviation sample_run :: "string res \<times> world" where
  "sample_run \<equiv> run_state (BobTxFor TASVC helpful_ext sample_dirs sample_owner sample_swap sample_request
     ''b/bulletin'' ''b/public'') sample_buying"

lemma sample_receipt_read: "Unmarshal AtomicSwapVcReceipt_fields sample_receipt z = Ok \<lparr>vrc_D = ''5''\<rparr>"
proof -
  have "members_ok [(''d'', enc_string ''5'', TStr ''5'', JStr ''5'')]"
    using scalars unfolding members_ok_def by (simp add: ascii_def)
  from Unmarshal_struct [OF this, of AtomicSwapVcReceipt_fields z] show ?thesis
    by (simp add: sample_receipt_def AtomicSwapVcReceipt_fields_def find_field_def field_def)
qed

lemma sample_numbers: "SetString ''12'' 10 = Some 12" "SetString ''5'' 10 = Some 5" "length sample_receipt < 2 ^ 60"
proof -
  have "length sample_receipt = 9" by code_simp
  then show "length sample_receipt < 2 ^ 60" by simp
qed code_simp+

lemma sample_cooperative: "cooperative helpful_ext TASVC (bobDir sample_dirs sample_swap) sample_owner sample_swap sample_receipt"
proof -
  have "helpful helpful_ext TASVC d sample_receipt" for d
    unfolding helpful_def using sample_numbers(3)
    by (auto simp: helpful_ext_def sample_ext_def flat_def split: option.split)
  moreover have "signs helpful_ext (key_PrivateKey sample_owner)"
    by (auto simp: signs_def ecdsa_laws_def sample_hash_def helpful_ext_def sample_ext_def sample_crypto_def min_def)
  moreover have "secret_published helpful_ext TASVC"
    by (simp add: secret_published_def published_def helpful_ext_def sample_ext_def Int64_def)
  moreover have "signable helpful_ext TASVC sample_swap sample_receipt"
    by (simp add: signable_def sample_receipt_read sample_numbers)
  ultimately show ?thesis
    using sample_numbers by (simp add: cooperative_def sample_swap_def sample_purchase_def)
qed

lemma sample_buying_ready:
  "flat d (fs sample_buying)" "\<not> receipt_sent sample_buying"
  "poised (key_PrivateKey sample_owner) (TASVC \<in> {POC, TOC, TOQ}) stateSessionEstablished
     (from_seller TASVC [0] [] [7] @ []) (nd sample_buying)"
  by (simp_all add: flat_def sample_buying_def sample_world_def poised_def sample_owner_def sample_node_def
      sample_conn_def all_ok_def isOTMode_def mode_consts)

theorem honest_purchase_completes_witness:
  "fst sample_run = Ok (purchased (bt_SessionID sample_swap)) \<and> receipt_sent (snd sample_run)"
  using honest_purchase_completes [OF sample_cooperative sample_buying_ready(1,3),
      of sample_request "''b/bulletin''" "''b/public''"]
  by auto

section \<open>What the record of a purchase stands for\<close>

lemma sample_completes:
  "\<exists>row h. hist (snd sample_run) = CUpdateBobTx (bt_SessionID sample_swap) row # h \<and>
     btx_Status row = TRANSACTION_STATUS_CLOSED \<and> receipt_sent (snd sample_run)"
proof -
  obtain i where "SetString (bt_SessionID sample_swap) 10 = Some i"
    using sample_cooperative unfolding cooperative_def by blast
  then show ?thesis
    using sample_cooperative handler_completes [OF _ _ _ _ _ _ _ _ _ _ sample_buying_ready(1,3), where q = sample_request
        and bf = "''b/bulletin''" and pp = "''b/public''" and i = i and E = helpful_ext and rcpt = sample_receipt]
    unfolding cooperative_def by fastforce
qed

lemma sample_fresh: "bt_Status sample_swap \<notin> {TRANSACTION_STATUS_CLOSED, TRANSACTION_STATUS_SEND_CLIAM}"
  by (simp add: sample_swap_def sample_purchase_def zero_BobTransaction_def status_defs)

text \<open>
  C3. A purchase recorded as \<open>closed\<close> got what it paid for: the proof library accepted the seller's
  response and the secret, and, except for the query modes, decrypted the data. A purchase recorded
  as \<open>claimed\<close> is one of a complaint mode in which the library accepted the response, refused the
  secret and made a claim, and the contract took a claim against this seller for this session.
\<close>

theorem purchase_status_is_earned:
  assumes "bt_Status t \<notin> {TRANSACTION_STATUS_CLOSED, TRANSACTION_STATUS_SEND_CLIAM}" and "\<not> receipt_sent w"
    and "run_state (BobTxFor pkg E B key t q bulletinFile publicPath) w = (r, w')"
  shows "\<exists>row h. hist w' = CUpdateBobTx (bt_SessionID t) row # h \<and>
    (btx_Status row = TRANSACTION_STATUS_CLOSED \<longrightarrow>
       accepted E pkg (OnResponse (bobDir B t @ ''/response'') (bobDir B t @ ''/receipt'')) h \<and>
       accepted E pkg (secret_check pkg (bobDir B t)) h \<and>
       (pkg \<notin> {TQ, TOQ} \<longrightarrow> accepted E pkg (Decrypt (bobDir B t @ ''/output'')) h)) \<and>
    (btx_Status row = TRANSACTION_STATUS_SEND_CLIAM \<longrightarrow> pkg \<in> {PC, POC, TC, TOC} \<and>
       accepted E pkg (OnResponse (bobDir B t @ ''/response'') (bobDir B t @ ''/receipt'')) h \<and>
       refused E pkg (secret_check pkg (bobDir B t)) h \<and>
       accepted E pkg (GenerateClaim (bobDir B t @ ''/claim'')) h \<and>
       (\<exists>sid. SetString (bt_SessionID t) 10 = Some sid \<and> claimed E (HexToAddress E (bt_AliceAddr t)) sid h))"
proof -
  have t: "\<not> final (bt_Status t)" using assms(1) by (simp add: final_def)
  obtain u h where u: "hist w' = CUpdateBobTx (bt_SessionID t) (updated_row u) # h"
    "bt_Status u = TRANSACTION_STATUS_CLOSED \<Longrightarrow> delivered E pkg (bobDir B t) h"
    "bt_Status u = TRANSACTION_STATUS_SEND_CLIAM \<Longrightarrow> complained E pkg t (bobDir B t) h"
    using purchase.row [OF t assms(2,3)] by blast
  then show ?thesis
    by (intro exI [of _ "updated_row u"] exI [of _ h])
      (simp add: updated_row_simps delivered_def complained_def)
qed

theorem purchase_status_is_earned_witness:
  "accepted helpful_ext TASVC (Decrypt (bobDir sample_dirs sample_swap @ ''/output'')) (tl (hist (snd sample_run)))"
proof -
  obtain row h where "hist (snd sample_run) = CUpdateBobTx (bt_SessionID sample_swap) row # h"
    "btx_Status row = TRANSACTION_STATUS_CLOSED"
    using sample_completes by blast
  then show ?thesis
    using purchase_status_is_earned [OF sample_fresh sample_buying_ready(2) surjective_pairing,
        of TASVC helpful_ext sample_dirs sample_owner sample_request "''b/bulletin''" "''b/public''"]
    by auto
qed

text \<open>
  C10. The buyer commits itself only to what it asked for: if a receipt was sent in a purchase, then
  the library had accepted the seller's response before, and the row records the terms of the
  receipt, the unit price times the count as the price and ten hours after the clock was read as
  the expiry time.
\<close>

theorem receipt_is_guarded:
  assumes "bt_Status t \<notin> {TRANSACTION_STATUS_CLOSED, TRANSACTION_STATUS_SEND_CLIAM}" and "\<not> receipt_sent w"
    and "run_state (BobTxFor pkg E B key t q bulletinFile publicPath) w = (r, w')" and "receipt_sent w'"
  shows "\<exists>row h h2. hist w' = CUpdateBobTx (bt_SessionID t) row # h \<and> suffix (CNow # h2) h \<and>
    accepted E pkg (OnResponse (bobDir B t @ ''/response'') (bobDir B t @ ''/receipt'')) h2 \<and>
    btx_Price row = bt_UnitPrice t * bt_Count t \<and> btx_ExpireAt row = Now E (CNow # h2) + 36000"
proof -
  have t: "\<not> final (bt_Status t)" using assms(1) by (simp add: final_def)
  obtain u h where "hist w' = CUpdateBobTx (bt_SessionID t) (updated_row u) # h" "identity u = identity t"
    "committed E pkg (bobDir B t) u h"
    using purchase.row [OF t assms(2,3)] assms(4) by blast
  then show ?thesis
    unfolding committed_def by (auto simp: updated_row_simps intro!: exI [of _ "updated_row u"])
qed

theorem receipt_is_guarded_witness:
  "\<exists>row h. hist (snd sample_run) = CUpdateBobTx (bt_SessionID sample_swap) row # h \<and>
     btx_Price row = 6 \<and> btx_ExpireAt row = 37000"
proof -
  have "receipt_sent (snd sample_run)" using sample_completes by blast
  moreover have "bt_UnitPrice sample_swap * bt_Count sample_swap = 6" "Now helpful_ext h + 36000 = 37000" for h
    by (simp_all add: sample_swap_def sample_purchase_def helpful_ext_def sample_ext_def)
  ultimately show ?thesis
    using receipt_is_guarded [OF sample_fresh sample_buying_ready(2) surjective_pairing,
        of TASVC helpful_ext sample_dirs sample_owner sample_request "''b/bulletin''" "''b/public''"]
    by (auto simp del: add_left_cancel)
qed

end
