(* ===== verification/Funds.thy ===== *)
theory Funds
  imports Receipts
begin

text \<open>
  The operations of \<^verbatim>\<open>contract.go\<close> that manage published data and money at the exchange
  contract: publishing and closing data, deposits and withdrawals. The amount sent with a
  transaction is a field of the shared transaction options \<open>GAdminAuth\<close>, set for the one call and
  reset when the function returns. The last section is about all transactions to the contract,
  those of \<open>Contract\<close> and \<open>Receipts\<close> included.
\<close>

section \<open>Sending an amount\<close>

definition set_value :: "int \<Rightarrow> ('z world_scheme, unit) state" where
  "set_value v = State_Monad.update (\<lambda>w. w\<lparr>AuthValue := v\<rparr>)"

text \<open>\<open>GAdminAuth.Value = big.NewInt(value); defer func() { GAdminAuth.Value = big.NewInt(0) }()\<close>.\<close>

definition with_value :: "int64 \<Rightarrow> ('z world_scheme, 'a) state \<Rightarrow> ('z world_scheme, 'a) state" where
  "with_value value m = do { set_value (sint value); deferring (set_value 0) m }"

section \<open>Published data\<close>

definition publishPlainDataToContract :: "ext \<Rightarrow> Bulletin \<Rightarrow> int64 \<Rightarrow> ('z world_scheme, string res) state" where
  "publishPlainDataToContract E b value =
     (let size = fst (ParseUint 10 (blt_Size b)); s = fst (ParseUint 10 (blt_S b));
          n = fst (ParseUint 10 (blt_N b)) in
      attempt (opt_res (SetString (blt_SigmaMKLRoot b) 16) []) ''failed to convert sessionId'' (\<lambda>mklroot.
      with_value value
        (transact E (\<lambda>v. CPublish v size s n mklroot 0 0) ''failed to Publish'')))"

definition publishTableDataToContract :: "ext \<Rightarrow> Bulletin \<Rightarrow> int64 \<Rightarrow> ('z world_scheme, string res) state" where
  "publishTableDataToContract E b value =
     (let s = fst (ParseUint 10 (blt_S b)); n = fst (ParseUint 10 (blt_N b)) in
      attempt (opt_res (SetString (blt_SigmaMKLRoot b) 16) []) ''failed to convert sessionId'' (\<lambda>mklroot.
      attempt (opt_res (SetString (blt_VRFMetaDigest b) 16) []) ''failed to convert VRFMetaDigest'' (\<lambda>digest.
      with_value value
        (transact E (\<lambda>v. CPublish v 0 s n mklroot digest 1) ''failed to Publish''))))"

definition closeDataAtContract :: "ext \<Rightarrow> bytes \<Rightarrow> ('z world_scheme, string res) state" where
  "closeDataAtContract E bltByte =
     transact E (\<lambda>v. CUnPublish v bltByte) ''failed to close published data.''"

definition withdrawAETHFromContract :: "ext \<Rightarrow> bytes \<Rightarrow> ('z world_scheme, string res) state" where
  "withdrawAETHFromContract E bltByte =
     transact E (\<lambda>v. CWithdrawA v bltByte) ''Failed to withdraw''"

section \<open>Deposits\<close>

definition BobDeposit :: "ext \<Rightarrow> int64 \<Rightarrow> string \<Rightarrow> ('z world_scheme, string res) state" where
  "BobDeposit E value aliceAddr =
     with_value value (transact E (\<lambda>v. CBobDeposit v (HexToAddress E aliceAddr)) ''failed to deposit'')"

definition BobUnDeposit :: "ext \<Rightarrow> string \<Rightarrow> ('z world_scheme, string res) state" where
  "BobUnDeposit E aliceAddr =
     transact E (\<lambda>v. CBobUnDeposit v (HexToAddress E aliceAddr)) ''failed to undeposit''"

definition BobWithdrawETHFromContract :: "ext \<Rightarrow> string \<Rightarrow> ('z world_scheme, string res) state" where
  "BobWithdrawETHFromContract E aliceAddr =
     transact E (\<lambda>v. CWithdrawB v (HexToAddress E aliceAddr)) ''failed to withdraw from closed data''"

section \<open>Amounts do not leak into other transactions\<close>

text \<open>
  The amount a transaction to the contract carries, of a call; the other calls to the contract,
  the files, the library and the clock are no transactions.
\<close>

fun sent_value :: "call \<Rightarrow> int option" where
  "sent_value (CPublish v sz s n root digest ty) = Some v"
| "sent_value (CUnPublish v blt) = Some v"
| "sent_value (CWithdrawA v blt) = Some v"
| "sent_value (CBobDeposit v a) = Some v"
| "sent_value (CBobUnDeposit v a) = Some v"
| "sent_value (CWithdrawB v a) = Some v"
| "sent_value (CSubmitProofComplaint v s sid ps blt s2 k c p e sig) = Some v"
| "sent_value (CSubmitProofAtomicSwap v s n sid ps s2 vw c p e sig) = Some v"
| "sent_value (CSubmitProofAtomicSwapVC v s r sid ps d p e sig) = Some v"
| "sent_value (CSubmitProofVRF v r sid ps g p e sig) = Some v"
| "sent_value (CClaimComplaint v a sid i j tx ty mkls n) = Some v"
| "sent_value (CSettleComplaintDeal v a b sid) = Some v"
| "sent_value _ = None"

definition amounts :: "call list \<Rightarrow> int list" where
  "amounts h = List.map_filter sent_value h"

lemma amounts_Cons [simp]:
  "amounts (c # h) = (case sent_value c of None \<Rightarrow> amounts h | Some v \<Rightarrow> v # amounts h)"
  by (simp add: amounts_def List.map_filter_simps split: option.split)

text \<open>
  What an operation on the contract does, started with the amount of the shared options at zero: it
  sends at most one transaction, with the amount \<open>v\<close>, an operation that sent none has failed, and
  the amount is zero again.
\<close>

definition sent_from :: "'z world_scheme \<Rightarrow> int \<Rightarrow> string res \<Rightarrow> 'z world_scheme \<Rightarrow> bool" where
  "sent_from w v r w' \<longleftrightarrow> AuthValue w' = 0 \<and>
     (amounts (hist w') = amounts (hist w) \<and> \<not> is_ok r \<or>
      amounts (hist w') = v # amounts (hist w))"

definition sends :: "int \<Rightarrow> ('z world_scheme, string res) state \<Rightarrow> bool" where
  "sends v m \<longleftrightarrow> (\<forall>w. AuthValue w = 0 \<longrightarrow> wp m (sent_from w v) w)"

text \<open>The operations before the transaction, which leave the amount alone and send nothing.\<close>

definition tally :: "'z world_scheme \<Rightarrow> int \<times> int list" where
  "tally w = (AuthValue w, amounts (hist w))"

lemma keeps_tally_ask: "sent_value c = None \<Longrightarrow> keeps tally (ask c f)"
  by (simp add: keeps_def ask_def tally_def)

lemma keeps_tally_ReadFile: "keeps tally (ReadFile E p)"
  unfolding ReadFile_def by (intro frame keeps_tally_ask) simp

lemma keeps_tally_read_json: "keeps tally (read_json E flds z e1 e2 p)"
  unfolding read_json_def by (intro frame keeps_tally_ReadFile)

lemma keeps_tally_readers:
  "keeps tally (readReceiptForComplaint E p)" "keeps tally (readReceiptForAtomicSwap E p)"
  "keeps tally (readReceiptForAtomicSwapVc E p)" "keeps tally (readVRFReceipt E p)"
  "keeps tally (readSeed0ForComplaint E p)" "keeps tally (readSeed0ForAtomicSwap E p)"
  "keeps tally (readSeed0ForAtomicSwapVc E p)" "keeps tally (readSeed0ForVRFQ E p)"
  "keeps tally (readClaim E p)"
  unfolding file_reader_defs readClaim_def by (intro frame keeps_tally_read_json)+

lemma sends_transact: "(\<And>u. sent_value (c u) = Some u) \<Longrightarrow> sends 0 (transact E c msg)"
  by (auto simp: sends_def sent_from_def wps Let_def split: res.split)

lemma sends_with_value:
  "(\<And>u. sent_value (c u) = Some u) \<Longrightarrow> sends (sint v) (with_value v (transact E c msg))"
  by (auto simp: sends_def sent_from_def with_value_def set_value_def wps Let_def split: res.split)

lemma sends_fail: "sends v (ret (Err e))"
  by (simp add: sends_def sent_from_def wps)

lemma sends_check:
  assumes "keeps tally m" and "\<And>e. sends v (h e)" and "\<And>x. sends v (k x)"
  shows "sends v (check m h k)"
  unfolding sends_def wp_check
proof (intro allI impI, rule wp_keeps [OF assms(1)])
  fix w s' :: "'a world_scheme" and r
  assume w: "AuthValue w = 0" and "tally s' = tally w"
  then have "AuthValue s' = 0" "sent_from w v = sent_from s' v"
    by (simp_all add: tally_def sent_from_def fun_eq_iff)
  then show "case r of Ok x \<Rightarrow> wp (k x) (sent_from w v) s' | Err e \<Rightarrow> wp (h e) (sent_from w v) s'
      | Panic \<Rightarrow> sent_from w v Panic s'"
    using assms(2,3) by (cases r) (simp_all add: sends_def sent_from_def)
qed

lemma sends_if: "sends v m \<Longrightarrow> sends v n \<Longrightarrow> sends v (if b then m else n)"
  by simp

lemma sends_prod: "(\<And>a b. sends v (k a b)) \<Longrightarrow> sends v (case p of (a, b) \<Rightarrow> k a b)"
  by (cases p) simp

lemma sends_Let: "sends v (k x) \<Longrightarrow> sends v (Let x k)"
  by simp

lemmas sends_rules = sends_with_value sends_transact sends_check sends_fail sends_if
  sends_prod sends_Let sent_value.simps keeps_ret keeps_tally_readers

text \<open>
  C36. Money is sent only by the operation it was meant for. Each of the twelve transactions to the
  contract carries the amount of the shared transaction options. Started with that amount at zero,
  publishing data and depositing send at most one transaction, with exactly the amount given; the
  other operations (withdrawing, closing data, submitting the secret in each of the four ways,
  claiming and settling) send at most one, with the amount zero; an operation that sent none has
  failed; and every operation, also one that fails or panics, leaves the amount at zero for the
  next.
\<close>

theorem amounts_sent_once:
  "sends (sint v) (publishPlainDataToContract E b v) \<and>
   sends (sint v) (publishTableDataToContract E b v) \<and>
   sends (sint v) (BobDeposit E v a) \<and>
   sends 0 (BobUnDeposit E a) \<and> sends 0 (BobWithdrawETHFromContract E a) \<and>
   sends 0 (closeDataAtContract E blt) \<and> sends 0 (withdrawAETHFromContract E blt) \<and>
   sends 0 (submitScrtForComplaint E B tx sig) \<and> sends 0 (submitScrtForAtomicSwap E B tx sig) \<and>
   sends 0 (submitScrtForAtomicSwapVc E B tx sig) \<and> sends 0 (submitScrtForVRFQ E B tx sig) \<and>
   sends 0 (claimToContractForComplaint E sid b path a) \<and> sends 0 (settleDealForComplaint E sid a a')"
  unfolding publishPlainDataToContract_def publishTableDataToContract_def BobDeposit_def
    BobUnDeposit_def BobWithdrawETHFromContract_def closeDataAtContract_def withdrawAETHFromContract_def
    submitScrtForComplaint_def submitScrtForAtomicSwap_def submitScrtForAtomicSwapVc_def
    submitScrtForVRFQ_def claimToContractForComplaint_def settleDealForComplaint_def
  by (intro conjI sends_rules)

end
