(* ===== verification/JsonText.thy ===== *)
theory JsonText
  imports BuyerDb
begin

text \<open>
  Texts that JSON values are written as, closed under arrays and objects: what \<open>json.Marshal\<close> writes
  for nested structs is read back by \<open>json.Unmarshal\<close>.
\<close>

section \<open>Texts of values\<close>

text \<open>The text scans to the tokens, and reading the tokens where a value may stand gives the value.\<close>

definition renders :: "string \<Rightarrow> token list \<Rightarrow> json \<Rightarrow> bool" where
  "renders s ts v \<longleftrightarrow> lexes s ts \<and> ts \<noteq> [] \<and> hd ts \<noteq> TRBrack \<and>
     (\<forall>st rest. prun PVal st (ts @ rest) = prun (PEnd v) st rest)"

lemma renders_scalar: "scalar s t v \<Longrightarrow> renders s [t] v"
proof -
  assume "scalar s t v"
  moreover from this have "t \<noteq> TRBrack" by (auto simp: scalar_def value_step_def)
  ultimately show ?thesis by (simp add: renders_def scalar_def)
qed

lemmas renders_scalars = scalars [THEN renders_scalar]

lemma renders_null: "renders ''null'' [TNull] JNull"
proof -
  have "lex_token (''null'' @ rest) = Some (TNull, rest)" "\<not> is_space (CHR ''n'')" for rest
    by (simp_all add: lex_token_def lex_word_def punct_def is_digit_def is_space_def)
  then have "lexes ''null'' [TNull]"
    using lex_cons_token [of "CHR ''n''" "''ull'' @ rest" for rest] by (simp add: lexes_def)
  then show ?thesis by (simp add: renders_def value_step_def)
qed

lemma renders_uint64: "renders (enc_uint64 v) [TNum (enc_uint64 v)] (JNum (enc_uint64 v))"
proof -
  have "FormatInt (int (unat v)) = enc_uint64 v" by (simp add: FormatInt_def enc_uint64_def)
  then have "lexes (enc_uint64 v) [TNum (enc_uint64 v)]"
    using lex_FormatInt [of _ "int (unat v)"] by (simp add: lexes_def)
  then show ?thesis by (simp add: renders_def value_step_def)
qed

section \<open>Sequences\<close>

fun sep_toks :: "token list list \<Rightarrow> token list" where
  "sep_toks [] = []"
| "sep_toks [ts] = ts"
| "sep_toks (ts # tss) = ts @ TComma # sep_toks tss"

lemma brackets [simp]: "punct (CHR ''['') = Some TLBrack" "punct (CHR '']'') = Some TRBrack"
  by (simp_all add: punct_def)

lemma delim_simps [simp]: "delim (CHR '','' # s)" "delim (CHR ''}'' # s)" "delim (CHR '']'' # s)"
  by (simp_all add: delim_def)

lemma lex_commas:
  assumes "list_all2 lexes ss tss" "delim rest"
  shows "lex (commas ss @ rest) = map_option ((@) (sep_toks tss)) (lex rest)"
  using assms
proof (induction ss arbitrary: tss rule: commas.induct)
  case 1
  then show ?case by (cases "lex rest") simp_all
next
  case (2 s)
  then show ?case by (auto simp: list_all2_Cons1 lexes_def)
next
  case (3 s s' ss)
  then obtain ts ts' tss' where t: "tss = ts # ts' # tss'" "lexes s ts" "list_all2 lexes (s' # ss) (ts' # tss')"
    by (auto simp: list_all2_Cons1)
  have "lex (commas (s' # ss) @ rest) = map_option ((@) (sep_toks (ts' # tss'))) (lex rest)"
    using 3(1) [OF t(3) 3(3)] .
  moreover have "lex (s @ CHR '','' # commas (s' # ss) @ rest) = map_option ((@) ts) (lex (CHR '','' # commas (s' # ss) @ rest))"
    using t(2) by (simp add: lexes_def)
  ultimately show ?case
    by (cases "lex rest") (simp_all add: lex_punct t(1))
qed

section \<open>Arrays\<close>

lemma prun_elements:
  assumes "list_all2 (\<lambda>ts v. \<exists>s. renders s ts v) tss vs" "tss \<noteq> []"
  shows "prun PVal (FArr acc # st) (sep_toks tss @ TRBrack # rest) = prun (PEnd (JArr (rev acc @ vs))) st rest"
  using assms
proof (induction tss arbitrary: acc vs rule: sep_toks.induct)
  case (2 ts)
  then show ?case by (auto simp: list_all2_Cons1 renders_def end_step_def)
next
  case (3 ts ts' tss)
  then obtain v vs' where v: "vs = v # vs'" "\<exists>s. renders s ts v" "list_all2 (\<lambda>ts v. \<exists>s. renders s ts v) (ts' # tss) vs'"
    by (cases vs) simp_all
  from 3(1) [OF v(3)] v show ?case by (auto simp: renders_def end_step_def)
qed simp

lemma renders_array:
  assumes "list_all2 (\<lambda>s (ts, v). renders s ts v) ss tvs"
  shows "renders (CHR ''['' # commas ss @ '']'') (TLBrack # sep_toks (map fst tvs) @ [TRBrack]) (JArr (map snd tvs))"
proof -
  have l: "list_all2 lexes ss (map fst tvs)"
    using assms by (auto simp: list_all2_conv_all_nth renders_def split_def)
  have v: "list_all2 (\<lambda>ts v. \<exists>s. renders s ts v) (map fst tvs) (map snd tvs)"
    using assms by (auto simp: list_all2_conv_all_nth split_def)
  have "lex ((CHR ''['' # commas ss @ '']'') @ rest) =
      map_option ((@) (TLBrack # sep_toks (map fst tvs) @ [TRBrack])) (lex rest)" for rest
    using lex_commas [OF l, of "CHR '']'' # rest"] by (cases "lex rest") (simp_all add: lex_punct)
  then have "lexes (CHR ''['' # commas ss @ '']'') (TLBrack # sep_toks (map fst tvs) @ [TRBrack])"
    by (simp add: lexes_def)
  moreover have "prun PVal st ((TLBrack # sep_toks (map fst tvs) @ [TRBrack]) @ rest) =
      prun (PEnd (JArr (map snd tvs))) st rest" for st rest
  proof (cases tvs)
    case (Cons tv tvs')
    then obtain t ts where t: "sep_toks (map fst tvs) = t # ts" "t \<noteq> TRBrack"
      using assms by (cases tvs'; cases "fst tv") (auto simp: list_all2_Cons2 renders_def split_def)
    with prun_elements [OF v, of "[]" st rest] Cons show ?thesis
      by (simp add: value_step_def)
  qed (simp add: value_step_def)
  ultimately show ?thesis by (simp add: renders_def)
qed


section \<open>Objects\<close>

lemma enc_members_commas: "enc_members kvs = commas (map (\<lambda>(k, v). enc_string k @ CHR '':'' # v) kvs)"
  by (induction kvs rule: enc_members.induct) auto

text \<open>A member of an object: its name, its text, its tokens and its value.\<close>

type_synonym jmember = "string \<times> string \<times> token list \<times> json"

abbreviation jmember_ok :: "jmember \<Rightarrow> bool" where
  "jmember_ok \<equiv> \<lambda>(k, s, ts, v). ascii k \<and> renders s ts v"

abbreviation jmember_toks :: "jmember \<Rightarrow> token list" where
  "jmember_toks \<equiv> \<lambda>(k, s, ts, v). TStr k # TColon # ts"

lemma lexes_jmember: "jmember_ok (k, s, ts, v) \<Longrightarrow> lexes (enc_string k @ CHR '':'' # s) (TStr k # TColon # ts)"
  unfolding lexes_def
proof (intro allI impI)
  fix rest assume "jmember_ok (k, s, ts, v)" "delim rest"
  then show "lex ((enc_string k @ CHR '':'' # s) @ rest) = map_option ((@) (TStr k # TColon # ts)) (lex rest)"
    by (cases "lex rest") (simp_all add: renders_def lexes_def lex_enc_string lex_punct)
qed

lemma prun_jmembers:
  assumes "\<forall>m \<in> set ms. jmember_ok m" "ms \<noteq> []"
  shows "prun (PKey acc) st (sep_toks (map jmember_toks ms) @ TRBrace # rest) =
    prun (PEnd (JObj (rev acc @ map (\<lambda>(k, s, ts, v). (k, v)) ms))) st rest"
  using assms
proof (induction ms arbitrary: acc rule: induct_list012)
  case (2 m)
  then show ?case by (cases m) (auto simp: renders_def end_step_def)
next
  case (3 m m' ms)
  obtain k s ts v where m: "m = (k, s, ts, v)" by (metis surj_pair)
  have "prun (PKey ((k, v) # acc)) st (sep_toks (map jmember_toks (m' # ms)) @ TRBrace # rest) =
      prun (PEnd (JObj (rev ((k, v) # acc) @ map (\<lambda>(k, s, ts, v). (k, v)) (m' # ms)))) st rest"
    by (rule 3(2)) (use 3(3) in auto)
  with 3(3) m show ?case by (auto simp: renders_def end_step_def)
qed simp

lemma renders_object:
  assumes "\<forall>m \<in> set ms. jmember_ok m"
  shows "renders (CHR ''{'' # enc_members (map (\<lambda>(k, s, ts, v). (k, s)) ms) @ ''}'')
    (TLBrace # sep_toks (map jmember_toks ms) @ [TRBrace]) (JObj (map (\<lambda>(k, s, ts, v). (k, v)) ms))"
proof -
  have l: "list_all2 lexes (map (\<lambda>(k, s, ts, v). enc_string k @ CHR '':'' # s) ms) (map jmember_toks ms)"
    using assms lexes_jmember by (fastforce simp: list_all2_conv_all_nth split_def)
  have "lex ((CHR ''{'' # enc_members (map (\<lambda>(k, s, ts, v). (k, s)) ms) @ ''}'') @ rest) =
      map_option ((@) (TLBrace # sep_toks (map jmember_toks ms) @ [TRBrace])) (lex rest)" for rest
    using lex_commas [OF l, of "CHR ''}'' # rest"]
    by (cases "lex rest") (simp_all add: lex_punct enc_members_commas comp_def split_def)
  then have "lexes (CHR ''{'' # enc_members (map (\<lambda>(k, s, ts, v). (k, s)) ms) @ ''}'')
      (TLBrace # sep_toks (map jmember_toks ms) @ [TRBrace])"
    by (simp add: lexes_def)
  moreover have "prun PVal st ((TLBrace # sep_toks (map jmember_toks ms) @ [TRBrace]) @ rest) =
      prun (PEnd (JObj (map (\<lambda>(k, s, ts, v). (k, v)) ms))) st rest" for st rest
  proof (cases ms)
    case (Cons m ms')
    then obtain k ts where t: "sep_toks (map jmember_toks ms) = TStr k # ts"
      by (cases m; cases ms') auto
    with prun_jmembers [OF assms, of "[]" st rest] Cons show ?thesis
      by (simp add: value_step_def)
  qed (simp add: value_step_def)
  ultimately show ?thesis by (simp add: renders_def)
qed

section \<open>Values and their texts\<close>

definition denotes :: "string \<Rightarrow> json \<Rightarrow> bool" where
  "denotes s v \<longleftrightarrow> (\<exists>ts. renders s ts v)"

lemma denotes_scalars:
  "ascii s \<Longrightarrow> denotes (enc_string s) (JStr s)" "denotes (enc_bytes bs) (JStr (b64_encode bs))"
  "denotes (enc_int64 i) (JNum (enc_int64 i))" "denotes (enc_bool b) (JBool b)"
  "denotes (enc_uint64 u) (JNum (enc_uint64 u))" "denotes ''null'' JNull"
  unfolding denotes_def using renders_scalars renders_uint64 renders_null by blast+

lemma denotes_array:
  assumes "list_all2 denotes ss vs"
  shows "denotes (CHR ''['' # commas ss @ '']'') (JArr vs)"
proof -
  let ?tv = "map2 (\<lambda>s v. (SOME ts. renders s ts v, v)) ss vs"
  from assms have len: "length vs = length ss" by (simp add: list_all2_lengthD)
  have "list_all2 (\<lambda>s (ts, v). renders s ts v) ss ?tv"
    using assms by (auto simp: list_all2_conv_all_nth denotes_def intro: someI_ex)
  from renders_array [OF this] show ?thesis
    using len unfolding denotes_def by (auto simp: split_def comp_def map_snd_zip)
qed

lemma denotes_object:
  assumes "\<forall>(k, s, v) \<in> set ms. ascii k \<and> denotes s v"
  shows "denotes (CHR ''{'' # enc_members (map (\<lambda>(k, s, v). (k, s)) ms) @ ''}'') (JObj (map (\<lambda>(k, s, v). (k, v)) ms))"
proof -
  let ?ms = "map (\<lambda>(k, s, v). (k, s, SOME ts. renders s ts v, v)) ms"
  have "\<forall>m \<in> set ?ms. jmember_ok m" using assms by (auto simp: denotes_def intro: someI_ex)
  from renders_object [OF this] show ?thesis
    unfolding denotes_def by (auto simp: comp_def split_def)
qed

lemma json_parse_denotes: "denotes s v \<Longrightarrow> json_parse s = Some v"
proof -
  assume "denotes s v"
  then obtain ts where r: "lexes s ts" "\<And>st rest. prun PVal st (ts @ rest) = prun (PEnd v) st rest"
    by (auto simp: denotes_def renders_def)
  have "lex (s @ []) = map_option ((@) ts) (lex [])" using r(1) by (simp add: lexes_def delim_def)
  then have "lex s = Some ts" by (simp add: lex.simps)
  moreover have "prun PVal [] ts = Some v" using r(2) [of "[]" "[]"] by simp
  ultimately show ?thesis by (simp add: json_parse_def)
qed

text \<open>The text of a slice.\<close>

definition slice_json :: "('a \<Rightarrow> json) \<Rightarrow> 'a gslice \<Rightarrow> json" where
  "slice_json f s = (case s of None \<Rightarrow> JNull | Some xs \<Rightarrow> JArr (map f xs))"

lemma denotes_slice:
  assumes "\<And>x. x \<in> set (elems s) \<Longrightarrow> denotes (enc x) (f x)"
  shows "denotes (enc_slice enc s) (slice_json f s)"
proof (cases s)
  case None
  then show ?thesis by (simp add: enc_slice_def slice_json_def denotes_scalars)
next
  case (Some xs)
  have "list_all2 denotes (map enc xs) (map f xs)"
    using assms Some by (auto simp: list_all2_conv_all_nth elems_def)
  from denotes_array [OF this] Some show ?thesis by (simp add: enc_slice_def slice_json_def)
qed

lemma Unmarshal_denotes:
  assumes "\<forall>(k, s, v) \<in> set ms. ascii k \<and> denotes s v"
  shows "Unmarshal flds (enc_struct (map (\<lambda>(k, s, v). (k, s)) ms)) r = dec_members flds (map (\<lambda>(k, s, v). (k, v)) ms) r"
  using json_parse_denotes [OF denotes_object [OF assms]]
  by (simp add: Unmarshal_def enc_struct_def)


section \<open>Decoding\<close>

lemma dec_elems_map:
  assumes "\<And>x y. x \<in> set xs \<Longrightarrow> d (f x) y = Ok x"
  shows "dec_elems d z (map f xs) old = Ok xs"
  using assms by (induction xs arbitrary: old) auto

lemma dec_gslice_json:
  assumes "\<And>x y. x \<in> set (elems s) \<Longrightarrow> d (f x) y = Ok x"
  shows "dec_gslice d z (slice_json f s) old = Ok s"
  using dec_elems_map [of "elems s" d f] assms
  by (cases s) (simp_all add: dec_gslice_def slice_json_def elems_def)

lemma dec_uint64_text: "dec_uint64 (JNum (enc_uint64 u)) old = Ok u"
  using ParseUint_Format [of 10 "unat u"] unsigned_less [of u] by (simp add: dec_uint64_def enc_uint64_def)

definition demand_json :: "Demand \<Rightarrow> json" where
  "demand_json d = JObj [(''demand_start'', JNum (enc_uint64 (DemandStart d))),
     (''demand_count'', JNum (enc_uint64 (DemandCount d)))]"

definition phantom_json :: "PhantomRange \<Rightarrow> json" where
  "phantom_json p = JObj [(''phantom_start'', JNum (enc_uint64 (PhantomStart p))),
     (''phantom_count'', JNum (enc_uint64 (PhantomCount p)))]"

lemma denotes_ranges: "denotes (enc_Demand d) (demand_json d)" "denotes (enc_Phantom p) (phantom_json p)"
  using denotes_object [of "[(''demand_start'', enc_uint64 (DemandStart d), JNum (enc_uint64 (DemandStart d))),
       (''demand_count'', enc_uint64 (DemandCount d), JNum (enc_uint64 (DemandCount d)))]"]
    denotes_object [of "[(''phantom_start'', enc_uint64 (PhantomStart p), JNum (enc_uint64 (PhantomStart p))),
       (''phantom_count'', enc_uint64 (PhantomCount p), JNum (enc_uint64 (PhantomCount p)))]"]
  by (simp_all add: denotes_scalars ascii_def enc_Demand_def enc_Phantom_def demand_json_def phantom_json_def)

lemma dec_ranges:
  "dec_struct Demand_fields (demand_json d) d0 = Ok d" "dec_struct Phantom_fields (phantom_json p) p0 = Ok p"
  by (simp_all add: dec_struct_def demand_json_def phantom_json_def Demand_fields_def Phantom_fields_def
      find_field_def field_def dec_uint64_text)

end
