(* ===== verification/Publish.thy ===== *)
theory Publish
  imports Funds JsonText Receipts
begin

text \<open>
  The functions of \<^verbatim>\<open>file.go\<close> that put data on offer: saving the uploaded file in a folder of its
  own, running the program that prepares the proofs, writing the terms of the offer and moving the
  folder to the name of the data's Merkle root.
\<close>

section \<open>The terms of an offer\<close>

definition marshal_PublishExtraInfo :: "PublishExtraInfo \<Rightarrow> bytes" where
  "marshal_PublishExtraInfo x = enc_struct [
     (''mklroot'', enc_string (pe_MerkleRoot x)),
     (''mode'', enc_string (pe_Mode x)),
     (''sub_mode'', enc_slice enc_string (pe_SubMode x)),
     (''uprice'', enc_int64 (pe_UnitPrice x)),
     (''description'', enc_string (pe_Description x)),
     (''contract_addr'', enc_string (pe_ContractAddr x))]"

text \<open>\<open>os.Create\<close> and \<open>Write\<close>, which is what \<open>WriteFile\<close> does.\<close>

definition savePublishExtraInfo :: "ext \<Rightarrow> PublishExtraInfo \<Rightarrow> string \<Rightarrow> ('z world_scheme, unit res) state" where
  "savePublishExtraInfo E extra path =
     check (WriteFile E path (marshal_PublishExtraInfo extra))
       (\<lambda>_. ret (Err ''failed to write config to extra file.'')) (\<lambda>_. ret (Ok ()))"

section \<open>The folder of the data\<close>

definition savePublishRawFile :: "ext \<Rightarrow> bytes \<Rightarrow> string \<Rightarrow> string \<Rightarrow> ('z world_scheme, string res) state" where
  "savePublishRawFile E fileByte alicePublishDir dataFile = do {
     ns \<leftarrow> ask CNano (NowNano E);
     let ts = FormatInt (sint ns);
     check (pathExists E alicePublishDir) (\<lambda>_. ret (Err ''save publish file error'')) (\<lambda>rs.
     check (if \<not> rs then Mkdir E alicePublishDir else ret (Ok ()))
       (\<lambda>_. ret (Err ''save publish file error'')) (\<lambda>_.
     let dir = alicePublishDir @ ''/'' @ ts in
     check (Mkdir E dir) (\<lambda>_. ret (Err ''save publish file error'')) (\<lambda>_.
     check (WriteFile E (dir @ ''/'' @ dataFile) fileByte)
       (\<lambda>_. ret (Err ''failed to write file to publish data file.'')) (\<lambda>_.
     ret (Ok dir))))) }"

text \<open>The arguments of the publishing program.\<close>

definition publish_args :: "string \<Rightarrow> string \<Rightarrow> string \<Rightarrow> string \<Rightarrow> int64 list \<Rightarrow> string list" where
  "publish_args filePath fileName mode column keys =
     (if mode = TRANSACTION_MODE_PLAIN_POD
      then [''-m'', mode, ''-f'', filePath @ ''/'' @ fileName, ''-o'', filePath, ''-c'', column]
      else [''-m'', mode, ''-f'', filePath @ ''/'' @ fileName, ''-o'', filePath, ''-t'',
          last (Split (CHR ''.'') fileName), ''-k''] @ map (\<lambda>k. FormatInt (sint k)) keys)"

definition publishRawData :: "ext \<Rightarrow> BasicConfig \<Rightarrow> string \<Rightarrow> string \<Rightarrow> string \<Rightarrow> string \<Rightarrow> int64 list \<Rightarrow>
    ('z world_scheme, unit res) state" where
  "publishRawData E B filePath fileName mode column keys =
     check (ask_exec E (PublishBINPath B) (publish_args filePath fileName mode column keys))
       (\<lambda>_. ret (Err ''publish execution error!'')) (\<lambda>_. ret (Ok ()))"

definition reNameFolder :: "ext \<Rightarrow> string \<Rightarrow> string \<Rightarrow> ('z world_scheme, unit res) state" where
  "reNameFolder E filePath newPath = Rename E filePath newPath"

lemmas publish_defs = savePublishExtraInfo_def savePublishRawFile_def publishRawData_def reNameFolder_def

lemma keeps_publish [frame]:
  assumes "inert f"
  shows "keeps f (savePublishExtraInfo E x p)" "keeps f (savePublishRawFile E bs d n)"
    "keeps f (publishRawData E B p n m c ks)" "keeps f (reNameFolder E p q)"
  unfolding publish_defs Let_def by (intro frame assms)+


section \<open>The seller keeps to the terms\<close>

lemma extra_json:
  assumes "ascii (pe_MerkleRoot x)" "ascii (pe_Mode x)" "\<forall>s \<in> set (elems (pe_SubMode x)). ascii s"
    "ascii (pe_Description x)" "ascii (pe_ContractAddr x)"
  shows "Unmarshal PublishExtraInfo_fields (marshal_PublishExtraInfo x) x0 = Ok x"
proof -
  let ?ms = "[(''mklroot'', enc_string (pe_MerkleRoot x), JStr (pe_MerkleRoot x)),
    (''mode'', enc_string (pe_Mode x), JStr (pe_Mode x)),
    (''sub_mode'', enc_slice enc_string (pe_SubMode x), slice_json JStr (pe_SubMode x)),
    (''uprice'', enc_int64 (pe_UnitPrice x), JNum (enc_int64 (pe_UnitPrice x))),
    (''description'', enc_string (pe_Description x), JStr (pe_Description x)),
    (''contract_addr'', enc_string (pe_ContractAddr x), JStr (pe_ContractAddr x))]"
  have "\<forall>(k, s, v) \<in> set ?ms. ascii k \<and> denotes s v"
    using assms by (simp add: denotes_scalars denotes_slice) (simp add: ascii_def)
  from Unmarshal_denotes [OF this, of PublishExtraInfo_fields x0] show ?thesis
    by (simp add: marshal_PublishExtraInfo_def PublishExtraInfo_fields_def find_field_def field_def dec_gslice_json)
qed


lemma choose_offered:
  assumes "offered \<noteq> []"
  shows "choose_subMode offered wanted \<in> set offered"
    "wanted \<in> set offered \<Longrightarrow> wanted \<noteq> [] \<Longrightarrow> choose_subMode offered wanted = wanted"
  using assms by (auto simp: choose_subMode_def find_None_iff find_Some_iff split: option.split)

lemma wp_readBulletinFile_fs: "wp (readBulletinFile E p) (\<lambda>_ w'. fs w' = fs w) w"
  by (auto simp: readBulletinFile_def read_json_def ReadFile_def wps split: res.split option.split fnode.split)

lemma wp_readExtraFile:
  "wp (readExtraFile E p) (\<lambda>r _. \<forall>x. r = Ok x \<longrightarrow> (\<exists>bs. fs w p = Some (File bs) \<and>
     Unmarshal PublishExtraInfo_fields bs zero_PublishExtraInfo = Ok x)) w"
  by (auto simp: readExtraFile_def ReadFile_def wps split: res.split option.split fnode.split)

text \<open>What a program returns, if it returns without an error.\<close>

definition yields :: "('s, 'a res) state \<Rightarrow> ('a \<Rightarrow> bool) \<Rightarrow> 's \<Rightarrow> bool" where
  "yields m P s \<longleftrightarrow> wp m (\<lambda>r _. \<forall>v. r = Ok v \<longrightarrow> P v) s"

lemma yields_check:
  assumes "wp m (\<lambda>r s'. \<forall>u. r = Ok u \<longrightarrow> yields (k u) P s') s"
  shows "yields (check m (\<lambda>_. ret (Err e)) k) P s"
  unfolding yields_def wp_check by (rule wp_mono [OF assms]) (auto simp: yields_def wp_return split: res.split)

lemma yields_any: "(\<And>u s'. yields (k u) P s') \<Longrightarrow> yields (check m (\<lambda>_. ret (Err e)) k) P s"
  by (rule yields_check) (auto simp: wp_def split: prod.splits)

lemma yields_simps: "yields (ret (Err e)) P s" "yields (ret (Ok v)) P s \<longleftrightarrow> P v"
  by (simp_all add: yields_def wp_return)

lemma yields_if: "(b \<Longrightarrow> yields m P s) \<Longrightarrow> (\<not> b \<Longrightarrow> yields m' P s) \<Longrightarrow> yields (if b then m else m') P s"
  by simp

text \<open>The terms a sale is accepted on are those in the file of the offer.\<close>

definition on_terms :: "PublishExtraInfo \<Rightarrow> requestExtra \<Rightarrow> AliceConnParam \<Rightarrow> bool" where
  "on_terms x re params \<longleftrightarrow> sint (pe_UnitPrice x) \<le> sint (ap_UnitPrice params) \<and> ap_UnitPrice params = re_Price re \<and>
     ap_SubMode params \<in> set (elems (pe_SubMode x)) \<and>
     (re_SubMode re \<in> set (elems (pe_SubMode x)) \<and> re_SubMode re \<noteq> [] \<longrightarrow> ap_SubMode params = re_SubMode re) \<and>
     (ap_OT params \<longrightarrow> re_Ot re \<and> ap_SubMode params \<notin>
        {TRANSACTION_SUB_MODE_ATOMIC_SWAP, TRANSACTION_SUB_MODE_ATOMIC_SWAP_VC})"

lemma preAliceTx_terms:
  "yields (preAliceTx E B root re) (\<lambda>(params, _). \<exists>bs x.
     fs w (AliceDir B @ ''/publish/'' @ root @ ''/extra.json'') = Some (File bs) \<and>
     Unmarshal PublishExtraInfo_fields bs zero_PublishExtraInfo = Ok x \<and> on_terms x re params) w"
proof -
  let ?P = "\<lambda>(params :: AliceConnParam, _ :: requestExtra). \<exists>bs x.
     fs w (AliceDir B @ ''/publish/'' @ root @ ''/extra.json'') = Some (File bs) \<and>
     Unmarshal PublishExtraInfo_fields bs zero_PublishExtraInfo = Ok x \<and> on_terms x re params"
  show ?thesis
    unfolding preAliceTx_def Let_def
    apply (rule yields_check, rule wp_mono [OF wp_readBulletinFile_fs], intro allI impI)
    apply (rule yields_check, rule wp_mono [OF wp_readExtraFile], intro allI impI)
    apply (intro yields_if yields_simps(1) yields_any)
    apply (auto simp: yields_simps on_terms_def choose_offered)
    done
qed

text \<open>
  C16. The seller keeps to the terms it wrote: after the terms of an offer were saved, and as long
  as their file is not changed, every connection the seller accepts for this data is at the
  buyer's price, which is at least the unit price of the offer, in one of the sub modes of the
  offer, the one the buyer asked for if it is among them, and with oblivious transfer only if the
  buyer asked for it and the sub mode has it. The texts of the offer are ASCII.
\<close>

theorem sales_on_offered_terms:
  assumes "run_state (savePublishExtraInfo E x (AliceDir B @ ''/publish/'' @ root @ ''/extra.json'')) w = (Ok (), w1)"
    and "ascii (pe_MerkleRoot x)" "ascii (pe_Mode x)" "\<forall>s \<in> set (elems (pe_SubMode x)). ascii s"
      "ascii (pe_Description x)" "ascii (pe_ContractAddr x)"
    and "fs w2 (AliceDir B @ ''/publish/'' @ root @ ''/extra.json'') = fs w1 (AliceDir B @ ''/publish/'' @ root @ ''/extra.json'')"
    and "run_state (preAliceTx E' B root re) w2 = (Ok (params, re'), w3)"
  shows "sint (pe_UnitPrice x) \<le> sint (ap_UnitPrice params) \<and> ap_UnitPrice params = re_Price re \<and>
    ap_SubMode params \<in> set (elems (pe_SubMode x)) \<and>
    (re_SubMode re \<in> set (elems (pe_SubMode x)) \<and> re_SubMode re \<noteq> [] \<longrightarrow> ap_SubMode params = re_SubMode re) \<and>
    (ap_OT params \<longrightarrow> re_Ot re \<and> ap_SubMode params \<notin>
       {TRANSACTION_SUB_MODE_ATOMIC_SWAP, TRANSACTION_SUB_MODE_ATOMIC_SWAP_VC})"
proof -
  have "fs w1 (AliceDir B @ ''/publish/'' @ root @ ''/extra.json'') = Some (File (marshal_PublishExtraInfo x))"
    using assms(1) unfolding savePublishExtraInfo_def by (rule saved_file)
  then have "on_terms x re params"
    using wpD [OF preAliceTx_terms [unfolded yields_def] assms(8)] extra_json [OF assms(2-6)] assms(7) by auto
  then show ?thesis unfolding on_terms_def .
qed

text \<open>An offer of plain data in one sub mode, for two a piece.\<close>

definition sample_offer :: PublishExtraInfo where
  "sample_offer = zero_PublishExtraInfo\<lparr>pe_SubMode := Some [TRANSACTION_SUB_MODE_COMPLAINT], pe_UnitPrice := 2\<rparr>"

definition sample_shop :: ext where
  "sample_shop = sample_ext\<lparr>SoliditySHA3 := (\<lambda>_. replicate 32 0)\<rparr>"

definition sample_bulletin :: bytes where
  "sample_bulletin = enc_struct [(''mode'', enc_string ''plain'')]"

abbreviation sample_saved :: world where
  "sample_saved \<equiv> snd (run_state (savePublishExtraInfo sample_shop sample_offer ''a/publish/00/extra.json'') sample_world)"

abbreviation sample_open :: world where
  "sample_open \<equiv> sample_saved\<lparr>fs := (fs sample_saved)(''a/publish/00/bulletin'' \<mapsto> File sample_bulletin)\<rparr>"

lemma sample_saved_file: "fs sample_saved = [''a/publish/00/extra.json'' \<mapsto> File (marshal_PublishExtraInfo sample_offer)]"
  by (simp add: savePublishExtraInfo_def WriteFile_def WriteOpened_def set_fs_def run ask_def sample_shop_def
      sample_ext_def sample_world_def overlay_def contents_def)

lemma sample_offer_ascii:
  "ascii (pe_MerkleRoot sample_offer)" "ascii (pe_Mode sample_offer)" "\<forall>s \<in> set (elems (pe_SubMode sample_offer)). ascii s"
  "ascii (pe_Description sample_offer)" "ascii (pe_ContractAddr sample_offer)"
  by (simp_all add: sample_offer_def zero_PublishExtraInfo_def elems_def ascii_def mode_names)

theorem sales_on_offered_terms_witness:
  "\<exists>params re' w3. run_state (preAliceTx sample_shop sample_dirs ''00'' (zero_requestExtra\<lparr>re_Price := 5\<rparr>)) sample_open =
     (Ok (params, re'), w3) \<and> ap_SubMode params = TRANSACTION_SUB_MODE_COMPLAINT \<and> ap_UnitPrice params = 5"
proof -
  have b: "Unmarshal Bulletin_fields sample_bulletin zero_Bulletin = Ok (zero_Bulletin\<lparr>blt_Mode := ''plain''\<rparr>)"
    using Unmarshal_denotes [of "[(''mode'', enc_string ''plain'', JStr ''plain'')]" Bulletin_fields zero_Bulletin]
    by (simp add: denotes_scalars ascii_def sample_bulletin_def Bulletin_fields_def find_field_def field_def)
  have shop: "OsFault sample_shop h = False" "BulletinStat sample_shop h = Ok 0" "RandInt sample_shop h = Ok 7"
    "SoliditySHA3 sample_shop vs = replicate 32 0" for h vs
    by (simp_all add: sample_shop_def sample_ext_def)
  have dir: "AliceDir sample_dirs = ''a''" by (simp add: sample_dirs_def)
  have k: "calcuBltKey sample_shop (zero_Bulletin\<lparr>blt_Mode := ''plain''\<rparr>) = Ok (replicate 32 0)"
    by (simp add: calcuBltKey_def byte32_def shop)
  have x: "elems (pe_SubMode sample_offer) = [TRANSACTION_SUB_MODE_COMPLAINT]" "pe_UnitPrice sample_offer = 2"
    by (simp_all add: sample_offer_def zero_PublishExtraInfo_def elems_def)
  have "wp (preAliceTx sample_shop sample_dirs ''00'' (zero_requestExtra\<lparr>re_Price := 5\<rparr>)) (\<lambda>r _. is_ok r) sample_open"
    using extra_json [OF sample_offer_ascii, of zero_PublishExtraInfo] b sample_saved_file
    by (simp add: preAliceTx_def readBulletinFile_def readExtraFile_def read_json_def ReadFile_def Mkdir_def set_fs_def
        newSessID_def readDataStatusAtContract_def wps shop dir k x Let_def)
  then obtain params re' w3 where acc: "run_state (preAliceTx sample_shop sample_dirs ''00'' (zero_requestExtra\<lparr>re_Price := 5\<rparr>)) sample_open =
     (Ok (params, re'), w3)" by (auto simp: wp_def is_ok_ex split: prod.splits)
  have save: "run_state (savePublishExtraInfo sample_shop sample_offer ''a/publish/00/extra.json'') sample_world = (Ok (), sample_saved)"
    by (simp add: savePublishExtraInfo_def WriteFile_def WriteOpened_def set_fs_def run ask_def sample_shop_def
        sample_ext_def sample_world_def)
  show ?thesis
    using sales_on_offered_terms [of sample_shop sample_offer sample_dirs "''00''" sample_world sample_saved sample_open,
        OF _ sample_offer_ascii _ acc] save acc x(1) by (simp add: dir)
qed

end
