(* ===== verification/Api.thy ===== *)
theory Api
  imports Publish Purchases
begin

text \<open>
  The HTTP handlers of \<^verbatim>\<open>api.go\<close>, which the web page and the command line drive the node with,
  and the routes of \<^verbatim>\<open>main.go\<close>. A handler returns the text it hands to \<open>fmt.Fprintf\<close>; the form
  values and the uploaded file of its request are arguments. Every handler writes a row to the log
  when it returns: the local variable \<open>plog\<close> is a component of the state while it runs. The
  deferred function calls \<open>nodeRecovery\<close>, where \<open>recover\<close> has no effect as it is not called by the
  deferred function itself, so that a panic goes on to the HTTP server.
\<close>

section \<open>Constants\<close>

definition LOG_RESULT_SUCCESS :: int64 where "LOG_RESULT_SUCCESS = 1"

definition LOG_RESULT_FAILED :: int64 where "LOG_RESULT_FAILED = 2"

definition LOG_OPERATION_TYPE_ALICE_PUBLISH_INIT :: int64 where "LOG_OPERATION_TYPE_ALICE_PUBLISH_INIT = 11"

definition LOG_OPERATION_TYPE_ALICE_PUBLISH :: int64 where "LOG_OPERATION_TYPE_ALICE_PUBLISH = 12"

definition LOG_OPERATION_TYPE_ALICE_CLOSE :: int64 where "LOG_OPERATION_TYPE_ALICE_CLOSE = 13"

definition LOG_OPERATION_TYPE_ALICE_WITHDRAW_FROM_TX :: int64 where "LOG_OPERATION_TYPE_ALICE_WITHDRAW_FROM_TX = 15"

definition LOG_OPERATION_TYPE_BOB_DEPOSIT :: int64 where "LOG_OPERATION_TYPE_BOB_DEPOSIT = 21"

definition LOG_OPERATION_TYPE_BOB_UNDEPOSIT :: int64 where "LOG_OPERATION_TYPE_BOB_UNDEPOSIT = 22"

definition LOG_OPERATION_TYPE_BOB_WITHDRAW :: int64 where "LOG_OPERATION_TYPE_BOB_WITHDRAW = 23"

definition LOG_OPERATION_TYPE_BOB_TX :: int64 where "LOG_OPERATION_TYPE_BOB_TX = 24"

lemmas log_consts = LOG_RESULT_SUCCESS_def LOG_RESULT_FAILED_def LOG_OPERATION_TYPE_ALICE_PUBLISH_INIT_def LOG_OPERATION_TYPE_ALICE_PUBLISH_def LOG_OPERATION_TYPE_ALICE_CLOSE_def LOG_OPERATION_TYPE_ALICE_WITHDRAW_FROM_TX_def LOG_OPERATION_TYPE_BOB_DEPOSIT_def LOG_OPERATION_TYPE_BOB_UNDEPOSIT_def LOG_OPERATION_TYPE_BOB_WITHDRAW_def LOG_OPERATION_TYPE_BOB_TX_def

definition RESPONSE_FAILED_TO_RESPONSE :: string where
  "RESPONSE_FAILED_TO_RESPONSE = answer ''10001'' ''failed to read response''"

definition RESPONSE_DATA_NOT_EXIST :: string where
  "RESPONSE_DATA_NOT_EXIST = answer ''20001'' ''the data does not exist''"

definition RESPONSE_INCOMPLETE_PARAM :: string where
  "RESPONSE_INCOMPLETE_PARAM = answer ''20005'' ''parameters is incomplete or invalid''"

definition RESPONSE_GENERATE_PUBLISH_FAILED :: string where
  "RESPONSE_GENERATE_PUBLISH_FAILED = answer ''20006'' ''failed to generate publish data''"

definition RESPONSE_READ_DATABASE_FAILED :: string where
  "RESPONSE_READ_DATABASE_FAILED = answer ''20008'' ''fail to read to db''"

definition RESPONSE_PUBLISH_TO_CONTRACT_FAILED :: string where
  "RESPONSE_PUBLISH_TO_CONTRACT_FAILED = answer ''20010'' ''failed to publish to contract''"

definition RESPONSE_UNPUBLISH_TO_CONTRACT_FAILED :: string where
  "RESPONSE_UNPUBLISH_TO_CONTRACT_FAILED = answer ''20011'' ''failed to unpublish to contract''"

definition RESPONSE_READ_CONTRACT_FAILED :: string where
  "RESPONSE_READ_CONTRACT_FAILED = answer ''20012'' ''failed to read contract''"

definition RESPONSE_DEPOSIT_CONTRACT_FAILED :: string where
  "RESPONSE_DEPOSIT_CONTRACT_FAILED = answer ''20013'' ''failed to deposit eth from contract''"

definition RESPONSE_UNDEPOSIT_CONTRACT_FAILED :: string where
  "RESPONSE_UNDEPOSIT_CONTRACT_FAILED = answer ''20014'' ''failed to undeposit eth from contract''"

definition RESPONSE_WITHDRAW_CONTRACT_FAILED :: string where
  "RESPONSE_WITHDRAW_CONTRACT_FAILED = answer ''20015'' ''failed to withdraw eth from contract''"

definition RESPONSE_PURCHASE_FAILED :: string where
  "RESPONSE_PURCHASE_FAILED = answer ''20016'' ''failed to purchase data''"

definition RESPONSE_SAVE_FILE_FAILED :: string where
  "RESPONSE_SAVE_FILE_FAILED = answer ''20026'' ''failed to save upload file''"

definition RESPONSE_NO_NEED_TO_WITHDRAW :: string where
  "RESPONSE_NO_NEED_TO_WITHDRAW = answer ''20031'' ''no need to withdraw''"

lemmas response_defs = RESPONSE_FAILED_TO_RESPONSE_def RESPONSE_DATA_NOT_EXIST_def RESPONSE_INCOMPLETE_PARAM_def RESPONSE_GENERATE_PUBLISH_FAILED_def RESPONSE_READ_DATABASE_FAILED_def RESPONSE_PUBLISH_TO_CONTRACT_FAILED_def RESPONSE_UNPUBLISH_TO_CONTRACT_FAILED_def RESPONSE_READ_CONTRACT_FAILED_def RESPONSE_DEPOSIT_CONTRACT_FAILED_def RESPONSE_UNDEPOSIT_CONTRACT_FAILED_def RESPONSE_WITHDRAW_CONTRACT_FAILED_def RESPONSE_PURCHASE_FAILED_def RESPONSE_SAVE_FILE_FAILED_def RESPONSE_NO_NEED_TO_WITHDRAW_def

section \<open>Requests\<close>

record http_request =
  FormValue :: "string \<Rightarrow> string"
  FormFile :: "(string \<times> bytes) res"

record InitPublishConfig =
  ip_Mode :: string
  ip_SubMode :: "string gslice"
  ip_Column :: string
  ip_Keys :: "int64 gslice"
  ip_UnitPrice :: int64
  ip_Description :: string
  ip_FilePath :: string

definition InitPublishConfig_fields :: "InitPublishConfig field list" where
  "InitPublishConfig_fields = [
     field ''mode'' dec_string ip_Mode ip_Mode_update,
     field ''sub_mode'' (dec_gslice dec_string []) ip_SubMode ip_SubMode_update,
     field ''column'' dec_string ip_Column ip_Column_update,
     field ''keys'' (dec_gslice dec_int64 0) ip_Keys ip_Keys_update,
     field ''unit_price'' dec_int64 ip_UnitPrice ip_UnitPrice_update,
     field ''description'' dec_string ip_Description ip_Description_update,
     field ''file_path'' dec_string ip_FilePath ip_FilePath_update]"

definition zero_InitPublishConfig :: InitPublishConfig where
  "zero_InitPublishConfig = \<lparr>ip_Mode = [], ip_SubMode = None, ip_Column = [], ip_Keys = None, ip_UnitPrice = 0,
     ip_Description = [], ip_FilePath = []\<rparr>"

text \<open>\<open>RequestData\<close> of \<^verbatim>\<open>init.go\<close>; what it asks for is the record \<open>request\<close> of the handlers.\<close>

record RequestData = request +
  rd_MerkleRoot :: string
  rd_AliceIP :: string
  rd_AliceAddr :: string
  rd_PubPath :: string
  rd_BulletinFile :: string
  rd_SubMode :: string
  rd_OT :: bool
  rd_UnitPrice :: int64

definition RequestData_fields :: "RequestData field list" where
  "RequestData_fields = [
     field ''merkle_root'' dec_string rd_MerkleRoot rd_MerkleRoot_update,
     field ''Alice_ip'' dec_string rd_AliceIP rd_AliceIP_update,
     field ''Alice_addr'' dec_string rd_AliceAddr rd_AliceAddr_update,
     field ''pub_path'' dec_string rd_PubPath rd_PubPath_update,
     field ''bulletin_file'' dec_string rd_BulletinFile rd_BulletinFile_update,
     field ''sub_mode'' dec_string rd_SubMode rd_SubMode_update,
     field ''ot'' dec_bool rd_OT rd_OT_update,
     field ''demands'' (dec_gslice (dec_struct Demand_fields) \<lparr>DemandStart = 0, DemandCount = 0\<rparr>) rq_Demands rq_Demands_update,
     field ''phantoms'' (dec_gslice (dec_struct Phantom_fields) \<lparr>PhantomStart = 0, PhantomCount = 0\<rparr>) rq_Phantoms rq_Phantoms_update,
     field ''key_name'' dec_string rq_KeyName rq_KeyName_update,
     field ''key_value'' (dec_gslice dec_string []) rq_KeyValue rq_KeyValue_update,
     field ''phantom_key_value'' (dec_gslice dec_string []) rq_PhantomKeyValue rq_PhantomKeyValue_update,
     field ''unit_price'' dec_int64 rd_UnitPrice rd_UnitPrice_update]"

definition zero_RequestData :: RequestData where
  "zero_RequestData = \<lparr>rq_Demands = None, rq_Phantoms = None, rq_KeyName = [], rq_KeyValue = None,
     rq_PhantomKeyValue = None, rd_MerkleRoot = [], rd_AliceIP = [], rd_AliceAddr = [], rd_PubPath = [],
     rd_BulletinFile = [], rd_SubMode = [], rd_OT = False, rd_UnitPrice = 0\<rparr>"

text \<open>\<open>Response\<close>; its field \<open>Data\<close>, which no answer of a purchase has, is never read.\<close>

record Response =
  rsp_Code :: string
  rsp_Message :: string

definition Response_fields :: "Response field list" where
  "Response_fields = [
     field ''code'' dec_string rsp_Code rsp_Code_update,
     field ''message'' dec_string rsp_Message rsp_Message_update]"

section \<open>The state of a handler\<close>

record api_st = world +
  plog :: PodLog

type_synonym api = "(api_st, string res) state"

definition set_log :: "(PodLog \<Rightarrow> PodLog) \<Rightarrow> (api_st, unit) state" where
  "set_log f = State_Monad.update (\<lambda>s. s\<lparr>plog := f (plog s)\<rparr>)"

definition detail :: "string \<Rightarrow> (api_st, unit) state" where
  "detail txt = set_log (\<lambda>l. l\<lparr>pl_Detail := txt\<rparr>)"

definition write_log :: "ext \<Rightarrow> (api_st, unit) state" where
  "write_log E = do { s \<leftarrow> State_Monad.get; insertLogToDB E (plog s); ret () }"

definition logged :: "ext \<Rightarrow> int64 \<Rightarrow> api \<Rightarrow> (world, string res) state" where
  "logged E operation m = State (\<lambda>w.
     case run_state (deferring (write_log E) m) (world.extend w (api_st.fields
       \<lparr>pl_SessionId = [], pl_Operation = operation, pl_Detail = [], pl_Result = LOG_RESULT_FAILED\<rparr>)) of
     (r, s) \<Rightarrow> (r, world.truncate s))"

text \<open>A test of \<open>err\<close> that answers with a text, and the successful end.\<close>

definition or_answer :: "(api_st, 'a res) state \<Rightarrow> string \<Rightarrow> ('a \<Rightarrow> api) \<Rightarrow> api" where
  "or_answer m txt k = check m (\<lambda>_. ret (Ok txt)) k"

definition accept :: "string \<Rightarrow> api" where
  "accept msg = do {
     set_log (\<lambda>l. l\<lparr>pl_Result := LOG_RESULT_SUCCESS\<rparr>);
     ret (Ok (RESPONSE_SUCCESS msg)) }"

text \<open>A function of the node, which knows nothing of the log.\<close>

definition in_world :: "(world, 'a) state \<Rightarrow> (api_st, 'a) state" where
  "in_world m = State (\<lambda>s. case run_state m (world.truncate s) of (r, w) \<Rightarrow> (r, world.extend w (api_st.fields (plog s))))"

section \<open>The seller's handlers\<close>

text \<open>\<open>%v\<close> of a slice.\<close>

fun blanks :: "string list \<Rightarrow> string" where
  "blanks [] = []"
| "blanks [s] = s"
| "blanks (s # ss) = s @ CHR '' '' # blanks ss"

definition show_slice :: "string list \<Rightarrow> string" where
  "show_slice ss = CHR ''['' # blanks ss @ '']''"

text \<open>The second result of \<open>filepath.Split\<close>.\<close>

definition file_part :: "string \<Rightarrow> string" where
  "file_part p = rev (takeWhile (\<lambda>c. c \<noteq> CHR ''/'') (rev p))"

definition valid_offer :: "string \<Rightarrow> string list \<Rightarrow> bool" where
  "valid_offer mode subModes =
     (if mode = TRANSACTION_MODE_PLAIN_POD
      then list_all (\<lambda>s. s \<in> {TRANSACTION_SUB_MODE_COMPLAINT, TRANSACTION_SUB_MODE_ATOMIC_SWAP,
        TRANSACTION_SUB_MODE_ATOMIC_SWAP_VC}) subModes
      else if mode = TRANSACTION_MODE_TABLE_POD
      then list_all (\<lambda>s. s \<in> {TRANSACTION_SUB_MODE_COMPLAINT, TRANSACTION_SUB_MODE_ATOMIC_SWAP,
        TRANSACTION_SUB_MODE_VRF, TRANSACTION_SUB_MODE_ATOMIC_SWAP_VC}) subModes
      else True)"

definition uploaded_file :: "ext \<Rightarrow> http_request \<Rightarrow> string \<Rightarrow> ('z world_scheme, (string \<times> bytes) res) state" where
  "uploaded_file E r filePath =
     (if filePath \<noteq> []
      then check (ReadFile E filePath) (\<lambda>e. ret (Err e)) (\<lambda>bs. ret (Ok (file_part filePath, bs)))
      else ret (FormFile r))"

definition InitPublishDataAPIHandler :: "ext \<Rightarrow> BasicConfig \<Rightarrow> http_request \<Rightarrow> (world, string res) state" where
  "InitPublishDataAPIHandler E B r = logged E LOG_OPERATION_TYPE_ALICE_PUBLISH_INIT (
     or_answer (ret (Unmarshal InitPublishConfig_fields (bytes_of_string (FormValue r ''request_data''))
         zero_InitPublishConfig)) RESPONSE_INCOMPLETE_PARAM (\<lambda>config.
     let subModes = elems (ip_SubMode config); keys = elems (ip_Keys config) in
     if subModes = [] then ret (Ok RESPONSE_INCOMPLETE_PARAM)
     else if \<not> valid_offer (ip_Mode config) subModes then ret (Ok RESPONSE_INCOMPLETE_PARAM)
     else
       let dtl = ''mode='' @ ip_Mode config @ '', subMode='' @ show_slice subModes @ '', column='' @ ip_Column config @
             '', keys='' @ show_slice (map (\<lambda>k. FormatInt (sint k)) keys);
           dir = AliceDir B @ ''/publish'' in do {
       detail dtl;
       or_answer (uploaded_file E r (ip_FilePath config)) RESPONSE_SAVE_FILE_FAILED (\<lambda>(fileName, fileBytes).
       or_answer (savePublishRawFile E fileBytes dir fileName) RESPONSE_SAVE_FILE_FAILED (\<lambda>folder.
       or_answer (publishRawData E B folder fileName (ip_Mode config) (ip_Column config) keys)
         RESPONSE_GENERATE_PUBLISH_FAILED (\<lambda>_.
       or_answer (readBulletinFile E (folder @ ''/bulletin'')) RESPONSE_GENERATE_PUBLISH_FAILED (\<lambda>bulletin. do {
       detail (dtl @ '', merkle root='' @ blt_SigmaMKLRoot bulletin);
       or_answer (savePublishExtraInfo E (zero_PublishExtraInfo\<lparr>pe_Mode := ip_Mode config, pe_SubMode := ip_SubMode config,
           pe_UnitPrice := ip_UnitPrice config, pe_Description := ip_Description config,
           pe_MerkleRoot := blt_SigmaMKLRoot bulletin\<rparr>) (folder @ ''/extra.json''))
         RESPONSE_GENERATE_PUBLISH_FAILED (\<lambda>_.
       or_answer (reNameFolder E folder (dir @ ''/'' @ blt_SigmaMKLRoot bulletin)) RESPONSE_GENERATE_PUBLISH_FAILED (\<lambda>_.
       accept (''success to initialize data, merkle root='' @ blt_SigmaMKLRoot bulletin))) })))) }))"

definition publish_to_contract :: "ext \<Rightarrow> Bulletin \<Rightarrow> int64 \<Rightarrow> ('z world_scheme, string res) state" where
  "publish_to_contract E b valueInt =
     (if blt_Mode b = TRANSACTION_MODE_PLAIN_POD then publishPlainDataToContract E b valueInt
      else if blt_Mode b = TRANSACTION_MODE_TABLE_POD then publishTableDataToContract E b valueInt
      else ret (Err ''invalid mode''))"

text \<open>A failure to write the contract's address into the terms is only printed.\<close>

definition PublishDataAPIHandler :: "ext \<Rightarrow> BasicConfig \<Rightarrow> http_request \<Rightarrow> (world, string res) state" where
  "PublishDataAPIHandler E B r = logged E LOG_OPERATION_TYPE_ALICE_PUBLISH (
     let merkleRoot = FormValue r ''merkleRoot''; val = FormValue r ''value'';
         dataFile = AliceDir B @ ''/publish/'' @ merkleRoot in do {
     detail (''merkleRoot='' @ merkleRoot @ '', deposit value='' @ val);
     or_answer (ret (ParseInt val)) RESPONSE_INCOMPLETE_PARAM (\<lambda>valueInt.
     if merkleRoot = [] then ret (Ok RESPONSE_INCOMPLETE_PARAM) else
     or_answer (pathExists E dataFile) RESPONSE_READ_DATABASE_FAILED (\<lambda>rs.
     if \<not> rs then ret (Ok RESPONSE_DATA_NOT_EXIST) else
     or_answer (readBulletinFile E (dataFile @ ''/bulletin'')) RESPONSE_DATA_NOT_EXIST (\<lambda>b.
     or_answer (readExtraFile E (dataFile @ ''/extra.json'')) RESPONSE_DATA_NOT_EXIST (\<lambda>extra.
     or_answer (publish_to_contract E b valueInt) RESPONSE_PUBLISH_TO_CONTRACT_FAILED (\<lambda>txid. do {
     savePublishExtraInfo E (extra\<lparr>pe_ContractAddr := ContractAddr B\<rparr>) (dataFile @ ''/extra.json'');
     accept ''send publish transaction to contract...'' }))))) })"

definition CloseDataAPIHandler :: "ext \<Rightarrow> BasicConfig \<Rightarrow> http_request \<Rightarrow> (world, string res) state" where
  "CloseDataAPIHandler E B r = logged E LOG_OPERATION_TYPE_ALICE_CLOSE (
     let merkleRoot = FormValue r ''merkle_root'' in do {
     detail (''merkleRoot='' @ merkleRoot);
     if merkleRoot = [] then ret (Ok RESPONSE_INCOMPLETE_PARAM) else
     or_answer (readBulletinFile E (AliceDir B @ ''/publish/'' @ merkleRoot @ ''/bulletin'')) RESPONSE_DATA_NOT_EXIST (\<lambda>b.
     or_answer (ret (calcuBltKey E b)) RESPONSE_READ_CONTRACT_FAILED (\<lambda>bltByte.
     or_answer (readDataStatusAtContract E bltByte) RESPONSE_READ_CONTRACT_FAILED (\<lambda>status.
     if status \<noteq> ''OK'' then ret (Ok RESPONSE_UNPUBLISH_TO_CONTRACT_FAILED) else
     or_answer (closeDataAtContract E bltByte) RESPONSE_UNPUBLISH_TO_CONTRACT_FAILED (\<lambda>txid.
     accept ''send transaction for closing data to contract...'')))) })"

text \<open>The operation logged is that of the handler before.\<close>

definition AliceWithdrawFromDataAPIHandler :: "ext \<Rightarrow> BasicConfig \<Rightarrow> http_request \<Rightarrow> (world, string res) state" where
  "AliceWithdrawFromDataAPIHandler E B r = logged E LOG_OPERATION_TYPE_ALICE_CLOSE (
     let merkleRoot = FormValue r ''merkle_root'' in
     if merkleRoot = [] then ret (Ok RESPONSE_INCOMPLETE_PARAM) else do {
     detail (''merkleRoot='' @ merkleRoot);
     or_answer (readBulletinFile E (AliceDir B @ ''/publish/'' @ merkleRoot @ ''/bulletin'')) RESPONSE_DATA_NOT_EXIST (\<lambda>b.
     or_answer (ret (calcuBltKey E b)) RESPONSE_READ_CONTRACT_FAILED (\<lambda>bltByte.
     or_answer (withdrawAETHFromContract E bltByte) RESPONSE_READ_CONTRACT_FAILED (\<lambda>txid.
     accept ''send transaction for withdrawing from contract...''))) })"

definition AliceWithdrawFromTxAPIHandler :: "ext \<Rightarrow> http_request \<Rightarrow> (world, string res) state" where
  "AliceWithdrawFromTxAPIHandler E r = logged E LOG_OPERATION_TYPE_ALICE_WITHDRAW_FROM_TX (
     let sessionID = FormValue r ''session_id'' in do {
     detail (''sessionID='' @ sessionID);
     if sessionID = [] then ret (Ok RESPONSE_INCOMPLETE_PARAM) else
     or_answer (loadAliceFromDB E sessionID) RESPONSE_READ_DATABASE_FAILED (\<lambda>(tx, rs).
     if \<not> rs then ret (Ok RESPONSE_NO_NEED_TO_WITHDRAW)
     else if tx_SubMode tx \<noteq> TRANSACTION_SUB_MODE_COMPLAINT then ret (Ok RESPONSE_NO_NEED_TO_WITHDRAW) else
     or_answer (settleDealForComplaint E sessionID (tx_AliceAddr tx) (tx_BobAddr tx)) RESPONSE_READ_CONTRACT_FAILED (\<lambda>txid.
     accept ''send transaction for withdrawing from contract...'')) })"

section \<open>The buyer's handlers\<close>

text \<open>\<open>tx.Count\<close> in the branches of the switch.\<close>

primrec purchase_count :: "pod_pkg \<Rightarrow> 'z request_scheme \<Rightarrow> int64" where
  "purchase_count PC q = calcuDCnt (rq_Demands q)"
| "purchase_count POC q = calcuPCnt (rq_Phantoms q)"
| "purchase_count PAS q = calcuDCnt (rq_Demands q)"
| "purchase_count PASVC q = calcuDCnt (rq_Demands q)"
| "purchase_count TC q = calcuDCnt (rq_Demands q)"
| "purchase_count TOC q = calcuPCnt (rq_Phantoms q)"
| "purchase_count TAS q = calcuDCnt (rq_Demands q)"
| "purchase_count TASVC q = calcuDCnt (rq_Demands q)"
| "purchase_count TQ q = 1"
| "purchase_count TOQ q = 1"

definition new_purchase :: "ext \<Rightarrow> Key \<Rightarrow> Bulletin \<Rightarrow> BobConnParam \<Rightarrow> BobTransaction" where
  "new_purchase E key bulletin params = zero_BobTransaction\<lparr>
     bt_SessionID := bp_SessionID params,
     bt_Status := TRANSACTION_STATUS_START,
     bt_Bulletin := bulletin,
     bt_AliceIP := bp_AliceIPAddr params,
     bt_AliceAddr := bp_AliceAddr params,
     bt_Mode := bp_Mode params,
     bt_SubMode := bp_SubMode params,
     bt_OT := bp_OT params,
     bt_UnitPrice := bp_UnitPrice params,
     bt_BobAddr := AddressHex E (key_Address key)\<rparr>"

text \<open>The two switches on mode and sub mode; without a case the response stays empty.\<close>

definition run_purchase :: "ext \<Rightarrow> BasicConfig \<Rightarrow> Key \<Rightarrow> BobTransaction \<Rightarrow> RequestData \<Rightarrow> (world, string res) state" where
  "run_purchase E B key tx data =
     (case pkg_of (bt_Mode tx) (bt_SubMode tx) (bt_OT tx) of
        None \<Rightarrow> ret (Ok [])
      | Some pkg \<Rightarrow> BobTxFor pkg E B key (tx\<lparr>bt_Count := purchase_count pkg data\<rparr>) (request.truncate data)
          (rd_BulletinFile data) (rd_PubPath data))"

definition report_purchase :: "string \<Rightarrow> api" where
  "report_purchase response =
     or_answer (ret (Unmarshal Response_fields (bytes_of_string response) \<lparr>rsp_Code = [], rsp_Message = []\<rparr>))
       RESPONSE_FAILED_TO_RESPONSE (\<lambda>resp. do {
     (if rsp_Code resp = ''0'' then set_log (\<lambda>l. l\<lparr>pl_Result := LOG_RESULT_SUCCESS\<rparr>) else ret ());
     ret (Ok response) })"

definition incomplete :: "RequestData \<Rightarrow> bool" where
  "incomplete data \<longleftrightarrow> rd_MerkleRoot data = [] \<or> rd_AliceIP data = [] \<or> rd_AliceAddr data = [] \<or>
     rd_BulletinFile data = [] \<or> rd_PubPath data = []"

definition BobPurchaseDataAPIHandler :: "ext \<Rightarrow> BasicConfig \<Rightarrow> enc_handshake \<Rightarrow> bytes \<Rightarrow> Key \<Rightarrow> http_request \<Rightarrow>
    (world, string res) state" where
  "BobPurchaseDataAPIHandler E B doEnc random key r = logged E LOG_OPERATION_TYPE_BOB_TX (
     or_answer (ret (Unmarshal RequestData_fields (bytes_of_string (FormValue r ''request_data'')) zero_RequestData))
       RESPONSE_INCOMPLETE_PARAM (\<lambda>data.
     if incomplete data then ret (Ok RESPONSE_INCOMPLETE_PARAM) else
     let dtl = ''merkleRoot='' @ rd_MerkleRoot data @ '', AliceIP='' @ rd_AliceIP data @ '', AliceAddr='' @ rd_AliceAddr data @
       '', bulletinFile='' @ rd_BulletinFile data @ '', PubPath='' @ rd_PubPath data in do {
     detail dtl;
     or_answer (readBulletinFile E (rd_BulletinFile data)) RESPONSE_PURCHASE_FAILED (\<lambda>bulletin. do {
     detail (dtl @ '', merkle root='' @ blt_SigmaMKLRoot bulletin @ '','');
     or_answer (preBobConn E B doEnc random \<lparr>bp_AliceIPAddr = rd_AliceIP data, bp_AliceAddr = rd_AliceAddr data,
         bp_Mode = blt_Mode bulletin, bp_SubMode = rd_SubMode data, bp_OT = rd_OT data, bp_UnitPrice = rd_UnitPrice data,
         bp_SessionID = [], bp_MerkleRoot = blt_SigmaMKLRoot bulletin\<rparr> (key_PrivateKey key))
       RESPONSE_PURCHASE_FAILED (\<lambda>params. deferring (do { on_node Node_Close; ret () }) (do {
     detail (dtl @ '', merkle root='' @ blt_SigmaMKLRoot bulletin @ '',, sessionID='' @ bp_SessionID params @ '','');
     set_log (\<lambda>l. l\<lparr>pl_SessionId := bp_SessionID params\<rparr>);
     let tx = new_purchase E key bulletin params;
     or_answer (insertBobTxToDB E tx) (RESPONSE_TRANSACTION_FAILED ''failed to save transaction to db for Bob.'') (\<lambda>_.
     check (in_world (run_purchase E B key tx data)) (\<lambda>e. ret (Err e)) report_purchase) })) }) }))"

definition BobDepositETHAPIHandler :: "ext \<Rightarrow> http_request \<Rightarrow> (world, string res) state" where
  "BobDepositETHAPIHandler E r = logged E LOG_OPERATION_TYPE_BOB_DEPOSIT (
     let val = FormValue r ''value''; aliceAddr = FormValue r ''address'' in do {
     detail (''undeposit value='' @ val @ '', Alice address='' @ aliceAddr);
     or_answer (ret (ParseInt val)) RESPONSE_INCOMPLETE_PARAM (\<lambda>valueInt.
     if aliceAddr = [] then ret (Ok RESPONSE_INCOMPLETE_PARAM) else
     or_answer (BobDeposit E valueInt aliceAddr) RESPONSE_DEPOSIT_CONTRACT_FAILED (\<lambda>txid.
     accept ''depositing eth to contract...'')) })"

definition BobUnDepositETHAPIHandler :: "ext \<Rightarrow> http_request \<Rightarrow> (world, string res) state" where
  "BobUnDepositETHAPIHandler E r = logged E LOG_OPERATION_TYPE_BOB_UNDEPOSIT (
     let aliceAddr = FormValue r ''address'' in
     if aliceAddr = [] then ret (Ok RESPONSE_UNDEPOSIT_CONTRACT_FAILED) else do {
     detail (''Alice address='' @ aliceAddr);
     or_answer (BobUnDeposit E aliceAddr) RESPONSE_UNDEPOSIT_CONTRACT_FAILED (\<lambda>txid.
     accept ''undepositing eth from contract...'') })"

definition BobWithdrawETHAPIHandler :: "ext \<Rightarrow> http_request \<Rightarrow> (world, string res) state" where
  "BobWithdrawETHAPIHandler E r = logged E LOG_OPERATION_TYPE_BOB_WITHDRAW (
     let aliceAddr = FormValue r ''address'' in
     if aliceAddr = [] then ret (Ok RESPONSE_WITHDRAW_CONTRACT_FAILED) else do {
     detail (''Alice address='' @ aliceAddr);
     or_answer (BobWithdrawETHFromContract E aliceAddr) RESPONSE_WITHDRAW_CONTRACT_FAILED (\<lambda>txid.
     accept ''withdrawing eth from contract...'') })"

section \<open>Routes\<close>

text \<open>
  \<open>SetupAPIServe\<close>, with \<open>None\<close> for a path that none of these handlers is registered for; the two
  paths below \<^verbatim>\<open>/config\<close> are left out.
\<close>

definition serve :: "ext \<Rightarrow> BasicConfig \<Rightarrow> enc_handshake \<Rightarrow> bytes \<Rightarrow> Key \<Rightarrow> string \<Rightarrow> http_request \<Rightarrow>
    (world, string res) state option" where
  "serve E B doEnc random key path r =
     (if path = ''/s/publish/init'' then Some (InitPublishDataAPIHandler E B r)
      else if path = ''/s/publish'' then Some (PublishDataAPIHandler E B r)
      else if path = ''/s/close'' then Some (CloseDataAPIHandler E B r)
      else if path = ''/s/withdraw/data'' then Some (AliceWithdrawFromDataAPIHandler E B r)
      else if path = ''/s/withdraw/tx'' then Some (AliceWithdrawFromTxAPIHandler E r)
      else if path = ''/b/purchase'' then Some (BobPurchaseDataAPIHandler E B doEnc random key r)
      else if path = ''/b/deposit'' then Some (BobDepositETHAPIHandler E r)
      else if path = ''/b/undeposit'' then Some (BobUnDepositETHAPIHandler E r)
      else if path = ''/b/withdraw'' then Some (BobWithdrawETHAPIHandler E r)
      else None)"

end
