(* ===== verification/Service.thy ===== *)
theory Service
  imports Api
begin

text \<open>
  What the HTTP handlers guarantee: the log tells what was answered, money goes where the request
  says, and a purchase that is answered as successful is recorded as such.
\<close>

section \<open>Answers\<close>

definition success :: "string res \<Rightarrow> bool" where
  "success r \<longleftrightarrow> (\<exists>msg. r = Ok (RESPONSE_SUCCESS msg))"

lemma not_success [simp]:
  "\<not> success (Ok RESPONSE_FAILED_TO_RESPONSE)" "\<not> success (Ok RESPONSE_DATA_NOT_EXIST)"
  "\<not> success (Ok RESPONSE_INCOMPLETE_PARAM)" "\<not> success (Ok RESPONSE_GENERATE_PUBLISH_FAILED)"
  "\<not> success (Ok RESPONSE_READ_DATABASE_FAILED)" "\<not> success (Ok RESPONSE_PUBLISH_TO_CONTRACT_FAILED)"
  "\<not> success (Ok RESPONSE_UNPUBLISH_TO_CONTRACT_FAILED)" "\<not> success (Ok RESPONSE_READ_CONTRACT_FAILED)"
  "\<not> success (Ok RESPONSE_DEPOSIT_CONTRACT_FAILED)" "\<not> success (Ok RESPONSE_UNDEPOSIT_CONTRACT_FAILED)"
  "\<not> success (Ok RESPONSE_WITHDRAW_CONTRACT_FAILED)" "\<not> success (Ok RESPONSE_PURCHASE_FAILED)"
  "\<not> success (Ok RESPONSE_SAVE_FILE_FAILED)" "\<not> success (Ok RESPONSE_NO_NEED_TO_WITHDRAW)"
  "\<not> success (Ok (RESPONSE_TRANSACTION_FAILED msg))" "\<not> success (Ok (step_failed n))"
  "\<not> success Panic" "\<not> success (Err e)" "success (Ok (RESPONSE_SUCCESS msg))" "success (Ok (purchased sid))"
  by (auto simp: success_def response_defs RESPONSE_SUCCESS_def RESPONSE_TRANSACTION_FAILED_def step_failed_def
      purchased_def answer_def quoted_def)

text \<open>Texts that JSON writes as they are.\<close>

definition plain :: "string \<Rightarrow> bool" where
  "plain s \<longleftrightarrow> (\<forall>c \<in> set s. 32 \<le> cn c \<and> cn c < 128 \<and> c \<notin> {CHR 0x22, CHR 0x5C, CHR ''<'', CHR ''>'', CHR ''&''})"

lemma esc_plain: "plain s \<Longrightarrow> esc_str s = s"
proof (induction s)
  case (Cons c s)
  then have c: "32 \<le> cn c" "c \<noteq> CHR 0x22" "c \<noteq> CHR 0x5C" "c \<noteq> CHR ''<''" "c \<noteq> CHR ''>''" "c \<noteq> CHR ''&''"
    by (simp_all add: plain_def)
  have "c \<noteq> CHR 0x0A" "c \<noteq> CHR 0x0D" "c \<noteq> CHR 0x09" using c(1) by auto
  with c have "esc_ascii c = [c]" unfolding esc_ascii_def by (simp only: if_False simp_thms linorder_not_less [symmetric])
  moreover have "cn c < 128" "plain s" using Cons.prems by (simp_all add: plain_def)
  ultimately show ?case using Cons.IH by (subst esc_str.simps(2)) simp
qed simp

lemma Unmarshal_answer:
  assumes "plain code" "plain msg"
  shows "Unmarshal Response_fields (bytes_of_string (answer code msg)) r0 = Ok \<lparr>rsp_Code = code, rsp_Message = msg\<rparr>"
proof -
  let ?ms = "[(''code'', enc_string code, JStr code), (''message'', enc_string msg, JStr msg)]"
  have "ascii code" "ascii msg" using assms by (auto simp: plain_def ascii_def)
  then have "\<forall>(k, s, v) \<in> set ?ms. ascii k \<and> denotes s v"
    by (simp add: denotes_scalars) (simp add: ascii_def)
  moreover have "bytes_of_string (answer code msg) = enc_struct (map (\<lambda>(k, s, v). (k, s)) ?ms)"
    using assms esc_plain [of "''code''"] esc_plain [of "''message''"]
    by (simp add: enc_struct_def answer_def quoted_def enc_string_def esc_plain plain_def)
  ultimately show ?thesis
    using Unmarshal_denotes [of ?ms Response_fields r0]
    by (simp add: Response_fields_def find_field_def field_def)
qed


section \<open>Handlers report what they answer\<close>

definition reported :: "int64 \<Rightarrow> string res \<Rightarrow> api_st \<Rightarrow> bool" where
  "reported operation r s \<longleftrightarrow> pl_Operation (plog s) = operation \<and> (pl_Result (plog s) = LOG_RESULT_SUCCESS \<longleftrightarrow> success r)"

text \<open>From a log that says failed, the rest of the handler ends with a log that says what it answers.\<close>

definition reports :: "(api_st \<Rightarrow> bool) \<Rightarrow> api \<Rightarrow> bool" where
  "reports A m \<longleftrightarrow> (\<forall>s. pl_Result (plog s) = LOG_RESULT_FAILED \<longrightarrow> A s \<longrightarrow> wp m (reported (pl_Operation (plog s))) s)"

lemma inert_plog: "inert plog"
  by (simp add: inert_def)

lemma log_results [simp]: "LOG_RESULT_FAILED \<noteq> LOG_RESULT_SUCCESS" "LOG_RESULT_SUCCESS \<noteq> LOG_RESULT_FAILED"
  by (simp_all add: log_consts)

lemma reports_ret: "\<not> success (Ok txt) \<Longrightarrow> reports A (ret (Ok txt))"
  by (simp add: reports_def reported_def wps)

lemma reports_accept: "reports A (accept msg)"
  by (simp add: reports_def reported_def accept_def set_log_def wps)

lemma reports_check:
  assumes m: "keeps plog m" "\<And>s. A s \<Longrightarrow> wp m (\<lambda>r s'. \<forall>v. r = Ok v \<longrightarrow> A' v s') s"
    and h: "\<And>e. reports (\<lambda>_. True) (h e)" and k: "\<And>v. reports (A' v) (k v)"
  shows "reports A (check m h k)"
  unfolding reports_def wp_check
proof (intro allI impI)
  fix s assume s: "pl_Result (plog s) = LOG_RESULT_FAILED" "A s"
  let ?op = "pl_Operation (plog s)"
  have "wp m (\<lambda>r s'. plog s' = plog s \<and> (\<forall>v. r = Ok v \<longrightarrow> A' v s')) s"
    unfolding wp_conj by (rule conjI [OF keeps_wp [OF m(1)] m(2) [OF s(2)]])
  then show "wp m (\<lambda>r s'. case r of Ok v \<Rightarrow> wp (k v) (reported ?op) s'
      | Err e \<Rightarrow> wp (h e) (reported ?op) s' | Panic \<Rightarrow> reported ?op Panic s') s"
  proof (rule wp_mono)
    fix r s' assume s': "plog s' = plog s \<and> (\<forall>v. r = Ok v \<longrightarrow> A' v s')"
    show "case r of Ok v \<Rightarrow> wp (k v) (reported ?op) s'
      | Err e \<Rightarrow> wp (h e) (reported ?op) s' | Panic \<Rightarrow> reported ?op Panic s'"
      using s s' h [unfolded reports_def, rule_format, of s'] k [unfolded reports_def, rule_format, of s']
      by (cases r) (simp_all add: reported_def)
  qed
qed

lemma wp_True: "wp m (\<lambda>_ _. True) s"
  by (simp add: wp_def split: prod.splits)

lemma reports_or_answer:
  assumes "keeps plog m" "\<not> success (Ok txt)" "\<And>v. reports (\<lambda>_. True) (k v)"
  shows "reports (\<lambda>_. True) (or_answer m txt k)"
  unfolding or_answer_def
  by (rule reports_check [where A' = "\<lambda>_ _. True"]) (use assms wp_True in \<open>auto intro: reports_ret\<close>)

lemma reportsD:
  "reports A m \<Longrightarrow> pl_Result (plog s) = LOG_RESULT_FAILED \<Longrightarrow> A s \<Longrightarrow> pl_Operation (plog s) = operation \<Longrightarrow>
     wp m (reported operation) s"
  by (auto simp: reports_def)

lemma reports_seq:
  assumes "keeps plog m" "\<And>v. reports (\<lambda>_. True) (k v)"
  shows "reports (\<lambda>_. True) (State_Monad.bind m k)"
  unfolding reports_def wp_bind
  by (intro allI impI wp_keeps [OF assms(1)] reportsD [OF assms(2)]) simp_all

lemma reports_detail:
  assumes "reports (\<lambda>_. True) k"
  shows "reports (\<lambda>_. True) (do { detail txt; k })"
  unfolding reports_def detail_def set_log_def wp_bind wp_update
  by (intro allI impI reportsD [OF assms]) simp_all

lemma reports_if: "reports A m \<Longrightarrow> reports A m' \<Longrightarrow> reports A (if b then m else m')"
  by simp

lemma reports_prod: "(\<And>x y. reports A (k x y)) \<Longrightarrow> reports A (case p of (x, y) \<Rightarrow> k x y)"
  by (cases p) simp

lemmas reports_rules = reports_ret reports_accept reports_or_answer reports_detail reports_if reports_prod

lemma wp_write_log:
  "wp (write_log E) (\<lambda>_ s'. hist s' = CInsertLog (plog s) # hist s \<and> nd s' = nd s \<and> AuthValue s' = AuthValue s) s"
  by (auto simp: write_log_def insertLogToDB_def wps split: res.split)

lemma wp_logged:
  "wp (logged E operation m) Q w = wp m (\<lambda>r s. wp (write_log E) (\<lambda>_ s'. Q r (world.truncate s')) s)
     (world.extend w (api_st.fields
       \<lparr>pl_SessionId = [], pl_Operation = operation, pl_Detail = [], pl_Result = LOG_RESULT_FAILED\<rparr>))"
  by (simp add: wp_def logged_def run_deferring split: prod.split)

text \<open>A handler, seen from outside.\<close>

definition reporting :: "(world, string res) state \<Rightarrow> bool" where
  "reporting handler \<longleftrightarrow> (\<forall>w. wp handler (\<lambda>r w'. \<exists>log h. hist w' = CInsertLog log # h \<and>
     (pl_Result log = LOG_RESULT_SUCCESS \<longleftrightarrow> success r)) w)"

lemma logged_reports:
  assumes m: "reports (\<lambda>_. True) m"
  shows "reporting (logged E operation m)"
  unfolding reporting_def
proof (intro allI wpI)
  fix w r w' assume run: "run_state (logged E operation m) w = (r, w')"
  let ?s = "world.extend w (api_st.fields \<lparr>pl_SessionId = [], pl_Operation = operation, pl_Detail = [], pl_Result = LOG_RESULT_FAILED\<rparr>)"
  have s: "plog ?s = \<lparr>pl_SessionId = [], pl_Operation = operation, pl_Detail = [], pl_Result = LOG_RESULT_FAILED\<rparr>" "nd ?s = nd w"
    by (simp_all add: world.defs api_st.defs)
  obtain r1 s1 where m1: "run_state m ?s = (r1, s1)" by (metis surj_pair)
  obtain u s2 where l: "run_state (write_log E) s1 = (u, s2)" by (metis surj_pair)
  have "wp m (reported operation) ?s" by (rule reportsD [OF m]) (simp_all add: s)
  from wpD [OF this m1] have "reported operation r1 s1" .
  moreover have "hist s2 = CInsertLog (plog s1) # hist s1" using wpD [OF wp_write_log l] by simp
  moreover have "r = r1" "w' = world.truncate s2"
    using run by (simp_all add: logged_def run_deferring m1 l)
  ultimately show "\<exists>log h. hist w' = CInsertLog log # h \<and> (pl_Result log = LOG_RESULT_SUCCESS \<longleftrightarrow> success r)"
    unfolding reported_def by (simp add: world.defs)
qed

section \<open>The handlers that make no purchase\<close>

lemma keeps_plog [frame]:
  "keeps plog (set_value v)" "keeps plog (State_Monad.update (\<lambda>s. s\<lparr>nd := n\<rparr>))"
  by (simp_all add: set_value_def keeps_def run)

lemma keeps_plog_calls [frame]:
  "keeps plog (publish_to_contract E b v)" "keeps plog (BobDeposit E v a)" "keeps plog (BobUnDeposit E a)"
  "keeps plog (BobWithdrawETHFromContract E a)" "keeps plog (closeDataAtContract E blt)"
  "keeps plog (withdrawAETHFromContract E blt)" "keeps plog (uploaded_file E rq p)"
  unfolding publish_to_contract_def publishPlainDataToContract_def publishTableDataToContract_def BobDeposit_def
    BobUnDeposit_def BobWithdrawETHFromContract_def closeDataAtContract_def withdrawAETHFromContract_def
    with_value_def transact_def uploaded_file_def Let_def
  by (intro frame inert_plog)+

lemmas service_rules = reports_rules reports_seq not_success frame inert_plog

lemma handlers_report:
  "reporting (InitPublishDataAPIHandler E B r)" "reporting (PublishDataAPIHandler E B r)"
  "reporting (CloseDataAPIHandler E B r)" "reporting (AliceWithdrawFromDataAPIHandler E B r)"
  "reporting (AliceWithdrawFromTxAPIHandler E r)" "reporting (BobDepositETHAPIHandler E r)"
  "reporting (BobUnDepositETHAPIHandler E r)" "reporting (BobWithdrawETHAPIHandler E r)"
  unfolding InitPublishDataAPIHandler_def PublishDataAPIHandler_def CloseDataAPIHandler_def
    AliceWithdrawFromDataAPIHandler_def AliceWithdrawFromTxAPIHandler_def BobDepositETHAPIHandler_def
    BobUnDepositETHAPIHandler_def BobWithdrawETHAPIHandler_def Let_def
  by (intro logged_reports service_rules)+

section \<open>The answers of a purchase\<close>

definition steps :: string where
  "steps = ''1234567''"

definition told :: "string res \<Rightarrow> bool" where
  "told r \<longleftrightarrow> r = Panic \<or> (\<exists>n \<in> set steps. r = Ok (step_failed n)) \<or> (\<exists>sid. r = Ok (purchased sid))"

definition tells_step :: "('s, string res) state \<Rightarrow> bool" where
  "tells_step m \<longleftrightarrow> (\<forall>s. told (fst (run_state m s)))"

lemma told_Panic: "told Panic"
  by (simp add: told_def)

lemma tells_step_rules:
  "(\<And>e. tells_step (h e)) \<Longrightarrow> (\<And>v. tells_step (k v)) \<Longrightarrow> tells_step (check m h k)"
  "(\<And>x. tells_step (j x)) \<Longrightarrow> tells_step (State_Monad.bind m' j)"
  "tells_step a \<Longrightarrow> tells_step (deferring d a)"
  "tells_step a \<Longrightarrow> tells_step b \<Longrightarrow> tells_step (if c then a else b)"
  "(\<And>x y. tells_step (q x y)) \<Longrightarrow> tells_step (case p of (x, y) \<Rightarrow> q x y)"
  "(\<And>v. tells_step (ok v)) \<Longrightarrow> (\<And>e. tells_step (er e)) \<Longrightarrow> tells_step pa \<Longrightarrow>
     tells_step (case x' of Ok v \<Rightarrow> ok v | Err e \<Rightarrow> er e | Panic \<Rightarrow> pa)"
  by (auto simp: tells_step_def run told_Panic split: prod.split res.split) (metis fst_conv)

lemma tells_step_ends:
  "tells_step (ret Panic)" "tells_step (succeed st)"
  "n \<in> set steps \<Longrightarrow> tells_step (give_up inMap st n)"
  by (auto simp: tells_step_def run told_def succeed_def give_up_def split: prod.split)

lemma steps_in [simp]:
  "CHR ''1'' \<in> set steps" "CHR ''2'' \<in> set steps" "CHR ''3'' \<in> set steps" "CHR ''4'' \<in> set steps"
  "CHR ''5'' \<in> set steps" "CHR ''6'' \<in> set steps" "CHR ''7'' \<in> set steps"
  by (simp_all add: steps_def)

lemma tells_step_with_purchase: "tells_step m \<Longrightarrow> tells_step (with_purchase t m)"
  by (auto simp: tells_step_def with_purchase_def split: prod.split) (metis fst_conv)

lemmas purchase_flow = start_session_def bob_negotiate_def send_request_def receive_response_def
  send_receipt_def fetch_secret_def verify_secret_def complaint_end_def query_end_def decrypt_def claim_def
  must_def must_true_def

lemma purchase_tells_step:
  assumes "run_state (BobTxFor pkg E B key t q bf pp) w = (r, w')"
  shows "told r"
proof -
  have "tells_step (BobTxFor pkg E B key t q bf pp)"
    by (cases pkg; simp only: BobTxFor.simps purchase_defs Let_def bob_session_defs purchase_flow; intro tells_step_rules tells_step_ends tells_step_with_purchase steps_in)
  then show ?thesis using assms unfolding tells_step_def by (metis fst_conv)
qed

section \<open>A purchase request\<close>

text \<open>What the buyer holds when the connection and the session stand.\<close>

definition opened :: "'z world_scheme \<Rightarrow> string \<Rightarrow> bool" where
  "opened s sessionID \<longleftrightarrow> nstate (nd s) = stateSessionEstablished \<and> (\<exists>n. sessionID = FormatUint 16 n)"

lemma plain_digit: "d < 16 \<Longrightarrow> plain [digit d]"
proof -
  assume d: "d < 16"
  then have n: "cn (digit d) = (if d < 10 then 48 + d else 87 + d)" by (simp add: digit_def)
  have "cn x \<in> {34, 92, 60, 62, 38}" if "x \<in> {CHR 0x22, CHR 0x5C, CHR ''<'', CHR ''>'', CHR ''&''}" for x
    using that by auto
  moreover have "cn (digit d) \<notin> {34, 92, 60, 62, 38}" using d n by (auto split: if_splits)
  ultimately have "digit d \<notin> {CHR 0x22, CHR 0x5C, CHR ''<'', CHR ''>'', CHR ''&''}" by blast
  with d n show ?thesis by (simp add: plain_def)
qed

lemma plain_FormatUint: "plain (FormatUint 16 n)"
proof -
  have "plain [c]" if "c \<in> set (FormatUint 16 n)" for c
    using set_FormatUint [of 16 c n] that plain_digit by auto
  then show ?thesis by (simp add: plain_def)
qed

lemma wp_any: "(\<And>r s'. Q r s') \<Longrightarrow> wp m Q s"
  by (simp add: wp_def split: prod.splits)

text \<open>What holds when a function returns without an error.\<close>

definition ends :: "('s \<Rightarrow> bool) \<Rightarrow> ('s, 'a res) state \<Rightarrow> ('a \<Rightarrow> 's \<Rightarrow> bool) \<Rightarrow> bool" where
  "ends A m P \<longleftrightarrow> (\<forall>s. A s \<longrightarrow> wp m (\<lambda>r s'. \<forall>v. r = Ok v \<longrightarrow> P v s') s)"

lemma ends_check:
  assumes "ends A m P'" "\<And>v. ends (P' v) (k v) P"
  shows "ends A (check m (\<lambda>_. ret (Err e)) k) P"
  unfolding ends_def wp_check
proof (intro allI impI)
  fix s assume "A s"
  then have "wp m (\<lambda>r s'. \<forall>v. r = Ok v \<longrightarrow> P' v s') s" using assms(1) by (simp add: ends_def)
  then show "wp m (\<lambda>r s'. case r of Ok v \<Rightarrow> wp (k v) (\<lambda>r s'. \<forall>v. r = Ok v \<longrightarrow> P v s') s'
      | Err _ \<Rightarrow> wp (ret (Err e)) (\<lambda>r s'. \<forall>v. r = Ok v \<longrightarrow> P v s') s' | Panic \<Rightarrow> \<forall>v. Panic = Ok v \<longrightarrow> P v s') s"
    by (rule wp_mono) (use assms(2) in \<open>auto simp: ends_def wp_return split: res.split\<close>)
qed

lemma ends_skip: "(\<And>v. ends (\<lambda>_. True) (k v) P) \<Longrightarrow> ends A (check m (\<lambda>_. ret (Err e)) k) P"
  by (rule ends_check [where P' = "\<lambda>_ _. True"]) (simp_all add: ends_def wp_any)

lemma ends_ret: "(\<And>s. A s \<Longrightarrow> P v s) \<Longrightarrow> ends A (ret (Ok v)) P"
  by (simp add: ends_def wp_return)

lemma ends_prod: "(\<And>x y. ends A (k x y) P) \<Longrightarrow> ends A (case p of (x, y) \<Rightarrow> k x y) P"
  by (cases p) simp

lemma ends_keeps: "keeps f m \<Longrightarrow> ends (\<lambda>s. Q (f s)) m (\<lambda>_ s. Q (f s))"
  unfolding ends_def by (intro allI impI, rule wp_keeps, assumption) simp

lemma SendSessionAck_opens:
  "ends (\<lambda>_. True) (on_node (SendSessionAck i m root extra False)) (\<lambda>_ s. nstate (nd s) = stateSessionEstablished)"
  unfolding ends_def wp_on_node SendSessionAck_def Let_def wps
  by (auto simp: set_session_def intro!: wp_any split: res.split)

lemma BobCreateSess_opens:
  "ends A (BobCreateSess root mode subMode ot price) (\<lambda>v s. opened s (fst v))"
  unfolding BobCreateSess_def Let_def
  by (intro ends_skip ends_prod ends_check [OF SendSessionAck_opens] ends_ret) (auto simp: opened_def)

lemma keeps_nd [frame]:
  "keeps nd (Mkdir E p)" "keeps nd (ask c g)" "keeps nd (set_fs F)"
  by (simp_all add: keeps_def Mkdir_def set_fs_def ask_def run)

lemma opened_kept: "keeps nd m \<Longrightarrow> ends (\<lambda>s. opened s sid) m (\<lambda>_ s. opened s sid)"
  using ends_keeps [of nd m "\<lambda>n. nstate n = stateSessionEstablished \<and> (\<exists>n. sid = FormatUint 16 n)"]
  by (simp add: opened_def)

lemma preBobConn_opens:
  "ends A (preBobConn E B doEnc random params key) (\<lambda>v s. opened s (bp_SessionID v))"
  unfolding preBobConn_def
proof (rule ends_skip, rule ends_check [OF BobCreateSess_opens])
  fix v :: "string \<times> string \<times> string \<times> bool"
  obtain sid mode subMode ot where v: "v = (sid, mode, subMode, ot)" by (cases v)
  show "ends (\<lambda>s. opened s (fst v)) (case v of (sessionID, mode, subMode, ot) \<Rightarrow>
      check (Mkdir E (BobDir B @ ''/transaction/'' @ sessionID)) (\<lambda>_. ret (Err ''failed to create folder''))
       (\<lambda>_. ret (Ok (params\<lparr>bp_SessionID := sessionID, bp_Mode := mode, bp_SubMode := subMode, bp_OT := ot\<rparr>))))
      (\<lambda>v s. opened s (bp_SessionID v))"
    unfolding v by (simp, rule ends_check [OF opened_kept [OF keeps_nd(1)]]) (simp add: ends_ret)
qed

lemma keeps_plog_conn [frame]: "keeps plog (preBobConn E B doEnc random params key)"
  unfolding preBobConn_def buyNewConn_def Dial_def BobCreateSess_def Let_def
  by (intro frame inert_plog)

lemma keeps_in_world [frame]: "keeps plog (in_world m)"
  by (auto simp: keeps_def in_world_def api_st.defs world.defs split: prod.split)

lemma wp_in_world:
  "wp (in_world m) Q s = wp m (\<lambda>r w. Q r (world.extend w (api_st.fields (plog s)))) (world.truncate s)"
  by (simp add: wp_def in_world_def split: prod.split)

lemma Unmarshal_told:
  assumes "told (Ok txt)" "\<And>sid. txt = purchased sid \<Longrightarrow> plain sid"
  shows "\<exists>msg code. Unmarshal Response_fields (bytes_of_string txt) r0 = Ok \<lparr>rsp_Code = code, rsp_Message = msg\<rparr> \<and>
    (code = ''0'' \<longleftrightarrow> success (Ok txt))"
proof (cases "\<exists>sid. txt = purchased sid")
  case True
  then obtain sid where sid: "txt = purchased sid" "plain sid" using assms(2) by blast
  then have "plain (''purchase data successfully. sessionID='' @ sid)" by (simp add: plain_def)
  moreover have "plain ''0''" by (simp add: plain_def)
  ultimately have "Unmarshal Response_fields (bytes_of_string txt) r0 =
      Ok \<lparr>rsp_Code = ''0'', rsp_Message = ''purchase data successfully. sessionID='' @ sid\<rparr>"
    unfolding sid purchased_def RESPONSE_SUCCESS_def by (intro Unmarshal_answer)
  then show ?thesis using sid by (auto simp: not_success)
next
  case False
  then obtain n where n: "n \<in> set steps" "txt = step_failed n" using assms(1) by (auto simp: told_def)
  then have "plain (''step'' @ n # '': failed to purchase data.'')" by (auto simp: plain_def steps_def)
  moreover have "plain ''20017''" by (simp add: plain_def)
  ultimately have "Unmarshal Response_fields (bytes_of_string txt) r0 =
      Ok \<lparr>rsp_Code = ''20017'', rsp_Message = ''step'' @ n # '': failed to purchase data.''\<rparr>"
    unfolding n step_failed_def RESPONSE_TRANSACTION_FAILED_def by (intro Unmarshal_answer)
  then show ?thesis using n by (auto simp: not_success)
qed

lemma reports_read:
  assumes "\<And>v. Unmarshal Response_fields (bytes_of_string txt) \<lparr>rsp_Code = [], rsp_Message = []\<rparr> = Ok v \<Longrightarrow>
    rsp_Code v = ''0'' \<longleftrightarrow> success (Ok txt)"
  shows "reports A (report_purchase txt)"
proof (cases "Unmarshal Response_fields (bytes_of_string txt) \<lparr>rsp_Code = [], rsp_Message = []\<rparr>")
  case (Ok v)
  with assms [OF Ok] show ?thesis
    by (simp add: report_purchase_def or_answer_def reports_def reported_def set_log_def wp_check wp_return wp_bind wp_if wp_update)
qed (simp_all add: report_purchase_def or_answer_def reports_def reported_def wp_check wp_return)

lemma json_parse_empty: "json_parse [] = None"
  by code_simp

lemma reports_empty: "reports A (report_purchase [])"
  by (rule reports_read) (simp add: Unmarshal_def json_parse_empty string_of_bytes_def bytes_of_string_def)

lemma reports_told:
  assumes "told (Ok txt)" "\<And>sid. txt = purchased sid \<Longrightarrow> plain sid"
  shows "reports A (report_purchase txt)"
proof (rule reports_read)
  fix v assume v: "Unmarshal Response_fields (bytes_of_string txt) \<lparr>rsp_Code = [], rsp_Message = []\<rparr> = Ok v"
  from Unmarshal_told [OF assms, where ?r0.0 = "\<lparr>rsp_Code = [], rsp_Message = []\<rparr>"]
  show "rsp_Code v = ''0'' \<longleftrightarrow> success (Ok txt)" by (auto simp: v)
qed

lemma new_purchase_simps [simp]:
  "bt_SessionID (new_purchase E key b params) = bp_SessionID params"
  "bt_Status (new_purchase E key b params) = TRANSACTION_STATUS_START"
  by (simp_all add: new_purchase_def)

lemma purchased_inj [simp]: "purchased a = purchased b \<longleftrightarrow> a = b"
  by (simp add: purchased_def RESPONSE_SUCCESS_def answer_def quoted_def)

text \<open>What the handlers of the modes answer to the HTTP handler.\<close>

definition sensible :: "string \<Rightarrow> string \<Rightarrow> bool" where
  "sensible sessionID txt \<longleftrightarrow> txt = [] \<or> told (Ok txt) \<and> (\<forall>sid. txt = purchased sid \<longrightarrow> sid = sessionID)"

lemma run_purchase_sensible:
  assumes t: "bt_Status t = TRANSACTION_STATUS_START" and w: "nstate (nd w) = stateSessionEstablished"
    and p: "run_state (run_purchase E B key t data) w = (r, w')"
  shows "(\<forall>e. r \<noteq> Err e) \<and> (\<forall>txt. r = Ok txt \<longrightarrow> sensible (bt_SessionID t) txt)"
proof (cases "pkg_of (bt_Mode t) (bt_SubMode t) (bt_OT t)")
  case None
  with p show ?thesis by (auto simp: run_purchase_def sensible_def)
next
  case (Some pkg)
  let ?t = "t\<lparr>bt_Count := purchase_count pkg data\<rparr>"
  have run: "run_state (BobTxFor pkg E B key ?t (request.truncate data) (rd_BulletinFile data) (rd_PubPath data)) w = (r, w')"
    using p by (simp add: run_purchase_def Some)
  have "\<not> final (bt_Status ?t)" "\<not> receipt_sent w"
    using t w by (simp_all add: final_def status_defs)
  from purchase.answers [OF this run] have "r = Panic \<or> (\<exists>n. r = Ok (step_failed n)) \<or> r = Ok (purchased (bt_SessionID t))" by simp
  moreover have "told r" using purchase_tells_step [OF run] .
  moreover have "step_failed n \<noteq> purchased sid" for n sid
    by (simp add: step_failed_def purchased_def RESPONSE_TRANSACTION_FAILED_def RESPONSE_SUCCESS_def answer_def quoted_def)
  ultimately show ?thesis by (auto simp: sensible_def)
qed

lemma wp_run_purchase:
  assumes "opened s (bt_SessionID t)" "bt_Status t = TRANSACTION_STATUS_START"
  shows "wp (in_world (run_purchase E B key t data))
    (\<lambda>r s'. plog s' = plog s \<and> (\<forall>e. r \<noteq> Err e) \<and> (\<forall>txt. r = Ok txt \<longrightarrow> sensible (bt_SessionID t) txt)) s"
  unfolding wp_in_world
proof (rule wpI)
  fix r w' assume p: "run_state (run_purchase E B key t data) (world.truncate s) = (r, w')"
  have "nstate (nd (world.truncate s)) = stateSessionEstablished"
    using assms(1) by (simp add: opened_def world.defs)
  from run_purchase_sensible [OF assms(2) this p]
  show "plog (world.extend w' (api_st.fields (plog s))) = plog s \<and> (\<forall>e. r \<noteq> Err e) \<and>
      (\<forall>txt. r = Ok txt \<longrightarrow> sensible (bt_SessionID t) txt)"
    by (simp add: world.defs api_st.defs)
qed

lemma reports_sensible: "sensible sid txt \<Longrightarrow> plain sid \<Longrightarrow> reports A (report_purchase txt)"
  by (auto simp: sensible_def intro: reports_empty reports_told)

lemma reports_run_purchase:
  assumes t: "bt_Status t = TRANSACTION_STATUS_START"
  shows "reports (\<lambda>s. opened s (bt_SessionID t))
    (check (in_world (run_purchase E B key t data)) (\<lambda>e. ret (Err e)) report_purchase)"
  unfolding reports_def wp_check
proof (intro allI impI)
  fix s :: api_st assume s: "pl_Result (plog s) = LOG_RESULT_FAILED" "opened s (bt_SessionID t)"
  then have pl: "plain (bt_SessionID t)" by (auto simp: opened_def plain_FormatUint)
  let ?Q = "reported (pl_Operation (plog s))"
  show "wp (in_world (run_purchase E B key t data)) (\<lambda>r s'. case r of Ok v \<Rightarrow> wp (report_purchase v) ?Q s'
      | Err e \<Rightarrow> wp (ret (Err e)) ?Q s' | Panic \<Rightarrow> ?Q Panic s') s"
  proof (rule wp_mono [OF wp_run_purchase [OF s(2) t]])
    fix r and s' :: api_st assume r: "plog s' = plog s \<and> (\<forall>e. r \<noteq> Err e) \<and> (\<forall>txt. r = Ok txt \<longrightarrow> sensible (bt_SessionID t) txt)"
    show "case r of Ok v \<Rightarrow> wp (report_purchase v) ?Q s' | Err e \<Rightarrow> wp (ret (Err e)) ?Q s' | Panic \<Rightarrow> ?Q Panic s'"
    proof (cases r)
      case (Ok v)
      with r have "sensible (bt_SessionID t) v" by simp
      from reportsD [OF reports_sensible [OF this pl, of "\<lambda>_. True"], of s' "pl_Operation (plog s)"]
      show ?thesis using r s(1) Ok by simp
    qed (use r s(1) in \<open>simp_all add: reported_def\<close>)
  qed
qed

lemma reports_defer:
  assumes "keeps plog d" "reports A m"
  shows "reports A (deferring d m)"
  unfolding reports_def wp_deferring
proof (intro allI impI)
  fix s :: api_st assume "pl_Result (plog s) = LOG_RESULT_FAILED" "A s"
  from reportsD [OF assms(2) this refl]
  show "wp m (\<lambda>r. wp d (\<lambda>_. reported (pl_Operation (plog s)) r)) s"
    by (rule wp_mono) (rule wp_keeps [OF assms(1)], simp add: reported_def)
qed

text \<open>Steps of the purchase handler that keep the connection as it is.\<close>

lemma reports_log:
  assumes "\<And>l. pl_Result (f l) = pl_Result l" "\<And>l. pl_Operation (f l) = pl_Operation l"
    "\<And>s l. A (s\<lparr>plog := l\<rparr>) = A s" "reports A k"
  shows "reports A (do { set_log f; k })"
  unfolding reports_def set_log_def wp_bind wp_update
  by (intro allI impI reportsD [OF assms(4)]) (simp_all add: assms)

lemma opened_plog [simp]: "opened (s\<lparr>plog := l\<rparr>) sid = opened s sid"
  by (simp add: opened_def)

lemma keeps_nd_insertBobTx: "keeps nd (insertBobTxToDB E t)"
  unfolding insertBobTxToDB_def by (intro frame keeps_nd)

lemma reports_or_answer_opened:
  assumes "keeps plog m" "keeps nd m" "\<not> success (Ok txt)" "\<And>v. reports (\<lambda>s. opened s sid) (k v)"
  shows "reports (\<lambda>s. opened s sid) (or_answer m txt k)"
  unfolding or_answer_def
  by (rule reports_check [OF assms(1), where A' = "\<lambda>_ s. opened s sid"])
    (use assms opened_kept [OF assms(2), of sid] in \<open>auto simp: ends_def intro: reports_ret\<close>)

lemma reports_purchase: "reporting (BobPurchaseDataAPIHandler E B doEnc random key r)"
proof -
  have p: "reports (\<lambda>s. opened s (bp_SessionID params)) (do { set_log f; set_log g;
      let tx = new_purchase E key b params;
      or_answer (insertBobTxToDB E tx) (RESPONSE_TRANSACTION_FAILED msg) (\<lambda>_.
      check (in_world (run_purchase E B key tx data)) (\<lambda>e. ret (Err e)) report_purchase) })"
    if "\<And>l. pl_Result (f l) = pl_Result l" "\<And>l. pl_Operation (f l) = pl_Operation l"
      "\<And>l. pl_Result (g l) = pl_Result l" "\<And>l. pl_Operation (g l) = pl_Operation l" for params b msg data f g
    using reports_run_purchase [of "new_purchase E key b params" E B key data] unfolding Let_def
    by (intro reports_log that reports_or_answer_opened not_success frame inert_plog keeps_nd_insertBobTx opened_plog) simp
  show ?thesis
    unfolding BobPurchaseDataAPIHandler_def Let_def or_answer_def [of "preBobConn E B doEnc random p k" for p k]
    apply (rule logged_reports)
    apply (rule reports_or_answer, (intro frame)[1], rule not_success)
    apply (rule reports_if, rule reports_ret, rule not_success)
    apply (rule reports_detail, rule reports_or_answer, (intro frame inert_plog)[1], rule not_success)
    apply (rule reports_detail)
    apply (rule reports_check [OF keeps_plog_conn preBobConn_opens [unfolded ends_def, rule_format, where A = "\<lambda>_. True"]])
      apply simp
     apply (intro reports_ret not_success)
    apply (rule reports_defer)
    apply (intro frame inert_plog)
    apply (unfold detail_def, rule p [unfolded Let_def], simp_all)
    done
qed

section \<open>What a request leaves behind\<close>

text \<open>Each of the nine handlers below the paths of the seller and the buyer reports what it answers.\<close>

lemma served_reports: "serve E B doEnc random key path r = Some handler \<Longrightarrow> reporting handler"
  by (auto simp: serve_def handlers_report reports_purchase split: if_splits)

definition sample_form :: http_request where
  "sample_form = \<lparr>FormValue = (\<lambda>k. if k = ''value'' then ''25'' else if k = ''address'' then ''0x1f'' else []),
     FormFile = Err ''no file''\<rparr>"

text \<open>
  C37. A deposit pays exactly what was asked for, once: a request with an amount that parses and an
  address makes one transaction, which carries that amount to the contract for that seller, then
  the row of the log, and nothing else. The answer says whether the contract took it, and the
  amount of the shared transaction options is zero again, also after an error or a panic.
\<close>

theorem deposit_pays_exactly:
  fixes E r w
  defines "addr \<equiv> FormValue r ''address''"
  assumes "ParseInt (FormValue r ''value'') = Ok v" and "addr \<noteq> []"
    and "run_state (BobDepositETHAPIHandler E r) w = (res, w')"
  shows "let pay = CBobDeposit (sint v) (HexToAddress E addr) in
    (\<exists>log. hist w' = CInsertLog log # pay # hist w) \<and> AuthValue w' = 0 \<and>
    res = (case Transact E (pay # hist w) of
        Ok _ \<Rightarrow> Ok (RESPONSE_SUCCESS ''depositing eth to contract...'')
      | Err _ \<Rightarrow> Ok RESPONSE_DEPOSIT_CONTRACT_FAILED
      | Panic \<Rightarrow> Panic)"
proof -
  let ?pay = "CBobDeposit (sint v) (HexToAddress E addr)"
  let ?res = "case Transact E (?pay # hist w) of Ok _ \<Rightarrow> Ok (RESPONSE_SUCCESS ''depositing eth to contract...'')
      | Err _ \<Rightarrow> Ok RESPONSE_DEPOSIT_CONTRACT_FAILED | Panic \<Rightarrow> Panic"
  have "wp (BobDepositETHAPIHandler E r) (\<lambda>res w'. (\<exists>log. hist w' = CInsertLog log # ?pay # hist w) \<and> AuthValue w' = 0 \<and>
    res = ?res) w"
    unfolding BobDepositETHAPIHandler_def wp_logged
  proof (rule wp_mono)
    let ?s = "world.extend w (api_st.fields \<lparr>pl_SessionId = [], pl_Operation = LOG_OPERATION_TYPE_BOB_DEPOSIT,
      pl_Detail = [], pl_Result = LOG_RESULT_FAILED\<rparr>)"
    have "hist ?s = hist w" by (simp add: world.defs)
    then show "wp (let val = FormValue r ''value''; aliceAddr = FormValue r ''address'' in do {
        detail (''undeposit value='' @ val @ '', Alice address='' @ aliceAddr);
        or_answer (ret (ParseInt val)) RESPONSE_INCOMPLETE_PARAM (\<lambda>valueInt.
        if aliceAddr = [] then ret (Ok RESPONSE_INCOMPLETE_PARAM) else
        or_answer (BobDeposit E valueInt aliceAddr) RESPONSE_DEPOSIT_CONTRACT_FAILED (\<lambda>txid.
        accept ''depositing eth to contract...'')) }) (\<lambda>res s'. hist s' = ?pay # hist w \<and> AuthValue s' = 0 \<and> res = ?res) ?s"
      using assms(2,3)
      by (simp add: Let_def addr_def or_answer_def BobDeposit_def with_value_def transact_def set_value_def detail_def
          set_log_def accept_def wps split: res.split)
  next
    fix res and s :: api_st assume "hist s = ?pay # hist w \<and> AuthValue s = 0 \<and> res = ?res"
    then show "wp (write_log E) (\<lambda>_ s'. (\<exists>log. hist (world.truncate s') = CInsertLog log # ?pay # hist w) \<and>
        AuthValue (world.truncate s') = 0 \<and> res = ?res) s"
      by (intro wp_mono [OF wp_write_log]) (simp add: world.defs)
  qed
  from wpD [OF this assms(4)] show ?thesis by (simp add: Let_def)
qed


theorem deposit_pays_exactly_witness:
  "\<exists>log. hist (snd (run_state (BobDepositETHAPIHandler sample_ext sample_form) sample_world)) =
     [CInsertLog log, CBobDeposit 25 (HexToAddress sample_ext ''0x1f'')]"
proof -
  have "FormatInt (sint (25 :: int64)) = ''25''" by code_simp
  then have p: "ParseInt (FormValue sample_form ''value'') = Ok 25"
    using ParseInt_Format [of 25] by (simp add: sample_form_def)
  have a: "FormValue sample_form ''address'' = ''0x1f''" by (simp add: sample_form_def)
  show ?thesis
    using deposit_pays_exactly [OF p _ surjective_pairing, of sample_ext sample_world] a
    by (simp add: Let_def sample_world_def)
qed

end
