(* ===== verification/Frames.thy ===== *)
theory Frames
  imports Transport
begin

unbundle bit_operations_syntax

text \<open>
  The frames of \<^verbatim>\<open>net/rlpx/p2p/rlpx.go\<close>, which carry the messages of the transport over TCP: an
  encrypted header with its MAC, the encrypted message padded to blocks of sixteen bytes, and the
  MAC of the frame. The block cipher, the hash, the RLP coding of a number and the compression are
  libraries outside the repository, the fields of the parameter \<open>frame_lib\<close>.
\<close>

section \<open>The libraries\<close>

text \<open>
  \<open>KeyStream k i\<close> is the byte number \<open>i\<close> of the AES-CTR stream of key \<open>k\<close> with an initialisation
  vector of zeroes, \<open>BlockEncrypt k\<close> encrypts the first block of its argument, \<open>Keccak\<close> is the sum
  of all that was written to a hash. The RLP decoder also returns what follows the number.
\<close>

record frame_lib =
  KeyStream :: "bytes \<Rightarrow> nat \<Rightarrow> byte"
  BlockEncrypt :: "bytes \<Rightarrow> bytes \<Rightarrow> bytes"
  Keccak :: "bytes \<Rightarrow> bytes"
  RlpUint :: "u64 \<Rightarrow> bytes"
  RlpDecodeUint :: "bytes \<Rightarrow> (u64 \<times> bytes) res"
  SnappyEncode :: "bytes \<Rightarrow> bytes"
  SnappyDecodedLen :: "bytes \<Rightarrow> nat res"
  SnappyDecode :: "bytes \<Rightarrow> bytes res"

text \<open>
  What the frames rely on: the sizes of blocks and hashes, and that decoders invert encoders. A
  number has at most eight bytes after the one that says how many, and a message code of one byte
  with the high bit set takes two.
\<close>

definition frame_laws :: "frame_lib \<Rightarrow> bool" where
  "frame_laws F \<longleftrightarrow> (\<forall>k b. length (BlockEncrypt F k b) = 16) \<and> (\<forall>b. length (Keccak F b) = 32) \<and>
     (\<forall>c rest. RlpDecodeUint F (RlpUint F c @ rest) = Ok (c, rest)) \<and> (\<forall>c. length (RlpUint F c) \<le> 9) \<and>
     (\<forall>c. 128 \<le> c \<longrightarrow> c < 256 \<longrightarrow> length (RlpUint F c) = 2) \<and>
     (\<forall>b. SnappyDecodedLen F (SnappyEncode F b) = Ok (length b) \<and> SnappyDecode F (SnappyEncode F b) = Ok b)"

text \<open>\<open>cipher.Stream.XORKeyStream\<close> from a position of the stream.\<close>

definition XORKeyStream :: "frame_lib \<Rightarrow> bytes \<Rightarrow> nat \<Rightarrow> bytes \<Rightarrow> bytes" where
  "XORKeyStream F key pos bs = map2 (XOR) bs (map (KeyStream F key) [pos..<pos + length bs])"

lemma length_XORKeyStream [simp]: "length (XORKeyStream F key pos bs) = length bs"
  by (simp add: XORKeyStream_def)

lemma XORKeyStream_twice [simp]: "XORKeyStream F key pos (XORKeyStream F key pos bs) = bs"
  by (rule nth_equalityI) (simp_all add: XORKeyStream_def xor.assoc)

lemma XORKeyStream_append:
  "XORKeyStream F key pos (a @ b) = XORKeyStream F key pos a @ XORKeyStream F key (pos + length a) b"
  by (rule nth_equalityI) (auto simp: XORKeyStream_def nth_append add.assoc)

section \<open>The connection below\<close>

text \<open>
  The bytes that arrive and those sent; \<open>fd_werr\<close> scripts which of the following writes fail. An
  input that is too short is a connection that was closed or timed out.
\<close>

record fd =
  fd_in :: bytes
  fd_out :: bytes
  fd_werr :: "bool list"

definition ReadFull :: "nat \<Rightarrow> ('z fd_scheme, bytes res) state" where
  "ReadFull n = State (\<lambda>s.
     if length (fd_in s) < n then (Err ''unexpected EOF'', s\<lparr>fd_in := []\<rparr>)
     else (Ok (take n (fd_in s)), s\<lparr>fd_in := drop n (fd_in s)\<rparr>))"

definition fd_Write :: "bytes \<Rightarrow> ('z fd_scheme, unit res) state" where
  "fd_Write bs = State (\<lambda>s. case fd_werr s of
     True # ws \<Rightarrow> (Err ''write'', s\<lparr>fd_werr := ws\<rparr>)
   | ws \<Rightarrow> (Ok (), s\<lparr>fd_out := fd_out s @ bs, fd_werr := tl ws\<rparr>))"

section \<open>The frame reader and writer\<close>

text \<open>A stream cipher is its key and its position, a hash what was written to it.\<close>

record rlpxFrameRW = fd +
  aesKey :: bytes
  encPos :: nat
  decPos :: nat
  macKey :: bytes
  egressMAC :: bytes
  ingressMAC :: bytes
  snappy :: bool

record Msg =
  msg_Code :: u64
  msg_Size :: u32
  msg_Payload :: bytes

definition updateMAC :: "frame_lib \<Rightarrow> bytes \<Rightarrow> bytes \<Rightarrow> bytes \<Rightarrow> bytes \<times> bytes" where
  "updateMAC F key mac seed =
     (let aesbuf = map2 (XOR) (BlockEncrypt F key (Keccak F mac)) (take 16 seed); mac' = mac @ aesbuf in
      (take 16 (Keccak F mac'), mac'))"

definition readInt24 :: "bytes \<Rightarrow> u32" where
  "readInt24 b = ucast (b ! 2) OR push_bit 8 (ucast (b ! 1)) OR push_bit 16 (ucast (b ! 0))"

definition putInt24 :: "u32 \<Rightarrow> bytes" where
  "putInt24 v = [ucast (drop_bit 16 v), ucast (drop_bit 8 v), ucast v]"

definition zeroHeader :: bytes where
  "zeroHeader = [0xC2, 0x80, 0x80]"

text \<open>The first half of the header before it is encrypted.\<close>

definition header :: "u32 \<Rightarrow> bytes" where
  "header fsize = putInt24 fsize @ zeroHeader @ replicate 10 0"

text \<open>The cipher and MAC operations on the state of a connection.\<close>

definition encrypt :: "frame_lib \<Rightarrow> bytes \<Rightarrow> (rlpxFrameRW, bytes) state" where
  "encrypt F bs = State (\<lambda>s. (XORKeyStream F (aesKey s) (encPos s) bs, s\<lparr>encPos := encPos s + length bs\<rparr>))"

definition decrypt_next :: "frame_lib \<Rightarrow> bytes \<Rightarrow> (rlpxFrameRW, bytes) state" where
  "decrypt_next F bs = State (\<lambda>s. (XORKeyStream F (aesKey s) (decPos s) bs, s\<lparr>decPos := decPos s + length bs\<rparr>))"

definition egress :: "frame_lib \<Rightarrow> bytes \<Rightarrow> (rlpxFrameRW, bytes) state" where
  "egress F seed = State (\<lambda>s. case updateMAC F (macKey s) (egressMAC s) seed of (mac, h) \<Rightarrow> (mac, s\<lparr>egressMAC := h\<rparr>))"

definition ingress :: "frame_lib \<Rightarrow> bytes \<Rightarrow> (rlpxFrameRW, bytes) state" where
  "ingress F seed = State (\<lambda>s. case updateMAC F (macKey s) (ingressMAC s) seed of (mac, h) \<Rightarrow> (mac, s\<lparr>ingressMAC := h\<rparr>))"

text \<open>
  \<open>cipher.StreamWriter\<close> over \<open>io.MultiWriter(rw.conn, rw.egressMAC)\<close>; \<open>io.Copy\<close> makes no write for
  an empty reader.
\<close>

definition tee_Write :: "frame_lib \<Rightarrow> bytes \<Rightarrow> (rlpxFrameRW, unit res) state" where
  "tee_Write F bs = do {
     c \<leftarrow> encrypt F bs;
     check (fd_Write c) (\<lambda>e. ret (Err e)) (\<lambda>_. do {
     State_Monad.update (\<lambda>s. s\<lparr>egressMAC := egressMAC s @ c\<rparr>);
     ret (Ok ()) }) }"

definition tee_Copy :: "frame_lib \<Rightarrow> bytes \<Rightarrow> (rlpxFrameRW, unit res) state" where
  "tee_Copy F bs = (if bs = [] then ret (Ok ()) else tee_Write F bs)"

definition pad16 :: "u32 \<Rightarrow> nat" where
  "pad16 fsize = (if unat fsize mod 16 > 0 then 16 - unat fsize mod 16 else 0)"

text \<open>\<open>WriteMsg\<close> from the header on, and the function itself.\<close>

definition put_frame :: "frame_lib \<Rightarrow> u32 \<Rightarrow> bytes \<Rightarrow> bytes \<Rightarrow> (rlpxFrameRW, unit res) state" where
  "put_frame F fsize ptype payload = do {
     headbuf \<leftarrow> encrypt F (header fsize);
     mac \<leftarrow> egress F headbuf;
     check (fd_Write (headbuf @ mac)) (\<lambda>e. ret (Err e)) (\<lambda>_.
     check (tee_Write F ptype) (\<lambda>e. ret (Err e)) (\<lambda>_.
     check (tee_Copy F payload) (\<lambda>e. ret (Err e)) (\<lambda>_.
     check (tee_Copy F (replicate (pad16 fsize) 0)) (\<lambda>e. ret (Err e)) (\<lambda>_. do {
     s \<leftarrow> State_Monad.get;
     mac \<leftarrow> egress F (Keccak F (egressMAC s));
     fd_Write mac })))) }"

definition rw_WriteMsg :: "frame_lib \<Rightarrow> Msg \<Rightarrow> (rlpxFrameRW, unit res) state" where
  "rw_WriteMsg F msg = do {
     s \<leftarrow> State_Monad.get;
     let ptype = RlpUint F (msg_Code msg);
     if snappy s \<and> unat (msg_Size msg) > maxUint24 then ret (Err ''message length >= 16MB'') else
     let payload = (if snappy s then SnappyEncode F (msg_Payload msg) else msg_Payload msg);
         sz = (if snappy s then word_of_nat (length payload) else msg_Size msg);
         fsize = word_of_nat (length ptype) + sz in
     if unat fsize > maxUint24 then ret (Err ''message size overflows uint24'') else
     put_frame F fsize ptype payload }"

text \<open>The end of \<open>ReadMsg\<close>: the message in a decrypted frame.\<close>

definition open_frame :: "frame_lib \<Rightarrow> bool \<Rightarrow> bytes \<Rightarrow> Msg res" where
  "open_frame F snp content =
     res_bind (RlpDecodeUint F content) (\<lambda>(code, payload).
     if \<not> snp then Ok \<lparr>msg_Code = code, msg_Size = word_of_nat (length payload), msg_Payload = payload\<rparr> else
     res_bind (SnappyDecodedLen F payload) (\<lambda>sz.
     if sz > maxUint24 then Err ''message length >= 16MB'' else
     res_bind (SnappyDecode F payload) (\<lambda>plain.
     Ok \<lparr>msg_Code = code, msg_Size = word_of_nat sz, msg_Payload = plain\<rparr>)))"

definition rw_ReadMsg :: "frame_lib \<Rightarrow> (rlpxFrameRW, Msg res) state" where
  "rw_ReadMsg F =
     check (ReadFull 32) (\<lambda>e. ret (Err e)) (\<lambda>headbuf. do {
     shouldMAC \<leftarrow> ingress F (take 16 headbuf);
     if shouldMAC \<noteq> drop 16 headbuf then ret (Err ''bad header MAC'') else do {
     header \<leftarrow> decrypt_next F (take 16 headbuf);
     let fsize = readInt24 header;
     check (ReadFull (unat fsize + pad16 fsize)) (\<lambda>e. ret (Err e)) (\<lambda>framebuf. do {
     State_Monad.update (\<lambda>s. s\<lparr>ingressMAC := ingressMAC s @ framebuf\<rparr>);
     s \<leftarrow> State_Monad.get;
     let fmacseed = Keccak F (ingressMAC s);
     check (ReadFull 16) (\<lambda>e. ret (Err e)) (\<lambda>mac. do {
     shouldMAC \<leftarrow> ingress F fmacseed;
     if shouldMAC \<noteq> mac then ret (Err ''bad frame MAC'') else do {
     content \<leftarrow> decrypt_next F framebuf;
     ret (open_frame F (snappy s) (take (unat fsize) content)) } }) }) } })"

section \<open>A number in three bytes\<close>

lemma readInt24_putInt24:
  assumes "unat v < 2 ^ 24"
  shows "readInt24 (putInt24 v @ rest) = v"
proof -
  have "unat (take_bit 24 v) = unat v"
    using assms by (simp add: unsigned_take_bit_eq take_bit_nat_eq_self)
  then have "take_bit 24 v = v" by (rule unsigned_word_eqI)
  then have v: "bit v n \<Longrightarrow> n < 24" for n by (metis bit_take_bit_iff)
  have "bit (ucast (ucast v :: byte) OR push_bit 8 (ucast (ucast (drop_bit 8 v) :: byte)) OR
      push_bit 16 (ucast (ucast (drop_bit 16 v) :: byte)) :: u32) n \<longleftrightarrow> bit v n" if "n < 32" for n
    using that v [of n] by (cases "n < 8"; cases "n < 16"; cases "n < 24") (auto simp: bit_simps)
  then show ?thesis
    by (intro bit_word_eqI) (simp add: readInt24_def putInt24_def)
qed

section \<open>What a frame looks like\<close>

text \<open>No write fails.\<close>

definition steady :: "'z fd_scheme \<Rightarrow> bool" where
  "steady s \<longleftrightarrow> True \<notin> set (fd_werr s)"

lemma wp_fd_Write:
  assumes "steady s" "\<And>ws. True \<notin> set ws \<Longrightarrow> Q (Ok ()) (s\<lparr>fd_out := fd_out s @ bs, fd_werr := ws\<rparr>)"
  shows "wp (fd_Write bs) Q s"
  using assms by (auto simp: wp_def fd_Write_def steady_def split: list.splits bool.splits)

lemma wp_ReadFull:
  assumes "fd_in s = a @ b" "length a = n" "Q (Ok a) (s\<lparr>fd_in := b\<rparr>)"
  shows "wp (ReadFull n) Q s"
  using assms by (simp add: wp_def ReadFull_def)

lemma wp_cipher [wps]:
  "wp (encrypt F bs) Q s = Q (XORKeyStream F (aesKey s) (encPos s) bs) (s\<lparr>encPos := encPos s + length bs\<rparr>)"
  "wp (decrypt_next F bs) Q s = Q (XORKeyStream F (aesKey s) (decPos s) bs) (s\<lparr>decPos := decPos s + length bs\<rparr>)"
  "wp (egress F seed) Q s = Q (fst (updateMAC F (macKey s) (egressMAC s) seed))
     (s\<lparr>egressMAC := snd (updateMAC F (macKey s) (egressMAC s) seed)\<rparr>)"
  "wp (ingress F seed) Q s = Q (fst (updateMAC F (macKey s) (ingressMAC s) seed))
     (s\<lparr>ingressMAC := snd (updateMAC F (macKey s) (ingressMAC s) seed)\<rparr>)"
  by (simp_all add: wp_def encrypt_def decrypt_next_def egress_def ingress_def split: prod.split)

lemma wp_tee_Copy:
  assumes "steady s" "\<And>ws c. True \<notin> set ws \<Longrightarrow> c = XORKeyStream F (aesKey s) (encPos s) bs \<Longrightarrow>
    Q (Ok ()) (s\<lparr>encPos := encPos s + length bs, fd_out := fd_out s @ c, fd_werr := ws, egressMAC := egressMAC s @ c\<rparr>)"
  shows "wp (tee_Write F bs) Q s" "wp (tee_Copy F bs) Q s"
proof -
  show w: "wp (tee_Write F bs) Q s"
    unfolding tee_Write_def wps
    by (rule wp_fd_Write) (use assms in \<open>simp_all add: steady_def wps\<close>)
  have "wp (tee_Copy F []) Q s" if "bs = []"
    using assms(2) [of "fd_werr s" "[]"] assms(1) that by (simp add: tee_Copy_def wps steady_def XORKeyStream_def)
  with w show "wp (tee_Copy F bs) Q s" by (auto simp: tee_Copy_def)
qed

text \<open>The frame of a message whose code and payload take \<open>body\<close>, and the hash it leaves.\<close>

definition framed :: "frame_lib \<Rightarrow> rlpxFrameRW \<Rightarrow> bytes \<Rightarrow> bytes \<times> bytes" where
  "framed F s body =
     (let fsize = word_of_nat (length body);
          h = XORKeyStream F (aesKey s) (encPos s) (header fsize);
          (m1, e1) = updateMAC F (macKey s) (egressMAC s) h;
          c = XORKeyStream F (aesKey s) (encPos s + 16) (body @ replicate (pad16 fsize) 0);
          (m2, e2) = updateMAC F (macKey s) (e1 @ c) (Keccak F (e1 @ c)) in
      (h @ m1 @ c @ m2, e2))"

lemma length_header [simp]: "length (header v) = 16"
  by (simp add: header_def putInt24_def zeroHeader_def)

text \<open>What the writer puts into the frame.\<close>

definition body_of :: "frame_lib \<Rightarrow> bool \<Rightarrow> Msg \<Rightarrow> bytes" where
  "body_of F snp m = RlpUint F (msg_Code m) @ (if snp then SnappyEncode F (msg_Payload m) else msg_Payload m)"

text \<open>A message that states its size, and fits into a frame.\<close>

definition sized :: "frame_lib \<Rightarrow> bool \<Rightarrow> Msg \<Rightarrow> bool" where
  "sized F snp m \<longleftrightarrow> unat (msg_Size m) = length (msg_Payload m) \<and> length (body_of F snp m) \<le> maxUint24 \<and>
     length (msg_Payload m) \<le> maxUint24"

lemma wp_put_frame:
  assumes s: "steady s"
    and Q: "\<And>ws. True \<notin> set ws \<Longrightarrow> Q (Ok ()) (s\<lparr>
      encPos := encPos s + 16 + length (ptype @ payload) + pad16 (word_of_nat (length (ptype @ payload))),
      egressMAC := snd (framed F s (ptype @ payload)),
      fd_out := fd_out s @ fst (framed F s (ptype @ payload)), fd_werr := ws\<rparr>)"
  shows "wp (put_frame F (word_of_nat (length (ptype @ payload))) ptype payload) Q s"
proof -
  define n where "n = (word_of_nat (length (ptype @ payload)) :: u32)"
  define h where "h = XORKeyStream F (aesKey s) (encPos s) (header n)"
  obtain m1 e1 where u1: "updateMAC F (macKey s) (egressMAC s) h = (m1, e1)" by (cases "updateMAC F (macKey s) (egressMAC s) h")
  define c1 where "c1 = XORKeyStream F (aesKey s) (encPos s + 16) ptype"
  define c2 where "c2 = XORKeyStream F (aesKey s) (encPos s + 16 + length ptype) payload"
  define c3 where "c3 = XORKeyStream F (aesKey s) (encPos s + 16 + length ptype + length payload) (replicate (pad16 n) 0)"
  obtain m2 e2 where u2: "updateMAC F (macKey s) (e1 @ c1 @ c2 @ c3) (Keccak F (e1 @ c1 @ c2 @ c3)) = (m2, e2)"
    by (cases "updateMAC F (macKey s) (e1 @ c1 @ c2 @ c3) (Keccak F (e1 @ c1 @ c2 @ c3))")
  have "XORKeyStream F (aesKey s) (encPos s + 16) ((ptype @ payload) @ replicate (pad16 n) 0) = c1 @ c2 @ c3"
    by (simp add: c1_def c2_def c3_def XORKeyStream_append add.assoc)
  then have f: "framed F s (ptype @ payload) = (h @ m1 @ c1 @ c2 @ c3 @ m2, e2)"
    unfolding framed_def Let_def n_def [symmetric] h_def [symmetric] u1 by (simp add: u2)
  have "wp (put_frame F n ptype payload) Q s"
    unfolding put_frame_def wps h_def [symmetric] u1
    apply (simp add: u1)
    apply (rule wp_fd_Write)
    using s apply (simp add: steady_def)
    apply (simp add: wps)
    apply (rule wp_tee_Copy)
    apply (simp add: steady_def)
    apply (simp add: wps flip: c1_def)
    apply (rule wp_tee_Copy)
    apply (simp add: steady_def)
    apply (simp add: wps flip: c2_def)
    apply (rule wp_tee_Copy)
    apply (simp add: steady_def)
    apply (simp add: wps u2 flip: c3_def)
    apply (rule wp_fd_Write)
    apply (simp add: steady_def)
    subgoal for ws1 ws2 d1 ws3 d2 ws4 d3 ws5
      using Q [of ws5] by (simp add: f n_def add.assoc)
    done
  then show ?thesis by (simp only: n_def)
qed

lemma wp_rw_WriteMsg:
  assumes s: "steady s" and m: "sized F (snappy s) m"
    and Q: "\<And>ws. True \<notin> set ws \<Longrightarrow> Q (Ok ()) (s\<lparr>encPos := encPos s + 16 + length (body_of F (snappy s) m) +
        pad16 (word_of_nat (length (body_of F (snappy s) m))),
      egressMAC := snd (framed F s (body_of F (snappy s) m)),
      fd_out := fd_out s @ fst (framed F s (body_of F (snappy s) m)), fd_werr := ws\<rparr>)"
  shows "wp (rw_WriteMsg F m) Q s"
proof -
  let ?p = "if snappy s then SnappyEncode F (msg_Payload m) else msg_Payload m"
  let ?sz = "if snappy s then word_of_nat (length ?p) else msg_Size m :: u32"
  let ?n = "length (RlpUint F (msg_Code m) @ ?p)"
  have n: "?n \<le> maxUint24" "\<not> unat (msg_Size m) > maxUint24" using m by (auto simp: sized_def body_of_def)
  have "msg_Size m = word_of_nat (unat (msg_Size m))" by simp
  also have "unat (msg_Size m) = length (msg_Payload m)" using m by (simp add: sized_def)
  finally have "msg_Size m = word_of_nat (length (msg_Payload m))" .
  then have f: "word_of_nat (length (RlpUint F (msg_Code m))) + ?sz = word_of_nat ?n" by simp
  have u: "unat (word_of_nat ?n :: u32) = ?n" by (rule unat_of_nat_small) (use n(1) in \<open>simp add: maxUint24_def\<close>)
  have "wp (put_frame F (word_of_nat ?n) (RlpUint F (msg_Code m)) ?p) Q s"
    by (rule wp_put_frame [OF s]) (rule Q [unfolded body_of_def])
  then show ?thesis
    unfolding rw_WriteMsg_def Let_def wps f u using n by (simp del: length_append of_nat_add)
qed

section \<open>What one end writes, the other reads\<close>

text \<open>The two ends of a connection, one direction: the ciphers and the hashes are in step.\<close>

definition in_step :: "rlpxFrameRW \<Rightarrow> rlpxFrameRW \<Rightarrow> bool" where
  "in_step s r \<longleftrightarrow> aesKey r = aesKey s \<and> macKey r = macKey s \<and> snappy r = snappy s \<and>
     decPos r = encPos s \<and> ingressMAC r = egressMAC s"

lemma length_updateMAC: "frame_laws F \<Longrightarrow> length (fst (updateMAC F k m seed)) = 16"
  by (simp add: updateMAC_def Let_def frame_laws_def)

lemma open_body:
  assumes "frame_laws F" "sized F snp m"
  shows "open_frame F snp (body_of F snp m) = Ok m"
proof -
  have "msg_Size m = word_of_nat (unat (msg_Size m))" by simp
  also have "unat (msg_Size m) = length (msg_Payload m)" using assms(2) by (simp add: sized_def)
  finally have "\<lparr>msg_Code = msg_Code m, msg_Size = word_of_nat (length (msg_Payload m)), msg_Payload = msg_Payload m\<rparr> = m"
    by simp
  then show ?thesis
    using assms by (auto simp: open_frame_def body_of_def frame_laws_def sized_def)
qed

lemma wp_rw_ReadMsg:
  assumes F: "frame_laws F" and i: "in_step s r" and m: "sized F (snappy s) m"
    and r: "fd_in r = fst (framed F s (body_of F (snappy s) m)) @ rest"
    and Q: "Q (Ok m) (r\<lparr>fd_in := rest, ingressMAC := snd (framed F s (body_of F (snappy s) m)),
      decPos := decPos r + 16 + length (body_of F (snappy s) m) + pad16 (word_of_nat (length (body_of F (snappy s) m)))\<rparr>)"
  shows "wp (rw_ReadMsg F) Q r"
proof -
  define body where "body = body_of F (snappy s) m"
  define n where "n = (word_of_nat (length body) :: u32)"
  define h where "h = XORKeyStream F (aesKey s) (encPos s) (header n)"
  obtain m1 e1 where u1: "updateMAC F (macKey s) (egressMAC s) h = (m1, e1)" by (cases "updateMAC F (macKey s) (egressMAC s) h")
  define c where "c = XORKeyStream F (aesKey s) (encPos s + 16) (body @ replicate (pad16 n) 0)"
  obtain m2 e2 where u2: "updateMAC F (macKey s) (e1 @ c) (Keccak F (e1 @ c)) = (m2, e2)"
    by (cases "updateMAC F (macKey s) (e1 @ c) (Keccak F (e1 @ c))")
  have f: "framed F s body = (h @ m1 @ c @ m2, e2)"
    unfolding framed_def Let_def n_def [symmetric] h_def [symmetric] u1 by (simp add: u2 flip: c_def)
  have len: "length h = 16" "length m1 = 16" "length m2 = 16"
    using length_updateMAC [OF F] u1 u2 by (metis fst_conv length_XORKeyStream length_header h_def)+
  have n: "unat n = length body" "length body < 2 ^ 24"
    using m unfolding n_def body_def by (auto simp: sized_def maxUint24_def intro!: unat_of_nat_small)
  have rn: "readInt24 (header n) = n"
    unfolding header_def by (rule readInt24_putInt24) (use n in simp)
  have lc: "length c = unat n + pad16 n" by (simp add: c_def n)
  have in_r: "aesKey r = aesKey s" "macKey r = macKey s" "snappy r = snappy s" "decPos r = encPos s" "ingressMAC r = egressMAC s"
    using i by (simp_all add: in_step_def)
  have dh: "XORKeyStream F (aesKey s) (encPos s) h = header n"
    "XORKeyStream F (aesKey s) (encPos s + 16) c = body @ replicate (pad16 n) 0" by (simp_all add: h_def c_def)
  show ?thesis
    unfolding rw_ReadMsg_def wps
    apply (rule wp_ReadFull [where a = "h @ m1" and b = "c @ m2 @ rest"])
    using r f len apply (simp_all add: body_def wps in_r u1 dh rn Let_def)
    apply (rule wp_ReadFull [where a = c and b = "m2 @ rest"])
    apply (simp_all add: lc wps in_r)
    apply (rule wp_ReadFull [where a = m2 and b = rest])
    apply (simp_all add: wps in_r u2 dh)
    using Q open_body [OF F m] f n
    apply (simp add: body_def in_r add.assoc lc n_def)
    done
qed

text \<open>The interface to a layer of messages over a stream of bytes, and what follows for sequences.\<close>

primrec put_all :: "('m \<Rightarrow> ('s, unit res) state) \<Rightarrow> 'm list \<Rightarrow> ('s, unit res) state" where
  "put_all put [] = ret (Ok ())"
| "put_all put (m # ms) = check (put m) (\<lambda>e. ret (Err e)) (\<lambda>_. put_all put ms)"

primrec get_all :: "('s, 'm res) state \<Rightarrow> nat \<Rightarrow> ('s, 'm list res) state" where
  "get_all get 0 = ret (Ok [])"
| "get_all get (Suc n) = check get (\<lambda>e. ret (Err e)) (\<lambda>m. check (get_all get n) (\<lambda>e. ret (Err e)) (\<lambda>ms. ret (Ok (m # ms))))"

locale framing =
  fixes laws :: bool
    and put :: "'m \<Rightarrow> ('s, unit res) state"
    and get :: "('s, 'm res) state"
    and sent :: "'s \<Rightarrow> bytes"
    and arrived :: "'s \<Rightarrow> bytes"
    and able :: "'s \<Rightarrow> 'm \<Rightarrow> bool"
    and linked :: "'s \<Rightarrow> 's \<Rightarrow> bool"
  assumes step: "laws \<Longrightarrow> able s m \<Longrightarrow> \<exists>s1 b. run_state (put m) s = (Ok (), s1) \<and> sent s1 = sent s @ b \<and>
      (\<forall>x. able s x \<longrightarrow> able s1 x) \<and>
      (\<forall>r rest. linked s r \<longrightarrow> arrived r = b @ rest \<longrightarrow>
        (\<exists>r1. run_state get r = (Ok m, r1) \<and> linked s1 r1 \<and> arrived r1 = rest))"
begin

lemma sequence:
  assumes "laws" "\<forall>m \<in> set ms. able s m"
  shows "\<exists>s1 b. run_state (put_all put ms) s = (Ok (), s1) \<and> sent s1 = sent s @ b \<and>
      (\<forall>x. able s x \<longrightarrow> able s1 x) \<and>
      (\<forall>r rest. linked s r \<longrightarrow> arrived r = b @ rest \<longrightarrow>
        (\<exists>r1. run_state (get_all get (length ms)) r = (Ok ms, r1) \<and> linked s1 r1 \<and> arrived r1 = rest))"
  using assms(2)
proof (induction ms arbitrary: s)
  case Nil
  show ?case by (intro exI [of _ s] exI [of _ "[]"]) simp
next
  case (Cons m ms)
  then obtain s1 b where p: "run_state (put m) s = (Ok (), s1)" "sent s1 = sent s @ b" "\<And>x. able s x \<Longrightarrow> able s1 x"
    and g: "\<And>r rest. linked s r \<Longrightarrow> arrived r = b @ rest \<Longrightarrow>
        \<exists>r1. run_state get r = (Ok m, r1) \<and> linked s1 r1 \<and> arrived r1 = rest"
    using step [OF assms(1), of s m] by auto
  from p(3) Cons.prems have "\<forall>m \<in> set ms. able s1 m" by auto
  from Cons.IH [OF this] obtain s2 b2 where
    p2: "run_state (put_all put ms) s1 = (Ok (), s2)" "sent s2 = sent s1 @ b2" "\<And>x. able s1 x \<Longrightarrow> able s2 x"
    and g2: "\<And>r rest. linked s1 r \<Longrightarrow> arrived r = b2 @ rest \<Longrightarrow>
        \<exists>r1. run_state (get_all get (length ms)) r = (Ok ms, r1) \<and> linked s2 r1 \<and> arrived r1 = rest"
    by blast
  have "\<exists>r2. run_state (get_all get (length (m # ms))) r = (Ok (m # ms), r2) \<and> linked s2 r2 \<and> arrived r2 = rest"
    if "linked s r" "arrived r = (b @ b2) @ rest" for r rest
    using g [of r "b2 @ rest"] g2 that by (fastforce simp: run)
  then show ?case
    using p p2 by (intro exI [of _ s2] exI [of _ "b @ b2"]) (auto simp: run)
qed

end

lemma rw_step:
  assumes "frame_laws F" "steady s \<and> sized F (snappy s) m"
  shows "\<exists>s1 b. run_state (rw_WriteMsg F m) s = (Ok (), s1) \<and> fd_out s1 = fd_out s @ b \<and>
      (\<forall>x. steady s \<and> sized F (snappy s) x \<longrightarrow> steady s1 \<and> sized F (snappy s1) x) \<and>
      (\<forall>r rest. in_step s r \<longrightarrow> fd_in r = b @ rest \<longrightarrow>
        (\<exists>r1. run_state (rw_ReadMsg F) r = (Ok m, r1) \<and> in_step s1 r1 \<and> fd_in r1 = rest))"
proof -
  let ?b = "body_of F (snappy s) m"
  let ?s1 = "\<lambda>ws. s\<lparr>encPos := encPos s + 16 + length ?b + pad16 (word_of_nat (length ?b)),
    egressMAC := snd (framed F s ?b), fd_out := fd_out s @ fst (framed F s ?b), fd_werr := ws\<rparr>"
  have "wp (rw_WriteMsg F m) (\<lambda>r s1. r = Ok () \<and> (\<exists>ws. True \<notin> set ws \<and> s1 = ?s1 ws)) s"
    by (rule wp_rw_WriteMsg) (use assms in auto)
  then obtain ws where w: "True \<notin> set ws" "run_state (rw_WriteMsg F m) s = (Ok (), ?s1 ws)"
    by (auto simp: wp_def split: prod.splits)
  have "\<exists>r1. run_state (rw_ReadMsg F) r = (Ok m, r1) \<and> in_step (?s1 ws) r1 \<and> fd_in r1 = rest"
    if r: "in_step s r" "fd_in r = fst (framed F s ?b) @ rest" for r rest
  proof -
    have "wp (rw_ReadMsg F) (\<lambda>q r1. q = Ok m \<and> in_step (?s1 ws) r1 \<and> fd_in r1 = rest) r"
      by (rule wp_rw_ReadMsg [OF assms(1) r(1) _ r(2)]) (use assms r in \<open>simp_all add: in_step_def\<close>)
    then show ?thesis by (auto simp: wp_def split: prod.splits)
  qed
  with w show ?thesis by (intro exI [of _ "?s1 ws"] exI [of _ "fst (framed F s ?b)"]) (simp add: steady_def)
qed

interpretation rlpx: framing "frame_laws F" "rw_WriteMsg F" "rw_ReadMsg F" fd_out fd_in
  "\<lambda>s m. steady s \<and> sized F (snappy s) m" in_step for F
  by unfold_locales (rule rw_step)

text \<open>
  C14. Whatever messages one end writes, the other end reads, in the same order and bit for bit,
  from the bytes of the frames alone: when the ciphers and hashes of the two ends are in step, no
  write fails and every message fits into a frame, writing the messages succeeds, reading as many
  returns them and leaves what arrived after them, and the two ends are in step again. This holds
  with and without compression.
\<close>

theorem frames_roundtrip:
  assumes "frame_laws F" "steady s" "in_step s r" "\<forall>m \<in> set ms. sized F (snappy s) m"
    and "run_state (put_all (rw_WriteMsg F) ms) s = (res, s')"
    and "fd_in r = drop (length (fd_out s)) (fd_out s') @ rest"
  shows "res = Ok () \<and> (\<exists>r'. run_state (get_all (rw_ReadMsg F) (length ms)) r = (Ok ms, r') \<and> in_step s' r' \<and> fd_in r' = rest)"
  using rlpx.sequence [of F ms s] assms by fastforce

definition sample_lib :: frame_lib where
  "sample_lib = \<lparr>KeyStream = (\<lambda>k i. word_of_nat (i + length k)), BlockEncrypt = (\<lambda>k b. take 16 (b @ k @ replicate 16 0)),
     Keccak = (\<lambda>b. take 32 (rev b @ replicate 32 0)),
     RlpUint = (\<lambda>c. if 128 \<le> c \<and> c < 256 then [0x81, ucast c] else 0x88 # EncodeUint64 c),
     RlpDecodeUint = (\<lambda>bs. case bs of
         [] \<Rightarrow> Err ''EOF''
       | b # bs' \<Rightarrow>
           if b = 0x81 then (case bs' of [] \<Rightarrow> Err ''EOF'' | c # rest \<Rightarrow> Ok (ucast c, rest))
           else res_bind (DecodeUint64 (take 8 bs')) (\<lambda>c. Ok (c, drop 8 bs'))),
     SnappyEncode = id, SnappyDecodedLen = (\<lambda>b. Ok (length b)), SnappyDecode = Ok\<rparr>"

lemma sample_lib_laws: "frame_laws sample_lib"
proof -
  have c: "(ucast (ucast c :: byte) :: u64) = c" if "c < 256" for c :: u64
  proof -
    have "unat c < 256" using that by (simp add: word_less_nat_alt)
    then have "unat (take_bit 8 c) = unat c" by (simp add: unsigned_take_bit_eq take_bit_nat_eq_self)
    then have "take_bit 8 c = c" by (rule unsigned_word_eqI)
    then have "bit c n \<Longrightarrow> n < 8" for n by (metis bit_take_bit_iff)
    then show ?thesis by (intro bit_word_eqI) (auto simp: bit_simps)
  qed
  have "RlpDecodeUint sample_lib (RlpUint sample_lib c @ rest) = Ok (c, rest)" for c rest
    using c [of c] u64c.dec_enc [of c] u64c.enc_length [of c] by (simp add: sample_lib_def)
  moreover have "length (RlpUint sample_lib c) \<le> 9" "128 \<le> c \<longrightarrow> c < 256 \<longrightarrow> length (RlpUint sample_lib c) = 2" for c
    using u64c.enc_length [of c] by (simp_all add: sample_lib_def)
  ultimately show ?thesis by (simp add: frame_laws_def) (simp add: sample_lib_def min_def)
qed

definition sample_rw :: rlpxFrameRW where
  "sample_rw = \<lparr>fd_in = [], fd_out = [], fd_werr = [], aesKey = [1, 2], encPos = 0, decPos = 0, macKey = [3],
     egressMAC = [4], ingressMAC = [4], snappy = False\<rparr>"

definition sample_msgs :: "Msg list" where
  "sample_msgs = [\<lparr>msg_Code = 240, msg_Size = 2, msg_Payload = [7, 8]\<rparr>, \<lparr>msg_Code = 241, msg_Size = 0, msg_Payload = []\<rparr>]"

theorem frames_roundtrip_witness:
  "\<exists>out r'. fd_out (snd (run_state (put_all (rw_WriteMsg sample_lib) sample_msgs) sample_rw)) = out \<and>
    run_state (get_all (rw_ReadMsg sample_lib) (length sample_msgs)) (sample_rw\<lparr>fd_in := out\<rparr>) = (Ok sample_msgs, r')"
proof -
  let ?o = "fd_out (snd (run_state (put_all (rw_WriteMsg sample_lib) sample_msgs) sample_rw))"
  have "steady sample_rw" "in_step sample_rw (sample_rw\<lparr>fd_in := ?o\<rparr>)"
    by (simp_all add: steady_def sample_rw_def in_step_def)
  moreover have "\<forall>m \<in> set sample_msgs. sized sample_lib (snappy sample_rw) m"
    by (simp add: sample_msgs_def sized_def body_of_def sample_rw_def sample_lib_def maxUint24_def)
  moreover have "fd_in (sample_rw\<lparr>fd_in := ?o\<rparr>) = drop (length (fd_out sample_rw)) ?o @ []"
    by (simp add: sample_rw_def)
  ultimately show ?thesis
    using frames_roundtrip [OF sample_lib_laws _ _ _ surjective_pairing, of sample_rw "sample_rw\<lparr>fd_in := ?o\<rparr>" sample_msgs "[]"]
    by auto
qed

section \<open>The transport on frames\<close>

text \<open>A message of the transport as the frame writer gets it, and back.\<close>

definition to_msg :: "rmsg \<Rightarrow> Msg" where
  "to_msg m = \<lparr>msg_Code = Code m, msg_Size = word_of_nat (length (Payload m)), msg_Payload = Payload m\<rparr>"

definition of_msg :: "Msg \<Rightarrow> rmsg" where
  "of_msg m = \<lparr>Code = msg_Code m, Payload = msg_Payload m\<rparr>"

lemma of_to_msg [simp]: "of_msg (to_msg m) = m"
  by (simp add: of_msg_def to_msg_def)

lemma sized_to_msg:
  assumes "frame_laws F" "frame_fits m" "128 \<le> Code m" "Code m < 256"
  shows "sized F False (to_msg m)"
  using assms by (auto simp: sized_def to_msg_def body_of_def frame_fits_def frame_laws_def maxUint24_def
      intro!: unat_of_nat_small)

lemma write_msgs_codes: "m \<in> set (write_msgs data) \<Longrightarrow> 128 \<le> Code m \<and> Code m < 256"
proof -
  have "m \<in> set (packets data) \<Longrightarrow> Code m = rlpxMsgCodeData" for m
    by (induction data rule: packets.induct) (subst (asm) (2) packets.simps, auto split: if_splits)
  then show "m \<in> set (write_msgs data) \<Longrightarrow> 128 \<le> Code m \<and> Code m < 256"
    by (auto simp: write_msgs_def rlpx_consts)
qed

lemma write_msgs_fit: "m \<in> set (write_msgs data) \<Longrightarrow> frame_fits m"
  by (auto simp: write_msgs_def packets_fit) (simp add: frame_fits_def maxUint24_def)

text \<open>
  The transport's view of the frame writer is right: for the codes the transport uses, a
  payload below \<open>2^32 - 2\<close> bytes and a connection on which no write fails, the function of
  \<^verbatim>\<open>rlpx.go\<close> answers what the transport's model answers, success or the same error, and a message
  is refused exactly if its frame would need more than 24 bits for the size.
\<close>

theorem frame_writer_agrees:
  assumes "frame_laws F" "steady s" "\<not> snappy s" "all_ok c"
    and "128 \<le> Code m" "Code m < 256" "length (Payload m) < 2 ^ 32 - 2"
  shows "fst (run_state (rw_WriteMsg F (to_msg m)) s) = fst (WriteMsg m c) \<and>
    (fst (WriteMsg m c) = Ok () \<longleftrightarrow> frame_fits m)"
proof (cases "frame_fits m")
  case True
  then have "sized F (snappy s) (to_msg m)" using sized_to_msg assms by simp
  from rw_step [OF assms(1) conjI [OF assms(2) this]] True assms(4) show ?thesis
    by (auto simp: WriteMsg_ok)
next
  case False
  have l: "length (RlpUint F (Code m)) = 2" using assms by (simp add: frame_laws_def)
  have "unat (2 + word_of_nat (length (Payload m)) :: u32) = 2 + length (Payload m)"
    using unat_of_nat_small [of "2 + length (Payload m)", where 'a = 32] assms(7) by simp
  with False l assms(3) have "fst (run_state (rw_WriteMsg F (to_msg m)) s) = Err ''message size overflows uint24''"
    by (simp add: rw_WriteMsg_def run to_msg_def frame_fits_def)
  with False show ?thesis by (simp add: WriteMsg_def)
qed

theorem frame_writer_agrees_witness:
  "fst (run_state (rw_WriteMsg sample_lib (to_msg \<lparr>Code = 241, Payload = [5]\<rparr>)) sample_rw) = Ok ()"
proof -
  have "frame_fits \<lparr>Code = 241, Payload = [5]\<rparr>" by (simp add: frame_fits_def maxUint24_def)
  then show ?thesis
    using frame_writer_agrees [OF sample_lib_laws, of sample_rw sample_conn "\<lparr>Code = 241, Payload = [5]\<rparr>"]
    by (simp add: steady_def sample_rw_def all_ok_def sample_conn_def)
qed

text \<open>
  C15. Data that the transport writes crosses the frames unharmed: the messages that \<open>Write\<close> sends for
  a slice below \<open>2^64\<close> bytes go through the frame writer without an error, and the peer, which has
  nothing but the bytes of the frames, gets messages from which \<open>Read\<close> returns the size and exactly
  the slice.
\<close>

theorem data_crosses_frames:
  assumes "frame_laws F" "steady s" "in_step s r" "\<not> snappy s" "all_ok c" "length data < 2 ^ 64"
    and "Write data (len64 data) c = (res, c')"
    and "ms = drop (length (rlpx_out c)) (rlpx_out c')"
    and "run_state (put_all (rw_WriteMsg F) (map to_msg ms)) s = (res', s')"
    and "fd_in r = drop (length (fd_out s)) (fd_out s')"
  shows "res = Ok () \<and> res' = Ok () \<and> (\<exists>got r'. run_state (get_all (rw_ReadMsg F) (length ms)) r = (Ok got, r') \<and>
    in_step s' r' \<and> fst (Read (peer\<lparr>rlpx_in := map of_msg got\<rparr>)) = Ok (len64 data, data))"
proof -
  have w: "res = Ok ()" "ms = write_msgs data"
    using Write_ok [OF assms(5,6)] assms(7,8) by auto
  have "\<forall>m \<in> set (map to_msg ms). steady s \<and> sized F (snappy s) m"
    using assms(1,2,4) write_msgs_codes write_msgs_fit by (auto simp: w intro!: sized_to_msg)
  from rlpx.sequence [OF assms(1) this] obtain s1 b where
    p: "run_state (put_all (rw_WriteMsg F) (map to_msg ms)) s = (Ok (), s1)" "fd_out s1 = fd_out s @ b"
    and g: "\<And>r rest. in_step s r \<Longrightarrow> fd_in r = b @ rest \<Longrightarrow>
      \<exists>r1. run_state (get_all (rw_ReadMsg F) (length (map to_msg ms))) r = (Ok (map to_msg ms), r1) \<and> in_step s1 r1 \<and> fd_in r1 = rest"
    by blast
  have s1: "res' = Ok ()" "s1 = s'" using p(1) assms(9) by simp_all
  then have "fd_in r = b @ []" using p(2) assms(10) by simp
  from g [OF assms(3) this] obtain r' where "run_state (get_all (rw_ReadMsg F) (length ms)) r = (Ok (map to_msg ms), r')"
    "in_step s' r'" by (auto simp: s1)
  moreover have "map of_msg (map to_msg ms) = ms" by (simp add: map_idI)
  moreover have "fst (Read (peer\<lparr>rlpx_in := ms\<rparr>)) = Ok (len64 data, data)"
    using rlpx_stream.get_put_exact [OF assms(6)] by (simp add: Read_def w)
  ultimately show ?thesis using w(1) s1 by metis
qed

definition sample_sent :: "rmsg list" where
  "sample_sent = drop (length (rlpx_out sample_conn)) (rlpx_out (snd (Write [1, 2, 3] (len64 [1, 2, 3]) sample_conn)))"

theorem data_crosses_frames_witness:
  "\<exists>got r'. run_state (get_all (rw_ReadMsg sample_lib) (length sample_sent)) (sample_rw\<lparr>fd_in :=
       fd_out (snd (run_state (put_all (rw_WriteMsg sample_lib) (map to_msg sample_sent)) sample_rw))\<rparr>) = (Ok got, r') \<and>
     fst (Read (sample_conn\<lparr>rlpx_in := map of_msg got\<rparr>)) = Ok (len64 [1, 2, 3], [1, 2, 3])"
proof -
  have s: "steady sample_rw" "\<not> snappy sample_rw" "all_ok sample_conn" "length [1 :: byte, 2, 3] < 2 ^ 64"
    by (simp_all add: steady_def sample_rw_def all_ok_def sample_conn_def)
  have r: "in_step sample_rw (sample_rw\<lparr>fd_in := x\<rparr>)" "fd_in (sample_rw\<lparr>fd_in := x\<rparr>) = drop (length (fd_out sample_rw)) x" for x
    by (simp_all add: sample_rw_def in_step_def)
  from data_crosses_frames [OF sample_lib_laws s(1) r(1) s(2-4) surjective_pairing sample_sent_def surjective_pairing r(2), of sample_conn]
  show ?thesis by blast
qed

end
