(* ===== verification/Rlpx.thy ===== *)
theory Rlpx
  imports Frames
begin

unbundle bit_operations_syntax

text \<open>
  The encryption handshake of \<^verbatim>\<open>net/rlpx/p2p/rlpx.go\<close>, by which the two ends of a connection agree
  on the keys and hashes of their frames. The curve, ECIES, the recovery of a key from a signature
  and the RLP coding of the two messages are libraries outside the repository. The field \<open>Token\<close> of
  \<open>secrets\<close>, which no code sets or reads, and the tail \<open>Rest\<close> of the messages, which is decoded and
  never read, are left out.
\<close>

section \<open>Messages and libraries\<close>

record authMsgV4 =
  gotPlain :: bool
  Signature :: bytes
  InitiatorPubkey :: bytes
  auth_Nonce :: bytes
  auth_Version :: nat

record authRespV4 =
  RandomPubkey :: bytes
  resp_Nonce :: bytes
  resp_Version :: nat

text \<open>
  \<open>GenerateShared\<close> is called with key lengths of 16 and 16 everywhere; its second argument may be
  \<open>nil\<close>. The first argument of \<open>EciesEncrypt\<close> is the randomness it draws, the last the shared
  information. A decoder of RLP ignores what follows the list.
\<close>

record ecies_lib = frame_lib +
  GenerateShared :: "privkey \<Rightarrow> pubkey option \<Rightarrow> bytes res"
  EciesEncrypt :: "bytes \<Rightarrow> pubkey \<Rightarrow> bytes \<Rightarrow> bytes \<Rightarrow> bytes res"
  EciesDecrypt :: "privkey \<Rightarrow> bytes \<Rightarrow> bytes \<Rightarrow> bytes res"
  RecoverPubkey :: "bytes \<Rightarrow> bytes \<Rightarrow> bytes res"
  RlpAuth :: "authMsgV4 \<Rightarrow> bytes res"
  RlpDecodeAuth :: "bytes \<Rightarrow> authMsgV4 res"
  RlpResp :: "authRespV4 \<Rightarrow> bytes res"
  RlpDecodeResp :: "bytes \<Rightarrow> authRespV4 res"

text \<open>What one end draws at random: its nonce, its ephemeral key, the padding and the coins of ECIES.\<close>

record coins =
  coin_nonce :: "bytes res"
  coin_key :: "privkey res"
  coin_pad :: nat
  coin_seed :: bytes

definition sigLen :: nat where "sigLen = 65"
definition pubLen :: nat where "pubLen = 64"
definition shaLen :: nat where "shaLen = 32"
definition authMsgLen :: nat where "authMsgLen = sigLen + shaLen + pubLen + shaLen + 1"
definition authRespLen :: nat where "authRespLen = pubLen + shaLen + 1"
definition eciesOverhead :: nat where "eciesOverhead = 65 + 16 + 32"
definition encAuthMsgLen :: nat where "encAuthMsgLen = authMsgLen + eciesOverhead"
definition encAuthRespLen :: nat where "encAuthRespLen = authRespLen + eciesOverhead"

lemmas hs_sizes = sigLen_def pubLen_def shaLen_def authMsgLen_def authRespLen_def eciesOverhead_def
  encAuthMsgLen_def encAuthRespLen_def

text \<open>\<open>copy\<close> into a fresh array of \<open>n\<close> bytes.\<close>

definition copy_new :: "nat \<Rightarrow> bytes \<Rightarrow> bytes" where
  "copy_new n bs = take n (bs @ replicate n 0)"

lemma copy_new_id [simp]: "length bs = n \<Longrightarrow> copy_new n bs = bs"
  by (simp add: copy_new_def)

section \<open>Helpers\<close>

text \<open>\<open>xor\<close> reads \<open>other[i]\<close> for every index of \<open>one\<close>.\<close>

definition xor_bytes :: "bytes \<Rightarrow> bytes \<Rightarrow> bytes res" where
  "xor_bytes one other = (if length other < length one then Panic else Ok (map2 (XOR) one other))"

definition importPublicKey :: "crypto \<Rightarrow> bytes \<Rightarrow> pubkey res" where
  "importPublicKey C pubKey =
     (if length pubKey = 64 then UnmarshalPubkey C (0x04 # pubKey)
      else if length pubKey = 65 then UnmarshalPubkey C pubKey
      else Err ''invalid public key length'')"

definition exportPubkey :: "crypto \<Rightarrow> pubkey \<Rightarrow> bytes" where
  "exportPubkey C pub = drop 1 (FromECDSAPub C pub)"

section \<open>The state of a handshake and the secrets\<close>

record encHandshake =
  initiator :: bool
  remote :: pubkey
  initNonce :: bytes
  respNonce :: bytes
  randomPrivKey :: privkey
  remoteRandomPub :: "pubkey option"

record secrets =
  sec_Remote :: pubkey
  sec_AES :: bytes
  sec_MAC :: bytes
  sec_EgressMAC :: bytes
  sec_IngressMAC :: bytes

definition derive_secrets :: "ecies_lib \<Rightarrow> encHandshake \<Rightarrow> bytes \<Rightarrow> bytes \<Rightarrow> secrets res" where
  "derive_secrets L h auth authResp =
     res_bind (GenerateShared L (randomPrivKey h) (remoteRandomPub h)) (\<lambda>ecdheSecret.
     let sharedSecret = Keccak L (ecdheSecret @ Keccak L (respNonce h @ initNonce h));
         aesSecret = Keccak L (ecdheSecret @ sharedSecret);
         macSecret = Keccak L (ecdheSecret @ aesSecret) in
     res_bind (xor_bytes macSecret (respNonce h)) (\<lambda>x1.
     res_bind (xor_bytes macSecret (initNonce h)) (\<lambda>x2.
     let mac1 = x1 @ auth; mac2 = x2 @ authResp in
     Ok \<lparr>sec_Remote = remote h, sec_AES = aesSecret, sec_MAC = macSecret,
       sec_EgressMAC = (if initiator h then mac1 else mac2),
       sec_IngressMAC = (if initiator h then mac2 else mac1)\<rparr>)))"

definition staticSharedSecret :: "ecies_lib \<Rightarrow> encHandshake \<Rightarrow> privkey \<Rightarrow> bytes res" where
  "staticSharedSecret L h prv = GenerateShared L prv (Some (remote h))"

section \<open>Making and handling the messages\<close>

definition makeAuthMsg :: "ecies_lib \<Rightarrow> crypto \<Rightarrow> coins \<Rightarrow> encHandshake \<Rightarrow> privkey \<Rightarrow> (authMsgV4 \<times> encHandshake) res" where
  "makeAuthMsg L C rnd h prv =
     res_bind (coin_nonce rnd) (\<lambda>nonce.
     res_bind (coin_key rnd) (\<lambda>eph.
     let h = h\<lparr>initNonce := nonce, randomPrivKey := eph\<rparr> in
     res_bind (staticSharedSecret L h prv) (\<lambda>token.
     res_bind (xor_bytes token (initNonce h)) (\<lambda>signed.
     res_bind (Sign C signed eph) (\<lambda>signature.
     Ok (\<lparr>gotPlain = False, Signature = copy_new sigLen signature,
          InitiatorPubkey = copy_new pubLen (drop 1 (FromECDSAPub C (PublicKey C prv))),
          auth_Nonce = copy_new shaLen (initNonce h), auth_Version = 4\<rparr>, h))))))"

definition handleAuthResp :: "crypto \<Rightarrow> encHandshake \<Rightarrow> authRespV4 \<Rightarrow> encHandshake res" where
  "handleAuthResp C h msg =
     res_bind (importPublicKey C (RandomPubkey msg)) (\<lambda>pub.
     Ok (h\<lparr>respNonce := resp_Nonce msg, remoteRandomPub := Some pub\<rparr>))"

text \<open>The error of the second \<open>importPublicKey\<close> is dropped and leaves \<open>nil\<close>.\<close>

definition handleAuthMsg :: "ecies_lib \<Rightarrow> crypto \<Rightarrow> coins \<Rightarrow> encHandshake \<Rightarrow> authMsgV4 \<Rightarrow> privkey \<Rightarrow> encHandshake res" where
  "handleAuthMsg L C rnd h msg prv =
     res_bind (importPublicKey C (InitiatorPubkey msg)) (\<lambda>rpub.
     res_bind (coin_key rnd) (\<lambda>eph.
     let h = h\<lparr>initNonce := auth_Nonce msg, remote := rpub, randomPrivKey := eph\<rparr> in
     res_bind (staticSharedSecret L h prv) (\<lambda>token.
     res_bind (xor_bytes token (initNonce h)) (\<lambda>signedMsg.
     res_bind (RecoverPubkey L signedMsg (Signature msg)) (\<lambda>pub.
     case importPublicKey C pub of
       Ok p \<Rightarrow> Ok (h\<lparr>remoteRandomPub := Some p\<rparr>)
     | Err _ \<Rightarrow> Ok (h\<lparr>remoteRandomPub := None\<rparr>)
     | Panic \<Rightarrow> Panic)))))"

definition makeAuthResp :: "crypto \<Rightarrow> coins \<Rightarrow> encHandshake \<Rightarrow> (authRespV4 \<times> encHandshake) res" where
  "makeAuthResp C rnd h =
     res_bind (coin_nonce rnd) (\<lambda>nonce.
     Ok (\<lparr>RandomPubkey = copy_new pubLen (exportPubkey C (PublicKey C (randomPrivKey h))),
          resp_Nonce = copy_new shaLen nonce, resp_Version = 4\<rparr>, h\<lparr>respNonce := nonce\<rparr>))"

text \<open>The messages in the format before EIP-8.\<close>

definition authMsg_decodePlain :: "bytes \<Rightarrow> authMsgV4 res" where
  "authMsg_decodePlain input =
     (let n = min sigLen (length input) + shaLen in
      res_bind (slice input n (length input)) (\<lambda>rest.
      let n' = n + min pubLen (length rest) in
      res_bind (slice input n' (length input)) (\<lambda>rest'.
      Ok \<lparr>gotPlain = True, Signature = copy_new sigLen input, InitiatorPubkey = copy_new pubLen rest,
        auth_Nonce = copy_new shaLen rest', auth_Version = 4\<rparr>)))"

definition authResp_sealPlain :: "ecies_lib \<Rightarrow> coins \<Rightarrow> encHandshake \<Rightarrow> authRespV4 \<Rightarrow> bytes res" where
  "authResp_sealPlain L rnd hs msg =
     EciesEncrypt L (coin_seed rnd) (remote hs) (copy_new authRespLen (RandomPubkey msg @ resp_Nonce msg)) []"

definition authResp_decodePlain :: "bytes \<Rightarrow> authRespV4 res" where
  "authResp_decodePlain input =
     (let n = min pubLen (length input) in
      res_bind (slice input n (length input)) (\<lambda>rest.
      Ok \<lparr>RandomPubkey = copy_new pubLen input, resp_Nonce = copy_new shaLen rest, resp_Version = 4\<rparr>))"

text \<open>\<open>binary.BigEndian\<close> on sixteen bits.\<close>

definition PutUint16 :: "u16 \<Rightarrow> bytes" where
  "PutUint16 v = [ucast (drop_bit 8 v), ucast v]"

definition Uint16 :: "bytes \<Rightarrow> u16" where
  "Uint16 b = ucast (b ! 1) OR push_bit 8 (ucast (b ! 0))"

text \<open>\<open>sealEIP8\<close> of an encoded message; the padding has between 100 and 299 bytes.\<close>

definition sealEIP8 :: "ecies_lib \<Rightarrow> coins \<Rightarrow> encHandshake \<Rightarrow> bytes res \<Rightarrow> bytes res" where
  "sealEIP8 L rnd h encoded =
     res_bind encoded (\<lambda>msg.
     let buf = msg @ replicate (coin_pad rnd mod 200 + 100) 0;
         prefix = PutUint16 (word_of_nat (length buf + eciesOverhead)) in
     res_bind (EciesEncrypt L (coin_seed rnd) (remote h) buf prefix) (\<lambda>enc. Ok (prefix @ enc)))"

section \<open>Reading a message\<close>

definition readHandshakeMsg :: "ecies_lib \<Rightarrow> (bytes \<Rightarrow> 'm res) \<Rightarrow> (bytes \<Rightarrow> 'm res) \<Rightarrow> nat \<Rightarrow> privkey \<Rightarrow>
    ('z fd_scheme, ('m \<times> bytes) res) state" where
  "readHandshakeMsg L decodePlain decodeRlp plainSize prv =
     check (ReadFull plainSize) (\<lambda>e. ret (Err e)) (\<lambda>buf.
     check (ret (EciesDecrypt L prv buf []))
       (\<lambda>_. let prefix = take 2 buf; sz = Uint16 prefix in
         if sz < word_of_nat plainSize then ret (Err ''size underflow'') else
         check (ReadFull (unat (sz - word_of_nat plainSize + 2))) (\<lambda>e. ret (Err e)) (\<lambda>more.
         let buf = buf @ more in
         check (ret (EciesDecrypt L prv (drop 2 buf) prefix)) (\<lambda>e. ret (Err e)) (\<lambda>dec.
         check (ret (decodeRlp dec)) (\<lambda>e. ret (Err e)) (\<lambda>msg. ret (Ok (msg, buf))))))
       (\<lambda>dec. check (ret (decodePlain dec)) (\<lambda>e. ret (Err e)) (\<lambda>msg. ret (Ok (msg, buf)))))"

section \<open>The two ends\<close>

definition initiatorEncHandshake :: "ecies_lib \<Rightarrow> crypto \<Rightarrow> coins \<Rightarrow> privkey \<Rightarrow> pubkey \<Rightarrow> ('z fd_scheme, secrets res) state" where
  "initiatorEncHandshake L C rnd prv dial =
     check (ret (makeAuthMsg L C rnd \<lparr>initiator = True, remote = dial, initNonce = [], respNonce = [],
         randomPrivKey = [], remoteRandomPub = None\<rparr> prv)) (\<lambda>e. ret (Err e)) (\<lambda>(authMsg, h).
     check (ret (sealEIP8 L rnd h (RlpAuth L authMsg))) (\<lambda>e. ret (Err e)) (\<lambda>authPacket.
     check (fd_Write authPacket) (\<lambda>e. ret (Err e)) (\<lambda>_.
     check (readHandshakeMsg L authResp_decodePlain (RlpDecodeResp L) encAuthRespLen prv) (\<lambda>e. ret (Err e))
       (\<lambda>(authRespMsg, authRespPacket).
     check (ret (handleAuthResp C h authRespMsg)) (\<lambda>e. ret (Err e)) (\<lambda>h.
     ret (derive_secrets L h authPacket authRespPacket))))))"

definition receiverEncHandshake :: "ecies_lib \<Rightarrow> crypto \<Rightarrow> coins \<Rightarrow> privkey \<Rightarrow> ('z fd_scheme, secrets res) state" where
  "receiverEncHandshake L C rnd prv =
     check (readHandshakeMsg L authMsg_decodePlain (RlpDecodeAuth L) encAuthMsgLen prv) (\<lambda>e. ret (Err e))
       (\<lambda>(authMsg, authPacket).
     check (ret (handleAuthMsg L C rnd \<lparr>initiator = False, remote = [], initNonce = [], respNonce = [],
         randomPrivKey = [], remoteRandomPub = None\<rparr> authMsg prv)) (\<lambda>e. ret (Err e)) (\<lambda>h.
     check (ret (makeAuthResp C rnd h)) (\<lambda>e. ret (Err e)) (\<lambda>(authRespMsg, h).
     check (ret (if gotPlain authMsg then authResp_sealPlain L rnd h authRespMsg
         else sealEIP8 L rnd h (RlpResp L authRespMsg))) (\<lambda>e. ret (Err e)) (\<lambda>authRespPacket.
     check (fd_Write authRespPacket) (\<lambda>e. ret (Err e)) (\<lambda>_.
     ret (derive_secrets L h authPacket authRespPacket))))))"

text \<open>\<open>aes.NewCipher\<close> takes keys of 16, 24 or 32 bytes; the function panics on its error.\<close>

definition newRLPXFrameRW :: "fd \<Rightarrow> secrets \<Rightarrow> rlpxFrameRW res" where
  "newRLPXFrameRW c s =
     (if length (sec_MAC s) \<notin> {16, 24, 32} \<or> length (sec_AES s) \<notin> {16, 24, 32} then Panic
      else Ok (fd.extend c (rlpxFrameRW.fields (sec_AES s) 0 0 (sec_MAC s) (sec_EgressMAC s) (sec_IngressMAC s) False)))"

definition doEncHandshake :: "ecies_lib \<Rightarrow> crypto \<Rightarrow> coins \<Rightarrow> privkey \<Rightarrow> pubkey option \<Rightarrow>
    (fd, (pubkey \<times> rlpxFrameRW) res) state" where
  "doEncHandshake L C rnd prv dial =
     check (case dial of None \<Rightarrow> receiverEncHandshake L C rnd prv | Some p \<Rightarrow> initiatorEncHandshake L C rnd prv p)
       (\<lambda>e. ret (Err e)) (\<lambda>sec. do {
     c \<leftarrow> State_Monad.get;
     ret (res_bind (newRLPXFrameRW c sec) (\<lambda>rw. Ok (sec_Remote sec, rw))) })"

section \<open>What the libraries promise\<close>

text \<open>
  Both ends of a key agreement compute the same 32 bytes; a message encrypted for a key decrypts
  with it, and is longer by a fixed overhead; a message sealed with a prefix is not one without;
  a signature of 32 bytes recovers to the signer's key; a key is marshalled to a byte 4 and 64
  bytes; the two messages survive RLP, which adds at most some hundred bytes.
\<close>

definition hs_laws :: "ecies_lib \<Rightarrow> crypto \<Rightarrow> bool" where
  "hs_laws L C \<longleftrightarrow>
     (\<forall>b. length (Keccak L b) = 32) \<and>
     (\<forall>k k'. \<exists>z. length z = 32 \<and> GenerateShared L k (Some (PublicKey C k')) = Ok z \<and>
        GenerateShared L k' (Some (PublicKey C k)) = Ok z) \<and>
     (\<forall>seed k m s2. \<exists>c. EciesEncrypt L seed (PublicKey C k) m s2 = Ok c \<and> length c = length m + eciesOverhead \<and>
        EciesDecrypt L k c s2 = Ok m \<and> (\<forall>n. length s2 = 2 \<longrightarrow> (\<exists>e. EciesDecrypt L k (take n (s2 @ c)) [] = Err e))) \<and>
     (\<forall>h k. length h = 32 \<longrightarrow> (\<exists>sig. Sign C h k = Ok sig \<and> length sig = 65 \<and>
        RecoverPubkey L h sig = Ok (FromECDSAPub C (PublicKey C k)))) \<and>
     (\<forall>k. \<exists>bs. length bs = 64 \<and> FromECDSAPub C (PublicKey C k) = 0x04 # bs \<and>
        UnmarshalPubkey C (0x04 # bs) = Ok (PublicKey C k)) \<and>
     (\<forall>m. length (Signature m) = 65 \<longrightarrow> length (InitiatorPubkey m) = 64 \<longrightarrow> length (auth_Nonce m) = 32 \<longrightarrow> auth_Version m = 4 \<longrightarrow>
        (\<exists>b. RlpAuth L m = Ok b \<and> 161 \<le> length b \<and> length b \<le> 1000 \<and>
           (\<forall>pad. RlpDecodeAuth L (b @ pad) = Ok (m\<lparr>gotPlain := False\<rparr>)))) \<and>
     (\<forall>m. length (RandomPubkey m) = 64 \<longrightarrow> length (resp_Nonce m) = 32 \<longrightarrow> resp_Version m = 4 \<longrightarrow>
        (\<exists>b. RlpResp L m = Ok b \<and> length b \<le> 1000 \<and> (\<forall>pad. RlpDecodeResp L (b @ pad) = Ok m)))"

lemma hs_lawsD:
  assumes "hs_laws L C"
  shows "length (Keccak L b) = 32"
    "\<exists>z. length z = 32 \<and> GenerateShared L k (Some (PublicKey C k')) = Ok z \<and>
        GenerateShared L k' (Some (PublicKey C k)) = Ok z"
    "\<exists>c. EciesEncrypt L seed (PublicKey C k) m s2 = Ok c \<and> length c = length m + eciesOverhead \<and>
        EciesDecrypt L k c s2 = Ok m \<and> (\<forall>n. length s2 = 2 \<longrightarrow> (\<exists>e. EciesDecrypt L k (take n (s2 @ c)) [] = Err e))"
    "length h = 32 \<Longrightarrow> \<exists>sig. Sign C h k = Ok sig \<and> length sig = 65 \<and>
        RecoverPubkey L h sig = Ok (FromECDSAPub C (PublicKey C k))"
    "\<exists>bs. length bs = 64 \<and> FromECDSAPub C (PublicKey C k) = 0x04 # bs \<and> UnmarshalPubkey C (0x04 # bs) = Ok (PublicKey C k)"
    "length (Signature am) = 65 \<Longrightarrow> length (InitiatorPubkey am) = 64 \<Longrightarrow> length (auth_Nonce am) = 32 \<Longrightarrow> auth_Version am = 4 \<Longrightarrow>
        \<exists>b. RlpAuth L am = Ok b \<and> 161 \<le> length b \<and> length b \<le> 1000 \<and>
           (\<forall>pad. RlpDecodeAuth L (b @ pad) = Ok (am\<lparr>gotPlain := False\<rparr>))"
    "length (RandomPubkey rm) = 64 \<Longrightarrow> length (resp_Nonce rm) = 32 \<Longrightarrow> resp_Version rm = 4 \<Longrightarrow>
        \<exists>b. RlpResp L rm = Ok b \<and> length b \<le> 1000 \<and> (\<forall>pad. RlpDecodeResp L (b @ pad) = Ok rm)"
  using assms unfolding hs_laws_def by blast+

lemma Uint16_Put: "Uint16 (PutUint16 v) = v"
proof -
  have "bit (ucast (ucast v :: byte) OR push_bit 8 (ucast (ucast (drop_bit 8 v) :: byte)) :: u16) n \<longleftrightarrow> bit v n"
    if "n < 16" for n
    using that by (cases "n < 8") (auto simp: bit_simps)
  then show ?thesis by (intro bit_word_eqI) (simp add: Uint16_def PutUint16_def)
qed

section \<open>A sealed message is read back\<close>

lemma sealed_reads:
  assumes L: "hs_laws L C" and h: "remote h = PublicKey C k"
    and b: "length b \<le> 1000" "plainSize \<le> length b + 213" "2 \<le> plainSize"
    and d: "\<And>pad. decodeRlp (b @ pad) = Ok m"
  shows "\<exists>p. sealEIP8 L rnd h (Ok b) = Ok p \<and>
    (\<forall>s :: 'z fd_scheme. \<forall>rest Q. fd_in s = p @ rest \<longrightarrow> Q (Ok (m, p)) (s\<lparr>fd_in := rest\<rparr>) \<longrightarrow>
      wp (readHandshakeMsg L dp decodeRlp plainSize k) Q s)"
proof -
  define buf where "buf = b @ replicate (coin_pad rnd mod 200 + 100) 0"
  define N where "N = length buf + eciesOverhead"
  define pre where "pre = PutUint16 (word_of_nat N)"
  obtain c where c: "EciesEncrypt L (coin_seed rnd) (PublicKey C k) buf pre = Ok c" "length c = N"
    "EciesDecrypt L k c pre = Ok buf" "\<And>n. \<exists>e. EciesDecrypt L k (take n (pre @ c)) [] = Err e"
    using hs_lawsD(3) [OF L, of "coin_seed rnd" k buf pre] by (auto simp: N_def pre_def PutUint16_def)
  have N: "N < 2 ^ 16" "plainSize \<le> N"
    using b by (simp_all add: N_def buf_def hs_sizes)
  have u: "unat (word_of_nat N :: u16) = N" "unat (word_of_nat plainSize :: u16) = plainSize"
    using N by (simp_all add: unat_of_nat_small)
  then have le: "\<not> (word_of_nat N :: u16) < word_of_nat plainSize" using N by (simp add: word_less_nat_alt)
  have more: "unat (word_of_nat N - word_of_nat plainSize + 2 :: u16) = N - plainSize + 2"
  proof -
    have eq: "(word_of_nat N - word_of_nat plainSize + 2 :: u16) = word_of_nat (N - plainSize + 2)"
      using N by (simp add: of_nat_diff)
    show ?thesis unfolding eq by (rule unat_of_nat_small) (use N b(3) in simp)
  qed
  let ?p = "pre @ c"
  have lp: "length pre = 2" "length ?p = N + 2" by (simp_all add: pre_def PutUint16_def c)
  define p1 where "p1 = take plainSize ?p"
  define p2 where "p2 = drop plainSize ?p"
  have p12: "?p = p1 @ p2" "length p1 = plainSize" "length p2 = N - plainSize + 2"
    unfolding p1_def p2_def append_take_drop_id length_take length_drop lp(2) using N by simp_all
  have d1: "drop 2 (p1 @ p2) = c" using lp by (simp flip: p12(1))
  have "take 2 p1 = take 2 (p1 @ p2)" using b(3) p12(2) by simp
  then have d2: "take 2 p1 = pre" using lp by (simp flip: p12(1))
  have d3: "take plainSize ?p = p1" unfolding p12(1) using p12(2) by simp
  note dp2 = d1 d2 d3
  have sz: "Uint16 pre = word_of_nat N" by (simp add: pre_def Uint16_Put)
  obtain e where e: "EciesDecrypt L k p1 [] = Err e" using c(4) dp2(3) by metis
  have "wp (readHandshakeMsg L dp decodeRlp plainSize k) Q s"
    if s: "fd_in s = ?p @ rest" and Q: "Q (Ok (m, ?p)) (s\<lparr>fd_in := rest\<rparr>)" for s :: "'z fd_scheme" and rest Q
    unfolding readHandshakeMsg_def wps
    apply (rule wp_ReadFull [where a = p1 and b = "p2 @ rest"])
    using s p12 apply simp
    using p12 apply simp
    apply (simp only: res.case wp_return e Let_def dp2 sz le if_False wp_check)
    apply (rule wp_ReadFull [where a = p2 and b = rest])
    using p12 more c(3) d Q dp2 by (simp_all add: wps buf_def)
  moreover have "sealEIP8 L rnd h (Ok b) = Ok ?p"
    unfolding sealEIP8_def res_bind_simps Let_def h buf_def [symmetric] N_def [symmetric] pre_def [symmetric] c(1) by simp
  ultimately show ?thesis by blast
qed

section \<open>The two ends agree\<close>

text \<open>Nonces of 32 bytes, and keys that were drawn.\<close>

definition drawn :: "coins \<Rightarrow> bytes \<Rightarrow> privkey \<Rightarrow> bool" where
  "drawn rnd nonce eph \<longleftrightarrow> coin_nonce rnd = Ok nonce \<and> length nonce = 32 \<and> coin_key rnd = Ok eph"

lemma importPublicKey_export:
  assumes "hs_laws L C"
  shows "importPublicKey C (drop 1 (FromECDSAPub C (PublicKey C k))) = Ok (PublicKey C k)"
    "importPublicKey C (FromECDSAPub C (PublicKey C k)) = Ok (PublicKey C k)"
    "length (drop 1 (FromECDSAPub C (PublicKey C k))) = 64"
proof -
  obtain bs where "length bs = 64" "FromECDSAPub C (PublicKey C k) = 0x04 # bs" "UnmarshalPubkey C (0x04 # bs) = Ok (PublicKey C k)"
    using hs_lawsD(5) [OF assms] by blast
  then show "importPublicKey C (drop 1 (FromECDSAPub C (PublicKey C k))) = Ok (PublicKey C k)"
    "importPublicKey C (FromECDSAPub C (PublicKey C k)) = Ok (PublicKey C k)"
    "length (drop 1 (FromECDSAPub C (PublicKey C k))) = 64"
    by (simp_all add: importPublicKey_def)
qed

text \<open>The secrets of one end, and those of the other.\<close>

definition opposite :: "secrets \<Rightarrow> secrets \<Rightarrow> bool" where
  "opposite s t \<longleftrightarrow> sec_AES s = sec_AES t \<and> sec_MAC s = sec_MAC t \<and> sec_EgressMAC s = sec_IngressMAC t \<and>
     sec_IngressMAC s = sec_EgressMAC t \<and> length (sec_AES t) = 32 \<and> length (sec_MAC t) = 32"

lemma derive_opposite:
  assumes "hs_laws L C" "length (initNonce h) = 32" "length (respNonce h) = 32"
    "initNonce h' = initNonce h" "respNonce h' = respNonce h" "initiator h" "\<not> initiator h'"
    "randomPrivKey h = ea" "randomPrivKey h' = eb"
    "remoteRandomPub h = Some (PublicKey C eb)" "remoteRandomPub h' = Some (PublicKey C ea)"
  shows "\<exists>s t. derive_secrets L h ap rp = Ok s \<and> derive_secrets L h' ap rp = Ok t \<and> opposite s t \<and>
    sec_Remote s = remote h \<and> sec_Remote t = remote h'"
proof -
  obtain z where "GenerateShared L ea (Some (PublicKey C eb)) = Ok z" "GenerateShared L eb (Some (PublicKey C ea)) = Ok z"
    using hs_lawsD(2) [OF assms(1)] by blast
  moreover have "length (Keccak L b) = 32" for b by (rule hs_lawsD(1) [OF assms(1)])
  ultimately show ?thesis
    using assms by (simp add: derive_secrets_def Let_def xor_bytes_def opposite_def)
qed

lemma xor_bytes_32: "length a = 32 \<Longrightarrow> length b = 32 \<Longrightarrow> \<exists>x. xor_bytes a b = Ok x \<and> length x = 32"
  by (simp add: xor_bytes_def)

lemma handshakes_agree:
  fixes ca cb :: fd
  assumes L: "hs_laws L C" and ra: "drawn ra na ea" and rb: "drawn rb nb eb"
    and ca: "steady ca" and cb: "steady cb"
  shows "\<exists>ap rp ca' cb' sa sb.
    run_state (initiatorEncHandshake L C ra a (PublicKey C b)) (ca\<lparr>fd_in := rp @ resta\<rparr>) = (Ok sa, ca') \<and>
    fd_out ca' = fd_out ca @ ap \<and> fd_in ca' = resta \<and> steady ca' \<and>
    run_state (receiverEncHandshake L C rb b) (cb\<lparr>fd_in := ap @ restb\<rparr>) = (Ok sb, cb') \<and>
    fd_out cb' = fd_out cb @ rp \<and> fd_in cb' = restb \<and> steady cb' \<and>
    opposite sa sb \<and> sec_Remote sa = PublicKey C b \<and> sec_Remote sb = PublicKey C a"
proof -
  obtain tok where tok: "length tok = 32" "GenerateShared L a (Some (PublicKey C b)) = Ok tok"
    "GenerateShared L b (Some (PublicKey C a)) = Ok tok" using hs_lawsD(2) [OF L] by blast
  obtain sg where sg: "xor_bytes tok na = Ok sg" "length sg = 32"
    using xor_bytes_32 [OF tok(1)] ra by (auto simp: drawn_def)
  obtain sig where sig: "Sign C sg ea = Ok sig" "length sig = 65" "RecoverPubkey L sg sig = Ok (FromECDSAPub C (PublicKey C ea))"
    using hs_lawsD(4) [OF L sg(2)] by blast
  define am where "am = \<lparr>gotPlain = False, Signature = sig, InitiatorPubkey = drop 1 (FromECDSAPub C (PublicKey C a)),
    auth_Nonce = na, auth_Version = 4\<rparr>"
  define rm where "rm = \<lparr>RandomPubkey = drop 1 (FromECDSAPub C (PublicKey C eb)), resp_Nonce = nb, resp_Version = 4\<rparr>"
  define ha where "ha = \<lparr>initiator = True, remote = PublicKey C b, initNonce = na, respNonce = [], randomPrivKey = ea, remoteRandomPub = None\<rparr>"
  define hb where "hb = \<lparr>initiator = False, remote = PublicKey C a, initNonce = na, respNonce = nb, randomPrivKey = eb,
    remoteRandomPub = Some (PublicKey C ea)\<rparr>"
  note pub = importPublicKey_export [OF L]
  have ma: "makeAuthMsg L C ra \<lparr>initiator = True, remote = PublicKey C b, initNonce = [], respNonce = [],
         randomPrivKey = [], remoteRandomPub = None\<rparr> a = Ok (am, ha)"
    using ra tok sg sig pub(3) [of a] by (simp add: makeAuthMsg_def drawn_def staticSharedSecret_def Let_def am_def ha_def hs_sizes)
  obtain ab where ab: "RlpAuth L am = Ok ab" "161 \<le> length ab" "length ab \<le> 1000" "\<And>pad. RlpDecodeAuth L (ab @ pad) = Ok (am\<lparr>gotPlain := False\<rparr>)"
    using hs_lawsD(6) [OF L, of am] sig(2) pub(3) [of a] ra by (auto simp: am_def drawn_def)
  obtain bb where bb: "RlpResp L rm = Ok bb" "length bb \<le> 1000" "\<And>pad. RlpDecodeResp L (bb @ pad) = Ok rm"
    using hs_lawsD(7) [OF L, of rm] pub(3) [of eb] rb by (auto simp: rm_def drawn_def)
  have ha: "remote ha = PublicKey C b" and hb: "remote hb = PublicKey C a" by (simp_all add: ha_def hb_def)
  have sizes: "encAuthMsgLen \<le> length ab + 213" "encAuthRespLen \<le> length bb + 213" "2 \<le> encAuthMsgLen" "2 \<le> encAuthRespLen"
    using ab(2) by (simp_all add: hs_sizes)
  have gp: "am\<lparr>gotPlain := False\<rparr> = am" by (simp add: am_def)
  obtain ap where ap: "sealEIP8 L ra ha (Ok ab) = Ok ap"
    and ra': "\<And>(s :: fd) rest Q. fd_in s = ap @ rest \<Longrightarrow> Q (Ok (am, ap)) (s\<lparr>fd_in := rest\<rparr>) \<Longrightarrow>
      wp (readHandshakeMsg L authMsg_decodePlain (RlpDecodeAuth L) encAuthMsgLen b) Q s"
    using sealed_reads [where decodeRlp = "RlpDecodeAuth L", OF L ha ab(3) sizes(1,3) ab(4), of ra authMsg_decodePlain]
    unfolding gp by blast
  obtain rp where rp: "sealEIP8 L rb hb (Ok bb) = Ok rp"
    and rb': "\<And>(s :: fd) rest Q. fd_in s = rp @ rest \<Longrightarrow> Q (Ok (rm, rp)) (s\<lparr>fd_in := rest\<rparr>) \<Longrightarrow>
      wp (readHandshakeMsg L authResp_decodePlain (RlpDecodeResp L) encAuthRespLen a) Q s"
    using sealed_reads [where decodeRlp = "RlpDecodeResp L", OF L hb bb(2) sizes(2,4) bb(3), of rb authResp_decodePlain] by blast
  have gp': "gotPlain am = False" by (simp add: am_def)
  have mb: "handleAuthMsg L C rb \<lparr>initiator = False, remote = [], initNonce = [], respNonce = [],
      randomPrivKey = [], remoteRandomPub = None\<rparr> am b = Ok (hb\<lparr>respNonce := []\<rparr>)"
    using rb tok sg sig pub by (simp add: handleAuthMsg_def drawn_def staticSharedSecret_def Let_def am_def hb_def)
  have mr: "makeAuthResp C rb (hb\<lparr>respNonce := []\<rparr>) = Ok (rm, hb)"
    using rb pub(3) [of eb] by (simp add: makeAuthResp_def drawn_def hb_def rm_def exportPubkey_def hs_sizes)
  let ?ha = "ha\<lparr>respNonce := nb, remoteRandomPub := Some (PublicKey C eb)\<rparr>"
  obtain sa sb where s: "derive_secrets L ?ha ap rp = Ok sa" "derive_secrets L hb ap rp = Ok sb" "opposite sa sb"
    "sec_Remote sa = PublicKey C b" "sec_Remote sb = PublicKey C a"
    using derive_opposite [OF L, of ?ha hb ea eb ap rp] ra rb by (auto simp: ha_def hb_def drawn_def)
  have "wp (initiatorEncHandshake L C ra a (PublicKey C b))
      (\<lambda>r c'. r = Ok sa \<and> fd_out c' = fd_out ca @ ap \<and> fd_in c' = resta \<and> steady c') (ca\<lparr>fd_in := rp @ resta\<rparr>)"
    unfolding initiatorEncHandshake_def wp_check wp_return ma ab(1) ap res.case prod.case
    apply (rule wp_fd_Write)
    using ca apply (simp add: steady_def)
    apply (simp only: res.case wp_check)
    apply (rule rb' [where rest = resta])
    apply simp
    using pub(1) [of eb] s by (simp add: handleAuthResp_def rm_def wps steady_def)
  moreover have "wp (receiverEncHandshake L C rb b)
      (\<lambda>r c'. r = Ok sb \<and> fd_out c' = fd_out cb @ rp \<and> fd_in c' = restb \<and> steady c') (cb\<lparr>fd_in := ap @ restb\<rparr>)"
    unfolding receiverEncHandshake_def wp_check
    apply (rule ra' [where rest = restb])
    apply simp
    apply (simp only: res.case prod.case wp_check wp_return)
    apply (simp only: mb mr res.case prod.case gp' bb(1) rp if_False wp_check wp_return)
    apply (rule wp_fd_Write)
    using cb apply (simp add: steady_def)
    using s by (simp add: steady_def)
  ultimately show ?thesis
    using s by (fastforce simp: wp_def split: prod.splits)
qed

text \<open>
  C13. The encryption handshake agrees on the keys: there are two packets such that the initiator,
  which dialled the receiver's key, writes the first and reads the second, and the receiver the
  other way round. Both succeed; the initiator ends with the key it dialled, the receiver with the
  initiator's public key, both leave what arrived after the handshake unread, and in either
  direction the cipher and the hash of the writer are in step with those of the reader and no write
  is known to fail, which is what the frames need to deliver messages.
\<close>

theorem enc_handshake_agrees:
  fixes ca cb :: fd
  assumes "hs_laws L C" and "drawn ra na ea" and "drawn rb nb eb" and "steady ca" and "steady cb"
  shows "\<exists>ap rp ca' cb' rwa rwb.
    run_state (doEncHandshake L C ra a (Some (PublicKey C b))) (ca\<lparr>fd_in := rp @ resta\<rparr>) = (Ok (PublicKey C b, rwa), ca') \<and>
    fd_out ca' = fd_out ca @ ap \<and> fd_in rwa = resta \<and>
    run_state (doEncHandshake L C rb b None) (cb\<lparr>fd_in := ap @ restb\<rparr>) = (Ok (PublicKey C a, rwb), cb') \<and>
    fd_out cb' = fd_out cb @ rp \<and> fd_in rwb = restb \<and>
    in_step rwa rwb \<and> in_step rwb rwa \<and> steady rwa \<and> steady rwb"
proof -
  obtain ap rp ca' cb' sa sb where
    h: "run_state (initiatorEncHandshake L C ra a (PublicKey C b)) (ca\<lparr>fd_in := rp @ resta\<rparr>) = (Ok sa, ca')"
    "fd_out ca' = fd_out ca @ ap" "fd_in ca' = resta" "steady ca'"
    "run_state (receiverEncHandshake L C rb b) (cb\<lparr>fd_in := ap @ restb\<rparr>) = (Ok sb, cb')"
    "fd_out cb' = fd_out cb @ rp" "fd_in cb' = restb" "steady cb'"
    and s: "opposite sa sb" "sec_Remote sa = PublicKey C b" "sec_Remote sb = PublicKey C a"
    using handshakes_agree [OF assms] by blast
  let ?rw = "\<lambda>c s. fd.extend c (rlpxFrameRW.fields (sec_AES s) 0 0 (sec_MAC s) (sec_EgressMAC s) (sec_IngressMAC s) False)"
  have "newRLPXFrameRW ca' sa = Ok (?rw ca' sa)" "newRLPXFrameRW cb' sb = Ok (?rw cb' sb)"
    using s(1) by (simp_all add: newRLPXFrameRW_def opposite_def)
  with h s(2,3) have "run_state (doEncHandshake L C ra a (Some (PublicKey C b))) (ca\<lparr>fd_in := rp @ resta\<rparr>) = (Ok (PublicKey C b, ?rw ca' sa), ca')"
    "run_state (doEncHandshake L C rb b None) (cb\<lparr>fd_in := ap @ restb\<rparr>) = (Ok (PublicKey C a, ?rw cb' sb), cb')"
    by (simp_all add: doEncHandshake_def run)
  moreover have "in_step (?rw ca' sa) (?rw cb' sb)" "in_step (?rw cb' sb) (?rw ca' sa)"
    "fd_in (?rw ca' sa) = resta" "fd_in (?rw cb' sb) = restb" "steady (?rw ca' sa)" "steady (?rw cb' sb)"
    using s(1) h by (simp_all add: in_step_def opposite_def steady_def fd.defs rlpxFrameRW.defs)
  ultimately show ?thesis using h by blast
qed

text \<open>A concrete instance: a key agreement by exclusive or, and encryption that marks what it sealed.\<close>

definition pad_key :: "nat \<Rightarrow> bytes \<Rightarrow> bytes" where
  "pad_key n k = take n (k @ replicate n 0)"

definition hs_crypto :: crypto where
  "hs_crypto = \<lparr>Keccak256Hash = (\<lambda>bs. bs), Sign = (\<lambda>h k. Ok (0x04 # pad_key 64 k)), Ecrecover = (\<lambda>h sig. Ok sig),
     FromECDSAPub = (\<lambda>p. p), UnmarshalPubkey = (\<lambda>bs. Ok bs), PubkeyToAddress = (\<lambda>p. take 20 p),
     PublicKey = (\<lambda>k. 0x04 # pad_key 64 k)\<rparr>"

definition hs_lib :: ecies_lib where
  "hs_lib = frame_lib.extend sample_lib (ecies_lib.fields
     (\<lambda>k p. case p of Some p \<Rightarrow> Ok (map2 (XOR) (pad_key 32 k) (pad_key 32 (tl p))) | None \<Rightarrow> Panic)
     (\<lambda>seed p m s2. Ok (replicate 110 4 @ (if s2 = [] then [0, 0, 0] else [1, 1, 1]) @ m))
     (\<lambda>k c s2. if take 113 c = replicate 110 4 @ (if s2 = [] then [0, 0, 0] else [1, 1, 1]) then Ok (drop 113 c) else Err ''invalid message'')
     (\<lambda>h sig. Ok sig)
     (\<lambda>m. Ok (Signature m @ InitiatorPubkey m @ auth_Nonce m @ [word_of_nat (auth_Version m)]))
     (\<lambda>b. Ok \<lparr>gotPlain = False, Signature = take 65 b, InitiatorPubkey = take 64 (drop 65 b), auth_Nonce = take 32 (drop 129 b), auth_Version = 4\<rparr>)
     (\<lambda>m. Ok (RandomPubkey m @ resp_Nonce m @ [word_of_nat (resp_Version m)]))
     (\<lambda>b. Ok \<lparr>RandomPubkey = take 64 b, resp_Nonce = take 32 (drop 64 b), resp_Version = 4\<rparr>))"

lemma hs_lib_simps:
  "Keccak hs_lib = Keccak sample_lib"
  "GenerateShared hs_lib k (Some p) = Ok (map2 (XOR) (pad_key 32 k) (pad_key 32 (tl p)))"
  "EciesEncrypt hs_lib seed p m s2 = Ok (replicate 110 4 @ (if s2 = [] then [0, 0, 0] else [1, 1, 1]) @ m)"
  "EciesDecrypt hs_lib k c s2 = (if take 113 c = replicate 110 4 @ (if s2 = [] then [0, 0, 0] else [1, 1, 1])
     then Ok (drop 113 c) else Err ''invalid message'')"
  "RecoverPubkey hs_lib h sig = Ok sig"
  "RlpAuth hs_lib am = Ok (Signature am @ InitiatorPubkey am @ auth_Nonce am @ [word_of_nat (auth_Version am)])"
  "RlpDecodeAuth hs_lib b = Ok \<lparr>gotPlain = False, Signature = take 65 b, InitiatorPubkey = take 64 (drop 65 b),
     auth_Nonce = take 32 (drop 129 b), auth_Version = 4\<rparr>"
  "RlpResp hs_lib rm = Ok (RandomPubkey rm @ resp_Nonce rm @ [word_of_nat (resp_Version rm)])"
  "RlpDecodeResp hs_lib b = Ok \<lparr>RandomPubkey = take 64 b, resp_Nonce = take 32 (drop 64 b), resp_Version = 4\<rparr>"
  by (simp_all add: hs_lib_def frame_lib.defs ecies_lib.defs)

lemma pad_key_simps [simp]: "length (pad_key n k) = n" "pad_key 32 (pad_key 64 k) = pad_key 32 k"
proof -
  show "length (pad_key n k) = n" by (simp add: pad_key_def)
  show "pad_key 32 (pad_key 64 k) = pad_key 32 k"
    by (cases "length k \<le> 32") (simp_all add: pad_key_def min_def)
qed

lemma sealed_not_plain:
  assumes "length s2 = 2"
  shows "take 113 (take n (s2 @ replicate 110 (4 :: byte) @ xs)) \<noteq> replicate 110 4 @ [0, 0, 0]"
proof
  let ?l = "take 113 (take n (s2 @ replicate 110 (4 :: byte) @ xs))"
  assume e: "?l = replicate 110 4 @ [0, 0, 0]"
  then have "length ?l = 113" by simp
  moreover have "length ?l \<le> n" unfolding length_take by simp
  ultimately have "113 \<le> n" by simp
  then have "?l ! 110 = 4" using assms by (simp add: nth_append)
  moreover have "?l ! 110 = 0" unfolding e by (simp add: nth_append)
  ultimately show False by simp
qed

lemma hs_lib_laws: "hs_laws hs_lib hs_crypto"
proof -
  have k: "length (Keccak hs_lib b) = 32" for b using sample_lib_laws by (simp add: hs_lib_simps frame_laws_def)
  have x: "map2 (XOR) a b = map2 (XOR) b a" if "length a = length b" for a b :: bytes
    using that by (induction a b rule: list_induct2) (simp_all add: xor.commute)
  have g: "\<exists>z. length z = 32 \<and> GenerateShared hs_lib k (Some (PublicKey hs_crypto k')) = Ok z \<and>
      GenerateShared hs_lib k' (Some (PublicKey hs_crypto k)) = Ok z" for k k'
    using x [of "pad_key 32 k" "pad_key 32 k'"] by (simp add: hs_lib_simps hs_crypto_def)
  have e: "\<exists>c. EciesEncrypt hs_lib seed (PublicKey hs_crypto k) m s2 = Ok c \<and> length c = length m + eciesOverhead \<and>
      EciesDecrypt hs_lib k c s2 = Ok m \<and> (\<forall>n. length s2 = 2 \<longrightarrow> (\<exists>e. EciesDecrypt hs_lib k (take n (s2 @ c)) [] = Err e))" for seed k m s2
  proof -
    have t: "take 113 (replicate 110 (4 :: byte) @ [x, y, z] @ m) = replicate 110 4 @ [x, y, z]" for x y z by simp
    have d: "drop 113 (replicate 110 (4 :: byte) @ [x, y, z] @ m) = m" for x y z by simp
    show ?thesis
      unfolding hs_lib_simps
      by (intro exI conjI, rule refl) (use t d sealed_not_plain in \<open>auto simp: hs_sizes simp del: take_append drop_append take_take\<close>)
  qed
  have r: "\<exists>b. RlpAuth hs_lib m = Ok b \<and> 161 \<le> length b \<and> length b \<le> 1000 \<and> (\<forall>pad. RlpDecodeAuth hs_lib (b @ pad) = Ok (m\<lparr>gotPlain := False\<rparr>))"
    if "length (Signature m) = 65" "length (InitiatorPubkey m) = 64" "length (auth_Nonce m) = 32" "auth_Version m = 4" for m
    using that by (simp add: hs_lib_simps)
  have r': "\<exists>b. RlpResp hs_lib m = Ok b \<and> length b \<le> 1000 \<and> (\<forall>pad. RlpDecodeResp hs_lib (b @ pad) = Ok m)"
    if "length (RandomPubkey m) = 64" "length (resp_Nonce m) = 32" "resp_Version m = 4" for m
    using that by (simp add: hs_lib_simps)
  show ?thesis
    unfolding hs_laws_def by (intro conjI allI impI k g e r r') (auto simp: hs_crypto_def hs_lib_simps)
qed

definition sample_coins :: "byte \<Rightarrow> coins" where
  "sample_coins b = \<lparr>coin_nonce = Ok (replicate 32 b), coin_key = Ok [b, 9], coin_pad = 17, coin_seed = [b]\<rparr>"

definition sample_fd :: fd where
  "sample_fd = \<lparr>fd_in = [], fd_out = [], fd_werr = []\<rparr>"

theorem enc_handshake_agrees_witness:
  "\<exists>rp rwa ca' ap rwb cb'.
    run_state (doEncHandshake hs_lib hs_crypto (sample_coins 5) [1] (Some (PublicKey hs_crypto [2]))) (sample_fd\<lparr>fd_in := rp @ []\<rparr>) =
      (Ok (PublicKey hs_crypto [2], rwa), ca') \<and> fd_out ca' = fd_out sample_fd @ ap \<and>
    run_state (doEncHandshake hs_lib hs_crypto (sample_coins 6) [2] None) (sample_fd\<lparr>fd_in := ap @ [7]\<rparr>) =
      (Ok (PublicKey hs_crypto [1], rwb), cb') \<and> in_step rwa rwb"
proof -
  have "drawn (sample_coins b) (replicate 32 b) [b, 9]" for b by (simp add: drawn_def sample_coins_def)
  moreover have "steady sample_fd" by (simp add: steady_def sample_fd_def)
  ultimately show ?thesis
    using enc_handshake_agrees [OF hs_lib_laws, of "sample_coins 5" "replicate 32 5" "[5, 9]" "sample_coins 6" "replicate 32 6" "[6, 9]"
        sample_fd sample_fd "[1]" "[2]" "[]" "[7]"]
    by blast
qed

end
