(* ===== verification/Settings.thy ===== *)
theory Settings
  imports Api
begin

text \<open>
  The settings of a node and its start: \<^verbatim>\<open>init.go\<close>, the configuration handlers of \<^verbatim>\<open>api.go\<close>,
  \<open>ConnectToProvider\<close> of \<^verbatim>\<open>contract.go\<close>, \<open>connectSQLite\<close> of \<^verbatim>\<open>db.go\<close>, the key store functions of
  \<^verbatim>\<open>file.go\<close> and the branch of \<open>main\<close> that starts the node. The key store package, the provider, the
  database engine and the proof library's setup are outside the repository.
\<close>

section \<open>Constants\<close>

definition DEFAULT_BASIC_CONFGI_FILE :: string where "DEFAULT_BASIC_CONFGI_FILE = ''./basic.json''"
definition DEFAULT_CONFIG_FILE :: string where "DEFAULT_CONFIG_FILE = ''./config.json''"
definition DEFAULT_KEYSTORE_FILE :: string where "DEFAULT_KEYSTORE_FILE = ''./keystore''"
definition DEFAULT_KEY_PATH :: string where "DEFAULT_KEY_PATH = ''./zkPodParam''"
definition DEFAULT_PUBLISH_BIN_FILE :: string where "DEFAULT_PUBLISH_BIN_FILE = ''./bin/pod_publish''"
definition DEFAULT_BOB_DIR :: string where "DEFAULT_BOB_DIR = ''./B''"
definition DEFAULT_ALICE_DIR :: string where "DEFAULT_ALICE_DIR = ''./A''"
definition DEFAULT_NET_IP :: string where "DEFAULT_NET_IP = ''localhost:8888''"
definition DEFAULT_SERVER_PORT :: string where "DEFAULT_SERVER_PORT = ''7777''"
definition DEFAULT_PODEX_CONTRACT_ADDRESS :: string where
  "DEFAULT_PODEX_CONTRACT_ADDRESS = ''0x6BB3240C7a0850E99aEab96e210cbbD8b7B609D0''"
definition DEFAULT_DB_PATH :: string where "DEFAULT_DB_PATH = ''./pod.db''"
definition LOG_OPERATION_TYPE_CONFIG_SETTING :: int64 where "LOG_OPERATION_TYPE_CONFIG_SETTING = 1"

definition RESPONSE_INITIALIZE_FAILED :: string where
  "RESPONSE_INITIALIZE_FAILED = answer ''20002'' ''failed to initialize config''"
definition RESPONSE_SAVE_CONFIG_FILE_FAILED :: string where
  "RESPONSE_SAVE_CONFIG_FILE_FAILED = answer ''20003'' ''failed to save config file''"
definition RESPONSE_UPLOAD_KEY_FAILED :: string where
  "RESPONSE_UPLOAD_KEY_FAILED = answer ''20004'' ''failed to upload key''"
definition RESPONSE_HAS_STARTED :: string where
  "RESPONSE_HAS_STARTED = answer ''20101'' ''the node has been started''"

lemmas default_defs = DEFAULT_KEYSTORE_FILE_def DEFAULT_KEY_PATH_def DEFAULT_PUBLISH_BIN_FILE_def DEFAULT_BOB_DIR_def
  DEFAULT_ALICE_DIR_def DEFAULT_NET_IP_def DEFAULT_SERVER_PORT_def DEFAULT_PODEX_CONTRACT_ADDRESS_def

section \<open>State and host\<close>

text \<open>
  The global variables of \<^verbatim>\<open>main.go\<close> and \<^verbatim>\<open>contract.go\<close>. \<open>GAdminAuth\<close> is the key that signs
  transactions (its amount is \<open>AuthValue\<close> of the world), \<open>ZkPoDExchangeClient\<close> the address of the
  contract it talks to; \<open>None\<close> stands for nil. \<open>DBConn\<close> says whether the database is open.
\<close>

record node_st = world +
  BConf :: BasicConfig
  ETHKey :: "Key option"
  AliceNodeStart :: bool
  BobNodeStart :: bool
  GAdminAuth :: "privkey option"
  ZkPoDExchangeClient :: "address option"
  DBConn :: bool

text \<open>
  \<open>DecryptKey\<close> and \<open>HexToECDSA\<close> are pure. \<open>HostCall\<close> answers dialling the provider, binding the
  contract, the calls of the database engine; \<open>NewAccount\<close> writes a key store file into a directory,
  \<open>ReadDir\<close> gives the names in a directory and whether they are directories, \<open>Load\<close> is \<open>setup.Load\<close>.
  \<open>ListenTCP\<close> gives the address of the listening socket, \<open>AcceptTCP\<close> the next connection.
\<close>

record host =
  DecryptKey :: "bytes \<Rightarrow> string \<Rightarrow> Key res"
  HexToECDSA :: "string \<Rightarrow> privkey res"
  HostTime :: "call list \<Rightarrow> string"
  HostCall :: "call list \<Rightarrow> unit res"
  NewAccount :: "call list \<Rightarrow> filesys \<Rightarrow> unit res \<times> filesys"
  ReadDir :: "call list \<Rightarrow> filesys \<Rightarrow> (string \<times> bool) list res"
  Load :: "call list \<Rightarrow> bool"
  ListenTCP :: "call list \<Rightarrow> string res"
  AcceptTCP :: "call list \<Rightarrow> connection res"

definition host_call :: "host \<Rightarrow> host_op \<Rightarrow> ('z world_scheme, unit res) state" where
  "host_call H op = ask (CHost op) (HostCall H)"

definition new_account :: "host \<Rightarrow> string \<Rightarrow> string \<Rightarrow> ('z world_scheme, unit res) state" where
  "new_account H dir pw = State (\<lambda>w.
     case NewAccount H (CHost (HNewAccount dir pw) # hist w) (fs w) of
       (r, fs') \<Rightarrow> (r, w\<lparr>hist := CHost (HNewAccount dir pw) # hist w, fs := fs'\<rparr>))"

definition read_dir :: "host \<Rightarrow> string \<Rightarrow> ('z world_scheme, (string \<times> bool) list res) state" where
  "read_dir H dir = do { w \<leftarrow> State_Monad.get; ask (CHost (HReadDir dir)) (\<lambda>h. ReadDir H h (fs w)) }"

text \<open>\<open>os.RemoveAll(dir)\<close>, whose error is dropped.\<close>

definition RemoveAll :: "string \<Rightarrow> ('z world_scheme, unit) state" where
  "RemoveAll dir = State_Monad.update (\<lambda>w. w\<lparr>hist := CHost (HRemoveAll dir) # hist w,
     fs := (\<lambda>x. if below dir x = None then fs w x else None)\<rparr>)"

section \<open>The configuration file\<close>

definition BasicConfig_fields :: "BasicConfig field list" where
  "BasicConfig_fields = [
     field ''init_key_path'' dec_string InitKeyPath InitKeyPath_update,
     field ''publish_bin_path'' dec_string PublishBINPath PublishBINPath_update,
     field ''contract_addr'' dec_string ContractAddr ContractAddr_update,
     field ''B_dir'' dec_string BobDir BobDir_update,
     field ''A_dir'' dec_string AliceDir AliceDir_update,
     field ''keystore_file'' dec_string KeyStoreFile KeyStoreFile_update,
     field ''net_ip'' dec_string NetIP NetIP_update,
     field ''port'' dec_string Port Port_update]"

definition config_members :: "BasicConfig \<Rightarrow> (string \<times> string) list" where
  "config_members c = [
     (''init_key_path'', enc_string (InitKeyPath c)),
     (''publish_bin_path'', enc_string (PublishBINPath c)),
     (''contract_addr'', enc_string (ContractAddr c)),
     (''B_dir'', enc_string (BobDir c)),
     (''A_dir'', enc_string (AliceDir c)),
     (''keystore_file'', enc_string (KeyStoreFile c)),
     (''net_ip'', enc_string (NetIP c)),
     (''port'', enc_string (Port c))]"

definition zero_BasicConfig :: BasicConfig where
  "zero_BasicConfig = \<lparr>InitKeyPath = [], PublishBINPath = [], ContractAddr = [], BobDir = [], AliceDir = [],
     KeyStoreFile = [], NetIP = [], Port = []\<rparr>"

text \<open>The value of a variable that is replaced if it is empty.\<close>

definition unless_empty :: "string \<Rightarrow> string \<Rightarrow> string" where
  "unless_empty s d = (if s = [] then d else s)"

text \<open>What the file contributes, and the defaults for what is still empty.\<close>

definition from_file :: "BasicConfig \<Rightarrow> BasicConfig \<Rightarrow> BasicConfig" where
  "from_file basic preBasic = \<lparr>
     InitKeyPath = InitKeyPath preBasic, PublishBINPath = PublishBINPath preBasic,
     ContractAddr = ContractAddr preBasic, BobDir = BobDir preBasic, AliceDir = AliceDir preBasic,
     KeyStoreFile = unless_empty (KeyStoreFile basic) (KeyStoreFile preBasic),
     NetIP = unless_empty (NetIP basic) (NetIP preBasic), Port = unless_empty (Port basic) (Port preBasic)\<rparr>"

definition with_defaults :: "BasicConfig \<Rightarrow> BasicConfig" where
  "with_defaults basic = \<lparr>
     InitKeyPath = unless_empty (InitKeyPath basic) DEFAULT_KEY_PATH,
     PublishBINPath = unless_empty (PublishBINPath basic) DEFAULT_PUBLISH_BIN_FILE,
     ContractAddr = unless_empty (ContractAddr basic) DEFAULT_PODEX_CONTRACT_ADDRESS,
     BobDir = unless_empty (BobDir basic) DEFAULT_BOB_DIR,
     AliceDir = unless_empty (AliceDir basic) DEFAULT_ALICE_DIR,
     KeyStoreFile = unless_empty (KeyStoreFile basic) DEFAULT_KEYSTORE_FILE,
     NetIP = unless_empty (NetIP basic) DEFAULT_NET_IP,
     Port = unless_empty (Port basic) DEFAULT_SERVER_PORT\<rparr>"

definition readBasicFile :: "ext \<Rightarrow> BasicConfig \<Rightarrow> ('z world_scheme, BasicConfig res) state" where
  "readBasicFile E basic =
     check (pathExists E DEFAULT_BASIC_CONFGI_FILE) (\<lambda>_. ret (Err ''failed to read basic config file.'')) (\<lambda>rs.
     if rs then
       check (ReadFile E DEFAULT_BASIC_CONFGI_FILE) (\<lambda>_. ret (Err ''failed to read config file.'')) (\<lambda>conf.
       check (ret (Unmarshal BasicConfig_fields conf zero_BasicConfig))
         (\<lambda>_. ret (Err ''failed to parse basic config file.'')) (\<lambda>preBasic.
       ret (Ok (with_defaults (from_file basic preBasic)))))
     else ret (Ok (with_defaults basic)))"

definition saveBasicConfig :: "ext \<Rightarrow> BasicConfig \<Rightarrow> string \<Rightarrow> ('z world_scheme, unit res) state" where
  "saveBasicConfig E config basicFile =
     check (WriteFile E basicFile (enc_struct (config_members config)))
       (\<lambda>_. ret (Err ''failed to write config to basic file.'')) (\<lambda>_. ret (Ok ()))"

definition saveBasicFile :: "ext \<Rightarrow> BasicConfig \<Rightarrow> ('z world_scheme, unit res) state" where
  "saveBasicFile E basic = saveBasicConfig E basic DEFAULT_BASIC_CONFGI_FILE"

section \<open>Key stores and the provider\<close>

definition copyFile :: "ext \<Rightarrow> string \<Rightarrow> string \<Rightarrow> ('z world_scheme, unit res) state" where
  "copyFile E src dest = check (ReadFile E src) (\<lambda>e. ret (Err e)) (WriteFile E dest)"

fun copy_entries :: "ext \<Rightarrow> string \<Rightarrow> string \<Rightarrow> bool \<Rightarrow> (string \<times> bool) list \<Rightarrow> ('z world_scheme, unit res) state" where
  "copy_entries E dir keyStore exist [] = ret (if exist then Ok () else Err ''keystore file does not exist'')"
| "copy_entries E dir keyStore exist ((name, isDir) # rd) =
     (if isDir then copy_entries E dir keyStore exist rd
      else check (copyFile E (dir @ ''/'' @ name) keyStore) (\<lambda>e. ret (Err e)) (\<lambda>_. copy_entries E dir keyStore True rd))"

definition copyKeyStore :: "host \<Rightarrow> ext \<Rightarrow> string \<Rightarrow> string \<Rightarrow> ('z world_scheme, unit res) state" where
  "copyKeyStore H E dir keyStore =
     check (read_dir H dir) (\<lambda>e. ret (Err e)) (\<lambda>rd. deferring (RemoveAll dir) (copy_entries E dir keyStore False rd))"

definition initKeyStore :: "host \<Rightarrow> ext \<Rightarrow> string \<Rightarrow> string \<Rightarrow> ('z world_scheme, Key res) state" where
  "initKeyStore H E keystoreFile password =
     check (ReadFile E keystoreFile) (\<lambda>_. ret (Err ''failed to read keystore file'')) (\<lambda>jsonBytes.
     check (ret (DecryptKey H jsonBytes password)) (\<lambda>_. ret (Err ''failed to read keystore file'')) (\<lambda>key. ret (Ok key)))"

definition ProviderURL :: string where
  "ProviderURL = ''https://ropsten.infura.io/v3/198fa8670c224bc49a56f4828fcad728''"

text \<open>A fresh \<open>TransactOpts\<close> has no amount.\<close>

definition ConnectToProvider :: "host \<Rightarrow> ext \<Rightarrow> Key \<Rightarrow> string \<Rightarrow> ('z node_st_scheme, unit res) state" where
  "ConnectToProvider H E key zkPODEXAddr =
     check (host_call H (HDialProvider ProviderURL)) (\<lambda>e. ret (Err e)) (\<lambda>_.
     let addr = HexToAddress E zkPODEXAddr in
     check (host_call H (HBind addr)) (\<lambda>e. ret (Err e)) (\<lambda>_. do {
     State_Monad.update (\<lambda>s. s\<lparr>GAdminAuth := Some (key_PrivateKey key), AuthValue := 0, ZkPoDExchangeClient := Some addr\<rparr>);
     ret (Ok ()) }))"

definition new_keystore :: "host \<Rightarrow> ext \<Rightarrow> string \<Rightarrow> string \<Rightarrow> ('z world_scheme, unit res) state" where
  "new_keystore H E file password = do {
     now \<leftarrow> ask (CHost HTime) (HostTime H);
     let tmpKeystore = ''./tmp'' @ now;
     check (new_account H tmpKeystore password) (\<lambda>_. ret (Err ''failed to create a account'')) (\<lambda>_.
     check (copyKeyStore H E tmpKeystore file) (\<lambda>_. ret (Err ''failed to save key store file'')) (\<lambda>_. ret (Ok ()))) }"

definition readKeyStore :: "host \<Rightarrow> ext \<Rightarrow> BasicConfig \<Rightarrow> string \<Rightarrow> ('z node_st_scheme, Key res) state" where
  "readKeyStore H E config password =
     (if password = [] then ret (Err ''no keystore password!'') else
      check (pathExists E (KeyStoreFile config)) (\<lambda>_. ret (Err ''failed to check key store file'')) (\<lambda>rs.
      check (if \<not> rs then new_keystore H E (KeyStoreFile config) password else ret (Ok ())) (\<lambda>e. ret (Err e)) (\<lambda>_.
      check (initKeyStore H E (KeyStoreFile config) password) (\<lambda>_. ret (Err ''invalid key store file'')) (\<lambda>key.
      if ContractAddr config = [] then ret (Err ''invalid contract addr'') else
      check (ConnectToProvider H E key (ContractAddr config))
        (\<lambda>_. ret (Err ''failed to connect to provider for contract'')) (\<lambda>_. ret (Ok key))))))"

section \<open>Directories, maps, parameters and the database\<close>

definition make_dir :: "ext \<Rightarrow> string \<Rightarrow> ('z world_scheme, unit res) state" where
  "make_dir E path =
     check (pathExists E path) (\<lambda>_. ret (Err ''check dictonary error.'')) (\<lambda>rs.
     if \<not> rs then check (Mkdir E path) (\<lambda>_. ret (Err ''create dictionary error.'')) (\<lambda>_. ret (Ok ())) else ret (Ok ()))"

text \<open>The test for empty names builds an error and drops it.\<close>

definition initDir :: "ext \<Rightarrow> string \<Rightarrow> string \<Rightarrow> ('z world_scheme, unit res) state" where
  "initDir E bDir aDir =
     check (make_dir E bDir) (\<lambda>e. ret (Err e)) (\<lambda>_.
     check (make_dir E (bDir @ ''/transaction'')) (\<lambda>e. ret (Err e)) (\<lambda>_.
     check (make_dir E aDir) (\<lambda>e. ret (Err e)) (\<lambda>_.
     check (make_dir E (aDir @ ''/transaction'')) (\<lambda>e. ret (Err e)) (\<lambda>_.
     make_dir E (aDir @ ''/publish'')))))"

definition initMap :: "('z world_scheme, unit) state" where
  "initMap = State_Monad.update (\<lambda>w. w\<lparr>AliceTxMap := (\<lambda>_. None), BobTxMap := (\<lambda>_. None), DepositLockMap := (\<lambda>_. 0)\<rparr>)"

definition preparePOD :: "host \<Rightarrow> ext \<Rightarrow> string \<Rightarrow> ('z world_scheme, bool res) state" where
  "preparePOD H E initKeyPath =
     check (pathExists E initKeyPath) (\<lambda>_. ret (Ok False)) (\<lambda>rs. if \<not> rs then ret (Ok False) else
     let zksnarkPath = initKeyPath @ ''/zksnark_key'' in
     check (pathExists E zksnarkPath) (\<lambda>_. ret (Ok False)) (\<lambda>rs. if \<not> rs then ret (Ok False) else
     check (pathExists E (zksnarkPath @ ''/atomic_swap_vc.pk'')) (\<lambda>_. ret (Ok False)) (\<lambda>rs1.
     check (pathExists E (zksnarkPath @ ''/atomic_swap_vc.vk'')) (\<lambda>_. ret (Ok False)) (\<lambda>rs2.
     if \<not> rs1 \<or> \<not> rs2 then ret (Ok False) else do {
     b \<leftarrow> ask (CHost (HLoad initKeyPath)) (Load H);
     ret (Ok b) }))))"

primrec host_calls :: "host \<Rightarrow> host_op list \<Rightarrow> ('z world_scheme, unit res) state" where
  "host_calls H [] = ret (Ok ())"
| "host_calls H (op # ops) = check (host_call H op) (\<lambda>e. ret (Err e)) (\<lambda>_. host_calls H ops)"

definition connectSQLite :: "host \<Rightarrow> string \<Rightarrow> ('z world_scheme, unit res) state" where
  "connectSQLite H dbpath = host_calls H [HEngine dbpath, HPing,
     HCreateTable ''bob_tx'', HCreateTable ''alice_tx'', HCreateTable ''pod_log'',
     HSync ''bob_tx'', HSync ''alice_tx'', HSync ''pod_log'']"

section \<open>Starting the node\<close>

text \<open>\<open>if err != nil { panic(err) }\<close>\<close>

definition or_panic :: "('s, 'a res) state \<Rightarrow> ('a \<Rightarrow> ('s, 'b res) state) \<Rightarrow> ('s, 'b res) state" where
  "or_panic m k = check m (\<lambda>_. ret Panic) k"

text \<open>\<open>main\<close> for the operation \<open>start\<close>, up to \<open>SetupPOD\<close>. The inner \<open>err :=\<close> does not matter.\<close>

definition start_node :: "host \<Rightarrow> ext \<Rightarrow> BasicConfig \<Rightarrow> string \<Rightarrow> (node_st, unit res) state" where
  "start_node H E basic password =
     or_panic (readBasicFile E basic) (\<lambda>conf. do {
     State_Monad.update (BConf_update (\<lambda>_. conf));
     initMap;
     or_panic (saveBasicFile E conf) (\<lambda>_.
     or_panic (readKeyStore H E conf password) (\<lambda>key. do {
     State_Monad.update (ETHKey_update (\<lambda>_. Some key));
     or_panic (preparePOD H E (InitKeyPath conf)) (\<lambda>b. if \<not> b then ret Panic else
     or_panic (initDir E (BobDir conf) (AliceDir conf)) (\<lambda>_.
     or_panic (connectSQLite H DEFAULT_DB_PATH) (\<lambda>_. do {
     State_Monad.update (DBConn_update (\<lambda>_. True));
     ret (Ok ()) }))) })) })"

section \<open>The configuration handlers\<close>

definition ReadCfgAPIHandler :: "(node_st, string res) state" where
  "ReadCfgAPIHandler = do {
     s \<leftarrow> State_Monad.get;
     ret (Ok (CHR ''{'' # enc_members [
       (''code'', enc_string ''0''),
       (''message'', enc_string ''read config successfully''),
       (''data'', CHR ''{'' # enc_members (config_members (BConf s)) @ ''}'')] @ ''}'')) }"

text \<open>As in the other handlers, \<open>plog\<close> is a component of the state while the handler runs.\<close>

record cfg_st = node_st +
  clog :: PodLog

type_synonym cfg = "(cfg_st, string res) state"

definition cfg_detail :: "string \<Rightarrow> (cfg_st, unit) state" where
  "cfg_detail d = State_Monad.update (\<lambda>s. s\<lparr>clog := (clog s)\<lparr>pl_Detail := d\<rparr>\<rparr>)"

definition set_key :: "Key \<Rightarrow> (cfg_st, unit) state" where
  "set_key key = State_Monad.update (\<lambda>s. s\<lparr>ETHKey := Some key\<rparr>)"

definition reload_ip :: "string \<Rightarrow> (cfg_st, unit) state" where
  "reload_ip ip = do {
     s \<leftarrow> State_Monad.get;
     if \<not> AliceNodeStart s then do {
       (if ip \<noteq> [] then State_Monad.update (\<lambda>s. s\<lparr>BConf := (BConf s)\<lparr>NetIP := ip\<rparr>\<rparr>) else ret ());
       cfg_detail (''modify ip ='' @ ip @ '';'') }
     else ret () }"

text \<open>
  The public key of a private key is always an \<open>*ecdsa.PublicKey\<close>. The result says whether the
  handler goes on, or which text it answers.
\<close>

definition reload_key :: "host \<Rightarrow> ext \<Rightarrow> http_request \<Rightarrow> (cfg_st, string option res) state" where
  "reload_key H E r = do {
     s \<leftarrow> State_Monad.get;
     let password = FormValue r ''password'';
     let keystoreFile = FormValue r ''keystore'';
     let privkey = FormValue r ''privkey'';
     if privkey \<noteq> [] then
       check (ret (HexToECDSA H privkey)) (\<lambda>_. ret (Ok (Some RESPONSE_UPLOAD_KEY_FAILED))) (\<lambda>prv. do {
       cfg_detail (pl_Detail (clog s) @ ''modify eth key, address=%v'' @ ''TODO'' @ '';'');
       let key = \<lparr>key_Address = PubkeyToAddress (Crypto E) (PublicKey (Crypto E) prv), key_PrivateKey = prv\<rparr>;
       check (ConnectToProvider H E key (ContractAddr (BConf s))) (\<lambda>_. ret (Ok (Some RESPONSE_INITIALIZE_FAILED))) (\<lambda>_. do {
       set_key key;
       ret (Ok None) }) })
     else if password \<noteq> [] \<and> keystoreFile \<noteq> [] then do {
       let d = pl_Detail (clog s) @ ''modify eth key, keystoreFile='' @ keystoreFile;
       cfg_detail d;
       check (initKeyStore H E keystoreFile password) (\<lambda>_. ret (Ok (Some RESPONSE_INITIALIZE_FAILED))) (\<lambda>key. do {
       cfg_detail (d @ '', address='' @ AddressHex E (key_Address key));
       check (ConnectToProvider H E key (ContractAddr (BConf s))) (\<lambda>_. ret (Ok (Some RESPONSE_INITIALIZE_FAILED))) (\<lambda>_. do {
       set_key key;
       State_Monad.update (\<lambda>s. s\<lparr>BConf := (BConf s)\<lparr>KeyStoreFile := keystoreFile\<rparr>\<rparr>);
       ret (Ok None) }) }) }
     else ret (Ok None) }"

definition reload_body :: "host \<Rightarrow> ext \<Rightarrow> http_request \<Rightarrow> cfg" where
  "reload_body H E r = do {
     reload_ip (FormValue r ''ip'');
     s \<leftarrow> State_Monad.get;
     check (if \<not> AliceNodeStart s \<and> \<not> BobNodeStart s then reload_key H E r else ret (Ok None)) (\<lambda>e. ret (Err e)) (\<lambda>early.
     case early of Some text \<Rightarrow> ret (Ok text) | None \<Rightarrow> do {
     s \<leftarrow> State_Monad.get;
     check (saveBasicConfig E (BConf s) DEFAULT_BASIC_CONFGI_FILE) (\<lambda>_. ret (Ok RESPONSE_SAVE_CONFIG_FILE_FAILED)) (\<lambda>_. do {
     State_Monad.update (\<lambda>s. s\<lparr>clog := (clog s)\<lparr>pl_Result := LOG_RESULT_SUCCESS\<rparr>\<rparr>);
     ret (Ok (answer ''0'' ''set config successfully'')) }) }) }"

definition ReLoadConfigAPIHandler :: "host \<Rightarrow> ext \<Rightarrow> http_request \<Rightarrow> (node_st, string res) state" where
  "ReLoadConfigAPIHandler H E r = State (\<lambda>s.
     if AliceNodeStart s \<and> BobNodeStart s then (Ok RESPONSE_HAS_STARTED, s) else
     case run_state (deferring (do { s \<leftarrow> State_Monad.get; insertLogToDB E (clog s); ret () }) (reload_body H E r))
       (node_st.extend s (cfg_st.fields \<lparr>pl_SessionId = [], pl_Operation = LOG_OPERATION_TYPE_CONFIG_SETTING,
         pl_Detail = [], pl_Result = LOG_RESULT_FAILED\<rparr>)) of
     (r, s') \<Rightarrow> (r, node_st.truncate s'))"

section \<open>What the functions leave alone\<close>

lemma wp_new_account [wps]:
  "wp (new_account H dir pw) Q w = (case NewAccount H (CHost (HNewAccount dir pw) # hist w) (fs w) of
     (r, fs') \<Rightarrow> Q r (w\<lparr>hist := CHost (HNewAccount dir pw) # hist w, fs := fs'\<rparr>))"
  by (simp add: wp_def new_account_def split: prod.splits)

lemma keeps_host [frame]:
  assumes "inert f"
  shows "keeps f (host_call H op)" "keeps f (new_account H dir pw)" "keeps f (read_dir H dir)" "keeps f (RemoveAll dir)"
  using assms unfolding host_call_def read_dir_def
  by (auto simp: keeps_def new_account_def RemoveAll_def run ask_def inert_def split: prod.splits)

lemma keeps_copy_entries [frame]: "inert f \<Longrightarrow> keeps f (copy_entries E dir ks b rd)"
proof (induction rd arbitrary: b)
  case (Cons e rd)
  then show ?case by (cases e) (simp add: copyFile_def, intro conjI impI frame, auto)
qed (simp add: frame)

lemma keeps_host_calls [frame]: "inert f \<Longrightarrow> keeps f (host_calls H ops)"
  by (induction ops) (simp_all, (intro frame; simp)+)

lemmas settings_defs = readBasicFile_def saveBasicConfig_def saveBasicFile_def copyKeyStore_def initKeyStore_def
  new_keystore_def make_dir_def initDir_def preparePOD_def connectSQLite_def

lemma keeps_settings [frame]:
  assumes "inert f"
  shows "keeps f (readBasicFile E basic)" "keeps f (saveBasicConfig E c p)" "keeps f (saveBasicFile E c)"
    "keeps f (copyKeyStore H E dir p)" "keeps f (initKeyStore H E p pw)" "keeps f (new_keystore H E p pw)"
    "keeps f (initDir E d d')" "keeps f (preparePOD H E p)" "keeps f (connectSQLite H p)"
  unfolding settings_defs Let_def by (intro frame assms)+

text \<open>The global variables, and the transactions in progress.\<close>

definition globals :: "'z node_st_scheme \<Rightarrow> _" where
  "globals s = ((BConf s, ETHKey s, AliceNodeStart s, BobNodeStart s, GAdminAuth s, ZkPoDExchangeClient s, DBConn s),
     AliceTxMap s, BobTxMap s, DepositLockMap s, AuthValue s)"

lemma inert_globals: "inert globals"
  by (rule inertI) (simp_all add: globals_def)

lemma wp_globals:
  assumes "keeps globals m" "\<And>r s'. globals s' = globals s \<Longrightarrow> Q r s'"
  shows "wp m Q s"
  using assms by (rule wp_keeps)

section \<open>Configurations survive a restart\<close>

definition config_ascii :: "BasicConfig \<Rightarrow> bool" where
  "config_ascii c \<longleftrightarrow> ascii (InitKeyPath c) \<and> ascii (PublishBINPath c) \<and> ascii (ContractAddr c) \<and> ascii (BobDir c) \<and>
     ascii (AliceDir c) \<and> ascii (KeyStoreFile c) \<and> ascii (NetIP c) \<and> ascii (Port c)"

definition complete :: "BasicConfig \<Rightarrow> bool" where
  "complete c \<longleftrightarrow> InitKeyPath c \<noteq> [] \<and> PublishBINPath c \<noteq> [] \<and> ContractAddr c \<noteq> [] \<and> BobDir c \<noteq> [] \<and>
     AliceDir c \<noteq> [] \<and> KeyStoreFile c \<noteq> [] \<and> NetIP c \<noteq> [] \<and> Port c \<noteq> []"

lemma complete_defaults: "complete (with_defaults c)"
  by (simp add: complete_def with_defaults_def unless_empty_def default_defs)

lemma with_defaults_complete: "complete c \<Longrightarrow> with_defaults c = c"
  by (simp add: complete_def with_defaults_def unless_empty_def)

lemma config_json:
  assumes "config_ascii c"
  shows "Unmarshal BasicConfig_fields (enc_struct (config_members c)) c0 = Ok c"
proof -
  let ?ms = "[(''init_key_path'', enc_string (InitKeyPath c), JStr (InitKeyPath c)),
    (''publish_bin_path'', enc_string (PublishBINPath c), JStr (PublishBINPath c)),
    (''contract_addr'', enc_string (ContractAddr c), JStr (ContractAddr c)),
    (''B_dir'', enc_string (BobDir c), JStr (BobDir c)),
    (''A_dir'', enc_string (AliceDir c), JStr (AliceDir c)),
    (''keystore_file'', enc_string (KeyStoreFile c), JStr (KeyStoreFile c)),
    (''net_ip'', enc_string (NetIP c), JStr (NetIP c)),
    (''port'', enc_string (Port c), JStr (Port c))]"
  have "\<forall>(k, s, v) \<in> set ?ms. ascii k \<and> denotes s v"
    using assms by (simp add: denotes_scalars config_ascii_def) (simp add: ascii_def)
  from Unmarshal_denotes [OF this, of BasicConfig_fields c0] show ?thesis
    by (simp add: config_members_def BasicConfig_fields_def find_field_def field_def)
qed

lemma wp_readBasicFile_complete: "wp (readBasicFile E basic) (\<lambda>r w'. \<forall>c. r = Ok c \<longrightarrow> complete c) w"
  by (auto simp: readBasicFile_def pathExists_def ReadFile_def wps complete_defaults
      split: res.split option.split fnode.split)

text \<open>
  C23. A configuration survives a restart: what a start has put together from the command line,
  the file and the defaults, and saved, the next start reads back, with only the address, the port
  and the key store replaced by those on its own command line, if they are given there. The saved
  texts are ASCII and the file can be read.
\<close>

theorem config_survives_restart:
  assumes "run_state (readBasicFile E flags) w = (Ok conf, w1)"
    and "run_state (saveBasicFile E' conf) w2 = (Ok (), w3)" and "config_ascii conf"
    and "fs w4 DEFAULT_BASIC_CONFGI_FILE = fs w3 DEFAULT_BASIC_CONFGI_FILE" and "\<forall>h. \<not> OsFault E'' h"
  shows "fst (run_state (readBasicFile E'' flags') w4) = Ok (conf\<lparr>
    KeyStoreFile := if KeyStoreFile flags' = [] then KeyStoreFile conf else KeyStoreFile flags',
    NetIP := if NetIP flags' = [] then NetIP conf else NetIP flags',
    Port := if Port flags' = [] then Port conf else Port flags'\<rparr>)"
proof -
  have "fs w4 DEFAULT_BASIC_CONFGI_FILE = Some (File (enc_struct (config_members conf)))"
    using assms(2,4) unfolding saveBasicFile_def saveBasicConfig_def by (auto dest!: saved_file)
  then have "fst (run_state (readBasicFile E'' flags') w4) = Ok (with_defaults (from_file flags' conf))"
    using assms(5) by (simp add: readBasicFile_def pathExists_def ReadFile_def run ask_def config_json [OF assms(3)])
  moreover have "complete conf" using wpD [OF wp_readBasicFile_complete assms(1)] by simp
  then have "complete (from_file flags' conf)" by (simp add: complete_def from_file_def unless_empty_def)
  ultimately show ?thesis by (simp add: with_defaults_complete from_file_def unless_empty_def)
qed

theorem config_survives_restart_witness:
  "fst (run_state (readBasicFile sample_ext (zero_BasicConfig\<lparr>Port := ''80''\<rparr>))
     (snd (run_state (saveBasicFile sample_ext (with_defaults zero_BasicConfig)) sample_world))) =
   Ok ((with_defaults zero_BasicConfig)\<lparr>Port := ''80''\<rparr>)"
proof -
  let ?c = "with_defaults zero_BasicConfig"
  have r: "run_state (readBasicFile sample_ext zero_BasicConfig) sample_world =
      (Ok ?c, snd (run_state (readBasicFile sample_ext zero_BasicConfig) sample_world))"
    by (simp add: readBasicFile_def pathExists_def run ask_def sample_ext_def sample_world_def)
  have s: "run_state (saveBasicFile sample_ext ?c) sample_world = (Ok (), snd (run_state (saveBasicFile sample_ext ?c) sample_world))"
    by (simp add: saveBasicFile_def saveBasicConfig_def WriteFile_def WriteOpened_def set_fs_def run ask_def
        sample_ext_def sample_world_def)
  have a: "config_ascii ?c"
    by (simp add: config_ascii_def with_defaults_def unless_empty_def zero_BasicConfig_def default_defs ascii_def)
  show ?thesis
    using config_survives_restart [OF r s a refl, where E'' = sample_ext and flags' = "zero_BasicConfig\<lparr>Port := ''80''\<rparr>"]
    by (simp add: sample_ext_def zero_BasicConfig_def)
qed

section \<open>A started node\<close>

text \<open>
  What the rest of the program relies on: a complete configuration, the key of the account, a
  contract client that signs with this key and talks to the configured contract with no amount set,
  an open database, and no transaction in progress.
\<close>

definition linked :: "ext \<Rightarrow> 'z node_st_scheme \<Rightarrow> bool" where
  "linked E s \<longleftrightarrow> complete (BConf s) \<and> DBConn s \<and>
     ZkPoDExchangeClient s = Some (HexToAddress E (ContractAddr (BConf s))) \<and>
     (\<exists>key. ETHKey s = Some key \<and> GAdminAuth s = Some (key_PrivateKey key))"

text \<open>The paths of the directories exist; \<open>initDir\<close> does not ask what is there.\<close>

definition laid_out :: "BasicConfig \<Rightarrow> filesys \<Rightarrow> bool" where
  "laid_out c F \<longleftrightarrow> F (BobDir c) \<noteq> None \<and> F (BobDir c @ ''/transaction'') \<noteq> None \<and> F (AliceDir c) \<noteq> None \<and>
     F (AliceDir c @ ''/transaction'') \<noteq> None \<and> F (AliceDir c @ ''/publish'') \<noteq> None"

lemma wp_make_dir:
  assumes "\<And>e s'. globals s' = globals s \<Longrightarrow> Q (Err e) s'"
    and "\<And>s'. globals s' = globals s \<Longrightarrow> fs s' p \<noteq> None \<Longrightarrow> (\<And>q. fs s q \<noteq> None \<Longrightarrow> fs s' q \<noteq> None) \<Longrightarrow> Q (Ok ()) s'"
  shows "wp (make_dir E p) Q s"
  using assms by (auto simp: make_dir_def pathExists_def Mkdir_def set_fs_def wps globals_def split: res.split)

lemma wp_initDir:
  assumes "\<And>e s'. globals s' = globals s \<Longrightarrow> Q (Err e) s'"
    and "\<And>s'. globals s' = globals s \<Longrightarrow> laid_out c (fs s') \<Longrightarrow> Q (Ok ()) s'"
  shows "wp (initDir E (BobDir c) (AliceDir c)) Q s"
  unfolding initDir_def wp_check
  apply (rule wp_make_dir; simp add: assms wp_return wp_check)
  apply (rule wp_make_dir; simp add: assms wp_return wp_check)
  apply (rule wp_make_dir; simp add: assms wp_return wp_check)
  apply (rule wp_make_dir; simp add: assms wp_return wp_check)
  apply (rule wp_make_dir; simp add: assms laid_out_def)
  done

lemma keeps_fs_host_calls [frame]: "keeps fs (host_calls H ops)"
proof (induction ops)
  case (Cons op ops)
  then show ?case by (simp, intro keeps_check keeps_ret) (simp_all add: keeps_def host_call_def ask_def)
qed (simp add: keeps_ret)

lemma keeps_pair: "keeps f m \<Longrightarrow> keeps g m \<Longrightarrow> keeps (\<lambda>s. (f s, g s)) m"
  by (simp add: keeps_def)

lemma keeps_connectSQLite: "keeps (\<lambda>s. (globals s, fs s)) (connectSQLite H p)"
  unfolding connectSQLite_def by (intro keeps_pair keeps_host_calls inert_globals keeps_fs_host_calls)

lemma wp_or_panic: "wp (or_panic m k) Q s = wp m (\<lambda>r s'. case r of Ok v \<Rightarrow> wp (k v) Q s' | _ \<Rightarrow> Q Panic s') s"
  unfolding or_panic_def wp_check by (rule arg_cong [where f = "\<lambda>R. wp m R s"]) (auto simp: wp_return fun_eq_iff split: res.split)

lemma wp_ConnectToProvider:
  assumes "\<And>r s'. r \<noteq> Ok () \<Longrightarrow> globals s' = globals s \<Longrightarrow> Q r s'"
    and "\<And>s'. globals s' = globals (s\<lparr>GAdminAuth := Some (key_PrivateKey key), AuthValue := 0,
      ZkPoDExchangeClient := Some (HexToAddress E a)\<rparr>) \<Longrightarrow> Q (Ok ()) s'"
  shows "wp (ConnectToProvider H E key a) Q s"
  using assms by (auto simp: ConnectToProvider_def host_call_def wps globals_def Let_def split: res.split)

lemma wp_readKeyStore:
  assumes "\<And>r s'. \<not> is_ok r \<Longrightarrow> globals s' = globals s \<Longrightarrow> Q r s'"
    and "\<And>key s'. globals s' = globals (s\<lparr>GAdminAuth := Some (key_PrivateKey key), AuthValue := 0,
      ZkPoDExchangeClient := Some (HexToAddress E (ContractAddr c))\<rparr>) \<Longrightarrow> Q (Ok key) s'"
  shows "wp (readKeyStore H E c pw) Q s"
proof -
  have con: "wp (check (ConnectToProvider H E key (ContractAddr c)) (\<lambda>_. ret (Err e)) (\<lambda>_. ret (Ok key))) Q s'"
    if "globals s' = globals s" for key e s'
    unfolding wp_check by (rule wp_ConnectToProvider)
      (use that assms in \<open>auto simp: wps globals_def split: res.split\<close>)
  have key: "wp (check (initKeyStore H E p pw) (\<lambda>_. ret (Err e)) (\<lambda>key. if ContractAddr c = [] then ret (Err e') else
      check (ConnectToProvider H E key (ContractAddr c)) (\<lambda>_. ret (Err e'')) (\<lambda>_. ret (Ok key)))) Q s'"
    if g: "globals s' = globals s" for p e e' e'' s'
    unfolding wp_check wp_if by (rule wp_globals [OF keeps_settings(5) [OF inert_globals]])
      (use con assms g in \<open>auto simp: wps split: res.split\<close>)
  have new: "wp (check (if \<not> rs then new_keystore H E p pw else ret (Ok ())) (\<lambda>e. ret (Err e)) (\<lambda>_.
      check (initKeyStore H E p pw) (\<lambda>_. ret (Err e)) (\<lambda>key. if ContractAddr c = [] then ret (Err e') else
      check (ConnectToProvider H E key (ContractAddr c)) (\<lambda>_. ret (Err e'')) (\<lambda>_. ret (Ok key))))) Q s'"
    if g: "globals s' = globals s" for rs p e e' e'' s'
    unfolding wp_check [of "if \<not> rs then new_keystore H E p pw else ret (Ok ())"]
    by (rule wp_globals, intro frame inert_globals) (use key assms g in \<open>auto simp: wp_return split: res.split\<close>)
  show ?thesis
    unfolding readKeyStore_def
    apply (cases "pw = []")
    apply (simp add: wp_return assms)
    apply (simp only: if_False wp_check [of "pathExists E (KeyStoreFile c)"])
    apply (rule wp_globals [OF keeps_files(6) [OF inert_globals]])
    apply (auto simp: wp_return assms new [of _ False, simplified] new [of _ True, simplified] split: res.split)
    done
qed

lemma is_ok_cases: "\<not> is_ok r \<Longrightarrow> (case r of Ok v \<Rightarrow> P v | _ \<Rightarrow> R) = R"
  by (cases r) simp_all

lemma start_ready:
  "wp (start_node H E basic password) (\<lambda>r s. r = Panic \<or> r = Ok () \<and> linked E s \<and> laid_out (BConf s) (fs s) \<and>
     AliceTxMap s = (\<lambda>_. None) \<and> BobTxMap s = (\<lambda>_. None) \<and> DepositLockMap s = (\<lambda>_. 0) \<and> AuthValue s = 0) s"
proof -
  let ?Q = "\<lambda>r s. r = Panic \<or> r = Ok () \<and> linked E s \<and> laid_out (BConf s) (fs s) \<and>
     AliceTxMap s = (\<lambda>_. None) \<and> BobTxMap s = (\<lambda>_. None) \<and> DepositLockMap s = (\<lambda>_. 0) \<and> AuthValue s = 0"
  define good where "good conf s \<longleftrightarrow> complete conf \<and> BConf s = conf \<and> AliceTxMap s = (\<lambda>_. None) \<and> BobTxMap s = (\<lambda>_. None) \<and>
    DepositLockMap s = (\<lambda>_. 0)" for conf and s :: node_st
  define keyed where "keyed conf s \<longleftrightarrow> good conf s \<and> AuthValue s = 0 \<and>
    ZkPoDExchangeClient s = Some (HexToAddress E (ContractAddr conf)) \<and>
    (\<exists>key. ETHKey s = Some key \<and> GAdminAuth s = Some (key_PrivateKey key))" for conf s
  have good: "good c s \<Longrightarrow> globals s' = globals s \<Longrightarrow> good c s'" "keyed c s \<Longrightarrow> globals s' = globals s \<Longrightarrow> keyed c s'" for c s s'
    by (auto simp: good_def keyed_def globals_def)
  let ?db = "or_panic (connectSQLite H DEFAULT_DB_PATH) (\<lambda>_. do { State_Monad.update (DBConn_update (\<lambda>_. True)); ret (Ok ()) })"
  let ?dirs = "\<lambda>conf. or_panic (initDir E (BobDir conf) (AliceDir conf)) (\<lambda>_. ?db)"
  let ?pod = "\<lambda>conf. or_panic (preparePOD H E (InitKeyPath conf)) (\<lambda>b. if \<not> b then ret Panic else ?dirs conf)"
  let ?key = "\<lambda>conf. or_panic (readKeyStore H E conf password) (\<lambda>key. do { State_Monad.update (ETHKey_update (\<lambda>_. Some key)); ?pod conf })"
  have db: "wp ?db ?Q s" if "keyed conf s" "laid_out conf (fs s)" for conf s
    unfolding wp_or_panic by (rule wp_keeps [OF keeps_connectSQLite])
      (use that in \<open>auto simp: wps keyed_def good_def globals_def linked_def split: res.split\<close>)
  have dirs: "wp (?dirs conf) ?Q s" if "keyed conf s" for conf s
    unfolding wp_or_panic [of "initDir E (BobDir conf) (AliceDir conf)"]
    by (rule wp_initDir) (auto intro: db good(2) [OF that])
  have pod: "wp (?pod conf) ?Q s" if "keyed conf s" for conf s
    unfolding wp_or_panic [of "preparePOD H E (InitKeyPath conf)"]
    by (rule wp_globals [OF keeps_settings(8) [OF inert_globals]])
      (auto simp: wp_return intro!: dirs good(2) [OF that] split: res.split)
  have key: "wp (?key conf) ?Q s" if "good conf s" for conf s
    unfolding wp_or_panic [of "readKeyStore H E conf password"]
    by (rule wp_readKeyStore) (use that in \<open>auto simp: is_ok_cases wp_bind wp_update keyed_def good_def globals_def intro!: pod [of conf]\<close>)
  have save: "wp (or_panic (saveBasicFile E conf) (\<lambda>_. ?key conf)) ?Q s" if "good conf s" for conf s
    unfolding wp_or_panic [of "saveBasicFile E conf"]
    by (rule wp_globals [OF keeps_settings(3) [OF inert_globals]]) (auto intro!: key good(1) [OF that] split: res.split)
  show ?thesis
    unfolding start_node_def wp_or_panic [of "readBasicFile E basic"]
    by (rule wp_mono [OF wp_readBasicFile_complete])
      (auto simp: wp_bind wp_update initMap_def good_def intro!: save split: res.split)
qed

text \<open>
  C21. A node that starts is ready: \<open>start\<close> ends by a panic, or it has put together a complete
  configuration, opened the account's key, connected with this key, and no amount set, to the
  contract of the configuration, loaded the parameters, opened the database, made the paths of all
  directories of the two parties exist (a file of that name counts, as the code asks only whether the
  path exists) and emptied the maps of transactions and of locked deposits.
\<close>

theorem node_starts_ready:
  "wp (start_node H E basic password) (\<lambda>r s. r = Panic \<or> r = Ok () \<and> linked E s \<and> laid_out (BConf s) (fs s) \<and>
     AliceTxMap s = (\<lambda>_. None) \<and> BobTxMap s = (\<lambda>_. None) \<and> DepositLockMap s = (\<lambda>_. 0) \<and> AuthValue s = 0) s"
  by (rule start_ready)

text \<open>A host on which everything works, and a disk with a key store and the parameters.\<close>

definition sample_host :: host where
  "sample_host = \<lparr>DecryptKey = (\<lambda>bs pw. Ok \<lparr>key_Address = bs, key_PrivateKey = bytes_of_string pw\<rparr>),
     HexToECDSA = (\<lambda>s. Ok (bytes_of_string s)), HostTime = (\<lambda>_. ''now''), HostCall = (\<lambda>_. Ok ()),
     NewAccount = (\<lambda>_ F. (Ok (), F)), ReadDir = (\<lambda>_ _. Ok []), Load = (\<lambda>_. True),
     ListenTCP = (\<lambda>_. Ok ''127.0.0.1:8888''), AcceptTCP = (\<lambda>_. Ok sample_conn)\<rparr>"

definition sample_disk :: filesys where
  "sample_disk = [''./keystore'' \<mapsto> File [7], ''./zkPodParam'' \<mapsto> Dir, ''./zkPodParam/zksnark_key'' \<mapsto> Dir,
     ''./zkPodParam/zksnark_key/atomic_swap_vc.pk'' \<mapsto> File [], ''./zkPodParam/zksnark_key/atomic_swap_vc.vk'' \<mapsto> File []]"

definition sample_start :: node_st where
  "sample_start = world.extend (sample_world\<lparr>fs := sample_disk\<rparr>)
     (node_st.fields zero_BasicConfig None False False None None False)"

lemma sample_starts: "fst (run_state (start_node sample_host sample_ext zero_BasicConfig ''pw'') sample_start) = Ok ()"
  by (simp add: start_node_def or_panic_def readBasicFile_def saveBasicFile_def saveBasicConfig_def readKeyStore_def
      initKeyStore_def ConnectToProvider_def host_call_def preparePOD_def initDir_def make_dir_def connectSQLite_def initMap_def
      pathExists_def ReadFile_def WriteFile_def WriteOpened_def Mkdir_def set_fs_def run ask_def Let_def
      sample_start_def sample_host_def sample_disk_def sample_world_def sample_ext_def world.defs node_st.defs
      with_defaults_def unless_empty_def zero_BasicConfig_def default_defs DEFAULT_BASIC_CONFGI_FILE_def)

theorem node_starts_ready_witness:
  "\<exists>s. run_state (start_node sample_host sample_ext zero_BasicConfig ''pw'') sample_start = (Ok (), s) \<and> linked sample_ext s"
proof -
  obtain s where s: "run_state (start_node sample_host sample_ext zero_BasicConfig ''pw'') sample_start = (Ok (), s)"
    using sample_starts by (metis prod.collapse)
  then show ?thesis using wpD [OF node_starts_ready s] by simp
qed

section \<open>Changing the settings of a running node\<close>

text \<open>
  What a reload may change: the address while the seller has not started, the key and the key
  store while neither party has.
\<close>

definition fixed :: "BasicConfig \<Rightarrow> _" where
  "fixed c = (InitKeyPath c, PublishBINPath c, ContractAddr c, BobDir c, AliceDir c, Port c)"

definition tuned :: "'a node_st_scheme \<Rightarrow> 'b node_st_scheme \<Rightarrow> bool" where
  "tuned s s' \<longleftrightarrow> AliceNodeStart s' = AliceNodeStart s \<and> BobNodeStart s' = BobNodeStart s \<and> DBConn s' = DBConn s \<and>
     AliceTxMap s' = AliceTxMap s \<and> BobTxMap s' = BobTxMap s \<and> DepositLockMap s' = DepositLockMap s \<and>
     fixed (BConf s') = fixed (BConf s) \<and> (AliceNodeStart s \<longrightarrow> NetIP (BConf s') = NetIP (BConf s)) \<and>
     (AliceNodeStart s \<or> BobNodeStart s \<longrightarrow> KeyStoreFile (BConf s') = KeyStoreFile (BConf s) \<and> ETHKey s' = ETHKey s \<and>
        GAdminAuth s' = GAdminAuth s \<and> ZkPoDExchangeClient s' = ZkPoDExchangeClient s) \<and>
     (AuthValue s = 0 \<longrightarrow> AuthValue s' = 0)"

definition kept :: "ext \<Rightarrow> 'a node_st_scheme \<Rightarrow> 'b node_st_scheme \<Rightarrow> bool" where
  "kept E s s' \<longleftrightarrow> tuned s s' \<and> (linked E s \<longrightarrow> linked E s')"

lemma kept_globals: "kept E s s1 \<Longrightarrow> globals s2 = globals s1 \<Longrightarrow> kept E s s2"
  unfolding kept_def tuned_def linked_def globals_def by simp

lemma kept_clog [simp]: "kept E s (s1\<lparr>clog := l\<rparr>) = kept E s s1"
  by (simp add: kept_def tuned_def linked_def)

lemma wp_cfg_detail: "wp (cfg_detail d) Q s = Q () (s\<lparr>clog := (clog s)\<lparr>pl_Detail := d\<rparr>\<rparr>)"
  by (simp add: cfg_detail_def wps)

lemma wp_reload_ip: "wp (reload_ip ip) (\<lambda>_ s'. kept E s s') s"
  by (auto simp: reload_ip_def wp_cfg_detail wps) (auto simp: kept_def tuned_def linked_def complete_def fixed_def)

lemma wp_connect_kept:
  fixes s1 :: "'b node_st_scheme"
  assumes s: "kept E s s1" "\<not> AliceNodeStart s" "\<not> BobNodeStart s" "a = ContractAddr (BConf s1)"
    and "\<And>r t. r \<noteq> Ok () \<Longrightarrow> kept E s t \<Longrightarrow> Q r t"
    and "\<And>t. kept E s (t\<lparr>ETHKey := Some key\<rparr>) \<Longrightarrow>
      (\<And>ks. ks \<noteq> [] \<Longrightarrow> kept E s (t\<lparr>ETHKey := Some key, BConf := (BConf t)\<lparr>KeyStoreFile := ks\<rparr>\<rparr>)) \<Longrightarrow> Q (Ok ()) t"
  shows "wp (ConnectToProvider H E key a) Q s1"
proof (rule wp_ConnectToProvider)
  fix t :: "'b node_st_scheme"
  assume "globals t = globals (s1\<lparr>GAdminAuth := Some (key_PrivateKey key), AuthValue := 0,
      ZkPoDExchangeClient := Some (HexToAddress E a)\<rparr>)"
  then have "kept E s (t\<lparr>ETHKey := Some key\<rparr>)" "ks \<noteq> [] \<Longrightarrow> kept E s (t\<lparr>ETHKey := Some key, BConf := (BConf t)\<lparr>KeyStoreFile := ks\<rparr>\<rparr>)" for ks
    using s by (auto simp: kept_def tuned_def linked_def complete_def globals_def fixed_def)
  then show "Q (Ok ()) t" using assms(6) by blast
qed (use assms(5) kept_globals [OF s(1)] in blast)

lemma wp_reload_key:
  assumes s: "kept E s s1" "\<not> AliceNodeStart s" "\<not> BobNodeStart s"
  shows "wp (reload_key H E r) (\<lambda>_ s'. kept E s s') s1"
proof -
  have kinit: "wp (initKeyStore H E p pw) Q s2" if "kept E s s2" "BConf s2 = BConf s1"
    "\<And>r t. kept E s t \<Longrightarrow> BConf t = BConf s1 \<Longrightarrow> Q r t" for p pw s2 and Q :: "Key res \<Rightarrow> cfg_st \<Rightarrow> bool"
    by (rule wp_globals [OF keeps_settings(5) [OF inert_globals]])
      (use that(2) in \<open>auto intro!: that(3) intro: kept_globals [OF that(1)] simp: globals_def\<close>)
  note con = wp_connect_kept [OF _ s(2,3)]
  show ?thesis
    unfolding reload_key_def Let_def set_key_def
    apply (simp add: wps wp_cfg_detail s(1) del: One_nat_def)
    apply (intro conjI impI)
     apply (auto simp: wps wp_cfg_detail s(1) intro!: con split: res.split)[1]
    apply (rule kinit)
      apply (auto simp: wps wp_cfg_detail s(1) intro!: con split: res.split)
    done
qed

lemma kept_refl: "kept E s s"
  by (simp add: kept_def tuned_def)

lemma kept_trans: "kept E s s1 \<Longrightarrow> kept E s1 s2 \<Longrightarrow> kept E s s2"
  unfolding kept_def tuned_def by (cases "AliceNodeStart s"; cases "BobNodeStart s") simp_all

definition tunes :: "ext \<Rightarrow> ('z node_st_scheme, 'a) state \<Rightarrow> bool" where
  "tunes E m \<longleftrightarrow> (\<forall>s. wp m (\<lambda>_ t. kept E s t) s)"

lemma tunesD: "tunes E m \<Longrightarrow> (\<And>r t. kept E s t \<Longrightarrow> Q r t) \<Longrightarrow> wp m Q s"
  unfolding tunes_def by (blast intro: wp_mono)

lemma tunes_frame: "keeps globals m \<Longrightarrow> tunes E m"
  unfolding tunes_def by (blast intro: wp_globals kept_globals kept_refl)

lemma tunes_bind: "tunes E m \<Longrightarrow> (\<And>x. tunes E (k x)) \<Longrightarrow> tunes E (State_Monad.bind m k)"
  unfolding tunes_def wp_bind by (blast intro: wp_mono kept_trans)

lemma tunes_check:
  fixes m :: "('z node_st_scheme, 'a res) state"
  assumes "tunes E m" "\<And>e. tunes E (h e)" "\<And>v. tunes E (k v)"
  shows "tunes E (check m h k)"
  unfolding tunes_def wp_check
proof
  fix s :: "'z node_st_scheme"
  have "wp m' (\<lambda>_ t'. kept E s t') t" if "kept E s t" "tunes E m'" for t m'
    using that by (blast intro: tunesD kept_trans)
  then show "wp m (\<lambda>r s'. case r of Ok v \<Rightarrow> wp (k v) (\<lambda>_ t. kept E s t) s' | Err e \<Rightarrow> wp (h e) (\<lambda>_ t. kept E s t) s'
      | Panic \<Rightarrow> kept E s s') s"
    using assms by (auto intro!: tunesD [OF assms(1)] split: res.split)
qed

lemma tunes_get_key:
  assumes "\<And>x. tunes E (k x)"
  shows "tunes E (do { s \<leftarrow> State_Monad.get;
    check (if \<not> AliceNodeStart s \<and> \<not> BobNodeStart s then reload_key H E r else ret (Ok None)) (\<lambda>e. ret (Err e)) k })"
proof -
  have "tunes E (do { s \<leftarrow> State_Monad.get; if \<not> AliceNodeStart s \<and> \<not> BobNodeStart s then reload_key H E r else ret (Ok None) })"
    unfolding tunes_def using wp_reload_key [OF kept_refl] by (simp add: wp_bind wp_get wp_return kept_refl)
  from tunes_check [OF this tunes_frame [OF keeps_ret] assms] show ?thesis
    by (simp add: check_def State_Monad.bind_def State_Monad.get_def)
qed

lemma tunes_option: "tunes E m \<Longrightarrow> (\<And>x. tunes E (k x)) \<Longrightarrow> tunes E (case p of None \<Rightarrow> m | Some x \<Rightarrow> k x)"
  by (cases p) simp_all

lemma tunes_body: "tunes E (reload_body H E r)"
  unfolding reload_body_def
proof (rule tunes_bind [OF _ tunes_get_key], goal_cases)
  case 1
  show ?case by (simp add: tunes_def wp_reload_ip)
next
  case (2 u early)
  show ?case by (intro tunes_bind tunes_option tunes_check) (auto intro!: tunes_frame frame inert_globals keeps_update simp: globals_def)
qed

lemma wp_ReLoad: "wp (ReLoadConfigAPIHandler H E r) (\<lambda>_ s'. kept E s s') s"
proof -
  let ?s = "node_st.extend s (cfg_st.fields \<lparr>pl_SessionId = [], pl_Operation = LOG_OPERATION_TYPE_CONFIG_SETTING,
         pl_Detail = [], pl_Result = LOG_RESULT_FAILED\<rparr>)"
  let ?log = "do { s \<leftarrow> State_Monad.get; insertLogToDB E (clog s); ret () }"
  have k: "kept E s t = kept E ?s t" "kept E s (node_st.truncate t) = kept E s t" for t :: cfg_st
    by (simp_all add: kept_def tuned_def linked_def node_st.defs cfg_st.defs)
  have "tunes E ?log"
    unfolding insertLogToDB_def by (intro tunes_frame frame inert_globals)
  then have "wp (deferring ?log (reload_body H E r)) (\<lambda>_ t. kept E ?s t) ?s"
    unfolding wp_deferring by (blast intro: tunesD [OF tunes_body] tunesD kept_trans)
  then have "kept E s (node_st.truncate (snd (run_state (deferring ?log (reload_body H E r)) ?s)))"
    unfolding k by (simp add: wp_def split: prod.splits)
  then show ?thesis by (auto simp: wp_def ReLoadConfigAPIHandler_def kept_refl split: prod.splits)
qed

end
