(* ===== verification/Commands.thy ===== *)
theory Commands
  imports Settings
begin

text \<open>
  The command line client: \<^verbatim>\<open>cmd.go\<close>, \<open>sendRequest\<close> of \<^verbatim>\<open>p2p.go\<close>, and \<open>HandleCmdReq\<close> and \<open>main\<close> of
  \<^verbatim>\<open>main.go\<close>. A command runs beside the node on the same machine, reads the same files, and talks to
  the node over HTTP; the HTTP client is a parameter. What a command prints is left out.
\<close>

section \<open>Requests\<close>

definition REQUEST_URL_LOCAL_HOST :: string where "REQUEST_URL_LOCAL_HOST = ''http://localhost''"
definition REQUEST_METHOD_POST :: string where "REQUEST_METHOD_POST = ''POST''"
definition OPERATION_START :: string where "OPERATION_START = ''start''"
definition OPERATION_ALICE_INITDATA :: string where "OPERATION_ALICE_INITDATA = ''initdata''"
definition OPERATION_ALICE_PUBLISH :: string where "OPERATION_ALICE_PUBLISH = ''publish''"
definition OPERATION_ALICE_CLOSE :: string where "OPERATION_ALICE_CLOSE = ''close''"
definition OPERATION_WITHDRAW :: string where "OPERATION_WITHDRAW = ''withdraw''"
definition OPERATION_BOB_PURCHASE :: string where "OPERATION_BOB_PURCHASE = ''purchase''"
definition OPERATION_BOB_DEPOSIT :: string where "OPERATION_BOB_DEPOSIT = ''deposit''"
definition OPERATION_BOB_UNDEPOSIT :: string where "OPERATION_BOB_UNDEPOSIT = ''undeposit''"

lemmas operation_defs = OPERATION_START_def OPERATION_ALICE_INITDATA_def OPERATION_ALICE_PUBLISH_def
  OPERATION_ALICE_CLOSE_def OPERATION_WITHDRAW_def OPERATION_BOB_PURCHASE_def OPERATION_BOB_DEPOSIT_def
  OPERATION_BOB_UNDEPOSIT_def

text \<open>\<open>url.Values\<close>, in the order of the calls of \<open>Add\<close>.\<close>

type_synonym form = "(string \<times> string) list"

text \<open>
  \<open>PostForm\<close> and \<open>DoRequest\<close> (\<open>http.NewRequest\<close> and \<open>client.Do\<close>): the inner result is that of
  reading the body of the response, the outer one that of the connection.
\<close>

record 's http =
  PostForm :: "string \<Rightarrow> form \<Rightarrow> ('s, string res res) state"
  DoRequest :: "string \<Rightarrow> string \<Rightarrow> form \<Rightarrow> ('s, string res res res) state"

definition read_body :: "string res \<Rightarrow> string res" where
  "read_body r = (case r of Err _ \<Rightarrow> Err ''read response error'' | _ \<Rightarrow> r)"

definition sendRequest :: "'s http \<Rightarrow> form \<Rightarrow> string \<Rightarrow> string \<Rightarrow> ('s, string res) state" where
  "sendRequest P body method url =
     (if method = REQUEST_METHOD_POST
      then check (PostForm P url body) (\<lambda>_. ret (Err ''connection error'')) (\<lambda>resp. ret (read_body resp))
      else check (DoRequest P method url body) (\<lambda>_. ret (Err ''create http request error''))
        (\<lambda>conn. case conn of
           Ok resp \<Rightarrow> ret (read_body resp)
         | Err _ \<Rightarrow> ret (Err ''connection error'')
         | Panic \<Rightarrow> ret Panic))"

section \<open>The commands\<close>

definition marshal_RequestData :: "RequestData \<Rightarrow> string" where
  "marshal_RequestData d = CHR ''{'' # enc_members [
     (''merkle_root'', enc_string (rd_MerkleRoot d)),
     (''Alice_ip'', enc_string (rd_AliceIP d)),
     (''Alice_addr'', enc_string (rd_AliceAddr d)),
     (''pub_path'', enc_string (rd_PubPath d)),
     (''bulletin_file'', enc_string (rd_BulletinFile d)),
     (''sub_mode'', enc_string (rd_SubMode d)),
     (''ot'', enc_bool (rd_OT d)),
     (''demands'', enc_slice enc_Demand (rq_Demands d)),
     (''phantoms'', enc_slice enc_Phantom (rq_Phantoms d)),
     (''key_name'', enc_string (rq_KeyName d)),
     (''key_value'', enc_slice enc_string (rq_KeyValue d)),
     (''phantom_key_value'', enc_slice enc_string (rq_PhantomKeyValue d)),
     (''unit_price'', enc_int64 (rd_UnitPrice d))] @ ''}''"

text \<open>Every command posts a form to a path of the local node, and panics if that fails.\<close>

definition local_url :: "BasicConfig \<Rightarrow> string \<Rightarrow> string" where
  "local_url B path = REQUEST_URL_LOCAL_HOST @ '':'' @ Port B @ path"

definition post :: "'s http \<Rightarrow> BasicConfig \<Rightarrow> string \<Rightarrow> form \<Rightarrow> ('s, unit res) state" where
  "post P B path body =
     or_panic (sendRequest P body REQUEST_METHOD_POST (local_url B path)) (\<lambda>_. ret (Ok ()))"

definition BobPurchaseData :: "'s http \<Rightarrow> BasicConfig \<Rightarrow> RequestData \<Rightarrow> ('s, unit res) state" where
  "BobPurchaseData P B requestData = post P B ''/b/purchase'' [(''request_data'', marshal_RequestData requestData)]"

definition BobDepositETH :: "'s http \<Rightarrow> BasicConfig \<Rightarrow> string \<Rightarrow> string \<Rightarrow> ('s, unit res) state" where
  "BobDepositETH P B val aliceAddress = post P B ''/b/deposit'' [(''value'', val), (''address'', aliceAddress)]"

definition BobUnDepositETH :: "'s http \<Rightarrow> BasicConfig \<Rightarrow> string \<Rightarrow> ('s, unit res) state" where
  "BobUnDepositETH P B aliceAddress = post P B ''/b/undeposit'' [(''address'', aliceAddress)]"

definition BobWithdrawETH :: "'s http \<Rightarrow> BasicConfig \<Rightarrow> string \<Rightarrow> ('s, unit res) state" where
  "BobWithdrawETH P B aliceAddress = post P B ''/b/withdraw'' [(''address'', aliceAddress)]"

definition AliceInitDataNode :: "ext \<Rightarrow> ('z world_scheme) http \<Rightarrow> BasicConfig \<Rightarrow> string \<Rightarrow> ('z world_scheme, unit res) state" where
  "AliceInitDataNode E P B filepath =
     or_panic (ReadFile E filepath) (\<lambda>data. post P B ''/s/publish/init'' [(''request_data'', string_of_bytes data)])"

definition AlicePublishData :: "'s http \<Rightarrow> BasicConfig \<Rightarrow> string \<Rightarrow> string \<Rightarrow> ('s, unit res) state" where
  "AlicePublishData P B merkleRoot val = post P B ''/s/publish'' [(''merkleRoot'', merkleRoot), (''value'', val)]"

definition AliceCloseData :: "'s http \<Rightarrow> BasicConfig \<Rightarrow> string \<Rightarrow> ('s, unit res) state" where
  "AliceCloseData P B merkleRoot = post P B ''/s/close'' [(''merkle_root'', merkleRoot)]"

definition AliceWithdrawETHForData :: "'s http \<Rightarrow> BasicConfig \<Rightarrow> string \<Rightarrow> ('s, unit res) state" where
  "AliceWithdrawETHForData P B merkle_root = post P B ''/s/withdraw/data'' [(''merkle_root'', merkle_root)]"

definition AliceWithdrawETHForTx :: "'s http \<Rightarrow> BasicConfig \<Rightarrow> string \<Rightarrow> ('s, unit res) state" where
  "AliceWithdrawETHForTx P B sessionID = post P B ''/s/withdraw/tx'' [(''session_id'', sessionID)]"

definition readRequestData :: "ext \<Rightarrow> string \<Rightarrow> ('z world_scheme, RequestData res) state" where
  "readRequestData E path =
     (let configFile = unless_empty path DEFAULT_CONFIG_FILE in
      check (pathExists E configFile) (\<lambda>_. ret (Err ''failed to read config file.'')) (\<lambda>rs.
      if \<not> rs then ret (Err ''the config file does not exist.'') else
      check (ReadFile E configFile) (\<lambda>_. ret (Err ''failed to read config file.'')) (\<lambda>conf.
      check (ret (Unmarshal RequestData_fields conf zero_RequestData)) (\<lambda>_. ret (Err ''failed to parse config file.''))
        (\<lambda>requestData. ret (Ok requestData)))))"

section \<open>Dispatch\<close>

text \<open>\<open>Config\<close> of \<^verbatim>\<open>init.go\<close>; its field \<open>RequestData\<close> is never used.\<close>

record Config =
  Operation :: string
  Password :: string
  AliceAddress :: string
  cfg_BasicConfig :: BasicConfig
  PurchaseConfigPath :: string
  InitPublishConfigPath :: string
  cfg_MerkleRoot :: string
  ETHValue :: string
  cfg_SessionID :: string

definition HandleCmdReq :: "ext \<Rightarrow> ('z world_scheme) http \<Rightarrow> BasicConfig \<Rightarrow> Config \<Rightarrow> ('z world_scheme, unit res) state" where
  "HandleCmdReq E P B config =
     (if Operation config = OPERATION_ALICE_INITDATA then
        if InitPublishConfigPath config = [] then ret Panic
        else AliceInitDataNode E P B (InitPublishConfigPath config)
      else if Operation config = OPERATION_ALICE_PUBLISH then
        if cfg_MerkleRoot config = [] then ret Panic
        else AlicePublishData P B (cfg_MerkleRoot config) (ETHValue config)
      else if Operation config = OPERATION_ALICE_CLOSE then
        if cfg_MerkleRoot config = [] then ret Panic else AliceCloseData P B (cfg_MerkleRoot config)
      else if Operation config = OPERATION_WITHDRAW then
        if cfg_MerkleRoot config \<noteq> [] then AliceWithdrawETHForData P B (cfg_MerkleRoot config)
        else if cfg_SessionID config \<noteq> [] then AliceWithdrawETHForTx P B (cfg_SessionID config)
        else if AliceAddress config \<noteq> [] then BobWithdrawETH P B (AliceAddress config)
        else ret Panic
      else if Operation config = OPERATION_BOB_PURCHASE then
        if PurchaseConfigPath config = [] then ret Panic
        else or_panic (readRequestData E (PurchaseConfigPath config)) (BobPurchaseData P B)
      else if Operation config = OPERATION_BOB_DEPOSIT then
        if AliceAddress config = [] \<or> ETHValue config = [] then ret Panic
        else BobDepositETH P B (ETHValue config) (AliceAddress config)
      else if Operation config = OPERATION_BOB_UNDEPOSIT then
        if AliceAddress config = [] then ret Panic else BobUnDepositETH P B (AliceAddress config)
      else ret Panic)"

text \<open>
  \<open>initCli\<close>: the flags as the flag package parsed them, \<open>None\<close> for one that was not given. The defaults
  are empty texts but for the operation and the amount.
\<close>

definition initCli :: "(string \<Rightarrow> string option) \<Rightarrow> Config" where
  "initCli flags = (let flag = (\<lambda>name dflt. case flags name of None \<Rightarrow> dflt | Some v \<Rightarrow> v) in
     \<lparr>Operation = flag ''o'' OPERATION_START,
      Password = flag ''pass'' [],
      AliceAddress = flag ''addr'' [],
      cfg_BasicConfig = zero_BasicConfig\<lparr>NetIP := flag ''ip'' [], Port := flag ''port'' [], KeyStoreFile := flag ''k'' []\<rparr>,
      PurchaseConfigPath = flag ''c'' [],
      InitPublishConfigPath = flag ''init'' [],
      cfg_MerkleRoot = flag ''mkl'' [],
      ETHValue = flag ''eth'' ''0'',
      cfg_SessionID = flag ''sid'' []\<rparr>)"

text \<open>\<open>main\<close>, up to \<open>SetupPOD\<close>. A start reads the configuration in \<open>start_node\<close>.\<close>

definition main :: "host \<Rightarrow> ext \<Rightarrow> node_st http \<Rightarrow> (string \<Rightarrow> string option) \<Rightarrow> (node_st, unit res) state" where
  "main H E P flags =
     (let config = initCli flags in
      if Operation config = OPERATION_START then start_node H E (cfg_BasicConfig config) (Password config)
      else or_panic (readBasicFile E (cfg_BasicConfig config)) (\<lambda>conf. do {
        State_Monad.update (BConf_update (\<lambda>_. conf));
        HandleCmdReq E P conf config }))"

section \<open>A request is written and read\<close>

definition request_ascii :: "RequestData \<Rightarrow> bool" where
  "request_ascii d \<longleftrightarrow> ascii (rd_MerkleRoot d) \<and> ascii (rd_AliceIP d) \<and> ascii (rd_AliceAddr d) \<and> ascii (rd_PubPath d) \<and>
     ascii (rd_BulletinFile d) \<and> ascii (rd_SubMode d) \<and> ascii (rq_KeyName d) \<and>
     (\<forall>s \<in> set (elems (rq_KeyValue d)). ascii s) \<and> (\<forall>s \<in> set (elems (rq_PhantomKeyValue d)). ascii s)"

lemma request_json:
  assumes "request_ascii d"
  shows "Unmarshal RequestData_fields (bytes_of_string (marshal_RequestData d)) d0 = Ok d"
proof -
  let ?ms = "[(''merkle_root'', enc_string (rd_MerkleRoot d), JStr (rd_MerkleRoot d)),
     (''Alice_ip'', enc_string (rd_AliceIP d), JStr (rd_AliceIP d)),
     (''Alice_addr'', enc_string (rd_AliceAddr d), JStr (rd_AliceAddr d)),
     (''pub_path'', enc_string (rd_PubPath d), JStr (rd_PubPath d)),
     (''bulletin_file'', enc_string (rd_BulletinFile d), JStr (rd_BulletinFile d)),
     (''sub_mode'', enc_string (rd_SubMode d), JStr (rd_SubMode d)),
     (''ot'', enc_bool (rd_OT d), JBool (rd_OT d)),
     (''demands'', enc_slice enc_Demand (rq_Demands d), slice_json demand_json (rq_Demands d)),
     (''phantoms'', enc_slice enc_Phantom (rq_Phantoms d), slice_json phantom_json (rq_Phantoms d)),
     (''key_name'', enc_string (rq_KeyName d), JStr (rq_KeyName d)),
     (''key_value'', enc_slice enc_string (rq_KeyValue d), slice_json JStr (rq_KeyValue d)),
     (''phantom_key_value'', enc_slice enc_string (rq_PhantomKeyValue d), slice_json JStr (rq_PhantomKeyValue d)),
     (''unit_price'', enc_int64 (rd_UnitPrice d), JNum (enc_int64 (rd_UnitPrice d)))]"
  have "\<forall>(k, s, v) \<in> set ?ms. ascii k \<and> denotes s v"
    using assms by (simp add: request_ascii_def denotes_scalars denotes_slice denotes_ranges) (simp add: ascii_def)
  from Unmarshal_denotes [OF this, of RequestData_fields d0]
  have "Unmarshal RequestData_fields (bytes_of_string (marshal_RequestData d)) d0 =
      dec_members RequestData_fields (map (\<lambda>(k, s, v). (k, v)) ?ms) d0"
    by (simp add: marshal_RequestData_def enc_struct_def)
  also have "\<dots> = Ok d"
    by (simp add: RequestData_fields_def find_field_def field_def dec_gslice_json dec_ranges)
  finally show ?thesis .
qed

section \<open>The node at the other end\<close>

text \<open>
  A form arrives as its values, without a file. The server of \<open>net/http\<close> answers 404 for a path
  without a handler, and closes the connection when a handler panics.
\<close>

definition form_request :: "form \<Rightarrow> http_request" where
  "form_request body = \<lparr>FormValue = (\<lambda>k. case map_of body k of Some v \<Rightarrow> v | None \<Rightarrow> []),
     FormFile = Err ''request Content-Type isn't multipart/form-data''\<rparr>"

definition respond :: "('s, string res) state \<Rightarrow> ('s, string res res) state" where
  "respond h = State (\<lambda>s. case run_state h s of (Ok text, s') \<Rightarrow> (Ok (Ok text), s') | (_, s') \<Rightarrow> (Err ''EOF'', s'))"

definition local_node :: "ext \<Rightarrow> BasicConfig \<Rightarrow> enc_handshake \<Rightarrow> bytes \<Rightarrow> Key \<Rightarrow> world http" where
  "local_node E B doEnc random key = \<lparr>
     PostForm = (\<lambda>url body.
       let n = length (local_url B []) in
       if take n url = local_url B [] then
         (case serve E B doEnc random key (drop n url) (form_request body) of
            Some h \<Rightarrow> respond h
          | None \<Rightarrow> ret (Ok (Ok ''404 page not found'')))
       else ret (Err ''connection refused'')),
     DoRequest = (\<lambda>_ _ _. ret (Ok (Err ''connection refused'')))\<rparr>"

text \<open>A command that makes the node run a handler: it panics if the handler did not answer.\<close>

definition relay :: "('s, string res) state \<Rightarrow> ('s, unit res) state" where
  "relay h = State (\<lambda>s. case run_state h s of (Ok _, s') \<Rightarrow> (Ok (), s') | (_, s') \<Rightarrow> (Panic, s'))"

lemma post_local:
  assumes "Port B' = Port B" "serve E B doEnc random key path (form_request body) = Some h"
  shows "post (local_node E B doEnc random key) B' path body = relay h"
proof -
  have "local_url B' path = local_url B [] @ path" using assms(1) by (simp add: local_url_def)
  then have "PostForm (local_node E B doEnc random key) (local_url B' path) body = respond h"
    using assms(2) by (simp add: local_node_def Let_def)
  then show ?thesis
    by (simp add: post_def or_panic_def sendRequest_def relay_def respond_def check_def read_body_def fun_eq_iff
        State_Monad.return_def split: prod.splits res.splits)
qed

lemma form_request_simps [simp]:
  "FormValue (form_request ((k, v) # b)) k' = (if k' = k then v else FormValue (form_request b) k')"
  by (simp add: form_request_def)

lemma serve_simps:
  "serve E B d rn key ''/s/publish/init'' r = Some (InitPublishDataAPIHandler E B r)"
  "serve E B d rn key ''/s/publish'' r = Some (PublishDataAPIHandler E B r)"
  "serve E B d rn key ''/s/close'' r = Some (CloseDataAPIHandler E B r)"
  "serve E B d rn key ''/s/withdraw/data'' r = Some (AliceWithdrawFromDataAPIHandler E B r)"
  "serve E B d rn key ''/s/withdraw/tx'' r = Some (AliceWithdrawFromTxAPIHandler E r)"
  "serve E B d rn key ''/b/purchase'' r = Some (BobPurchaseDataAPIHandler E B d rn key r)"
  "serve E B d rn key ''/b/deposit'' r = Some (BobDepositETHAPIHandler E r)"
  "serve E B d rn key ''/b/undeposit'' r = Some (BobUnDepositETHAPIHandler E r)"
  "serve E B d rn key ''/b/withdraw'' r = Some (BobWithdrawETHAPIHandler E r)"
  by (simp_all add: serve_def)

lemmas api_handler_defs = PublishDataAPIHandler_def CloseDataAPIHandler_def
  AliceWithdrawFromDataAPIHandler_def AliceWithdrawFromTxAPIHandler_def BobDepositETHAPIHandler_def
  BobUnDepositETHAPIHandler_def BobWithdrawETHAPIHandler_def

lemmas command_defs = BobDepositETH_def BobUnDepositETH_def BobWithdrawETH_def AlicePublishData_def AliceCloseData_def
  AliceWithdrawETHForData_def AliceWithdrawETHForTx_def

lemma run_or_panic: "run_state m w = (Ok v, w1) \<Longrightarrow> run_state (or_panic m k) w = run_state (k v) w1"
  by (simp add: or_panic_def run)

lemma purchase_request:
  assumes "Unmarshal RequestData_fields (bytes_of_string (FormValue r ''request_data'')) zero_RequestData = Ok d"
    and "Unmarshal RequestData_fields (bytes_of_string (FormValue r' ''request_data'')) zero_RequestData = Ok d"
  shows "BobPurchaseDataAPIHandler E B doEnc random key r = BobPurchaseDataAPIHandler E B doEnc random key r'"
  unfolding BobPurchaseDataAPIHandler_def assms ..

lemma offer_request:
  assumes "FormValue r ''request_data'' = FormValue r' ''request_data''" "FormFile r = FormFile r'"
  shows "InitPublishDataAPIHandler E B r = InitPublishDataAPIHandler E B r'"
proof -
  have "uploaded_file E r = (uploaded_file E r' :: _ \<Rightarrow> (api_st, _) state)"
    using assms(2) by (simp add: uploaded_file_def fun_eq_iff)
  with assms(1) show ?thesis unfolding InitPublishDataAPIHandler_def by metis
qed

text \<open>
  C22. A command makes the node do what was asked for on the command line: with the node listening
  on the configured port, each operation runs exactly the handler meant for it, and the handler
  finds the values of the command line under the names it looks them up with, whatever else the
  request holds; a purchase is handled with exactly the request in the command's file, if its texts
  are ASCII. The command panics if and only if the handler did not answer.
\<close>

theorem commands_reach_handlers:
  assumes "P = local_node E B doEnc random key" and "Port B' = Port B"
  shows "(Operation c = OPERATION_ALICE_INITDATA \<and> InitPublishConfigPath c \<noteq> [] \<and>
      run_state (ReadFile E (InitPublishConfigPath c)) w = (Ok text, w1) \<and>
      FormValue r ''request_data'' = string_of_bytes text \<and> FormFile r = FormFile (form_request []) \<longrightarrow>
      run_state (HandleCmdReq E P B' c) w = run_state (relay (InitPublishDataAPIHandler E B r)) w1) \<and>
    (Operation c = OPERATION_ALICE_PUBLISH \<and> cfg_MerkleRoot c \<noteq> [] \<and>
      FormValue r ''merkleRoot'' = cfg_MerkleRoot c \<and> FormValue r ''value'' = ETHValue c \<longrightarrow>
      HandleCmdReq E P B' c = relay (PublishDataAPIHandler E B r)) \<and>
    (Operation c = OPERATION_ALICE_CLOSE \<and> cfg_MerkleRoot c \<noteq> [] \<and> FormValue r ''merkle_root'' = cfg_MerkleRoot c \<longrightarrow>
      HandleCmdReq E P B' c = relay (CloseDataAPIHandler E B r)) \<and>
    (Operation c = OPERATION_WITHDRAW \<and> cfg_MerkleRoot c \<noteq> [] \<and> FormValue r ''merkle_root'' = cfg_MerkleRoot c \<longrightarrow>
      HandleCmdReq E P B' c = relay (AliceWithdrawFromDataAPIHandler E B r)) \<and>
    (Operation c = OPERATION_WITHDRAW \<and> cfg_MerkleRoot c = [] \<and> cfg_SessionID c \<noteq> [] \<and>
      FormValue r ''session_id'' = cfg_SessionID c \<longrightarrow>
      HandleCmdReq E P B' c = relay (AliceWithdrawFromTxAPIHandler E r)) \<and>
    (Operation c = OPERATION_WITHDRAW \<and> cfg_MerkleRoot c = [] \<and> cfg_SessionID c = [] \<and> AliceAddress c \<noteq> [] \<and>
      FormValue r ''address'' = AliceAddress c \<longrightarrow>
      HandleCmdReq E P B' c = relay (BobWithdrawETHAPIHandler E r)) \<and>
    (Operation c = OPERATION_BOB_PURCHASE \<and> PurchaseConfigPath c \<noteq> [] \<and>
      run_state (readRequestData E (PurchaseConfigPath c)) w = (Ok d, w1) \<and> request_ascii d \<and>
      Unmarshal RequestData_fields (bytes_of_string (FormValue r ''request_data'')) zero_RequestData = Ok d \<longrightarrow>
      run_state (HandleCmdReq E P B' c) w = run_state (relay (BobPurchaseDataAPIHandler E B doEnc random key r)) w1) \<and>
    (Operation c = OPERATION_BOB_DEPOSIT \<and> AliceAddress c \<noteq> [] \<and> ETHValue c \<noteq> [] \<and>
      FormValue r ''value'' = ETHValue c \<and> FormValue r ''address'' = AliceAddress c \<longrightarrow>
      HandleCmdReq E P B' c = relay (BobDepositETHAPIHandler E r)) \<and>
    (Operation c = OPERATION_BOB_UNDEPOSIT \<and> AliceAddress c \<noteq> [] \<and> FormValue r ''address'' = AliceAddress c \<longrightarrow>
      HandleCmdReq E P B' c = relay (BobUnDepositETHAPIHandler E r))"
proof -
  note post = post_local [OF assms(2) serve_simps(1)] post_local [OF assms(2) serve_simps(2)]
    post_local [OF assms(2) serve_simps(3)] post_local [OF assms(2) serve_simps(4)] post_local [OF assms(2) serve_simps(5)]
    post_local [OF assms(2) serve_simps(6)] post_local [OF assms(2) serve_simps(7)] post_local [OF assms(2) serve_simps(8)]
    post_local [OF assms(2) serve_simps(9)]
  have buy: "BobPurchaseDataAPIHandler E B doEnc random key (form_request [(''request_data'', marshal_RequestData d)]) =
      BobPurchaseDataAPIHandler E B doEnc random key r"
    if "request_ascii d" "Unmarshal RequestData_fields (bytes_of_string (FormValue r ''request_data'')) zero_RequestData = Ok d"
    by (rule purchase_request) (use that request_json in simp_all)
  have offer: "InitPublishDataAPIHandler E B (form_request [(''request_data'', string_of_bytes text)]) = InitPublishDataAPIHandler E B r"
    if "FormValue r ''request_data'' = string_of_bytes text" "FormFile r = FormFile (form_request [])"
    by (rule offer_request) (use that in \<open>simp_all add: form_request_def\<close>)
  show ?thesis
    unfolding assms(1) HandleCmdReq_def command_defs AliceInitDataNode_def BobPurchaseData_def post
    by (intro conjI impI; elim conjE) (simp_all add: operation_defs run_or_panic offer buy api_handler_defs)
qed

text \<open>The command \<open>undeposit\<close> with a seller's address.\<close>

definition sample_config :: Config where
  "sample_config = \<lparr>Operation = OPERATION_BOB_UNDEPOSIT, Password = [], AliceAddress = ''0x1f'', cfg_BasicConfig = sample_dirs,
     PurchaseConfigPath = [], InitPublishConfigPath = [], cfg_MerkleRoot = [], ETHValue = [], cfg_SessionID = []\<rparr>"

theorem commands_reach_handlers_witness:
  "HandleCmdReq sample_ext (local_node sample_ext sample_dirs (\<lambda>_ _. ret (Err [])) [] sample_owner) sample_dirs sample_config =
   relay (BobUnDepositETHAPIHandler sample_ext (form_request [(''address'', ''0x1f'')]))"
  using commands_reach_handlers [of _ sample_ext sample_dirs "\<lambda>_ _. ret (Err [])" "[]" sample_owner sample_dirs sample_config,
      where r = "form_request [(''address'', ''0x1f'')]"]
  by (simp add: sample_config_def operation_defs)

end
