(* ===== verification/Listener.thy ===== *)
theory Listener
  imports Settings Service
begin

text \<open>
  The running node: \<open>SetupNode\<close> and \<open>SetupAPIServe\<close> of \<^verbatim>\<open>main.go\<close>, \<open>AliceStartNode\<close> of
  \<^verbatim>\<open>connection.go\<close> and the listening side of \<^verbatim>\<open>net/rlpx/transport.go\<close>. The node is a transition
  system: one transition is one iteration of a loop of \<open>SetupNode\<close>, an accepted connection handled
  to its end, or an HTTP request handled to its end. In the program the handlers run as goroutines;
  here they are taken one at a time, in any order.
\<close>

section \<open>Listening\<close>

definition NewAddr :: "ext \<Rightarrow> string \<Rightarrow> pubkey \<Rightarrow> ('z world_scheme, addr res) state" where
  "NewAddr E tcpAddrStr pub =
     check (ask (CResolve tcpAddrStr) (ResolveTCPAddr E)) (\<lambda>e. ret (Err e))
       (\<lambda>a. ret (Ok \<lparr>TCPAddr = a, EthAddr = PubkeyToAddress (Crypto E) pub\<rparr>))"

definition Listen :: "host \<Rightarrow> addr \<Rightarrow> ('z world_scheme, addr res) state" where
  "Listen H a =
     check (ask (CHost (HListen (TCPAddr a))) (ListenTCP H)) (\<lambda>_. ret (Err ''failed to listen on tcp address''))
       (\<lambda>own. ret (Ok \<lparr>TCPAddr = own, EthAddr = EthAddr a\<rparr>))"

definition Accept :: "host \<Rightarrow> addr \<Rightarrow> ('z world_scheme, connection res) state" where
  "Accept H l =
     check (ask (CHost HAccept) (AcceptTCP H)) (\<lambda>_. ret (Err ''failed to accept connection on local address''))
       (\<lambda>c. ret (Ok (c\<lparr>laddr := Some l\<rparr>)))"

text \<open>\<open>AliceStartNode\<close> up to its loop; the listener is the address it listens on.\<close>

definition open_listener :: "host \<Rightarrow> ext \<Rightarrow> string \<Rightarrow> Key \<Rightarrow> ('z node_st_scheme, addr res) state" where
  "open_listener H E aliceIPAddr key =
     check (NewAddr E aliceIPAddr (PublicKey (Crypto E) (key_PrivateKey key))) (\<lambda>_. ret (Err ''failed to start Alice's node'')) (\<lambda>a.
     check (Listen H a) (\<lambda>_. ret (Err ''failed to start Alice's node'')) (\<lambda>l. do {
     State_Monad.update (\<lambda>s. s\<lparr>AliceNodeStart := True\<rparr>);
     ret (Ok l) }))"

text \<open>A function of the node that knows nothing of the settings, with the maps and files shared.\<close>

definition on_world :: "(world, 'a) state \<Rightarrow> (node_st, 'a) state" where
  "on_world m = State (\<lambda>s. case run_state m (world.truncate s) of (r, w) \<Rightarrow>
     (r, world.extend w (node_st.fields (BConf s) (ETHKey s) (AliceNodeStart s) (BobNodeStart s) (GAdminAuth s)
       (ZkPoDExchangeClient s) (DBConn s))))"

text \<open>
  The body of the loop: what \<open>AliceAcceptTx\<close> returns is dropped, and a panic is recovered there.
  Closing the connection afterwards can only fail, which is logged.
\<close>

definition accept_one :: "host \<Rightarrow> ext \<Rightarrow> enc_handshake \<Rightarrow> addr \<Rightarrow> Key \<Rightarrow> (node_st, unit res) state" where
  "accept_one H E doEnc l key =
     check (Accept H l) (\<lambda>_. ret (Ok ())) (\<lambda>c. do {
     State_Monad.update (\<lambda>s. s\<lparr>nd := (nd s)\<lparr>conn := c\<rparr>\<rparr>);
     s \<leftarrow> State_Monad.get;
     on_world (AliceAcceptTx E (BConf s) doEnc (key_PrivateKey key) (AddressHex E (key_Address key)));
     ret (Ok ()) })"

section \<open>The loops of the node\<close>

text \<open>
  Where \<open>SetupNode\<close> is: in its first loop, in its second, or in the loop of \<open>AliceStartNode\<close>.
\<close>

datatype stage = Waiting | Offline | Listening addr Key

definition unconnected :: "'z node_st_scheme \<Rightarrow> bool" where
  "unconnected s \<longleftrightarrow> GAdminAuth s = None \<or> ZkPoDExchangeClient s = None"

fun SetupNode :: "host \<Rightarrow> ext \<Rightarrow> enc_handshake \<Rightarrow> stage \<Rightarrow> (node_st, stage res) state" where
  "SetupNode H E doEnc Waiting = do {
     s \<leftarrow> State_Monad.get;
     if unconnected s then do { ask CSleep (\<lambda>_. ()); ret (Ok Waiting) }
     else do { State_Monad.update (\<lambda>s. s\<lparr>BobNodeStart := True\<rparr>); ret (Ok Offline) } }"
| "SetupNode H E doEnc Offline = do {
     s \<leftarrow> State_Monad.get;
     if NetIP (BConf s) = [] \<or> unconnected s then do { ask CSleep (\<lambda>_. ()); ret (Ok Offline) }
     else (case ETHKey s of
        None \<Rightarrow> ret Panic
      | Some key \<Rightarrow> check (open_listener H E (NetIP (BConf s)) key)
          (\<lambda>_. do { State_Monad.update (\<lambda>s. s\<lparr>AliceNodeStart := False\<rparr>); ret (Ok Offline) })
          (\<lambda>l. ret (Ok (Listening l key)))) }"
| "SetupNode H E doEnc (Listening l key) =
     check (accept_one H E doEnc l key) (\<lambda>e. ret (Err e)) (\<lambda>_. ret (Ok (Listening l key)))"

text \<open>The routes of \<open>SetupAPIServe\<close>, those below \<^verbatim>\<open>/config\<close> included.\<close>

definition route :: "host \<Rightarrow> ext \<Rightarrow> enc_handshake \<Rightarrow> bytes \<Rightarrow> Key \<Rightarrow> BasicConfig \<Rightarrow> string \<Rightarrow> http_request \<Rightarrow>
    (node_st, string res) state option" where
  "route H E doEnc random key B path r =
     (if path = ''/config/read'' then Some ReadCfgAPIHandler
      else if path = ''/config/reload'' then Some (ReLoadConfigAPIHandler H E r)
      else map_option on_world (serve E B doEnc random key path r))"

inductive node_step :: "host \<Rightarrow> ext \<Rightarrow> enc_handshake \<Rightarrow> stage \<times> node_st \<Rightarrow> stage \<times> node_st \<Rightarrow> bool"
  for H E doEnc where
  loop: "run_state (SetupNode H E doEnc g) s = (Ok g', s') \<Longrightarrow> node_step H E doEnc (g, s) (g', s')"
| request: "ETHKey s = Some key \<Longrightarrow> route H E doEnc random key (BConf s) path r = Some handler \<Longrightarrow>
    run_state handler s = (res, s') \<Longrightarrow> node_step H E doEnc (g, s) (g, s')"

inductive_cases node_stepE: "node_step H E doEnc (g, s) (g', s')"

section \<open>Sales leave locks and amounts alone\<close>

lemma sale_keeps_value: "keeps AuthValue (AliceTxFor pkg E B t)"
proof -
  have s: "sealed AuthValue" by (simp add: sealed_def Sales.steady_def inert_def)
  have f: "keeps AuthValue (finish E)"
    unfolding finish_def by (intro frame keeps_update) (simp_all add: inert_def)
  have w: "keeps AuthValue m \<Longrightarrow> keeps AuthValue (with_tx t m)" for m
    by (rule keeps_with_tx [where f = AuthValue]) (simp_all add: world.defs alice_st.defs)
  show ?thesis
    by (cases pkg; simp only: AliceTxFor.simps handler_defs Let_def;
        intro w keeps_deferring f sealed_frame s steady_inert [OF sealed_steady [OF s]])
qed

lemma keeps_AliceAcceptTx:
  assumes "inert f" "\<And>w m. f (w\<lparr>AliceTxMap := m\<rparr>) = f w" "\<And>pkg t. keeps f (AliceTxFor pkg E B t)"
  shows "keeps f (AliceAcceptTx E B doEnc key a)"
proof -
  have "keeps f (run_sale E B pkg t)" for pkg t
    unfolding run_sale_def AliceNewSess_def by (intro frame assms)
  moreover have "keeps f (State_Monad.update (\<lambda>w. w\<lparr>AliceTxMap := m w\<rparr>))" for m
    by (intro keeps_update assms)
  ultimately show ?thesis
    unfolding AliceAcceptTx_def Let_def by (intro frame keeps_preAliceTxAndConn assms)
qed

lemma accept_keeps: "keeps (\<lambda>w. (DepositLockMap w, AuthValue w)) (AliceAcceptTx E B doEnc key a)"
  by (intro keeps_pair keeps_AliceAcceptTx handlers_release sale_keeps_value) (simp_all add: inert_def)

section \<open>So do purchases\<close>

text \<open>A component that a purchase does not change.\<close>

definition quiet :: "(bob_st \<Rightarrow> 'b) \<Rightarrow> bool" where
  "quiet f \<longleftrightarrow> inert f \<and> (\<forall>s t. f (s\<lparr>bcur := t\<rparr>) = f s) \<and> (\<forall>s M. f (s\<lparr>BobTxMap := M\<rparr>) = f s)"

lemma quiet_frame:
  assumes "quiet f"
  shows "inert f" "keeps f (set_bt g)" "keeps f bput_map" "keeps f (finish_purchase E)"
proof -
  show i: "inert f" using assms by (simp add: quiet_def)
  show "keeps f (set_bt g)" "keeps f bput_map"
    using assms by (simp_all add: set_bt_def bput_map_def keeps_update quiet_def)
  have "keeps f (State_Monad.update (\<lambda>s. s\<lparr>BobTxMap := g s\<rparr>))" for g
    using assms by (simp add: keeps_update quiet_def)
  then show "keeps f (finish_purchase E)"
    unfolding finish_purchase_def updateBobTxToDB_def by (intro frame i)
qed

lemma quiet_steps:
  assumes f: "quiet f" and k: "keeps f k"
  shows "keeps f (start_session E pkg (new_session E pkg lop fi fa) b k)"
    "keeps f (bob_negotiate E pkg dir k)"
    "keeps f (send_request E pkg dir n st1 st2 noted k)"
    "keeps f (receive_response E pkg dir n b k)"
    "(\<And>p. keeps f (rd p)) \<Longrightarrow> keeps f (send_receipt E dir n rd sg k)"
    "(\<And>x y z. keeps f (rs x y z)) \<Longrightarrow> (\<And>x y. keeps f (sv x y)) \<Longrightarrow> keeps f (fetch_secret dir n rs sv st1 st2 k)"
  unfolding purchase_step_defs bob_method_defs Let_def
  by (intro frame quiet_frame [OF f] k | assumption | simp)+

lemma quiet_ends:
  assumes f: "quiet f"
  shows "keeps f (complaint_end E pkg dir n early)" "keeps f (query_end E pkg dir n)"
    "keeps f (verify_secret (BobVerifySecret E pkg p) early (give_up b st n) (decrypt E pkg dir m))"
  unfolding purchase_step_defs bob_method_defs Let_def
  by (intro frame quiet_frame [OF f] | simp)+

lemma keeps_with_purchase:
  "keeps f m \<Longrightarrow> (\<And>w. f (world.extend w (bob_st.fields t)) = g w) \<Longrightarrow> (\<And>s. f s = g (world.truncate s)) \<Longrightarrow>
     keeps g (with_purchase t m)"
  by (auto simp: keeps_def with_purchase_def split: prod.splits) (metis snd_conv)

lemma purchase_keeps: "keeps (\<lambda>w. (DepositLockMap w, AuthValue w)) (BobTxFor pkg E B key t q bf pp)"
proof -
  let ?f = "\<lambda>s. (DepositLockMap s, AuthValue s)"
  have f: "quiet ?f" by (simp add: quiet_def inert_def)
  have w: "keeps ?f m \<Longrightarrow> keeps ?f (with_purchase t m)" for m t
    by (rule keeps_with_purchase [where f = ?f]) (simp_all add: world.defs bob_st.defs)
  show ?thesis
    by (cases pkg; simp only: BobTxFor.simps purchase_defs Let_def bob_session_defs;
        (intro w keeps_deferring quiet_frame [OF f] quiet_steps [OF f] quiet_ends [OF f] frame | simp)+)
qed

section \<open>And requests\<close>

text \<open>Started with no amount set, an operation leaves no amount set and the locks as they were.\<close>

abbreviation funds :: "'z world_scheme \<Rightarrow> (string \<Rightarrow> int64) \<times> int" where
  "funds s \<equiv> (DepositLockMap s, AuthValue s)"

definition settles :: "('z world_scheme, 'a) state \<Rightarrow> bool" where
  "settles m \<longleftrightarrow> (\<forall>L s. funds s = (L, 0) \<longrightarrow> wp m (\<lambda>_ s'. funds s' = (L, 0)) s)"

lemma inert_funds: "inert funds"
  by (simp add: inert_def)

lemma settlesD: "settles m \<Longrightarrow> funds s = (L, 0) \<Longrightarrow> wp m (\<lambda>_ s'. funds s' = (L, 0)) s"
  unfolding settles_def by blast

lemma settles_keeps:
  fixes m :: "('z world_scheme, 'a) state"
  assumes "keeps funds m"
  shows "settles m"
  unfolding settles_def
proof (intro allI impI)
  fix L and s :: "'z world_scheme"
  assume "funds s = (L, 0)"
  then show "wp m (\<lambda>_ s'. funds s' = (L, 0)) s" by (intro wp_keeps [OF assms]) simp
qed

lemma settles_bind:
  assumes "settles m" "\<And>x. settles (k x)"
  shows "settles (State_Monad.bind m k)"
  unfolding settles_def wp_bind using assms by (blast intro: wp_mono settlesD)

lemma settles_check:
  fixes m :: "('z world_scheme, 'a res) state"
  assumes "settles m" "\<And>e. settles (h e)" "\<And>v. settles (k v)"
  shows "settles (check m h k)"
  unfolding settles_def wp_check
proof (intro allI impI)
  fix L and s :: "'z world_scheme"
  assume "funds s = (L, 0)"
  then show "wp m (\<lambda>r s'. case r of Ok v \<Rightarrow> wp (k v) (\<lambda>_ s'. funds s' = (L, 0)) s' | Err e \<Rightarrow> wp (h e) (\<lambda>_ s'. funds s' = (L, 0)) s'
      | Panic \<Rightarrow> funds s' = (L, 0)) s"
    by (rule wp_mono [OF settlesD [OF assms(1)]]) (use settlesD [OF assms(2), where L = L] settlesD [OF assms(3), where L = L] in \<open>auto split: res.split\<close>)
qed

lemma settles_deferring: "settles d \<Longrightarrow> settles m \<Longrightarrow> settles (deferring d m)"
  unfolding settles_def [of "deferring d m"] wp_deferring by (blast intro: wp_mono settlesD)

lemma settles_or_answer: "settles m \<Longrightarrow> (\<And>v. settles (k v)) \<Longrightarrow> settles (or_answer m txt k)"
  unfolding or_answer_def by (rule settles_check) (auto intro: settles_keeps keeps_ret)

lemma settles_split: "settles m \<Longrightarrow> settles m' \<Longrightarrow> settles (if b then m else m')" "(\<And>x y. settles (k x y)) \<Longrightarrow> settles (case p of (x, y) \<Rightarrow> k x y)"
  "settles m \<Longrightarrow> (\<And>x. settles (k' x)) \<Longrightarrow> settles (case q of None \<Rightarrow> m | Some x \<Rightarrow> k' x)"
  by (simp_all split: prod.split option.split)

lemma settles_with_value: "keeps DepositLockMap m \<Longrightarrow> settles (with_value v m)"
  unfolding settles_def with_value_def set_value_def wps
  by (auto intro!: wp_keeps [where f = DepositLockMap and m = m])

lemma settles_log [simp]: "settles (detail d)" "settles (set_log f)" "settles (accept msg)"
  unfolding detail_def set_log_def accept_def by (auto intro!: settles_keeps frame keeps_update)

lemma settles_contract:
  "settles (publish_to_contract E b v)" "settles (BobDeposit E v a)"
  unfolding publish_to_contract_def publishPlainDataToContract_def publishTableDataToContract_def BobDeposit_def
    transact_def Let_def
  by (rule settles_split settles_with_value settles_check settles_keeps [OF keeps_ret] | intro frame | simp add: inert_def)+

lemma keeps_funds_calls [frame]:
  "keeps funds (BobUnDeposit E a)" "keeps funds (BobWithdrawETHFromContract E a)" "keeps funds (closeDataAtContract E blt)"
  "keeps funds (withdrawAETHFromContract E blt)" "keeps funds (uploaded_file E rq p)"
  unfolding BobUnDeposit_def BobWithdrawETHFromContract_def closeDataAtContract_def withdrawAETHFromContract_def
    uploaded_file_def
  by (intro frame inert_funds)+

lemma settles_logged:
  assumes "settles m"
  shows "settles (logged E op m)"
proof -
  have "settles (write_log E)"
    unfolding write_log_def insertLogToDB_def by (intro settles_keeps frame inert_funds)
  from settles_deferring [OF this assms] have m: "settles (deferring (write_log E) m)" .
  show ?thesis
    unfolding settles_def
  proof (intro allI impI)
    fix L and w :: world
    let ?s = "world.extend w (api_st.fields \<lparr>pl_SessionId = [], pl_Operation = op, pl_Detail = [], pl_Result = LOG_RESULT_FAILED\<rparr>)"
    assume "funds w = (L, 0)"
    then have "funds ?s = (L, 0)" by (simp add: world.defs)
    from settlesD [OF m this] show "wp (logged E op m) (\<lambda>_ w'. funds w' = (L, 0)) w"
      by (simp add: wp_def logged_def world.defs split: prod.splits)
  qed
qed

lemmas settles_rules = settles_logged settles_or_answer settles_split settles_log settles_contract
  settles_keeps [OF keeps_ret] settles_bind settles_keeps

lemma handlers_settle:
  "settles (InitPublishDataAPIHandler E B r)" "settles (PublishDataAPIHandler E B r)"
  "settles (CloseDataAPIHandler E B r)" "settles (AliceWithdrawFromDataAPIHandler E B r)"
  "settles (AliceWithdrawFromTxAPIHandler E r)" "settles (BobDepositETHAPIHandler E r)"
  "settles (BobUnDepositETHAPIHandler E r)" "settles (BobWithdrawETHAPIHandler E r)"
  unfolding InitPublishDataAPIHandler_def PublishDataAPIHandler_def CloseDataAPIHandler_def
    AliceWithdrawFromDataAPIHandler_def AliceWithdrawFromTxAPIHandler_def BobDepositETHAPIHandler_def
    BobUnDepositETHAPIHandler_def BobWithdrawETHAPIHandler_def Let_def
  by (rule settles_rules | intro frame inert_funds)+

lemma keeps_funds_conn [frame]: "keeps funds (preBobConn E B doEnc random params key)"
proof -
  have "keeps funds (State_Monad.update (\<lambda>s. s\<lparr>nd := n\<rparr>))" for n by (simp add: keeps_update)
  then show ?thesis
    unfolding preBobConn_def buyNewConn_def Dial_def BobCreateSess_def Let_def by (intro frame inert_funds)
qed

lemma keeps_in_world_funds:
  assumes "keeps funds m"
  shows "keeps funds (in_world m)"
proof (rule keepsI)
  fix s r s' assume "run_state (in_world m) s = (r, s')"
  then obtain w where "run_state m (world.truncate s) = (r, w)" "s' = world.extend w (api_st.fields (plog s))"
    by (auto simp: in_world_def split: prod.splits)
  with keepsD [OF assms this(1)] show "funds s' = funds s" by (simp add: world.defs)
qed

lemma purchase_settles: "settles (BobPurchaseDataAPIHandler E B doEnc random key r)"
proof -
  have "keeps funds (run_purchase E B key t d)" for t d
    unfolding run_purchase_def by (intro frame purchase_keeps)
  then have p: "keeps funds (in_world (run_purchase E B key t d))" for t d by (rule keeps_in_world_funds)
  have i: "keeps funds (insertBobTxToDB E t)" for t :: BobTransaction
    unfolding insertBobTxToDB_def by (intro frame inert_funds)
  have q: "settles (report_purchase x)" for x
    unfolding report_purchase_def by (rule settles_rules)+
  show ?thesis
    unfolding BobPurchaseDataAPIHandler_def Let_def
    by (rule settles_logged settles_or_answer settles_split settles_log settles_check settles_deferring q settles_keeps [OF p]
        settles_keeps [OF i] settles_keeps [OF keeps_ret] settles_bind settles_keeps | intro frame inert_funds)+
qed

lemma served_settles: "serve E B doEnc random key path r = Some handler \<Longrightarrow> settles handler"
  by (auto simp: serve_def handlers_settle purchase_settles split: if_splits)

section \<open>The invariant of a running node\<close>

text \<open>The seller is reached under the address of its own key.\<close>

definition own_addr :: "ext \<Rightarrow> Key \<Rightarrow> address" where
  "own_addr E key = PubkeyToAddress (Crypto E) (PublicKey (Crypto E) (key_PrivateKey key))"

definition node_inv :: "ext \<Rightarrow> stage \<Rightarrow> node_st \<Rightarrow> bool" where
  "node_inv E g s \<longleftrightarrow> linked E s \<and> funds s = (\<lambda>_. 0, 0) \<and> BobNodeStart s = (g \<noteq> Waiting) \<and>
     (case g of Listening l key \<Rightarrow> AliceNodeStart s \<and> ETHKey s = Some key \<and> EthAddr l = own_addr E key | _ \<Rightarrow> \<not> AliceNodeStart s)"

text \<open>What does not change any more once the buyer's or the seller's side has started.\<close>

definition frozen :: "stage \<times> node_st \<Rightarrow> stage \<times> node_st \<Rightarrow> bool" where
  "frozen = (\<lambda>(g, s) (g', s'). fixed (BConf s') = fixed (BConf s) \<and>
     (g \<noteq> Waiting \<longrightarrow> g' \<noteq> Waiting \<and> ETHKey s' = ETHKey s \<and> GAdminAuth s' = GAdminAuth s \<and> KeyStoreFile (BConf s') = KeyStoreFile (BConf s)) \<and>
     (\<forall>l key. g = Listening l key \<longrightarrow> g' = g \<and> NetIP (BConf s') = NetIP (BConf s)))"

definition settings :: "node_st \<Rightarrow> _" where
  "settings s = (BConf s, ETHKey s, AliceNodeStart s, BobNodeStart s, GAdminAuth s, ZkPoDExchangeClient s, DBConn s)"

lemma wp_on_world:
  assumes "wp m (\<lambda>r w. \<forall>s'. funds s' = funds w \<longrightarrow> settings s' = settings s \<longrightarrow> Q r s') (world.truncate s)"
  shows "wp (on_world m) Q s"
  using assms by (auto simp: wp_def on_world_def settings_def world.defs node_st.defs split: prod.splits)

lemma settings_inv:
  assumes "node_inv E g s" "settings s' = settings s" "funds s' = funds s"
  shows "node_inv E g s' \<and> frozen (g, s) (g, s')"
  using assms unfolding node_inv_def frozen_def settings_def linked_def by (auto split: stage.splits)

lemma wp_settings: "keeps (\<lambda>s. (settings s, funds s)) m \<Longrightarrow> (\<And>r s'. settings s' = settings s \<Longrightarrow> funds s' = funds s \<Longrightarrow> Q r s') \<Longrightarrow> wp m Q s"
  by (rule wp_keeps) auto

lemma inert_settings: "inert (\<lambda>s :: node_st. (settings s, funds s))"
  by (rule inertI) (simp_all add: settings_def)

lemma wp_open_listener:
  assumes "\<And>r s'. settings s' = settings s \<Longrightarrow> funds s' = funds s \<Longrightarrow> \<not> is_ok r \<Longrightarrow> Q r s'"
    and "\<And>l s'. settings s' = settings (s\<lparr>AliceNodeStart := True\<rparr>) \<Longrightarrow> funds s' = funds s \<Longrightarrow> EthAddr l = own_addr E key \<Longrightarrow> Q (Ok l) s'"
  shows "wp (open_listener H E ip key) Q s"
  using assms by (auto simp: open_listener_def NewAddr_def Listen_def wps settings_def own_addr_def split: res.split)

lemma accept_one_inv:
  assumes "node_inv E g s"
  shows "wp (accept_one H E doEnc l key) (\<lambda>_ s'. node_inv E g s' \<and> frozen (g, s) (g, s')) s"
proof -
  have a: "wp (AliceAcceptTx E B doEnc k ad) (\<lambda>_ w'. funds w' = funds w) w" for B k ad w
    by (rule keeps_wp [OF accept_keeps])
  have h: "node_inv E g (s\<lparr>hist := h\<rparr>)" "frozen (g, s) (g, s\<lparr>hist := h\<rparr>)" for h
    using settings_inv [OF assms, of "s\<lparr>hist := h\<rparr>"] by (simp_all add: settings_def)
  show ?thesis
    unfolding accept_one_def Accept_def wps
    apply (auto simp: h split: res.split)
    apply (rule wp_on_world, rule wp_mono [OF a], use settings_inv [OF assms] in \<open>auto simp: world.defs settings_def\<close>)+
    done
qed

lemma node_inv_linked:
  assumes "node_inv E g s"
  shows "\<not> unconnected s" "NetIP (BConf s) \<noteq> []" "\<exists>key. ETHKey s = Some key"
  using assms by (auto simp: node_inv_def linked_def unconnected_def complete_def)

lemma SetupNode_inv:
  assumes "node_inv E g s"
  shows "wp (SetupNode H E doEnc g) (\<lambda>r s'. \<forall>g'. r = Ok g' \<longrightarrow> node_inv E g' s' \<and> frozen (g, s) (g', s')) s"
proof (cases g)
  case Waiting
  with assms node_inv_linked [OF assms] show ?thesis
    by (auto simp: wps node_inv_def frozen_def linked_def)
next
  case Offline
  obtain key where key: "ETHKey s = Some key" using node_inv_linked [OF assms] by blast
  have "wp (check (open_listener H E (NetIP (BConf s)) key)
      (\<lambda>_. do { State_Monad.update (\<lambda>s. s\<lparr>AliceNodeStart := False\<rparr>); ret (Ok Offline) })
      (\<lambda>l. ret (Ok (Listening l key)))) (\<lambda>r s'. \<forall>g'. r = Ok g' \<longrightarrow> node_inv E g' s' \<and> frozen (g, s) (g', s')) s"
    unfolding wp_check
    by (rule wp_open_listener) (use assms key Offline in
      \<open>auto simp: wps settings_def node_inv_def frozen_def linked_def split: res.split\<close>)
  with node_inv_linked [OF assms] key Offline show ?thesis by (simp add: wps)
next
  case (Listening l key)
  show ?thesis
    unfolding Listening SetupNode.simps wp_check
    by (rule wp_mono [OF accept_one_inv [OF assms [unfolded Listening]]]) (auto simp: wps split: res.split)
qed

lemma route_inv:
  assumes "node_inv E g s" "route H E doEnc random key (BConf s) path r = Some handler"
  shows "wp handler (\<lambda>_ s'. node_inv E g s' \<and> frozen (g, s) (g, s')) s"
proof -
  have same: "node_inv E g s' \<and> frozen (g, s) (g, s')" if "settings s' = settings s" "funds s' = funds s" for s'
    using settings_inv [OF assms(1) that] .
  have reload: "node_inv E g s' \<and> frozen (g, s) (g, s')" if "kept E s s'" for s'
    using assms(1) that unfolding node_inv_def kept_def tuned_def frozen_def by (auto split: stage.splits)
  have served: "wp (on_world h) (\<lambda>_ s'. node_inv E g s' \<and> frozen (g, s) (g, s')) s" if "settles h" for h
  proof (rule wp_on_world)
    have "funds (world.truncate s) = (\<lambda>_. 0, 0)" using assms(1) by (simp add: node_inv_def world.defs)
    from settlesD [OF that this] show "wp h (\<lambda>_ w. \<forall>s'. funds s' = funds w \<longrightarrow> settings s' = settings s \<longrightarrow>
        node_inv E g s' \<and> frozen (g, s) (g, s')) (world.truncate s)"
      by (rule wp_mono) (use assms(1) same in \<open>auto simp: node_inv_def\<close>)
  qed
  show ?thesis
    using assms(2) same [OF refl refl] wp_mono [OF wp_ReLoad reload]
    by (auto simp: route_def ReadCfgAPIHandler_def wps intro: served [OF served_settles] split: if_splits)
qed

lemma node_step_inv:
  "node_step H E doEnc (g, s) (g', s') \<Longrightarrow> node_inv E g s \<Longrightarrow> node_inv E g' s' \<and> frozen (g, s) (g', s')"
  by (erule node_stepE) (auto dest: wpD [OF SetupNode_inv] wpD [OF route_inv])

lemma frozen_trans: "frozen a b \<Longrightarrow> frozen b c \<Longrightarrow> frozen a c"
  by (cases a; cases b; cases c) (auto simp: frozen_def)

lemma node_runs:
  assumes "(node_step H E doEnc)\<^sup>*\<^sup>* (g, s) (g', s')" "node_inv E g s"
  shows "node_inv E g' s' \<and> frozen (g, s) (g', s')"
  using assms
proof (induction rule: rtranclp_induct2)
  case refl
  then show ?case by (simp add: frozen_def)
next
  case (step g1 s1 g2 s2)
  then show ?case using node_step_inv frozen_trans by blast
qed

lemma start_keeps_flags: "keeps (\<lambda>s. (AliceNodeStart s, BobNodeStart s)) (start_node H E basic pw)"
proof -
  let ?f = "\<lambda>s :: node_st. (AliceNodeStart s, BobNodeStart s)"
  have i: "inert ?f" by (simp add: inert_def)
  have m: "keeps ?f m \<Longrightarrow> (\<And>v. keeps ?f (k v)) \<Longrightarrow> keeps ?f (or_panic m k)" for m k
    unfolding or_panic_def by (intro frame)
  show ?thesis
    unfolding start_node_def readKeyStore_def ConnectToProvider_def initMap_def Let_def
    by (intro m frame i keeps_update; simp)
qed

section \<open>What a request leaves in the log\<close>

lemma config_answers [simp]:
  "\<not> success (Ok RESPONSE_INITIALIZE_FAILED)" "\<not> success (Ok RESPONSE_SAVE_CONFIG_FILE_FAILED)"
  "\<not> success (Ok RESPONSE_UPLOAD_KEY_FAILED)" "success (Ok (answer ''0'' msg))"
  by (auto simp: success_def RESPONSE_SUCCESS_def RESPONSE_INITIALIZE_FAILED_def
      RESPONSE_SAVE_CONFIG_FILE_FAILED_def RESPONSE_UPLOAD_KEY_FAILED_def answer_def quoted_def)

text \<open>A step of the reload handler that ends it with a text ends it with an error.\<close>

definition gives_up :: "('s, string option res) state \<Rightarrow> bool" where
  "gives_up m \<longleftrightarrow> (\<forall>s. wp m (\<lambda>r _. \<forall>txt. r = Ok (Some txt) \<longrightarrow> \<not> success (Ok txt)) s)"

lemma gives_up_bind: "(\<And>x. gives_up (k x)) \<Longrightarrow> gives_up (State_Monad.bind m k)"
  unfolding gives_up_def wp_bind by (intro allI) (rule wp_mono [OF wp_True], simp)

lemma gives_up_check: "(\<And>e. gives_up (h e)) \<Longrightarrow> (\<And>v. gives_up (k v)) \<Longrightarrow> gives_up (check m h k)"
  unfolding gives_up_def wp_check by (intro allI) (rule wp_mono [OF wp_True], simp split: res.split)

lemma gives_up_ret: "gives_up (ret (Ok None))" "\<not> success (Ok txt) \<Longrightarrow> gives_up (ret (Ok (Some txt)))"
  by (simp_all add: gives_up_def wps)

lemma gives_up_if: "gives_up m \<Longrightarrow> gives_up m' \<Longrightarrow> gives_up (if b then m else m')"
  by simp

lemma reload_key_gives_up: "gives_up (reload_key H E r)"
  unfolding reload_key_def Let_def
  by (intro gives_up_bind gives_up_check gives_up_if gives_up_ret config_answers)

lemma keeps_row:
  "keeps (\<lambda>s. pl_Result (clog s)) (cfg_detail d)" "keeps (\<lambda>s. pl_Result (clog s)) (set_key key)"
  "keeps (\<lambda>s. pl_Result (clog s)) (reload_ip ip)" "keeps (\<lambda>s. pl_Result (clog s)) (reload_key H E r)"
  unfolding reload_key_def reload_ip_def ConnectToProvider_def cfg_detail_def set_key_def Let_def
  by (intro frame keeps_update; simp add: inert_def)+

text \<open>The body of the reload handler ends with the row of the log that fits its answer.\<close>

lemma wp_reload_body:
  assumes "pl_Result (clog s) = LOG_RESULT_FAILED"
  shows "wp (reload_body H E r) (\<lambda>res s'. pl_Result (clog s') = LOG_RESULT_SUCCESS \<longleftrightarrow> success res) s"
proof -
  let ?Q = "\<lambda>res s'. pl_Result (clog s') = LOG_RESULT_SUCCESS \<longleftrightarrow> success res"
  let ?row = "\<lambda>s. pl_Result (clog s)"
  have save: "wp (do {
      s \<leftarrow> State_Monad.get;
      check (saveBasicConfig E (BConf s) p) (\<lambda>_. ret (Ok RESPONSE_SAVE_CONFIG_FILE_FAILED)) (\<lambda>_. do {
      State_Monad.update (\<lambda>s. s\<lparr>clog := (clog s)\<lparr>pl_Result := LOG_RESULT_SUCCESS\<rparr>\<rparr>);
      ret (Ok (answer ''0'' msg)) }) }) ?Q t" if "?row t = LOG_RESULT_FAILED" for t p msg
    unfolding wp_bind wp_get wp_check
    by (rule wp_keeps [where f = ?row]) (use that in \<open>auto simp: wps inert_def intro: frame split: res.split\<close>)
  have key: "wp (if b then reload_key H E r else ret (Ok None))
      (\<lambda>res t'. ?row t' = ?row t \<and> (\<forall>txt. res = Ok (Some txt) \<longrightarrow> \<not> success (Ok txt))) t" for b t
    using keeps_wp [OF keeps_row(4)] reload_key_gives_up [unfolded gives_up_def]
    by (simp add: wp_conj wp_return)
  show ?thesis
    unfolding reload_body_def wp_bind [of "reload_ip _"]
    by (rule wp_keeps [OF keeps_row(3)], subst wp_bind, unfold wp_get wp_check, rule wp_mono [OF key])
      (use save assms in \<open>auto simp: wp_return split: res.split option.split\<close>)
qed

definition logged_as :: "string res \<Rightarrow> 'z world_scheme \<Rightarrow> bool" where
  "logged_as res s \<longleftrightarrow> (\<exists>log h. hist s = CInsertLog log # h \<and>
     (pl_Result log = LOG_RESULT_SUCCESS \<longleftrightarrow> success res))"

lemma wp_reload_logged:
  assumes "\<not> (AliceNodeStart s \<and> BobNodeStart s)"
  shows "wp (ReLoadConfigAPIHandler H E r) logged_as s"
proof -
  let ?s = "node_st.extend s (cfg_st.fields \<lparr>pl_SessionId = [], pl_Operation = LOG_OPERATION_TYPE_CONFIG_SETTING,
     pl_Detail = [], pl_Result = LOG_RESULT_FAILED\<rparr>)"
  have "pl_Result (clog ?s) = LOG_RESULT_FAILED" by (simp add: node_st.defs cfg_st.defs)
  then have "wp (deferring (do { s \<leftarrow> State_Monad.get; insertLogToDB E (clog s); ret () }) (reload_body H E r))
      logged_as ?s"
    unfolding wp_deferring
    by (rule wp_mono [OF wp_reload_body]) (auto simp: wps insertLogToDB_def logged_as_def split: res.split)
  then show ?thesis
    using assms by (auto simp: wp_def logged_as_def ReLoadConfigAPIHandler_def node_st.defs split: prod.splits)
qed

lemma wp_on_world_logged:
  assumes "reporting m"
  shows "wp (on_world m) logged_as s"
  using assms by (auto simp: reporting_def logged_as_def wp_def on_world_def world.defs split: prod.splits)

text \<open>
  C12. The log tells what was answered, for every route of the HTTP server. A request on
  \<^verbatim>\<open>/config/read\<close>, and one on \<^verbatim>\<open>/config/reload\<close> when both sides of the node have started, makes no
  call at all and so writes no row. Every other request ends with a row of the log: whatever the
  request, the services, the other party and the disk do, the last call is the insertion of the
  row, also after a panic, and the row says success exactly if the text sent back is the text of
  success. For a purchase that is read back from the JSON text which the handler of the mode
  returned.
\<close>

theorem answers_are_logged:
  assumes "route H E doEnc random key B path r = Some handler" and "run_state handler s = (res, s')"
  shows "if path = ''/config/read'' \<or> path = ''/config/reload'' \<and> AliceNodeStart s \<and> BobNodeStart s
    then hist s' = hist s
    else \<exists>log h. hist s' = CInsertLog log # h \<and>
      (pl_Result log = LOG_RESULT_SUCCESS \<longleftrightarrow> (\<exists>msg. res = Ok (RESPONSE_SUCCESS msg)))"
proof (cases "path = ''/config/read'' \<or> path = ''/config/reload'' \<and> AliceNodeStart s \<and> BobNodeStart s")
  case True
  with assms show ?thesis
    by (auto simp: route_def ReadCfgAPIHandler_def ReLoadConfigAPIHandler_def run)
next
  case False
  have "wp handler logged_as s"
    using assms(1) False
    by (auto simp: route_def wp_reload_logged intro: wp_on_world_logged served_reports split: if_splits)
  from wpD [OF this assms(2)] False show ?thesis unfolding logged_as_def success_def by (simp only: if_False)
qed

theorem answers_are_logged_witness:
  "\<exists>log h. hist (snd (run_state (ReLoadConfigAPIHandler sample_host sample_ext sample_form) sample_start)) = CInsertLog log # h"
proof -
  have "\<not> AliceNodeStart sample_start" by (simp add: sample_start_def world.defs node_st.defs)
  then show ?thesis
    using answers_are_logged [of sample_host sample_ext "\<lambda>_ _. ret (Err [])" "[]" sample_owner sample_dirs "''/config/reload''"
        sample_form "ReLoadConfigAPIHandler sample_host sample_ext sample_form" sample_start, OF _ surjective_pairing]
    by (auto simp: route_def)
qed

end
