(* ===== verification/Concurrent.thy ===== *)
theory Concurrent
  imports Sales
begin

text \<open>
  Sales that run at the same time. Every accepted connection is served by a goroutine of its own
  (\<open>AliceStartNode\<close> of \<^verbatim>\<open>connection.go\<close>), and the sales share \<open>DepositLockMap\<close>, which no mutex
  protects. The state is the shared state and the list of the sales with the point each has
  reached; a step runs one sale up to its next access of the map. The operations \<open>+=\<close> and \<open>-=\<close> on
  an element of the map are a read and a write, and another sale may run between the two. The
  functions that access the map, \<open>calcuDeposit\<close> of \<^verbatim>\<open>contract.go\<close> and the deferred function of a
  handler of \<^verbatim>\<open>seller_tx.go\<close>, are those of the sequential model, cut at these points; a sale that
  runs its steps without another in between does what they do.
\<close>

section \<open>The functions cut at their accesses\<close>

text \<open>\<open>calcuDeposit\<close> up to its addition to the map.\<close>

definition deposit_covers :: "ext \<Rightarrow> string \<Rightarrow> string \<Rightarrow> int64 \<Rightarrow> ('z world_scheme, bool res) state" where
  "deposit_covers E aliceAddr bobAddr val =
     check (ask (CBobDeposits (HexToAddress E bobAddr) (HexToAddress E aliceAddr)) (BobDeposits E))
       (\<lambda>_. ret (Err ''failed to read deposit.'')) (\<lambda>dpst. do {
     w \<leftarrow> State_Monad.get;
     if sint (val + DepositLockMap w (aliceAddr @ bobAddr)) > sint (Int64 (dpst_Value dpst))
     then ret (Ok False)
     else if dpst_Stat dpst = 1 then ret (Ok False)
     else do {
       expiring \<leftarrow> (if dpst_Stat dpst = 2 then do {
           now \<leftarrow> ask CNow (Now E);
           ret (sint (now + 600) > sint (Int64 (dpst_UnDepositAt dpst) + 8 * 60 * 60)) }
         else ret False);
       ret (Ok (\<not> expiring)) } })"

text \<open>The write half of \<open>+=\<close> and \<open>-=\<close>; the read half is \<open>DepositLockMap w k\<close>.\<close>

definition store_lock :: "string \<Rightarrow> int64 \<Rightarrow> 'z world_scheme \<Rightarrow> 'z world_scheme" where
  "store_lock k v w = w\<lparr>DepositLockMap := (DepositLockMap w)(k := v)\<rparr>"

lemma DepositLockMap_store_lock [simp]:
  "DepositLockMap (store_lock k v w) = (DepositLockMap w)(k := v)"
  by (simp add: store_lock_def)

section \<open>Interleaved sales\<close>

text \<open>
  The points of a sale: before \<open>calcuDeposit\<close>, behind its tests, between the read (with the value
  read) and the write of its addition, with the deposit locked, between the read and the write of
  the deferred subtraction, and with the map done.
\<close>

datatype point = Entered | Covered | Adding int64 | Holding | Subtracting int64 | Released

record sale =
  s_tx :: Transaction
  s_at :: point

definition s_key :: "sale \<Rightarrow> string" where
  "s_key x = tx_AliceAddr (s_tx x) @ tx_BobAddr (s_tx x)"

definition covers :: "ext \<Rightarrow> sale \<Rightarrow> ('z world_scheme, bool res) state" where
  "covers E x = deposit_covers E (tx_AliceAddr (s_tx x)) (tx_BobAddr (s_tx x)) (tx_Price (s_tx x))"

definition advance :: "ext \<Rightarrow> sale \<times> 'z world_scheme \<Rightarrow> sale \<times> 'z world_scheme" where
  "advance E c = (case c of (x, w) \<Rightarrow> (case s_at x of
     Entered \<Rightarrow> (case run_state (covers E x) w of
       (r, w') \<Rightarrow> (x\<lparr>s_at := if r = Ok True then Covered else Released\<rparr>, w'))
   | Covered \<Rightarrow> (x\<lparr>s_at := Adding (DepositLockMap w (s_key x))\<rparr>, w)
   | Adding old \<Rightarrow> (x\<lparr>s_at := Holding\<rparr>, store_lock (s_key x) (old + tx_Price (s_tx x)) w)
   | Holding \<Rightarrow> (x\<lparr>s_at := Subtracting (DepositLockMap w (s_key x))\<rparr>, w)
   | Subtracting old \<Rightarrow> (x\<lparr>s_at := Released\<rparr>, store_lock (s_key x) (old - tx_Price (s_tx x)) w)
   | Released \<Rightarrow> (x, w)))"

text \<open>The scheduler runs sale \<open>i\<close> for a step; a sale enters when its connection is accepted.\<close>

definition turn :: "ext \<Rightarrow> nat \<Rightarrow> world \<times> sale list \<Rightarrow> world \<times> sale list" where
  "turn E i c = (case c of (w, ss) \<Rightarrow>
     if i < length ss then (case advance E (ss ! i, w) of (x, w') \<Rightarrow> (w', ss[i := x])) else (w, ss))"

inductive sale_step :: "ext \<Rightarrow> world \<times> sale list \<Rightarrow> world \<times> sale list \<Rightarrow> bool" for E where
  accepted: "s_at x = Entered \<Longrightarrow> sale_step E (w, ss) (w, ss @ [x])"
| ran: "sale_step E c (turn E i c)"

inductive reachable :: "ext \<Rightarrow> world \<times> sale list \<Rightarrow> bool" for E where
  start: "DepositLockMap w = (\<lambda>_. 0) \<Longrightarrow> reachable E (w, [])"
| step: "reachable E c \<Longrightarrow> sale_step E c c' \<Longrightarrow> reachable E c'"

lemma reachable_turns: "reachable E c \<Longrightarrow> reachable E (fold (turn E) is c)"
proof (induction "is" arbitrary: c)
  case (Cons i "is")
  show ?case using Cons.IH [OF step [OF Cons.prems ran [of E c i]]] by simp
qed simp

lemma reachable_ex: "reachable E c \<Longrightarrow> P (fst c) (snd c) \<Longrightarrow> \<exists>w ss. reachable E (w, ss) \<and> P w ss"
  by (cases c) auto

lemma reachable_pair:
  assumes "DepositLockMap w = (\<lambda>_. 0)" and "s_at x = Entered" and "s_at y = Entered"
  shows "reachable E (w, [x, y])"
  using step [OF step [OF start [OF assms(1)] accepted [OF assms(2)]] accepted [OF assms(3)]] by simp

section \<open>A sale alone\<close>

text \<open>
  Without another sale in between, the first three steps are \<open>calcuDeposit\<close> and the last two the
  deferred function of the handlers.
\<close>

lemma calcuDeposit_cut:
  "calcuDeposit E a b v = do {
     r \<leftarrow> deposit_covers E a b v;
     (if r = Ok True then State_Monad.update (\<lambda>w. store_lock (a @ b) (DepositLockMap w (a @ b) + v) w)
      else ret ());
     ret r }"
  by (rule state.expand)
    (auto simp: fun_eq_iff calcuDeposit_def deposit_covers_def check_def store_lock_def ask_def Let_def State_Monad.update_def
      split: res.split prod.split)

lemma advance_calcuDeposit:
  assumes "s_at x = Entered"
    and "run_state (calcuDeposit E (tx_AliceAddr (s_tx x)) (tx_BobAddr (s_tx x)) (tx_Price (s_tx x))) w = (r, w')"
  shows "(advance E ^^ 3) (x, w) = (x\<lparr>s_at := if r = Ok True then Holding else Released\<rparr>, w')"
  using assms
  by (auto simp: calcuDeposit_cut advance_def covers_def s_key_def numeral_3_eq_3 run
      split: prod.splits if_splits)

lemma advance_unlock:
  assumes "s_at x = Holding" and "s_tx x = cur s"
  shows "(advance E ^^ 2) (x, s) = (x\<lparr>s_at := Released\<rparr>, snd (run_state unlock s))"
  using assms by (simp add: advance_def unlock_def store_lock_def s_key_def numeral_2_eq_2 run Let_def)

section \<open>What the missing mutex allows\<close>

lemma covers_run:
  assumes "\<And>h. BobDeposits E h = Ok d" "dpst_Stat d = 0"
    and "sint (tx_Price t + DepositLockMap w (tx_AliceAddr t @ tx_BobAddr t)) \<le> sint (Int64 (dpst_Value d))"
  shows "run_state (covers E \<lparr>s_tx = t, s_at = p\<rparr>) w =
    (Ok True, w\<lparr>hist := CBobDeposits (HexToAddress E (tx_BobAddr t)) (HexToAddress E (tx_AliceAddr t)) # hist w\<rparr>)"
  using assms by (simp add: covers_def deposit_covers_def check_def ask_def)

lemma calcuDeposit_run:
  assumes "\<And>h. BobDeposits E h = Ok d" "dpst_Stat d = 0"
  shows "fst (run_state (calcuDeposit E a b v) w) =
    Ok (sint (v + DepositLockMap w (a @ b)) \<le> sint (Int64 (dpst_Value d)))"
  using assms by (simp add: calcuDeposit_def check_def ask_def State_Monad.update_def)

lemmas turns = turn_def advance_def covers_run s_key_def

text \<open>
  C7. The check of \<open>calcuDeposit\<close> and its addition to the map are not one step. If a deposit covers a
  price exactly, two sales at that price can both pass the check before either adds, and then both
  hold the lock: together they lock twice the deposit.
\<close>

theorem deposit_oversubscribed:
  assumes d: "\<And>h. BobDeposits E h = Ok d" "dpst_Stat d = 0" "Int64 (dpst_Value d) = tx_Price t"
    and p: "0 < sint (tx_Price t)" "sint (tx_Price t) < 2 ^ 62"
  shows "\<exists>w ss. reachable E (w, ss) \<and> (\<forall>x \<in> set ss. s_tx x = t \<and> s_at x = Holding) \<and> length ss = 2 \<and>
    sint (DepositLockMap w (tx_AliceAddr t @ tx_BobAddr t)) = 2 * sint (Int64 (dpst_Value d))"
proof -
  let ?x = "\<lparr>s_tx = t, s_at = Entered\<rparr>"
  let ?c = "fold (turn E) [0, 1, 0, 0, 1, 1] (sample_world, [?x, ?x])"
  have "reachable E ?c"
    by (intro reachable_turns reachable_pair) (simp_all add: sample_world_def)
  then show ?thesis
  proof (rule reachable_ex)
    have "snd ?c = [?x\<lparr>s_at := Holding\<rparr>, ?x\<lparr>s_at := Holding\<rparr>]"
      "DepositLockMap (fst ?c) (tx_AliceAddr t @ tx_BobAddr t) = tx_Price t + tx_Price t"
      using d by (simp_all add: turns sample_world_def)
    moreover have "sint (tx_Price t + tx_Price t) = 2 * sint (tx_Price t)"
      using p by (simp add: sint_word_ariths signed_take_bit_int_eq_self)
    ultimately show "(\<forall>x \<in> set (snd ?c). s_tx x = t \<and> s_at x = Holding) \<and> length (snd ?c) = 2 \<and>
        sint (DepositLockMap (fst ?c) (tx_AliceAddr t @ tx_BobAddr t)) = 2 * sint (Int64 (dpst_Value d))"
      using d(3) by simp
  qed
qed

text \<open>Two sales of the transaction, both over.\<close>

definition both_over :: "Transaction \<Rightarrow> sale list \<Rightarrow> bool" where
  "both_over t ss \<longleftrightarrow> length ss = 2 \<and> (\<forall>x \<in> set ss. s_tx x = t \<and> s_at x = Released)"

text \<open>
  C6. The additions and subtractions on the map lose updates, also when the deposit covers both
  prices. When two sales both read the map before either writes its addition, one lock is lost, and
  when both are over the map is below zero by the price: from then on \<open>calcuDeposit\<close> lets a sale
  through whose price exceeds the deposit by as much. When two sales both read before either writes
  its subtraction, one release is lost, and when both are over the map still holds the price: from
  then on a sale at the price of the whole deposit is refused although nothing is being sold.
\<close>

theorem lock_updates_lost:
  assumes d: "\<And>h. BobDeposits E h = Ok d" "dpst_Stat d = 0"
    and p: "0 < sint (tx_Price t)" "2 * sint (tx_Price t) \<le> sint (Int64 (dpst_Value d))"
    and D: "sint (Int64 (dpst_Value d)) + sint (tx_Price t) < 2 ^ 63"
  shows "(\<exists>w ss. reachable E (w, ss) \<and> both_over t ss \<and>
      sint (DepositLockMap w (tx_AliceAddr t @ tx_BobAddr t)) = - sint (tx_Price t) \<and>
      fst (run_state (calcuDeposit E (tx_AliceAddr t) (tx_BobAddr t)
        (Int64 (dpst_Value d) + tx_Price t)) w) = Ok True) \<and>
    (\<exists>w ss. reachable E (w, ss) \<and> both_over t ss \<and>
      sint (DepositLockMap w (tx_AliceAddr t @ tx_BobAddr t)) = sint (tx_Price t) \<and>
      fst (run_state (calcuDeposit E (tx_AliceAddr t) (tx_BobAddr t) (Int64 (dpst_Value d))) w) = Ok False)"
proof -
  let ?x = "\<lparr>s_tx = t, s_at = Entered\<rparr>" and ?k = "tx_AliceAddr t @ tx_BobAddr t" and ?v = "tx_Price t"
  let ?D = "Int64 (dpst_Value d)"
  let ?run = "\<lambda>is. fold (turn E) is (sample_world, [?x, ?x])"
  let ?a = "?run [0, 1, 0, 1, 0, 1, 0, 0, 1, 1]" and ?b = "?run [0, 0, 0, 1, 1, 1, 0, 1, 0, 1]"
  have r: "reachable E (?run is)" for "is"
    by (intro reachable_turns reachable_pair) (simp_all add: sample_world_def)
  have two: "sint (?v + ?v) = 2 * sint ?v" "sint (?D + ?v) = sint ?D + sint ?v" "sint (- ?v) = - sint ?v"
    using p D by (simp_all add: sint_word_ariths signed_take_bit_int_eq_self)
  then have le: "sint ?v \<le> sint ?D" "sint (?v + ?v) \<le> sint ?D" using p by auto
  have a: "snd ?a = [?x\<lparr>s_at := Released\<rparr>, ?x\<lparr>s_at := Released\<rparr>]" "DepositLockMap (fst ?a) ?k = - ?v"
    using d le by (simp_all add: turns sample_world_def)
  have b: "snd ?b = [?x\<lparr>s_at := Released\<rparr>, ?x\<lparr>s_at := Released\<rparr>]" "DepositLockMap (fst ?b) ?k = ?v"
    using d le by (simp_all add: turns sample_world_def)
  show ?thesis
  proof (intro conjI)
    show "\<exists>w ss. reachable E (w, ss) \<and> both_over t ss \<and> sint (DepositLockMap w ?k) = - sint ?v \<and>
        fst (run_state (calcuDeposit E (tx_AliceAddr t) (tx_BobAddr t) (?D + ?v)) w) = Ok True"
      by (rule reachable_ex [OF r [of "[0, 1, 0, 1, 0, 1, 0, 0, 1, 1]"]], unfold a calcuDeposit_run [OF d])
        (simp add: both_over_def two)
    show "\<exists>w ss. reachable E (w, ss) \<and> both_over t ss \<and> sint (DepositLockMap w ?k) = sint ?v \<and>
        fst (run_state (calcuDeposit E (tx_AliceAddr t) (tx_BobAddr t) ?D) w) = Ok False"
      by (rule reachable_ex [OF r [of "[0, 0, 0, 1, 1, 1, 0, 1, 0, 1]"]], unfold b calcuDeposit_run [OF d])
        (use p in \<open>simp add: both_over_def two\<close>)
  qed
qed

text \<open>A deposit of 100 and two sales at the same price.\<close>

definition priced :: "int64 \<Rightarrow> Transaction" where
  "priced v = zero_Transaction\<lparr>tx_Price := v\<rparr>"

theorem deposit_oversubscribed_witness:
  "\<exists>w ss. reachable sample_ext (w, ss) \<and> (\<forall>x \<in> set ss. s_tx x = priced 100 \<and> s_at x = Holding) \<and> length ss = 2 \<and>
    sint (DepositLockMap w []) = 200"
  using deposit_oversubscribed [of sample_ext "\<lparr>dpst_Value = 100, dpst_UnDepositAt = 0, dpst_Stat = 0\<rparr>" "priced 100"]
  by (simp add: sample_ext_def priced_def Int64_def zero_Transaction_def)

theorem lock_updates_lost_witness:
  "(\<exists>w ss. reachable sample_ext (w, ss) \<and> both_over (priced 30) ss \<and> sint (DepositLockMap w []) = - 30 \<and>
      fst (run_state (calcuDeposit sample_ext [] [] 130) w) = Ok True) \<and>
   (\<exists>w ss. reachable sample_ext (w, ss) \<and> both_over (priced 30) ss \<and> sint (DepositLockMap w []) = 30 \<and>
      fst (run_state (calcuDeposit sample_ext [] [] 100) w) = Ok False)"
  using lock_updates_lost [of sample_ext "\<lparr>dpst_Value = 100, dpst_UnDepositAt = 0, dpst_Stat = 0\<rparr>" "priced 30"]
  by (simp add: sample_ext_def priced_def Int64_def zero_Transaction_def)

end
