(* ===== verification/Netutil.thy ===== *)
theory Netutil
  imports Prelude
begin

text \<open>
  IP addresses, after \<^verbatim>\<open>net/rlpx/p2p/netutil/net.go\<close>: lists of networks, the check of relayed
  addresses, and the set that limits how many addresses of one network are tracked. The methods of
  Go's \<open>net.IP\<close> and \<open>net.IPNet\<close> that it calls come first.
\<close>

section \<open>Addresses of the standard library\<close>

text \<open>\<open>net.IP\<close>: a byte slice, of 4 or 16 bytes when valid; \<open>nil\<close> is the empty one.\<close>

type_synonym ip = bytes

definition v4InV6Prefix :: bytes where
  "v4InV6Prefix = replicate 10 0 @ [255, 255]"

definition To4 :: "ip \<Rightarrow> ip option" where
  "To4 a = (if length a = 4 then Some a
     else if length a = 16 \<and> take 12 a = v4InV6Prefix then Some (drop 12 a) else None)"

definition To16 :: "ip \<Rightarrow> ip option" where
  "To16 a = (if length a = 4 then Some (v4InV6Prefix @ a) else if length a = 16 then Some a else None)"

definition ip_Equal :: "ip \<Rightarrow> ip \<Rightarrow> bool" where
  "ip_Equal a b = (if length a = length b then a = b
     else if length a = 4 \<and> length b = 16 then take 12 b = v4InV6Prefix \<and> a = drop 12 b
     else if length a = 16 \<and> length b = 4 then take 12 a = v4InV6Prefix \<and> drop 12 a = b
     else False)"

definition IsUnspecified :: "ip \<Rightarrow> bool" where
  "IsUnspecified a \<longleftrightarrow> ip_Equal a (v4InV6Prefix @ [0, 0, 0, 0]) \<or> ip_Equal a (replicate 16 0)"

definition IsLoopback :: "ip \<Rightarrow> bool" where
  "IsLoopback a = (case To4 a of Some a4 \<Rightarrow> hd a4 = 127 | None \<Rightarrow> ip_Equal a (replicate 15 0 @ [1]))"

definition IsMulticast :: "ip \<Rightarrow> bool" where
  "IsMulticast a = (case To4 a of Some a4 \<Rightarrow> hd a4 AND 0xf0 = 0xe0 | None \<Rightarrow> length a = 16 \<and> hd a = 255)"

record IPNet =
  net_IP :: ip
  net_Mask :: bytes

definition networkNumberAndMask :: "IPNet \<Rightarrow> ip \<times> bytes" where
  "networkNumberAndMask n = (
     let a = (case To4 (net_IP n) of Some a4 \<Rightarrow> a4 | None \<Rightarrow> net_IP n); m = net_Mask n in
     if To4 (net_IP n) = None \<and> length a \<noteq> 16 then ([], [])
     else if length m = 4 then (if length a = 4 then (a, m) else ([], []))
     else if length m = 16 then (a, if length a = 4 then drop 12 m else m)
     else ([], []))"

definition net_Contains :: "IPNet \<Rightarrow> ip \<Rightarrow> bool" where
  "net_Contains n a = (case networkNumberAndMask n of (nn, m) \<Rightarrow>
     let x = (case To4 a of Some a4 \<Rightarrow> a4 | None \<Rightarrow> a) in
     length x = length nn \<and> map2 (AND) nn m = map2 (AND) x m)"

text \<open>\<open>net.CIDRMask(ones, 8*n)\<close>, and the network \<open>net.ParseCIDR\<close> returns for the text of an address and a prefix length.\<close>

definition CIDRMask :: "nat \<Rightarrow> nat \<Rightarrow> bytes" where
  "CIDRMask ones n = map (\<lambda>i. NOT (drop_bit (ones - 8 * i) 255)) [0..<n]"

definition cidr :: "ip \<Rightarrow> nat \<Rightarrow> IPNet" where
  "cidr a ones = (let m = CIDRMask ones (length a) in \<lparr>net_IP = map2 (AND) a m, net_Mask = m\<rparr>)"

text \<open>An IPv6 address whose first 16-bit groups are given, as in \<^verbatim>\<open>2001:4:112::\<close>, and the rest zero.\<close>

definition ip6 :: "u16 list \<Rightarrow> ip" where
  "ip6 gs = take 16 (concat (map (\<lambda>g. [ucast (drop_bit 8 g), ucast g]) gs) @ replicate 16 0)"

section \<open>Lists of networks\<close>

type_synonym Netlist = "IPNet list"

definition Netlist_Contains :: "Netlist option \<Rightarrow> ip \<Rightarrow> bool" where
  "Netlist_Contains l a = (case l of None \<Rightarrow> False | Some ns \<Rightarrow> \<exists>n \<in> set ns. net_Contains n a)"

definition lan4 :: Netlist where
  "lan4 = [cidr [0, 0, 0, 0] 8, cidr [10, 0, 0, 0] 8, cidr [172, 16, 0, 0] 12, cidr [192, 168, 0, 0] 16]"

definition lan6 :: Netlist where
  "lan6 = [cidr (ip6 [0xfe80]) 10, cidr (ip6 [0xfc00]) 7]"

definition special4 :: Netlist where
  "special4 = [cidr [192, 0, 0, 0] 29, cidr [192, 0, 0, 9] 32, cidr [192, 0, 0, 170] 32, cidr [192, 0, 0, 171] 32,
     cidr [192, 0, 2, 0] 24, cidr [192, 31, 196, 0] 24, cidr [192, 52, 193, 0] 24, cidr [192, 88, 99, 0] 24,
     cidr [192, 175, 48, 0] 24, cidr [198, 18, 0, 0] 15, cidr [198, 51, 100, 0] 24, cidr [203, 0, 113, 0] 24,
     cidr [255, 255, 255, 255] 32]"

definition special6 :: Netlist where
  "special6 = [cidr (ip6 [0x100]) 64, cidr (ip6 [0x2001]) 32, cidr (ip6 [0x2001, 1, 0, 0, 0, 0, 0, 1]) 128,
     cidr (ip6 [0x2001, 2]) 48, cidr (ip6 [0x2001, 3]) 32, cidr (ip6 [0x2001, 4, 0x112]) 48,
     cidr (ip6 [0x2001, 5]) 32, cidr (ip6 [0x2001, 0x10]) 28, cidr (ip6 [0x2001, 0x20]) 28,
     cidr (ip6 [0x2001, 0xdb8]) 32, cidr (ip6 [0x2002]) 16]"

definition IsLAN :: "ip \<Rightarrow> bool" where
  "IsLAN a = (if IsLoopback a then True
     else case To4 a of Some v4 \<Rightarrow> Netlist_Contains (Some lan4) v4 | None \<Rightarrow> Netlist_Contains (Some lan6) a)"

definition IsSpecialNetwork :: "ip \<Rightarrow> bool" where
  "IsSpecialNetwork a = (if IsMulticast a then True
     else case To4 a of Some v4 \<Rightarrow> Netlist_Contains (Some special4) v4 | None \<Rightarrow> Netlist_Contains (Some special6) a)"

definition CheckRelayIP :: "ip \<Rightarrow> ip \<Rightarrow> unit res" where
  "CheckRelayIP sender a =
     (if length a \<noteq> 4 \<and> length a \<noteq> 16 then Err ''invalid IP''
      else if IsUnspecified a then Err ''zero address''
      else if IsSpecialNetwork a then Err ''special network''
      else if IsLoopback a \<and> \<not> IsLoopback sender then Err ''loopback address from non-loopback host''
      else if IsLAN a \<and> \<not> IsLAN sender then Err ''LAN address from WAN host''
      else Ok ())"

section \<open>Prefixes\<close>

text \<open>\<open>^byte(0xFF >> (bits % 8))\<close>.\<close>

definition tail_mask :: "nat \<Rightarrow> byte" where
  "tail_mask bits = NOT (drop_bit (bits mod 8) 255)"

text \<open>Indexing \<open>other\<close> past its end panics; both have the same length where \<open>SameNet\<close> is meant to be used.\<close>

definition sameNet :: "nat \<Rightarrow> ip \<Rightarrow> ip \<Rightarrow> bool res" where
  "sameNet bits a other = (let nb = bits div 8; mask = tail_mask bits in
     if mask \<noteq> 0 \<and> nb < length a \<and> length other \<le> nb then Panic
     else if mask \<noteq> 0 \<and> nb < length a \<and> a ! nb AND mask \<noteq> other ! nb AND mask then Ok False
     else if \<not> nb \<le> length a then Ok False
     else if length other < nb then Panic
     else Ok (take nb a = take nb other))"

definition SameNet :: "nat \<Rightarrow> ip \<Rightarrow> ip \<Rightarrow> bool res" where
  "SameNet bits a other = (case (To4 a, To4 other) of
     (Some a4, Some other4) \<Rightarrow> sameNet bits a4 other4
   | (None, None) \<Rightarrow> sameNet bits (case To16 a of Some x \<Rightarrow> x | None \<Rightarrow> []) (case To16 other of Some x \<Rightarrow> x | None \<Rightarrow> [])
   | _ \<Rightarrow> Ok False)"

section \<open>Sets of addresses with a limit for each network\<close>

record DistinctNetSet =
  Subnet :: nat
  Limit :: u64
  members :: "bytes \<Rightarrow> u64 option"

definition net_key :: "DistinctNetSet \<Rightarrow> ip \<Rightarrow> bytes" where
  "net_key s a = (
     let (typ, x) = (case To4 a of Some a4 \<Rightarrow> (52, a4) | None \<Rightarrow> (54, a));
         bits = (if Subnet s > length x * 8 then length x * 8 else Subnet s);
         nb = bits div 8; mask = tail_mask bits;
         buf = typ # take nb x in
     if nb < length x \<and> mask \<noteq> 0 then buf @ [x ! nb AND mask] else buf)"

text \<open>\<open>s.members[key]\<close>, zero for a missing key.\<close>

definition count_of :: "DistinctNetSet \<Rightarrow> bytes \<Rightarrow> u64" where
  "count_of s k = (case members s k of None \<Rightarrow> 0 | Some n \<Rightarrow> n)"

definition nets_Add :: "ip \<Rightarrow> DistinctNetSet \<Rightarrow> bool \<times> DistinctNetSet" where
  "nets_Add a s = (let k = net_key s a; n = count_of s k in
     if n < Limit s then (True, s\<lparr>members := (members s)(k \<mapsto> n + 1)\<rparr>) else (False, s))"

definition nets_Remove :: "ip \<Rightarrow> DistinctNetSet \<Rightarrow> DistinctNetSet" where
  "nets_Remove a s = (let k = net_key s a in
     case members s k of
       None \<Rightarrow> s
     | Some n \<Rightarrow> if n = 1 then s\<lparr>members := (members s)(k := None)\<rparr>
                 else s\<lparr>members := (members s)(k \<mapsto> n - 1)\<rparr>)"

definition nets_Contains :: "DistinctNetSet \<Rightarrow> ip \<Rightarrow> bool" where
  "nets_Contains s a \<longleftrightarrow> members s (net_key s a) \<noteq> None"

definition empty_nets :: "nat \<Rightarrow> u64 \<Rightarrow> DistinctNetSet" where
  "empty_nets subnet limit = \<lparr>Subnet = subnet, Limit = limit, members = (\<lambda>_. None)\<rparr>"

subsection \<open>The limit holds\<close>

text \<open>Every recorded count is positive and within the limit.\<close>

definition nets_ok :: "DistinctNetSet \<Rightarrow> bool" where
  "nets_ok s \<longleftrightarrow> (\<forall>k n. members s k = Some n \<longrightarrow> 0 < n \<and> n \<le> Limit s)"

lemma count_bounds:
  assumes "nets_ok s"
  shows "count_of s k \<le> Limit s" "members s k = (if count_of s k = 0 then None else Some (count_of s k))"
  using assms unfolding nets_ok_def count_of_def by (auto split: option.splits)

lemma word_Suc: "(n :: 'a::len word) < m \<Longrightarrow> n < n + 1 \<and> 0 < n + 1 \<and> n + 1 \<le> m"
proof -
  assume "n < m"
  then have "unat n + 1 < 2 ^ LENGTH('a)" using unsigned_less [of m, where 'a = nat] unfolding word_less_nat_alt by linarith
  then have "unat (n + 1) = unat n + 1" by (simp add: unat_word_ariths)
  with \<open>n < m\<close> show ?thesis by (simp add: word_less_nat_alt word_le_nat_alt)
qed

lemma word_pred: "(n :: 'a::len word) \<noteq> 1 \<Longrightarrow> 0 < n \<Longrightarrow> n \<le> m \<Longrightarrow> 0 < n - 1 \<and> n - 1 \<le> m"
proof -
  assume n: "n \<noteq> 1" "0 < n" "n \<le> m"
  then have "unat n \<noteq> 1" by (metis unat_1 unsigned_word_eqI)
  moreover have "0 < unat n" using n(2) by (simp add: word_less_nat_alt)
  moreover have "unat (n - 1) = unat n - 1" using n(2) by (intro unat_minus_one) auto
  ultimately show ?thesis using n(3) by (simp add: word_less_nat_alt word_le_nat_alt)
qed

lemma nets_ok_empty [simp]: "nets_ok (empty_nets b l)"
  by (simp add: nets_ok_def empty_nets_def)

lemma nets_frame [simp]:
  "Subnet (snd (nets_Add a s)) = Subnet s" "Limit (snd (nets_Add a s)) = Limit s"
  "Subnet (nets_Remove a s) = Subnet s" "Limit (nets_Remove a s) = Limit s"
  "Subnet (empty_nets b l) = b" "Limit (empty_nets b l) = l"
  by (auto simp: nets_Add_def nets_Remove_def empty_nets_def Let_def split: option.split)

lemma net_key_Subnet: "Subnet s = Subnet s' \<Longrightarrow> net_key s = net_key s'"
  unfolding net_key_def by (simp cong: if_cong)

lemma nets_ok_Add: "nets_ok s \<Longrightarrow> nets_ok (snd (nets_Add a s))"
  by (auto simp: nets_ok_def nets_Add_def Let_def word_Suc)

lemma nets_ok_Remove:
  assumes "nets_ok s"
  shows "nets_ok (nets_Remove a s)"
  using assms by (auto simp: nets_ok_def nets_Remove_def Let_def split: option.split dest: word_pred)

lemma count_Add:
  "count_of (snd (nets_Add a s)) k =
     (if fst (nets_Add a s) \<and> k = net_key s a then count_of s k + 1 else count_of s k)"
  by (simp add: nets_Add_def count_of_def Let_def)

lemma fst_nets_Add: "fst (nets_Add a s) \<longleftrightarrow> count_of s (net_key s a) < Limit s"
  by (simp add: nets_Add_def Let_def)

lemma count_Remove:
  assumes "nets_ok s"
  shows "count_of (nets_Remove a s) k =
     (if k = net_key s a \<and> count_of s k \<noteq> 0 then count_of s k - 1 else count_of s k)"
  using count_bounds(2) [OF assms, of "net_key s a"]
  by (auto simp: nets_Remove_def count_of_def Let_def split: option.split)

subsection \<open>Keys are networks\<close>

definition valid_ip :: "ip \<Rightarrow> bool" where
  "valid_ip a \<longleftrightarrow> length a = 4 \<or> length a = 16"

lemma To4_length: "To4 a = Some x \<Longrightarrow> length x = 4"
  by (auto simp: To4_def split: if_splits)

lemma sameNet_key:
  assumes "length x = length y" "bits \<le> 8 * length x"
  shows "sameNet bits x y = Ok (
    take (bits div 8) x @ (if bits div 8 < length x \<and> tail_mask bits \<noteq> 0 then [x ! (bits div 8) AND tail_mask bits] else []) =
    take (bits div 8) y @ (if bits div 8 < length y \<and> tail_mask bits \<noteq> 0 then [y ! (bits div 8) AND tail_mask bits] else []))"
  using assms by (auto simp: sameNet_def Let_def)

lemma net_key_split:
  "net_key s a = (case To4 a of
     Some x \<Rightarrow> 52 # take (min (Subnet s) 32 div 8) x @
       (if min (Subnet s) 32 div 8 < 4 \<and> tail_mask (min (Subnet s) 32) \<noteq> 0
        then [x ! (min (Subnet s) 32 div 8) AND tail_mask (min (Subnet s) 32)] else [])
   | None \<Rightarrow> 54 # take (min (Subnet s) (8 * length a) div 8) a @
       (if min (Subnet s) (8 * length a) div 8 < length a \<and> tail_mask (min (Subnet s) (8 * length a)) \<noteq> 0
        then [a ! (min (Subnet s) (8 * length a) div 8) AND tail_mask (min (Subnet s) (8 * length a))] else []))"
  by (auto simp: net_key_def Let_def min_def mult.commute dest: To4_length split: option.split)

text \<open>
  Two valid addresses share a counter of a set exactly if \<open>SameNet\<close> finds them in one network of
  the set's prefix length.
\<close>

theorem key_is_network:
  assumes "valid_ip a" "valid_ip b" "Subnet s \<le> 32"
  shows "SameNet (Subnet s) a b = Ok (net_key s a = net_key s b)"
proof -
  have n: "To4 a = None \<Longrightarrow> length a = 16" "To4 b = None \<Longrightarrow> length b = 16"
    using assms(1,2) by (auto simp: valid_ip_def To4_def)
  have t: "length a = 16 \<Longrightarrow> To16 a = Some a" "length b = 16 \<Longrightarrow> To16 b = Some b" by (simp_all add: To16_def)
  show ?thesis
    using assms(3) n t To4_length [of a] To4_length [of b]
    by (cases "To4 a"; cases "To4 b")
      (simp_all add: SameNet_def net_key_split sameNet_key min_absorb1)
qed

theorem key_is_network_witness:
  "SameNet 24 [8, 8, 8, 8] [8, 8, 8, 9] = Ok True \<and> net_key (empty_nets 24 2) [8, 8, 8, 8] = net_key (empty_nets 24 2) [8, 8, 8, 9]"
proof -
  have "net_key (empty_nets 24 2) [8, 8, 8, 8] = net_key (empty_nets 24 2) [8, 8, 8, 9]"
    by (simp add: net_key_def empty_nets_def To4_def tail_mask_def)
  with key_is_network [of "[8, 8, 8, 8]" "[8, 8, 8, 9]" "empty_nets 24 2"] show ?thesis
    by (simp add: valid_ip_def)
qed

end
