(* ===== verification/Enr.thy ===== *)
theory Enr
  imports Netutil "HOL-Library.Char_ord" "HOL-Library.List_Lexorder"
begin

text \<open>
  Node records, after \<^verbatim>\<open>net/rlpx/p2p/enr/enr.go\<close> and \<^verbatim>\<open>entries.go\<close>: a sequence number, a signature and
  key/value pairs sorted by key. The RLP codec is a package outside the repository and a parameter
  of the model.
\<close>

section \<open>Binary search of the standard library\<close>

text \<open>\<open>sort.Search(n, f)\<close>: its loop from \<open>i\<close> and \<open>j\<close>.\<close>

function search_loop :: "(nat \<Rightarrow> bool) \<Rightarrow> nat \<Rightarrow> nat \<Rightarrow> nat" where
  "search_loop f i j = (if i < j then let h = (i + j) div 2 in
     if \<not> f h then search_loop f (h + 1) j else search_loop f i h else i)"
  by auto
termination by (relation "measure (\<lambda>(f, i, j). j - i)") (auto simp: Let_def)

declare search_loop.simps [simp del]

definition sort_Search :: "nat \<Rightarrow> (nat \<Rightarrow> bool) \<Rightarrow> nat" where
  "sort_Search n f = search_loop f 0 n"

lemma search_loop_spec:
  assumes "i \<le> j" "\<And>x y. x \<le> y \<Longrightarrow> y < n \<Longrightarrow> f x \<Longrightarrow> f y" "j \<le> n"
    and "\<And>x. x < i \<Longrightarrow> \<not> f x" "\<And>x. j \<le> x \<Longrightarrow> x < n \<Longrightarrow> f x"
  shows "search_loop f i j \<le> j \<and> (\<forall>x < search_loop f i j. \<not> f x) \<and> (\<forall>x. search_loop f i j \<le> x \<longrightarrow> x < n \<longrightarrow> f x)"
  using assms
proof (induction f i j rule: search_loop.induct)
  case (1 f i j)
  show ?case
  proof (cases "i < j")
    case True
    let ?h = "(i + j) div 2"
    have h: "i \<le> ?h" "?h < j" using True by linarith+
    show ?thesis
    proof (cases "f ?h")
      case True
      have "search_loop f i ?h \<le> ?h \<and> (\<forall>x < search_loop f i ?h. \<not> f x) \<and> (\<forall>x. search_loop f i ?h \<le> x \<longrightarrow> x < n \<longrightarrow> f x)"
        using h True 1(4-7) by (intro 1(2)) (auto intro: 1(4) [OF _ _ True])
      with \<open>i < j\<close> True h show ?thesis by (subst (1 2 3) search_loop.simps) (simp add: Let_def)
    next
      case False
      have "\<not> f x" if "x < ?h + 1" for x
        using that False 1(4) [of x ?h] h 1(5) by fastforce
      then have "search_loop f (?h + 1) j \<le> j \<and> (\<forall>x < search_loop f (?h + 1) j. \<not> f x) \<and>
          (\<forall>x. search_loop f (?h + 1) j \<le> x \<longrightarrow> x < n \<longrightarrow> f x)"
        using h False \<open>i < j\<close> 1(4-7) by (intro 1(1)) auto
      with \<open>i < j\<close> False show ?thesis by (subst (1 2 3) search_loop.simps) (simp add: Let_def)
    qed
  next
    case False
    then show ?thesis using 1(3,6,7) by (subst (1 2 3) search_loop.simps) auto
  qed
qed

lemma sort_Search_spec:
  assumes "\<And>x y. x \<le> y \<Longrightarrow> y < n \<Longrightarrow> f x \<Longrightarrow> f y"
  shows "sort_Search n f \<le> n" "x < sort_Search n f \<Longrightarrow> \<not> f x" "sort_Search n f \<le> x \<Longrightarrow> x < n \<Longrightarrow> f x"
  using search_loop_spec [of 0 n n f] assms unfolding sort_Search_def by auto

text \<open>On a list sorted for the test, it is the number of elements that fail the test.\<close>

lemma sort_Search_takeWhile:
  assumes "\<And>i j. i \<le> j \<Longrightarrow> j < length xs \<Longrightarrow> P (xs ! i) \<Longrightarrow> P (xs ! j)"
  shows "sort_Search (length xs) (\<lambda>i. P (xs ! i)) = length (takeWhile (\<lambda>x. \<not> P x) xs)"
proof -
  let ?s = "sort_Search (length xs) (\<lambda>i. P (xs ! i))"
  have s: "?s \<le> length xs" by (rule sort_Search_spec(1)) (erule (2) assms)
  have f: "\<not> P (xs ! x)" if "x < ?s" for x
    using that by (rule sort_Search_spec(2) [rotated]) (erule (2) assms)
  have t: "P (xs ! x)" if "?s \<le> x" "x < length xs" for x
    using that by (rule sort_Search_spec(3) [rotated]) (erule (2) assms)
  have "takeWhile (\<lambda>x. \<not> P x) xs = take ?s xs"
  proof (rule takeWhile_eq_take_P_nth)
    show "\<not> P (xs ! i)" if "i < ?s" for i using that by (rule f)
    show "\<not> \<not> P (xs ! ?s)" if "?s < length xs" using t [OF order.refl that] by blast
  qed
  then show ?thesis by (simp only: length_take min_absorb2 [OF s])
qed

section \<open>Records\<close>

text \<open>What is handed to the encoder: byte slices, integers, strings and values encoded before.\<close>

datatype elem = EBytes bytes | EUint u64 | EString string | ERaw bytes

text \<open>
  The codec: \<open>EncodeToBytes\<close> of a list, the contents of an encoded list, the first item of contents
  and the rest, and the decoders of single items.
\<close>

record rlp_lib =
  EncodeToBytes :: "elem list \<Rightarrow> bytes res"
  rlp_List :: "bytes \<Rightarrow> bytes res"
  rlp_Next :: "bytes \<Rightarrow> (bytes \<times> bytes) res"
  rlp_bytes :: "bytes \<Rightarrow> bytes res"
  rlp_uint :: "bytes \<Rightarrow> u64 res"
  rlp_string :: "bytes \<Rightarrow> string res"

type_synonym pair = "string \<times> bytes"

record Record =
  r_seq :: u64
  r_signature :: "bytes option"
  r_raw :: "bytes option"
  r_pairs :: "pair list"

definition empty_Record :: Record where
  "empty_Record = \<lparr>r_seq = 0, r_signature = None, r_raw = None, r_pairs = []\<rparr>"

definition SizeLimit :: nat where "SizeLimit = 300"

definition SetSeq :: "u64 \<Rightarrow> Record \<Rightarrow> Record" where
  "SetSeq s r = r\<lparr>r_signature := None, r_raw := None, r_seq := s\<rparr>"

text \<open>\<open>sort.Search(len(pairs), func(i) { return pairs[i].k >= key })\<close>.\<close>

definition pair_index :: "string \<Rightarrow> pair list \<Rightarrow> nat" where
  "pair_index k ps = sort_Search (length ps) (\<lambda>i. fst (ps ! i) \<ge> k)"

text \<open>\<open>dec\<close> is \<open>rlp.DecodeBytes\<close> into the entry.\<close>

definition Load :: "string \<Rightarrow> (bytes \<Rightarrow> 'v res) \<Rightarrow> Record \<Rightarrow> 'v res" where
  "Load k dec r = (let i = pair_index k (r_pairs r) in
     if i < length (r_pairs r) \<and> fst (r_pairs r ! i) = k then dec (snd (r_pairs r ! i))
     else Err ''no such key in record'')"

definition r_invalidate :: "Record \<Rightarrow> Record" where
  "r_invalidate r = r\<lparr>r_seq := (if r_signature r \<noteq> None then r_seq r + 1 else r_seq r), r_signature := None, r_raw := None\<rparr>"

text \<open>\<open>blob\<close> is what the encoder returns for the entry; an error there is a panic.\<close>

definition Set_entry :: "string \<Rightarrow> bytes res \<Rightarrow> Record \<Rightarrow> Record res" where
  "Set_entry k blob r = (case blob of
     Ok v \<Rightarrow> (let r = r_invalidate r; ps = r_pairs r; i = pair_index k ps in
       Ok (r\<lparr>r_pairs :=
         if i < length ps \<and> fst (ps ! i) = k then ps[i := (fst (ps ! i), v)]
         else if i < length ps then take i ps @ (k, v) # drop i ps
         else ps @ [(k, v)]\<rparr>))
   | _ \<Rightarrow> Panic)"

definition AppendElements :: "Record \<Rightarrow> elem list \<Rightarrow> elem list" where
  "AppendElements r es = es @ EUint (r_seq r) # concat (map (\<lambda>(k, v). [EString k, ERaw v]) (r_pairs r))"

definition r_encode :: "rlp_lib \<Rightarrow> bytes \<Rightarrow> Record \<Rightarrow> bytes res" where
  "r_encode L sig r = res_bind (EncodeToBytes L (AppendElements r [EBytes sig])) (\<lambda>raw.
     if length raw > SizeLimit then Err ''record bigger than 300 bytes'' else Ok raw)"

definition EncodeRLP :: "Record \<Rightarrow> bytes res" where
  "EncodeRLP r = (if r_signature r = None then Err ''can't encode unsigned record''
     else Ok (case r_raw r of Some b \<Rightarrow> b | None \<Rightarrow> []))"

subsection \<open>Identity schemes\<close>

record IdentityScheme =
  Verify :: "Record \<Rightarrow> bytes option \<Rightarrow> unit res"
  NodeAddr :: "Record \<Rightarrow> bytes"

definition IdentityScheme_of :: "(bytes \<Rightarrow> string res) \<Rightarrow> Record \<Rightarrow> string" where
  "IdentityScheme_of dec r = (case Load ''id'' dec r of Ok s \<Rightarrow> s | _ \<Rightarrow> [])"

text \<open>A registry of schemes, itself a scheme.\<close>

definition SchemeMap :: "(bytes \<Rightarrow> string res) \<Rightarrow> (string \<rightharpoonup> IdentityScheme) \<Rightarrow> IdentityScheme" where
  "SchemeMap dec m = \<lparr>
     Verify = (\<lambda>r sig. case m (IdentityScheme_of dec r) of
        None \<Rightarrow> Err ''invalid signature on node record'' | Some s \<Rightarrow> Verify s r sig),
     NodeAddr = (\<lambda>r. case m (IdentityScheme_of dec r) of None \<Rightarrow> [] | Some s \<Rightarrow> NodeAddr s r)\<rparr>"

definition VerifySignature :: "IdentityScheme \<Rightarrow> Record \<Rightarrow> unit res" where
  "VerifySignature s r = Verify s r (r_signature r)"

definition SetSig :: "rlp_lib \<Rightarrow> IdentityScheme option \<Rightarrow> bytes option \<Rightarrow> Record \<Rightarrow> Record res" where
  "SetSig L s sig r = (case (s, sig) of
     (None, Some _) \<Rightarrow> Panic
   | (Some _, None) \<Rightarrow> Panic
   | (Some sch, Some b) \<Rightarrow> res_bind (Verify sch r sig) (\<lambda>_.
       res_bind (r_encode L b r) (\<lambda>raw. Ok (r\<lparr>r_signature := sig, r_raw := Some raw\<rparr>)))
   | (None, None) \<Rightarrow> Ok (r\<lparr>r_signature := None, r_raw := None\<rparr>))"

subsection \<open>Decoding\<close>

text \<open>
  The loop over the pairs: contents left to read, previous key (none before the first pair), pairs
  read. Every item takes at least a byte, so the length of the contents is enough for the number of
  rounds.
\<close>

fun decode_pairs :: "rlp_lib \<Rightarrow> nat \<Rightarrow> bytes \<Rightarrow> string option \<Rightarrow> pair list \<Rightarrow> (bytes \<times> pair list) res" where
  "decode_pairs L n c prevkey ps =
     (if c = [] then Ok (c, ps)
      else case n of 0 \<Rightarrow> Err ''out of rounds'' | Suc m \<Rightarrow>
        res_bind (rlp_Next L c) (\<lambda>(item, c1).
        res_bind (rlp_string L item) (\<lambda>k.
        if c1 = [] then Err ''record contains incomplete k/v pair''
        else res_bind (rlp_Next L c1) (\<lambda>(v, c2).
        if prevkey = Some k then Err ''record contains duplicate key''
        else if (case prevkey of None \<Rightarrow> False | Some p \<Rightarrow> k < p) then Err ''record key/value pairs are not sorted by key''
        else decode_pairs L m c2 (Some k) (ps @ [(k, v)])))))"

declare decode_pairs.simps [simp del]

text \<open>\<open>raw\<close> is what \<open>s.Raw()\<close> returned; reading past the end of the list is an error.\<close>

definition next_item :: "rlp_lib \<Rightarrow> bytes \<Rightarrow> (bytes \<times> bytes) res" where
  "next_item L c = (if c = [] then Err ''rlp: end of list'' else rlp_Next L c)"

definition decodeRecord :: "rlp_lib \<Rightarrow> bytes \<Rightarrow> Record res" where
  "decodeRecord L raw =
     (if length raw > SizeLimit then Err ''record bigger than 300 bytes''
      else res_bind (rlp_List L raw) (\<lambda>c.
        res_bind (next_item L c) (\<lambda>(i1, c1). res_bind (rlp_bytes L i1) (\<lambda>sig.
        res_bind (next_item L c1) (\<lambda>(i2, c2). res_bind (rlp_uint L i2) (\<lambda>sq.
        res_bind (decode_pairs L (length c2) c2 None []) (\<lambda>(c3, ps).
          if c3 = [] then Ok \<lparr>r_seq = sq, r_signature = Some sig, r_raw = None, r_pairs = ps\<rparr>
          else Err ''rlp: call of ListEnd not positioned at EOL'')))))))"

definition DecodeRLP :: "rlp_lib \<Rightarrow> bytes \<Rightarrow> Record res" where
  "DecodeRLP L raw = res_bind (decodeRecord L raw) (\<lambda>dec. Ok (dec\<lparr>r_raw := Some raw\<rparr>))"

section \<open>Setting and loading\<close>

text \<open>The comment on the field \<open>pairs\<close>: sorted, and no key twice.\<close>

definition sorted_pairs :: "Record \<Rightarrow> bool" where
  "sorted_pairs r \<longleftrightarrow> sorted_wrt (<) (map fst (r_pairs r))"

lemma pair_index_takeWhile:
  fixes ps :: "pair list"
  assumes "sorted_wrt (<) (map fst ps)"
  shows "pair_index k ps = length (takeWhile (\<lambda>p. fst p < k) ps)"
proof -
  have "fst (ps ! i) \<le> fst (ps ! j)" if "i \<le> j" "j < length ps" for i j
    using assms that by (cases "i = j") (auto simp: sorted_wrt_iff_nth_less intro: less_imp_le)
  then have "sort_Search (length ps) (\<lambda>i. k \<le> fst (ps ! i)) = length (takeWhile (\<lambda>p. \<not> k \<le> fst p) ps)"
    by (intro sort_Search_takeWhile) (blast intro: order.trans)
  then show ?thesis unfolding pair_index_def by (simp add: not_le)
qed

lemma nth_takeWhile_head:
  "dropWhile P xs = y # ys \<Longrightarrow> xs ! length (takeWhile P xs) = y \<and> length (takeWhile P xs) < length xs"
  by (induction xs) (auto split: if_splits)

lemma above_head:
  fixes ps :: "pair list"
  assumes "sorted_wrt (<) (map fst (p # ps))" "k \<le> fst p"
  shows "q \<in> set ps \<Longrightarrow> k < fst q" "takeWhile (\<lambda>p. fst p < k) ps = []" "dropWhile (\<lambda>p. fst p \<le> k) ps = ps"
proof -
  show n: "k < fst q" if "q \<in> set ps" for q
    using assms that by (auto dest: order.strict_trans1)
  show "takeWhile (\<lambda>p. fst p < k) ps = []" "dropWhile (\<lambda>p. fst p \<le> k) ps = ps"
    using n by (cases ps; force)+
qed

lemma map_of_sorted:
  fixes ps :: "pair list"
  assumes "sorted_wrt (<) (map fst ps)"
  shows "map_of ps k = (case dropWhile (\<lambda>p. fst p < k) ps of [] \<Rightarrow> None | p # _ \<Rightarrow> if fst p = k then Some (snd p) else None)"
  using assms
proof (induction ps)
  case (Cons p ps)
  have "map_of ps k = None" if "k \<le> fst p" using above_head [OF Cons.prems that] by (fastforce simp: map_of_eq_None_iff)
  with Cons show ?case by (cases p) (auto simp: not_less)
qed simp

text \<open>The search is a lookup in the map of the pairs.\<close>

lemma Load_map_of:
  assumes "sorted_pairs r"
  shows "Load k dec r = (case map_of (r_pairs r) k of None \<Rightarrow> Err ''no such key in record'' | Some v \<Rightarrow> dec v)"
proof (cases "dropWhile (\<lambda>p. fst p < k) (r_pairs r)")
  case Nil
  then have "length (takeWhile (\<lambda>p. fst p < k) (r_pairs r)) = length (r_pairs r)"
    by (metis append_Nil2 takeWhile_dropWhile_id)
  with assms show ?thesis
    by (simp add: Load_def Let_def sorted_pairs_def pair_index_takeWhile map_of_sorted Nil del: dropWhile_eq_Nil_conv)
next
  case (Cons p ps)
  with nth_takeWhile_head [OF Cons] assms show ?thesis
    by (simp add: Load_def Let_def sorted_pairs_def pair_index_takeWhile map_of_sorted)
qed

lemma take_drop_While:
  "take (length (takeWhile P xs)) xs = takeWhile P xs" "drop (length (takeWhile P xs)) xs = dropWhile P xs"
  by (induction xs) auto

lemma upd_head:
  "dropWhile P xs = y # ys \<Longrightarrow> xs[length (takeWhile P xs) := z] = takeWhile P xs @ z # ys"
  by (induction xs) (auto split: if_splits)

lemma Set_entry_eq:
  assumes "sorted_pairs r"
  shows "Set_entry k (Ok v) r = Ok ((r_invalidate r)\<lparr>r_pairs :=
    takeWhile (\<lambda>p. fst p < k) (r_pairs r) @ (k, v) # dropWhile (\<lambda>p. fst p \<le> k) (r_pairs r)\<rparr>)"
proof -
  let ?ps = "r_pairs r" and ?P = "\<lambda>p :: pair. fst p < k"
  have i: "pair_index k ?ps = length (takeWhile ?P ?ps)"
    using assms by (simp add: sorted_pairs_def pair_index_takeWhile)
  have q: "r_pairs (r_invalidate r) = ?ps" by (simp add: r_invalidate_def)
  have d: "dropWhile (\<lambda>p. fst p \<le> k) ?ps = (case dropWhile ?P ?ps of [] \<Rightarrow> [] | p # ps \<Rightarrow> if fst p = k then ps else p # ps)"
    using assms unfolding sorted_pairs_def
  proof (induction "r_pairs r" arbitrary: r)
    case (Cons p ps)
    note IH = Cons.hyps(1) [of "r\<lparr>r_pairs := ps\<rparr>"]
    have "k < fst q" if "q \<in> set ps" "fst p = k" for q using Cons.prems that by (auto simp flip: Cons.hyps(2))
    then have "dropWhile (\<lambda>p. fst p \<le> k) ps = ps" if "fst p = k" using that by (cases ps) force+
    with IH Cons.prems show ?case by (auto simp flip: Cons.hyps(2) split: list.split)
  qed simp
  show ?thesis
  proof (cases "dropWhile ?P ?ps")
    case Nil
    then have t: "takeWhile ?P ?ps = ?ps" by (metis append_Nil2 takeWhile_dropWhile_id)
    show ?thesis by (simp add: Set_entry_def Let_def q i d t Nil del: dropWhile_eq_Nil_conv)
  next
    case (Cons p ps)
    with nth_takeWhile_head [OF Cons] show ?thesis
      by (cases p) (auto simp: Set_entry_def Let_def q i d take_drop_While upd_head [OF Cons])
  qed
qed

lemma sorted_While:
  fixes ps :: "pair list"
  assumes "sorted_wrt (<) (map fst ps)"
  shows "sorted_wrt (<) (map fst (takeWhile (\<lambda>p. fst p < k) ps @ (k, v) # dropWhile (\<lambda>p. fst p \<le> k) ps))"
    and "map_of (takeWhile (\<lambda>p. fst p < k) ps @ (k, v) # dropWhile (\<lambda>p. fst p \<le> k) ps) = (map_of ps)(k \<mapsto> v)"
  using assms
proof (induction ps)
  case (Cons p ps)
  {
    case 1
    have "q \<in> set ps" if "q \<in> set (takeWhile (\<lambda>p. fst p < k) ps) \<union> set (dropWhile (\<lambda>p. fst p \<le> k) ps)" for q
      using that by (auto dest: set_takeWhileD set_dropWhileD)
    with 1 Cons.IH(1) above_head [OF 1, of k] show ?case by (cases "fst p < k") (fastforce simp: not_less)+
  next
    case 2
    with Cons.IH(2) above_head [OF 2, of k] show ?case by (cases p) (auto simp: fun_eq_iff not_less)
  }
qed simp_all

lemma sorted_set:
  assumes "sorted_pairs r" "Set_entry k (Ok v) r = Ok r'"
  shows "sorted_pairs r'" "map_of (r_pairs r') = (map_of (r_pairs r))(k \<mapsto> v)"
  using assms sorted_While [of "r_pairs r" k v] Set_entry_eq [OF assms(1), of k v]
  by (auto simp: sorted_pairs_def)

text \<open>
  Setting an entry of a record keeps its pairs sorted without duplicates; the entry is loaded back,
  every other entry loads as before; the record loses its signature, and its sequence number grows
  by one if it had one. An entry that cannot be encoded is a panic.
\<close>

theorem record_set_load:
  assumes "sorted_pairs r"
  shows "Set_entry k (Err e) r = Panic \<and> (\<exists>r'. Set_entry k (Ok v) r = Ok r' \<and> sorted_pairs r' \<and>
    (\<forall>k'. Load k' dec r' = (if k' = k then dec v else Load k' dec r)) \<and>
    r_signature r' = None \<and> r_seq r' = r_seq r + (if r_signature r = None then 0 else 1))"
proof -
  obtain r' where r': "Set_entry k (Ok v) r = Ok r'" by (simp add: Set_entry_def Let_def)
  then have "r_signature r' = None \<and> r_seq r' = r_seq r + (if r_signature r = None then 0 else 1)"
    by (auto simp: Set_entry_def Let_def r_invalidate_def)
  moreover have "Load k' dec r' = (if k' = k then dec v else Load k' dec r)" for k'
    using sorted_set [OF assms r'] assms by (simp add: Load_map_of)
  ultimately show ?thesis
    using r' sorted_set(1) [OF assms r'] by (auto simp: Set_entry_def)
qed

theorem record_set_load_witness:
  "\<exists>r'. Set_entry ''udp'' (Ok [5]) \<lparr>r_seq = 7, r_signature = Some [], r_raw = None, r_pairs = [(''id'', [1]), (''udp'', [2])]\<rparr> = Ok r' \<and>
     Load ''udp'' Ok r' = Ok [5] \<and> Load ''id'' Ok r' = Ok [1] \<and> r_seq r' = 8"
proof -
  let ?r = "\<lparr>r_seq = 7, r_signature = Some [], r_raw = None, r_pairs = [(''id'', [1]), (''udp'', [2])]\<rparr>"
  have s: "sorted_pairs ?r" by (simp add: sorted_pairs_def less_char_def)
  have "Load ''id'' Ok ?r = Ok [1]" by (simp add: Load_map_of [OF s])
  with record_set_load [OF s, of "''udp''" "[]" "[5]" Ok] show ?thesis by auto
qed

section \<open>Decoding and encoding\<close>

lemma decode_pairs_sorted:
  assumes "decode_pairs L n c q ps = Ok (c', ps')" "sorted_wrt (<) (map fst ps)"
    and "q = (if ps = [] then None else Some (fst (last ps)))"
  shows "sorted_wrt (<) (map fst ps')"
  using assms
proof (induction n arbitrary: c q ps)
  case 0
  then show ?case by (auto simp: decode_pairs.simps split: if_splits)
next
  case (Suc n)
  have snoc: "sorted_wrt (<) (map fst (ps @ [(k, v)]))" if "q \<noteq> Some k" "\<not> (case q of None \<Rightarrow> False | Some p \<Rightarrow> k < p)" for k v
  proof (cases ps rule: rev_cases)
    case (snoc qs p)
    with that Suc.prems(3) have "fst p < k" by (auto simp: not_less)
    with Suc.prems(2) snoc show ?thesis by (auto simp: sorted_wrt_append dest: order.strict_trans)
  qed simp
  from Suc.prems(1,2) show ?case
    by (subst (asm) decode_pairs.simps)
      (auto simp: res_bind_eq_Ok split: if_splits prod.splits dest!: Suc.IH [OF _ snoc])
qed

text \<open>
  What the codec of the library promises: reading an encoded list gives back its elements. A value
  encoded before is written as it is and not looked at, so that holds only if every such value is
  one item; the items that reading returns are.
\<close>

definition is_item :: "rlp_lib \<Rightarrow> bytes \<Rightarrow> bool" where
  "is_item L v \<longleftrightarrow> v \<noteq> [] \<and> rlp_Next L v = Ok (v, [])"

fun reads_as :: "rlp_lib \<Rightarrow> elem \<Rightarrow> bytes \<Rightarrow> bool" where
  "reads_as L (EBytes b) i = (rlp_bytes L i = Ok b)"
| "reads_as L (EUint n) i = (rlp_uint L i = Ok n)"
| "reads_as L (EString s) i = (rlp_string L i = Ok s)"
| "reads_as L (ERaw v) i = (i = v)"

primrec reads_list :: "rlp_lib \<Rightarrow> elem list \<Rightarrow> bytes \<Rightarrow> bool" where
  "reads_list L [] c = (c = [])"
| "reads_list L (e # es) c = (\<exists>i c'. c \<noteq> [] \<and> rlp_Next L c = Ok (i, c') \<and> length c' < length c \<and> reads_as L e i \<and> reads_list L es c')"

definition rlp_laws :: "rlp_lib \<Rightarrow> bool" where
  "rlp_laws L \<longleftrightarrow>
     (\<forall>es raw. (\<forall>v. ERaw v \<in> set es \<longrightarrow> is_item L v) \<longrightarrow> EncodeToBytes L es = Ok raw \<longrightarrow>
        (\<exists>c. rlp_List L raw = Ok c \<and> reads_list L es c)) \<and>
     (\<forall>c i c'. rlp_Next L c = Ok (i, c') \<longrightarrow> is_item L i)"

text \<open>The values of a record's pairs are items; setting an entry to one keeps that.\<close>

definition valid_values :: "rlp_lib \<Rightarrow> Record \<Rightarrow> bool" where
  "valid_values L r \<longleftrightarrow> (\<forall>k v. (k, v) \<in> set (r_pairs r) \<longrightarrow> is_item L v)"

lemma valid_values_set:
  assumes "sorted_pairs r" "valid_values L r" "is_item L v" "Set_entry k (Ok v) r = Ok r'"
  shows "valid_values L r'"
proof -
  have "set (takeWhile P xs) \<subseteq> set xs" "set (dropWhile P xs) \<subseteq> set xs" for P and xs :: "pair list"
    by (meson set_takeWhileD set_dropWhileD subsetI)+
  then have "p = (k, v) \<or> p \<in> set (r_pairs r)" if "p \<in> set (r_pairs r')" for p
    using that assms(4) Set_entry_eq [OF assms(1), of k v] by fastforce
  then show ?thesis using assms(2,3) unfolding valid_values_def by blast
qed

lemma decode_pairs_valid:
  assumes "rlp_laws L" "decode_pairs L n c q ps = Ok (c', ps')" "\<forall>k v. (k, v) \<in> set ps \<longrightarrow> is_item L v"
  shows "\<forall>k v. (k, v) \<in> set ps' \<longrightarrow> is_item L v"
  using assms(2,3)
proof (induction n arbitrary: c q ps)
  case 0
  then show ?case by (auto simp: decode_pairs.simps split: if_splits)
next
  case (Suc n)
  have "is_item L v" if "rlp_Next L c1 = Ok (v, c2)" for c1 v c2
    using assms(1) that unfolding rlp_laws_def by blast
  with Suc.prems show ?case
    by (subst (asm) decode_pairs.simps)
      (force simp: res_bind_eq_Ok split: if_splits prod.splits dest!: Suc.IH)
qed

lemma decode_pairs_reads:
  assumes "reads_list L (concat (map (\<lambda>(k, v). [EString k, ERaw v]) ps)) c" "length c \<le> n"
    and "sorted_wrt (<) (map fst ps)" "\<And>p k. q = Some p \<Longrightarrow> k \<in> fst ` set ps \<Longrightarrow> p < k"
  shows "decode_pairs L n c q qs = Ok ([], qs @ ps)"
  using assms
proof (induction ps arbitrary: n c q qs)
  case Nil
  then show ?case by (simp add: decode_pairs.simps)
next
  case (Cons p ps)
  obtain k v where p: "p = (k, v)" by force
  obtain i1 c1 c2 where c: "c \<noteq> []" "rlp_Next L c = Ok (i1, c1)" "rlp_string L i1 = Ok k" "c1 \<noteq> []" "rlp_Next L c1 = Ok (v, c2)"
    "length c1 < length c" "length c2 < length c1" "reads_list L (concat (map (\<lambda>(k, v). [EString k, ERaw v]) ps)) c2"
    using Cons.prems(1) by (auto simp: p)
  obtain m where m: "n = Suc m" using c(1) Cons.prems(2) by (cases n) auto
  have "decode_pairs L m c2 (Some k) (qs @ [(k, v)]) = Ok ([], (qs @ [(k, v)]) @ ps)"
    using c Cons.prems(2,3) m p by (intro Cons.IH) auto
  moreover have "q \<noteq> Some k" "\<not> (case q of None \<Rightarrow> False | Some p \<Rightarrow> k < p)"
    using Cons.prems(4) p by (auto split: option.splits dest: less_asym)
  ultimately show ?case by (subst decode_pairs.simps) (simp add: m c p)
qed

text \<open>
  C32. A record whose values are each one encoded item, once signed, can be decoded from its encoding,
  with the sequence number, the signature and the pairs it has; and whatever bytes are decoded, a
  record that comes out has sorted pairs without duplicates, values that are each one item and at
  most 300 bytes, and encodes to the bytes it was decoded from.
\<close>

theorem record_roundtrip:
  assumes "rlp_laws L" "sorted_pairs r" "valid_values L r" "SetSig L (Some sch) (Some sig) r = Ok r'"
  shows "(\<exists>raw. EncodeRLP r' = Ok raw \<and> length raw \<le> SizeLimit \<and> DecodeRLP L raw = Ok r' \<and> r_pairs r' = r_pairs r) \<and>
    (\<forall>bs d. DecodeRLP L bs = Ok d \<longrightarrow> sorted_pairs d \<and> valid_values L d \<and> length bs \<le> SizeLimit \<and> EncodeRLP d = Ok bs)"
proof -
  have "sorted_pairs d \<and> valid_values L d \<and> length bs \<le> SizeLimit \<and> EncodeRLP d = Ok bs" if "DecodeRLP L bs = Ok d" for bs d
    using that by (auto simp: DecodeRLP_def decodeRecord_def res_bind_eq_Ok sorted_pairs_def EncodeRLP_def valid_values_def
        split: if_splits prod.splits dest: decode_pairs_sorted decode_pairs_valid [OF assms(1), rule_format])
  moreover have "\<exists>raw. EncodeRLP r' = Ok raw \<and> length raw \<le> SizeLimit \<and> DecodeRLP L raw = Ok r' \<and> r_pairs r' = r_pairs r"
  proof -
    from assms(4) obtain raw where raw: "EncodeToBytes L (AppendElements r [EBytes sig]) = Ok raw" "length raw \<le> SizeLimit"
      and r': "r' = r\<lparr>r_signature := Some sig, r_raw := Some raw\<rparr>"
      by (auto simp: SetSig_def res_bind_eq_Ok r_encode_def split: if_splits)
    have "is_item L v" if "ERaw v \<in> set (AppendElements r [EBytes sig])" for v
      using that assms(3) by (auto simp: AppendElements_def valid_values_def)
    then obtain c where c: "rlp_List L raw = Ok c" "reads_list L (AppendElements r [EBytes sig]) c"
      using assms(1) raw(1) unfolding rlp_laws_def by blast
    then obtain i1 c1 i2 c2 where d: "c \<noteq> []" "rlp_Next L c = Ok (i1, c1)" "rlp_bytes L i1 = Ok sig" "c1 \<noteq> []"
      "rlp_Next L c1 = Ok (i2, c2)" "rlp_uint L i2 = Ok (r_seq r)"
      "reads_list L (concat (map (\<lambda>(k, v). [EString k, ERaw v]) (r_pairs r))) c2"
      by (auto simp: AppendElements_def)
    have "decode_pairs L (length c2) c2 None [] = Ok ([], [] @ r_pairs r)"
      using d(7) assms(2) by (intro decode_pairs_reads) (auto simp: sorted_pairs_def)
    then have "DecodeRLP L raw = Ok r'"
      using raw(2) c(1) d r' by (simp add: DecodeRLP_def decodeRecord_def next_item_def)
    with raw(2) r' show ?thesis by (auto simp: EncodeRLP_def)
  qed
  ultimately show ?thesis by blast
qed

subsection \<open>A concrete codec\<close>

text \<open>
  Items of at most 255 bytes behind a length byte; other values are refused, and values encoded
  before are written as they are.
\<close>

fun sample_item :: "elem \<Rightarrow> bytes res" where
  "sample_item (EBytes b) = (if length b < 256 then Ok (word_of_nat (length b) # b) else Err ''long'')"
| "sample_item (EUint n) = (if unat n < 256 then Ok [1, ucast n] else Err ''large'')"
| "sample_item (EString s) = (if length s < 256 then Ok (word_of_nat (length s) # bytes_of_string s) else Err ''long'')"
| "sample_item (ERaw v) = Ok v"

primrec sample_items :: "elem list \<Rightarrow> bytes res" where
  "sample_items [] = Ok []"
| "sample_items (e # es) = res_bind (sample_item e) (\<lambda>i. res_bind (sample_items es) (\<lambda>c. Ok (i @ c)))"

definition sample_rlp :: rlp_lib where
  "sample_rlp = \<lparr>EncodeToBytes = sample_items, rlp_List = Ok,
     rlp_Next = (\<lambda>c. if c \<noteq> [] \<and> unat (hd c) \<le> length (tl c)
       then Ok (hd c # take (unat (hd c)) (tl c), drop (unat (hd c)) (tl c)) else Err ''EOF''),
     rlp_bytes = (\<lambda>i. Ok (tl i)), rlp_uint = (\<lambda>i. Ok (ucast (hd (tl i)))), rlp_string = (\<lambda>i. Ok (string_of_bytes (tl i)))\<rparr>"

lemma string_bytes: "string_of_bytes (bytes_of_string s) = s"
  by (simp add: string_of_bytes_def bytes_of_string_def o_def unat_of_nat_small)

lemma length_bytes_of_string: "length (bytes_of_string s) = length s"
  by (simp add: bytes_of_string_def)

lemma sample_is_item: "is_item sample_rlp v \<longleftrightarrow> v \<noteq> [] \<and> length (tl v) = unat (hd v)"
  by (cases v) (auto simp: is_item_def sample_rlp_def)

lemma sample_item_reads:
  assumes "sample_item e = Ok i" "\<And>v. e = ERaw v \<Longrightarrow> is_item sample_rlp v"
  shows "\<exists>l b. i = l # b \<and> length b = unat l \<and> reads_as sample_rlp e i"
proof (cases e)
  case (EUint n)
  have "ucast (ucast n :: byte) = n" if "unat n < 256"
    using that by (intro word_unat_eq_iff [THEN iffD2]) (simp add: unsigned_ucast_eq unsigned_take_bit_eq take_bit_nat_eq_self)
  with assms(1) EUint show ?thesis by (auto simp: sample_rlp_def split: if_splits)
next
  case (ERaw v)
  with assms show ?thesis by (cases v) (auto simp: sample_is_item)
qed (use assms(1) in \<open>auto simp: sample_rlp_def string_bytes unat_of_nat_small length_bytes_of_string split: if_splits\<close>)

lemma sample_rlp_laws: "rlp_laws sample_rlp"
proof -
  have "reads_list sample_rlp es c" if "\<forall>v. ERaw v \<in> set es \<longrightarrow> is_item sample_rlp v" "sample_items es = Ok c" for es c
    using that
  proof (induction es arbitrary: c)
    case (Cons e es)
    then obtain i c' where c: "sample_item e = Ok i" "sample_items es = Ok c'" "c = i @ c'" by (auto simp: res_bind_eq_Ok)
    obtain l b where "i = l # b" "length b = unat l" "reads_as sample_rlp e i"
      using sample_item_reads [OF c(1)] Cons.prems(1) by auto
    with c Cons.IH [OF _ c(2)] Cons.prems(1) show ?case by (simp add: sample_rlp_def)
  qed simp
  moreover have "is_item sample_rlp i" if "rlp_Next sample_rlp c = Ok (i, c')" for c i c'
    using that unfolding sample_is_item by (auto simp: sample_rlp_def split: if_splits)
  ultimately show ?thesis unfolding rlp_laws_def by (simp add: sample_rlp_def)
qed

definition sample_scheme :: IdentityScheme where
  "sample_scheme = \<lparr>Verify = (\<lambda>_ _. Ok ()), NodeAddr = (\<lambda>_. replicate 32 0)\<rparr>"

definition sample_record :: Record where
  "sample_record = \<lparr>r_seq = 7, r_signature = None, r_raw = None, r_pairs = [(''id'', [1, 5]), (''udp'', [1, 2])]\<rparr>"

theorem record_roundtrip_witness:
  "\<exists>raw. DecodeRLP sample_rlp raw = Ok (sample_record\<lparr>r_signature := Some [9], r_raw := Some raw\<rparr>)"
proof -
  have s: "sorted_pairs sample_record" by (simp add: sorted_pairs_def sample_record_def less_char_def)
  have v: "valid_values sample_rlp sample_record"
    by (simp add: valid_values_def sample_is_item sample_record_def)
  obtain raw where "SetSig sample_rlp (Some sample_scheme) (Some [9]) sample_record =
      Ok (sample_record\<lparr>r_signature := Some [9], r_raw := Some raw\<rparr>)"
    by (simp add: SetSig_def sample_scheme_def r_encode_def AppendElements_def sample_rlp_def sample_record_def SizeLimit_def
        bytes_of_string_def)
  from record_roundtrip [OF sample_rlp_laws s v this] show ?thesis by (auto simp: EncodeRLP_def)
qed

end
