(* ===== verification/Enode.thy ===== *)
theory Enode
  imports Enr
begin

text \<open>
  Nodes of the peer-to-peer network, after \<^verbatim>\<open>net/rlpx/p2p/enode\<close>: node identifiers and the two
  distances between them (\<^verbatim>\<open>node.go\<close>), the accessors of a node's record, and the identity schemes
  that derive identifiers from records (\<^verbatim>\<open>idscheme.go\<close>, \<^verbatim>\<open>urlv4.go\<close>).
\<close>

section \<open>Identifiers\<close>

text \<open>\<open>type ID [32]byte\<close>: a list of 32 bytes.\<close>

type_synonym ID = bytes

fun DistCmp :: "ID \<Rightarrow> ID \<Rightarrow> ID \<Rightarrow> int" where
  "DistCmp (t # ts) (a # as) (b # bs) = (let da = a XOR t; db = b XOR t in
     if da > db then 1 else if da < db then - 1 else DistCmp ts as bs)"
| "DistCmp _ _ _ = 0"

text \<open>\<open>bits.Len8\<close>: how many bits a number needs; and \<open>bits.LeadingZeros8\<close>.\<close>

fun bits_Len :: "nat \<Rightarrow> nat" where
  "bits_Len n = (if n = 0 then 0 else bits_Len (n div 2) + 1)"

declare bits_Len.simps [simp del]

definition LeadingZeros8 :: "byte \<Rightarrow> nat" where
  "LeadingZeros8 x = 8 - bits_Len (unat x)"

fun leading_zeros :: "ID \<Rightarrow> ID \<Rightarrow> nat" where
  "leading_zeros (a # as) (b # bs) = (let x = a XOR b in
     if x = 0 then 8 + leading_zeros as bs else LeadingZeros8 x)"
| "leading_zeros _ _ = 0"

definition LogDist :: "ID \<Rightarrow> ID \<Rightarrow> nat" where
  "LogDist a b = length a * 8 - leading_zeros a b"

text \<open>\<open>rs\<close> are the bytes drawn; a position outside the array panics.\<close>

definition RandomID :: "bytes \<Rightarrow> ID \<Rightarrow> nat \<Rightarrow> ID res" where
  "RandomID rs a n = (if n = 0 then Ok a else
     let pos = int (length a) - int (n div 8) - 1;
         bit = (if n mod 8 = 0 then 0 else push_bit (n mod 8 - 1) 1) :: byte;
         pos' = (if bit = 0 then pos + 1 else pos); bit' = (if bit = 0 then 0x80 else bit) in
     if pos' < 0 \<or> int (length a) \<le> pos' then Panic
     else let p = nat pos' in
       Ok (take p a @ ((a ! p AND NOT bit') OR (NOT (a ! p) AND bit')) # take (length a - p - 1) rs))"

section \<open>The distances are distances\<close>

text \<open>The big-endian value of the bitwise difference: the metric of Kademlia.\<close>

primrec be_val :: "bytes \<Rightarrow> nat" where
  "be_val [] = 0"
| "be_val (b # bs) = unat b * 256 ^ length bs + be_val bs"

definition xor_dist :: "ID \<Rightarrow> ID \<Rightarrow> nat" where
  "xor_dist a b = be_val (map2 (XOR) a b)"

lemma be_val_less: "be_val bs < 256 ^ length bs"
proof (induction bs)
  case (Cons b bs)
  have "unat b \<le> 255" using unsigned_less [of b, where 'a = nat] by simp
  then have "unat b * 256 ^ length bs \<le> 255 * 256 ^ length bs" by (rule mult_right_mono) simp
  moreover have "256 ^ length (b # bs) = (256 :: nat) * 256 ^ length bs" by simp
  ultimately show ?case using Cons unfolding be_val.simps by linarith
qed simp

lemma be_val_eq: "length as = length bs \<Longrightarrow> be_val as = be_val bs \<longleftrightarrow> as = bs"
proof (induction as bs rule: list_induct2)
  case (Cons a as b bs)
  have "unat a = unat b" if "unat a * 256 ^ length as + be_val as = unat b * 256 ^ length bs + be_val bs"
  proof -
    have "(unat a * 256 ^ length as + be_val as) div 256 ^ length as = unat a"
      "(unat b * 256 ^ length bs + be_val bs) div 256 ^ length bs = unat b"
      using be_val_less [of as] be_val_less [of bs] by simp_all
    with that Cons.hyps show ?thesis by metis
  qed
  with Cons show ?case by (auto simp: word_unat_eq_iff)
qed simp

lemma xor_dist_commute: "length a = length b \<Longrightarrow> xor_dist a b = xor_dist b a"
  unfolding xor_dist_def by (rule arg_cong [where f = be_val])
    (auto intro: nth_equalityI simp: xor.commute)

lemma xor_cancel: "x XOR z = y XOR z \<Longrightarrow> x = (y :: 'a::len word)"
  by (auto simp: bit_eq_iff bit_xor_iff)

lemma xor_dist_inj: "length a = length t \<Longrightarrow> length b = length t \<Longrightarrow> xor_dist a t = xor_dist b t \<longleftrightarrow> a = b"
proof -
  assume l: "length a = length t" "length b = length t"
  have "a = b" if "map2 (XOR) a t = map2 (XOR) b t"
  proof (rule nth_equalityI)
    fix i assume "i < length a"
    with arg_cong [OF that, of "\<lambda>xs. xs ! i"] l have "a ! i XOR t ! i = b ! i XOR t ! i" by simp
    then show "a ! i = b ! i" by (rule xor_cancel)
  qed (use l in simp)
  with l show ?thesis by (auto simp: xor_dist_def be_val_eq)
qed

lemma DistCmp_xor:
  "length a = length t \<Longrightarrow> length b = length t \<Longrightarrow>
   DistCmp t a b = (if xor_dist b t < xor_dist a t then 1 else if xor_dist a t < xor_dist b t then - 1 else 0)"
proof (induction t a b rule: DistCmp.induct)
  case (1 t ts a as b bs)
  let ?m = "256 ^ length ts :: nat"
  have len: "length (map2 (XOR) as ts) = length ts" "length (map2 (XOR) bs ts) = length ts" using 1 by simp_all
  have less: "x * ?m + be_val u < y * ?m + be_val v" if "x < y" "length u = length ts" for x y :: nat and u v
  proof -
    have "x * ?m + be_val u < (x + 1) * ?m" using be_val_less [of u] that(2) by simp
    also have "\<dots> \<le> y * ?m" using that(1) by (intro mult_right_mono) auto
    finally show ?thesis by simp
  qed
  consider "b XOR t < a XOR t" | "a XOR t < b XOR t" | "a XOR t = b XOR t" by force
  then show ?case
  proof cases
    case 1
    then show ?thesis using less [OF _ len(2), of "unat (b XOR t)" "unat (a XOR t)" "map2 (XOR) as ts"] len
      by (simp add: xor_dist_def word_less_nat_alt)
  next
    case 2
    then show ?thesis using less [OF _ len(1), of "unat (a XOR t)" "unat (b XOR t)" "map2 (XOR) bs ts"] len
      by (simp add: xor_dist_def word_less_nat_alt)
  next
    case 3
    with 1 len show ?thesis by (simp add: xor_dist_def)
  qed
qed (auto simp: xor_dist_def)

lemma bits_Len_bounds: "n < 2 ^ bits_Len n \<and> (n \<noteq> 0 \<longrightarrow> 2 ^ (bits_Len n - 1) \<le> n)"
proof (induction n rule: bits_Len.induct)
  case (1 n)
  show ?case
  proof (cases "n = 0")
    case False
    have "2 ^ bits_Len (n div 2) \<le> n"
    proof (cases "n div 2 = 0")
      case True
      with False show ?thesis by (simp add: bits_Len.simps)
    next
      case False
      then have "0 < bits_Len (n div 2)" by (subst bits_Len.simps) simp
      with 1 \<open>n \<noteq> 0\<close> False show ?thesis by (cases "bits_Len (n div 2)") auto
    qed
    with 1 False show ?thesis by (auto simp: bits_Len.simps [of n] bits_Len.simps [of 0])
  qed (simp add: bits_Len.simps)
qed

lemma bits_Len_le: "n < 2 ^ k \<Longrightarrow> bits_Len n \<le> k"
proof (induction k arbitrary: n)
  case 0
  then show ?case by (simp add: bits_Len.simps)
next
  case (Suc k)
  then have "n div 2 < 2 ^ k" by auto
  from Suc.IH [OF this] show ?case by (subst bits_Len.simps) simp
qed

lemma leading_zeros_le: "length a = length b \<Longrightarrow> leading_zeros a b \<le> 8 * length a"
  by (induction a b rule: leading_zeros.induct) (auto simp: LeadingZeros8_def Let_def)

lemma LogDist_bounds:
  "length a = length b \<Longrightarrow> xor_dist a b < 2 ^ LogDist a b \<and> (xor_dist a b \<noteq> 0 \<longrightarrow> 0 < LogDist a b \<and> 2 ^ (LogDist a b - 1) \<le> xor_dist a b)"
proof (induction a b rule: leading_zeros.induct)
  case (1 a as b bs)
  let ?x = "a XOR b" and ?m = "256 ^ length as :: nat" and ?r = "be_val (map2 (XOR) as bs)"
  have m: "?m = 2 ^ (8 * length as)" by (simp add: power_mult)
  have r: "?r < ?m" using be_val_less [of "map2 (XOR) as bs"] 1 by simp
  show ?case
  proof (cases "?x = 0")
    case True
    then have "LogDist (a # as) (b # bs) = LogDist as bs" by (simp add: LogDist_def)
    with 1 True show ?thesis by (simp add: xor_dist_def)
  next
    case False
    have "unat ?x < 2 ^ 8" using unsigned_less [of ?x, where 'a = nat] by simp
    then have l: "bits_Len (unat ?x) \<le> 8" by (rule bits_Len_le)
    have z: "unat ?x \<noteq> 0" using False by (simp add: unat_eq_0)
    then have p: "0 < bits_Len (unat ?x)" by (subst bits_Len.simps) simp
    have d: "LogDist (a # as) (b # bs) = bits_Len (unat ?x) + 8 * length as"
      using False l by (simp add: LogDist_def LeadingZeros8_def)
    have v: "xor_dist (a # as) (b # bs) = unat ?x * ?m + ?r" using 1 by (simp add: xor_dist_def)
    have "unat ?x * ?m + ?r < (unat ?x + 1) * ?m" using r by simp
    also have "\<dots> \<le> 2 ^ bits_Len (unat ?x) * ?m" using bits_Len_bounds [of "unat ?x"] by (intro mult_right_mono) auto
    finally have "xor_dist (a # as) (b # bs) < 2 ^ LogDist (a # as) (b # bs)" unfolding v d m by (simp add: power_add)
    moreover have "2 ^ (bits_Len (unat ?x) - 1) * ?m \<le> unat ?x * ?m"
      using bits_Len_bounds [of "unat ?x"] z by (intro mult_right_mono) simp_all
    moreover have "2 ^ (LogDist (a # as) (b # bs) - 1) = 2 ^ (bits_Len (unat ?x) - 1) * ?m"
      unfolding d m using p by (simp flip: power_add)
    moreover have "0 < LogDist (a # as) (b # bs)" using p d by simp
    ultimately show ?thesis unfolding v by linarith
  qed
qed (auto simp: xor_dist_def LogDist_def)

lemma LogDist_self: "LogDist a a = 0"
proof -
  have "leading_zeros a a = length a * 8" by (induction a) simp_all
  then show ?thesis by (simp add: LogDist_def)
qed

text \<open>
  On identifiers of one length, \<open>DistCmp\<close> compares the distances to the target as numbers, and \<open>LogDist\<close> is
  the number of bits of the distance: zero exactly for equal identifiers, and symmetric.
\<close>

theorem distances_are_xor:
  assumes "length a = length t" "length b = length t"
  shows "DistCmp t a b = (if xor_dist b t < xor_dist a t then 1 else if xor_dist a t < xor_dist b t then - 1 else 0) \<and>
    (DistCmp t a b = 0 \<longleftrightarrow> a = b) \<and> xor_dist a t < 2 ^ LogDist a t \<and>
    (a \<noteq> t \<longrightarrow> 2 ^ (LogDist a t - 1) \<le> xor_dist a t) \<and> (LogDist a t = 0 \<longleftrightarrow> a = t) \<and> LogDist a t = LogDist t a"
proof -
  have z: "xor_dist t t = 0" unfolding xor_dist_def by (induction t) auto
  have i: "xor_dist a t = xor_dist b t \<longleftrightarrow> a = b" "xor_dist a t = 0 \<longleftrightarrow> a = t"
    using xor_dist_inj [OF assms] xor_dist_inj [OF assms(1) refl] z by simp_all
  have "leading_zeros a t = leading_zeros t a" by (induction a t rule: leading_zeros.induct) (auto simp: xor.commute Let_def)
  then have "LogDist a t = LogDist t a" using assms(1) by (simp add: LogDist_def)
  moreover have "xor_dist a t < 2 ^ LogDist a t" "a \<noteq> t \<longrightarrow> 2 ^ (LogDist a t - 1) \<le> xor_dist a t" "LogDist a t = 0 \<longleftrightarrow> a = t"
    using LogDist_bounds [OF assms(1)] i(2) LogDist_self [of t] by auto
  moreover note DistCmp_xor [OF assms]
  moreover have "DistCmp t a b = 0 \<longleftrightarrow> a = b" unfolding DistCmp_xor [OF assms] using i(1) by (auto simp: neq_iff)
  ultimately show ?thesis by blast
qed

theorem distances_are_xor_witness:
  "DistCmp [0, 9] [1, 1] [0, 7] = 1 \<and> xor_dist [0, 7] [0, 9] < xor_dist [1, 1] [0, 9] \<and> LogDist [1, 1] [0, 9] = LogDist [0, 9] [1, 1]"
proof -
  have "DistCmp [0, 9] [1, 1] [0, 7] = (1 :: int)" by simp
  with distances_are_xor [of "[1, 1]" "[0, 9]" "[0, 7]"] show ?thesis by (auto split: if_splits)
qed

lemma bits_Len_power: "bits_Len (2 ^ k) = k + 1"
  by (induction k) (simp_all add: bits_Len.simps [of "2 * 2 ^ _"] bits_Len.simps [of "Suc 0"] bits_Len.simps [of 0])

lemma leading_zeros_prefix:
  "x XOR y \<noteq> 0 \<Longrightarrow> leading_zeros (u @ x # v) (u @ y # w) = 8 * length u + LeadingZeros8 (x XOR y)"
  by (induction u) simp_all

lemma xor_flip: "(x :: 'a::len word) XOR ((x AND NOT m) OR (NOT x AND m)) = m"
  by (auto simp: bit_eq_iff bit_simps)

lemma push_bit_neq0: "k < LENGTH('a) \<Longrightarrow> push_bit k 1 \<noteq> (0 :: 'a::len word)"
  by (auto simp: bit_eq_iff bit_simps intro!: exI [of _ k])

lemma flipped_dist:
  assumes "p < length a" "k < 8" "length w = length a - p - 1"
  shows "LogDist a (take p a @ ((a ! p AND NOT (push_bit k 1)) OR (NOT (a ! p) AND push_bit k 1)) # w) =
    8 * (length a - p) - (7 - k)"
proof -
  have "k = 0 \<or> k = 1 \<or> k = 2 \<or> k = 3 \<or> k = 4 \<or> k = 5 \<or> k = 6 \<or> k = 7" using assms(2) by linarith
  then have u: "unat (push_bit k 1 :: byte) = 2 ^ k" by (elim disjE) simp_all
  then have "push_bit k 1 \<noteq> (0 :: byte)" by (metis power_not_zero unsigned_0 zero_neq_numeral)
  moreover have "a = take p a @ a ! p # drop (Suc p) a" using assms(1) by (rule id_take_nth_drop)
  ultimately have "leading_zeros a (take p a @ ((a ! p AND NOT (push_bit k 1)) OR (NOT (a ! p) AND push_bit k 1)) # w) =
      8 * p + (7 - k)"
    using leading_zeros_prefix [of "a ! p" "(a ! p AND NOT (push_bit k 1)) OR (NOT (a ! p) AND push_bit k 1)" "take p a" "drop (Suc p) a" w]
      assms by (simp add: xor_flip LeadingZeros8_def u bits_Len_power del: push_bit_of_1)
  then show ?thesis using assms(1) by (simp add: LogDist_def)
qed

text \<open>
  \<open>RandomID\<close> draws an identifier at exactly the logarithmic distance asked for, whatever random
  bytes it gets; a distance greater than the number of bits is a panic.
\<close>

theorem RandomID_at_distance:
  assumes "length a = 32" "31 \<le> length rs"
  shows "if n \<le> 256 then \<exists>b. RandomID rs a n = Ok b \<and> length b = 32 \<and> LogDist a b = n else RandomID rs a n = Panic"
proof -
  have len: "length (take q a @ y # take (32 - q - 1) rs) = 32" if "q < 32" for q y
    using assms that by simp
  consider "n = 0" | "256 < n" | "0 < n" "n \<le> 256" "n mod 8 = 0" | "n \<le> 256" "n mod 8 \<noteq> 0" by force
  then show ?thesis
  proof cases
    case 1
    with assms show ?thesis by (simp add: RandomID_def LogDist_self)
  next
    case 2
    then have "n div 8 > 32 \<or> n div 8 = 32 \<and> n mod 8 \<noteq> 0" by presburger
    moreover have "push_bit (n mod 8 - 1) 1 \<noteq> (0 :: byte)" if "n mod 8 \<noteq> 0"
      by (rule push_bit_neq0) simp
    ultimately show ?thesis using 2 assms(1) by (auto simp: RandomID_def Let_def)
  next
    case 3
    let ?p = "32 - n div 8"
    have p: "?p < 32" "0 < n div 8" "n div 8 \<le> 32" using 3 by presburger+
    have b: "RandomID rs a n = Ok (take ?p a @ ((a ! ?p AND NOT (push_bit 7 1)) OR (NOT (a ! ?p) AND push_bit 7 1)) # take (32 - ?p - 1) rs)"
      using 3 p assms(1) by (simp add: RandomID_def Let_def nat_diff_distrib push_bit_eq_mult)
    have d: "LogDist a (take ?p a @ ((a ! ?p AND NOT (push_bit 7 1)) OR (NOT (a ! ?p) AND push_bit 7 1)) # take (32 - ?p - 1) rs) = n"
      using flipped_dist [of ?p a 7 "take (32 - ?p - 1) rs"] p 3 assms by simp presburger
    have n: "n \<le> 256" using 3 by simp
    show ?thesis unfolding if_P [OF n] using b d len [OF p(1)] by blast
  next
    case 4
    let ?p = "31 - n div 8" and ?k = "n mod 8 - 1"
    have p: "?p < 32" "n div 8 \<le> 31" using 4 by presburger+
    have "push_bit ?k 1 \<noteq> (0 :: byte)" by (rule push_bit_neq0) simp
    with 4 p assms(1) have b: "RandomID rs a n = Ok (take ?p a @ ((a ! ?p AND NOT (push_bit ?k 1)) OR (NOT (a ! ?p) AND push_bit ?k 1)) # take (32 - ?p - 1) rs)"
      by (auto simp: RandomID_def Let_def nat_diff_distrib)
    have d: "LogDist a (take ?p a @ ((a ! ?p AND NOT (push_bit ?k 1)) OR (NOT (a ! ?p) AND push_bit ?k 1)) # take (32 - ?p - 1) rs) = n"
      using flipped_dist [of ?p a ?k "take (32 - ?p - 1) rs"] p 4 assms by simp
    have n: "n \<le> 256" using 4 by simp
    show ?thesis unfolding if_P [OF n] using b d len [OF p(1)] by blast
  qed
qed

theorem RandomID_at_distance_witness:
  "\<exists>b. RandomID (replicate 31 7) (replicate 32 0) 200 = Ok b \<and> LogDist (replicate 32 0) b = 200"
  using RandomID_at_distance [of "replicate 32 0" "replicate 31 7" 200] by auto

section \<open>Nodes\<close>

text \<open>
  The functions of packages outside the repository that a node's record goes through: decoding and
  encoding of the entries, \<open>Keccak256\<close>, and the operations on secp256k1 keys. A public key is its
  64 bytes X and Y.
\<close>

record enode_lib = rlp_lib +
  dec_ip :: "bytes \<Rightarrow> ip res"
  dec_port :: "bytes \<Rightarrow> u16 res"
  dec_blob :: "bytes \<Rightarrow> bytes res"
  dec_name :: "bytes \<Rightarrow> string res"
  enc_ip :: "ip \<Rightarrow> bytes res"
  enc_port :: "u16 \<Rightarrow> bytes res"
  enc_blob :: "bytes \<Rightarrow> bytes res"
  enc_name :: "string \<Rightarrow> bytes res"
  Keccak256 :: "bytes \<Rightarrow> bytes"
  CompressPubkey :: "bytes \<Rightarrow> bytes"
  DecompressPubkey :: "bytes \<Rightarrow> bytes res"
  sign_hash :: "bytes \<Rightarrow> bytes \<Rightarrow> bytes res"
  VerifySig :: "bytes \<Rightarrow> bytes \<Rightarrow> bytes \<Rightarrow> bool"
  pubkey_of :: "bytes \<Rightarrow> bytes"
  IsOnCurve :: "bytes \<Rightarrow> bool"

record Node =
  n_r :: Record
  n_id :: ID

text \<open>\<open>IP.DecodeRLP\<close> of \<^verbatim>\<open>entries.go\<close>: the error, and the value it has stored by then.\<close>

definition IP_DecodeRLP :: "enode_lib \<Rightarrow> bytes \<Rightarrow> ip \<times> unit res" where
  "IP_DecodeRLP L v = (case dec_ip L v of
     Ok a \<Rightarrow> (a, if length a \<noteq> 4 \<and> length a \<noteq> 16 then Err ''invalid IP address, want 4 or 16 bytes'' else Ok ())
   | Err e \<Rightarrow> ([], Err e) | Panic \<Rightarrow> ([], Panic))"

definition IP_EncodeRLP :: "enode_lib \<Rightarrow> ip \<Rightarrow> bytes res" where
  "IP_EncodeRLP L a = (case To4 a of Some a4 \<Rightarrow> enc_ip L a4 | None \<Rightarrow> enc_ip L a)"

definition Secp256k1_DecodeRLP :: "enode_lib \<Rightarrow> bytes \<Rightarrow> bytes res" where
  "Secp256k1_DecodeRLP L v = res_bind (dec_blob L v) (DecompressPubkey L)"

definition Secp256k1_EncodeRLP :: "enode_lib \<Rightarrow> bytes \<Rightarrow> bytes res" where
  "Secp256k1_EncodeRLP L k = enc_blob L (CompressPubkey L k)"

text \<open>The accessors ignore the error of \<open>Load\<close>.\<close>

definition IP :: "enode_lib \<Rightarrow> Node \<Rightarrow> ip" where
  "IP L n = (case Load ''ip'' (\<lambda>v. Ok (fst (IP_DecodeRLP L v))) (n_r n) of Ok a \<Rightarrow> a | _ \<Rightarrow> [])"

definition UDP :: "enode_lib \<Rightarrow> Node \<Rightarrow> u16" where
  "UDP L n = (case Load ''udp'' (dec_port L) (n_r n) of Ok p \<Rightarrow> p | _ \<Rightarrow> 0)"

definition TCP :: "enode_lib \<Rightarrow> Node \<Rightarrow> u16" where
  "TCP L n = (case Load ''tcp'' (dec_port L) (n_r n) of Ok p \<Rightarrow> p | _ \<Rightarrow> 0)"

definition Pubkey :: "enode_lib \<Rightarrow> Node \<Rightarrow> bytes option" where
  "Pubkey L n = (case Load ''secp256k1'' (Secp256k1_DecodeRLP L) (n_r n) of Ok k \<Rightarrow> Some k | _ \<Rightarrow> None)"

definition Seq :: "Node \<Rightarrow> u64" where "Seq n = r_seq (n_r n)"

definition Incomplete :: "enode_lib \<Rightarrow> Node \<Rightarrow> bool" where
  "Incomplete L n \<longleftrightarrow> IP L n = []"

definition ValidateComplete :: "enode_lib \<Rightarrow> Node \<Rightarrow> unit res" where
  "ValidateComplete L n =
     (if Incomplete L n then Err ''incomplete node''
      else if UDP L n = 0 then Err ''missing UDP port''
      else if IsMulticast (IP L n) \<or> IsUnspecified (IP L n) then Err ''invalid IP (multicast/unspecified)''
      else res_bind (Load ''secp256k1'' (Secp256k1_DecodeRLP L) (n_r n)) (\<lambda>_. Ok ()))"

text \<open>\<open>copy(node.id[:], addr)\<close> copies at most 32 bytes.\<close>

definition New :: "IdentityScheme \<Rightarrow> Record \<Rightarrow> Node res" where
  "New s r = res_bind (VerifySignature s r) (\<lambda>_.
     if min 32 (length (NodeAddr s r)) \<noteq> 32 then Err ''invalid node ID length''
     else Ok \<lparr>n_r = r, n_id = take 32 (NodeAddr s r)\<rparr>)"

section \<open>Identity schemes\<close>

text \<open>The hash under a signature: of the sequence number and the pairs.\<close>

definition content_hash :: "enode_lib \<Rightarrow> Record \<Rightarrow> bytes" where
  "content_hash L r = Keccak256 L (case EncodeToBytes L (AppendElements r []) of Ok b \<Rightarrow> b | _ \<Rightarrow> [])"

definition V4ID_Verify :: "enode_lib \<Rightarrow> Record \<Rightarrow> bytes option \<Rightarrow> unit res" where
  "V4ID_Verify L r sig = res_bind (Load ''secp256k1'' (dec_blob L) r) (\<lambda>entry.
     if length entry \<noteq> 33 then Err ''invalid public key''
     else if \<not> VerifySig L entry (content_hash L r) (case sig of Some b \<Rightarrow> b | None \<Rightarrow> []) then Err ''invalid signature on node record''
     else Ok ())"

definition V4ID_NodeAddr :: "enode_lib \<Rightarrow> Record \<Rightarrow> bytes" where
  "V4ID_NodeAddr L r = (case Load ''secp256k1'' (Secp256k1_DecodeRLP L) r of Ok k \<Rightarrow> Keccak256 L k | _ \<Rightarrow> [])"

definition V4ID :: "enode_lib \<Rightarrow> IdentityScheme" where
  "V4ID L = \<lparr>Verify = V4ID_Verify L, NodeAddr = V4ID_NodeAddr L\<rparr>"

definition v4CompatID :: "enode_lib \<Rightarrow> IdentityScheme" where
  "v4CompatID L = \<lparr>Verify = (\<lambda>r sig. res_bind (Load ''secp256k1'' (Secp256k1_DecodeRLP L) r) (\<lambda>_. Ok ())),
     NodeAddr = V4ID_NodeAddr L\<rparr>"

definition ValidSchemes :: "enode_lib \<Rightarrow> IdentityScheme" where
  "ValidSchemes L = SchemeMap (dec_name L) [''v4'' \<mapsto> V4ID L]"

text \<open>On an error the record of the caller is unchanged.\<close>

definition SignV4 :: "enode_lib \<Rightarrow> bytes \<Rightarrow> Record \<Rightarrow> Record res" where
  "SignV4 L priv r =
     res_bind (Set_entry ''id'' (enc_name L ''v4'') r) (\<lambda>r1.
     res_bind (Set_entry ''secp256k1'' (Secp256k1_EncodeRLP L (pubkey_of L priv)) r1) (\<lambda>cpy.
     res_bind (sign_hash L (content_hash L cpy) priv) (\<lambda>sig.
     if sig = [] then Panic
     else SetSig (rlp_lib.truncate L) (Some (V4ID L)) (Some (butlast sig)) cpy)))"

definition signV4Compat :: "enode_lib \<Rightarrow> bytes \<Rightarrow> Record \<Rightarrow> Record res" where
  "signV4Compat L pub r =
     res_bind (Set_entry ''secp256k1'' (Secp256k1_EncodeRLP L pub) r) (\<lambda>r1.
     case SetSig (rlp_lib.truncate L) (Some (v4CompatID L)) (Some []) r1 of Ok r2 \<Rightarrow> Ok r2 | _ \<Rightarrow> Panic)"

definition set_if :: "bool \<Rightarrow> string \<Rightarrow> bytes res \<Rightarrow> Record \<Rightarrow> Record res" where
  "set_if c k v r = (if c then Set_entry k v r else Ok r)"

text \<open>The ports are \<open>int\<close>s cut to 16 bits where they are stored.\<close>

definition NewV4 :: "enode_lib \<Rightarrow> bytes \<Rightarrow> ip option \<Rightarrow> int \<Rightarrow> int \<Rightarrow> Node res" where
  "NewV4 L pub a tcp udp =
     res_bind (set_if (a \<noteq> None) ''ip'' (IP_EncodeRLP L (case a of Some x \<Rightarrow> x | None \<Rightarrow> [])) empty_Record) (\<lambda>r1.
     res_bind (set_if (udp \<noteq> 0) ''udp'' (enc_port L (word_of_int udp)) r1) (\<lambda>r2.
     res_bind (set_if (tcp \<noteq> 0) ''tcp'' (enc_port L (word_of_int tcp)) r2) (\<lambda>r3.
     res_bind (signV4Compat L pub r3) (\<lambda>r.
     case New (v4CompatID L) r of Ok n \<Rightarrow> Ok n | _ \<Rightarrow> Panic))))"

definition PubkeyToIDV4 :: "enode_lib \<Rightarrow> bytes \<Rightarrow> ID" where
  "PubkeyToIDV4 L key = Keccak256 L key"

subsection \<open>What a new node says of itself\<close>

text \<open>
  What the packages promise: values are decoded as they were encoded, a point of the curve is
  decompressed from its 33 bytes, and a hash has 32 bytes.
\<close>

definition entry_laws :: "enode_lib \<Rightarrow> bool" where
  "entry_laws L \<longleftrightarrow> (\<forall>a v. enc_ip L a = Ok v \<longrightarrow> dec_ip L v = Ok a) \<and> (\<forall>p v. enc_port L p = Ok v \<longrightarrow> dec_port L v = Ok p) \<and>
     (\<forall>b v. enc_blob L b = Ok v \<longrightarrow> dec_blob L v = Ok b) \<and> (\<forall>s v. enc_name L s = Ok v \<longrightarrow> dec_name L v = Ok s) \<and>
     (\<forall>k. IsOnCurve L k \<longrightarrow> DecompressPubkey L (CompressPubkey L k) = Ok k \<and> length (CompressPubkey L k) = 33) \<and>
     (\<forall>b. length (Keccak256 L b) = 32)"

lemma or_panic_Ok: "(case r of Ok x \<Rightarrow> Ok x | Err e \<Rightarrow> Panic | Panic \<Rightarrow> Panic) = Ok y \<longleftrightarrow> r = Ok y"
  by (cases r) auto

lemma set_if_sorted:
  assumes "sorted_pairs r" "set_if c k v r = Ok r'"
  shows "sorted_pairs r'" "if c then \<exists>b. v = Ok b \<and> map_of (r_pairs r') = (map_of (r_pairs r))(k \<mapsto> b) else r' = r"
proof -
  have "sorted_pairs r' \<and> (if c then \<exists>b. v = Ok b \<and> map_of (r_pairs r') = (map_of (r_pairs r))(k \<mapsto> b) else r' = r)"
  proof (cases c)
    case True
    with assms(2) obtain b where b: "v = Ok b" "Set_entry k (Ok b) r = Ok r'"
      by (cases v) (auto simp: set_if_def Set_entry_def)
    with True show ?thesis using sorted_set [OF assms(1) b(2)] by simp
  qed (use assms in \<open>simp add: set_if_def\<close>)
  then show "sorted_pairs r'" "if c then \<exists>b. v = Ok b \<and> map_of (r_pairs r') = (map_of (r_pairs r))(k \<mapsto> b) else r' = r"
    by simp_all
qed

lemma SetSig_pairs: "SetSig L s sig r = Ok r' \<Longrightarrow> r_pairs r' = r_pairs r"
  by (auto simp: SetSig_def res_bind_eq_Ok split: option.splits)

text \<open>
  A node made from a key, an address and two ports has the identifier of the key and gives back
  the key, the address (an IPv4 address in its short form) and the ports, cut to 16 bits.
\<close>

theorem NewV4_accessors:
  assumes L: "entry_laws L" "IsOnCurve L pub" and n: "NewV4 L pub a tcp udp = Ok n"
  shows "n_id n = PubkeyToIDV4 L pub \<and> length (n_id n) = 32 \<and> Pubkey L n = Some pub \<and>
    IP L n = (case a of None \<Rightarrow> [] | Some x \<Rightarrow> (case To4 x of Some x4 \<Rightarrow> x4 | None \<Rightarrow> x)) \<and>
    UDP L n = word_of_int udp \<and> TCP L n = word_of_int tcp"
proof -
  have s0: "sorted_pairs empty_Record" by (simp add: sorted_pairs_def empty_Record_def)
  obtain r1 r2 r3 r4 where
    r1: "set_if (a \<noteq> None) ''ip'' (IP_EncodeRLP L (case a of Some x \<Rightarrow> x | None \<Rightarrow> [])) empty_Record = Ok r1" and
    r2: "set_if (udp \<noteq> 0) ''udp'' (enc_port L (word_of_int udp)) r1 = Ok r2" and
    r3: "set_if (tcp \<noteq> 0) ''tcp'' (enc_port L (word_of_int tcp)) r2 = Ok r3" and
    r4: "signV4Compat L pub r3 = Ok r4" and r5: "New (v4CompatID L) r4 = Ok n"
    using n by (auto simp: NewV4_def res_bind_eq_Ok or_panic_Ok)
  obtain r3' where r3': "set_if True ''secp256k1'' (Secp256k1_EncodeRLP L pub) r3 = Ok r3'" and p: "r_pairs r4 = r_pairs r3'"
    using r4 by (auto simp: signV4Compat_def set_if_def res_bind_eq_Ok or_panic_Ok dest: SetSig_pairs)
  note f1 = set_if_sorted [OF s0 r1]
  note f2 = set_if_sorted [OF f1(1) r2]
  note f3 = set_if_sorted [OF f2(1) r3]
  note f4 = set_if_sorted [OF f3(1) r3']
  have s: "sorted_pairs r4" using f4(1) p by (simp add: sorted_pairs_def)
  have nr: "n_r n = r4" "n_id n = take 32 (V4ID_NodeAddr L r4)"
    using r5 by (auto simp: New_def res_bind_eq_Ok v4CompatID_def split: if_splits)
  obtain kb where kb: "Secp256k1_EncodeRLP L pub = Ok kb" "map_of (r_pairs r4) = (map_of (r_pairs r3))(''secp256k1'' \<mapsto> kb)"
    using f4(2) p by auto
  have key: "Load ''secp256k1'' (Secp256k1_DecodeRLP L) r4 = Ok pub"
    using kb L by (simp add: Load_map_of [OF s] Secp256k1_EncodeRLP_def Secp256k1_DecodeRLP_def entry_laws_def)
  have t: "map_of (r_pairs r4) ''tcp'' = (if tcp \<noteq> 0 then (case enc_port L (word_of_int tcp) of Ok b \<Rightarrow> Some b | _ \<Rightarrow> None) else None)"
    and u: "map_of (r_pairs r4) ''udp'' = (if udp \<noteq> 0 then (case enc_port L (word_of_int udp) of Ok b \<Rightarrow> Some b | _ \<Rightarrow> None) else None)"
    and i: "map_of (r_pairs r4) ''ip'' = (case a of None \<Rightarrow> None | Some x \<Rightarrow> (case IP_EncodeRLP L x of Ok b \<Rightarrow> Some b | _ \<Rightarrow> None))"
    using f1(2) f2(2) f3(2) unfolding kb(2) by (auto simp: empty_Record_def split: if_splits option.splits)
  have ok: "is_ok (IP_EncodeRLP L x)" if "a = Some x" for x using f1(2) that by auto
  have okt: "tcp \<noteq> 0 \<Longrightarrow> is_ok (enc_port L (word_of_int tcp))" and oku: "udp \<noteq> 0 \<Longrightarrow> is_ok (enc_port L (word_of_int udp))"
    using f2(2) f3(2) by auto
  have "TCP L n = word_of_int tcp" "UDP L n = word_of_int udp"
    using t u okt oku L by (auto simp: TCP_def UDP_def nr Load_map_of [OF s] entry_laws_def is_ok_ex)
  moreover have "IP L n = (case a of None \<Rightarrow> [] | Some x \<Rightarrow> (case To4 x of Some x4 \<Rightarrow> x4 | None \<Rightarrow> x))"
    using i ok L by (auto simp: IP_def nr Load_map_of [OF s] entry_laws_def is_ok_ex IP_EncodeRLP_def IP_DecodeRLP_def split: option.splits)
  ultimately show ?thesis
    using key L nr by (simp add: Pubkey_def V4ID_NodeAddr_def PubkeyToIDV4_def entry_laws_def)
qed

subsection \<open>A concrete library\<close>

definition sample_enode :: enode_lib where
  "sample_enode = rlp_lib.extend sample_rlp (enode_lib.fields
     (\<lambda>v. Ok (tl v)) (\<lambda>v. Ok (ucast (v ! 1) * 256 + ucast (v ! 2))) (\<lambda>v. Ok (tl v)) (\<lambda>v. Ok (string_of_bytes (tl v)))
     (\<lambda>a. sample_item (EBytes a)) (\<lambda>p. if p < 256 then Ok [2, 0, ucast p] else Err ''large'') (\<lambda>b. sample_item (EBytes b))
     (\<lambda>s. sample_item (EString s))
     (\<lambda>b. take 32 (b @ replicate 32 0)) (take 33) (\<lambda>b. Ok (b @ replicate 31 0))
     (\<lambda>h k. Ok (replicate 65 0)) (\<lambda>k h s. True) id (\<lambda>k. length k = 64 \<and> drop 33 k = replicate 31 0))"

lemma sample_entry_laws: "entry_laws sample_enode"
proof -
  have "ucast (ucast p :: byte) = p" if "p < 256" for p :: u16
  proof -
    have "unat p < 256" using that by (simp add: word_less_nat_alt)
    then show ?thesis
      by (intro word_unat_eq_iff [THEN iffD2]) (simp add: unsigned_ucast_eq unsigned_take_bit_eq take_bit_nat_eq_self)
  qed
  moreover have "take 33 k @ replicate 31 0 = k" if "drop 33 k = replicate 31 0" for k :: bytes
    using append_take_drop_id [of 33 k] that by simp
  ultimately show ?thesis
    by (auto simp: entry_laws_def sample_enode_def rlp_lib.defs enode_lib.defs string_bytes split: if_splits)
qed

definition sample_pub :: bytes where
  "sample_pub = replicate 33 7 @ replicate 31 0"

theorem NewV4_accessors_witness:
  "\<exists>n. NewV4 sample_enode sample_pub (Some (v4InV6Prefix @ [10, 1, 2, 3])) 30 31 = Ok n \<and> IP sample_enode n = [10, 1, 2, 3] \<and>
     UDP sample_enode n = 31 \<and> TCP sample_enode n = 30"
proof -
  have p: "IsOnCurve sample_enode sample_pub" by (simp add: sample_enode_def sample_pub_def rlp_lib.defs enode_lib.defs)
  have "is_ok (NewV4 sample_enode sample_pub (Some (v4InV6Prefix @ [10, 1, 2, 3])) 30 31)"
    by (simp add: NewV4_def set_if_def signV4Compat_def Set_entry_eq sorted_pairs_def less_char_def empty_Record_def r_invalidate_def
        sample_enode_def rlp_lib.defs enode_lib.defs IP_EncodeRLP_def To4_def v4InV6Prefix_def Secp256k1_EncodeRLP_def
        sample_pub_def SetSig_def v4CompatID_def Load_map_of Secp256k1_DecodeRLP_def r_encode_def AppendElements_def
        sample_rlp_def bytes_of_string_def SizeLimit_def New_def VerifySignature_def V4ID_NodeAddr_def)
  then obtain n where n: "NewV4 sample_enode sample_pub (Some (v4InV6Prefix @ [10, 1, 2, 3])) 30 31 = Ok n" by (auto simp: is_ok_ex)
  from NewV4_accessors [OF sample_entry_laws p n] n show ?thesis by (simp add: To4_def v4InV6Prefix_def)
qed

end
