(* ===== verification/Kademlia.thy ===== *)
theory Kademlia
  imports Enode "HOL-Library.Multiset"
begin

text \<open>
  The table of known nodes, after \<^verbatim>\<open>net/rlpx/p2p/discover/table.go\<close> and \<^verbatim>\<open>discover/node.go\<close>: buckets
  of nodes by distance with their replacement lists, the limits on addresses of one network, the
  search for the closest nodes and the reading of random ones. Every function here runs under the
  mutex of the table.
\<close>

section \<open>Nodes, buckets and the table\<close>

text \<open>
  A \<open>*node\<close> is a pointer to a value whose \<open>enode.Node\<close> never changes; the two fields that do
  change are kept by the table's record, under the identity of the object.
\<close>

record tnode =
  t_ref :: nat
  t_Node :: Node

abbreviation t_ID :: "tnode \<Rightarrow> ID" where
  "t_ID n \<equiv> n_id (t_Node n)"

abbreviation t_IP :: "enode_lib \<Rightarrow> tnode \<Rightarrow> ip" where
  "t_IP L n \<equiv> IP L (t_Node n)"

definition bucketSize :: nat where "bucketSize = 16"
definition maxReplacements :: nat where "maxReplacements = 10"
definition hashBits :: nat where "hashBits = 32 * 8"
definition nBuckets :: nat where "nBuckets = hashBits div 15"
definition bucketMinDistance :: nat where "bucketMinDistance = hashBits - nBuckets"
definition bucketIPLimit :: u64 where "bucketIPLimit = 2"
definition tableIPLimit :: u64 where "tableIPLimit = 10"

lemmas table_consts = bucketSize_def maxReplacements_def hashBits_def nBuckets_def bucketMinDistance_def
  bucketIPLimit_def tableIPLimit_def

record bucket =
  entries :: "tnode list"
  replacements :: "tnode list"
  b_ips :: DistinctNetSet

record Table =
  buckets :: "bucket list"
  nursery :: "tnode list"
  tab_ips :: DistinctNetSet
  initDone :: bool
  addedAt :: "nat \<Rightarrow> int"
  livenessChecks :: "nat \<Rightarrow> u64"

definition new_bucket :: bucket where
  "new_bucket = \<lparr>entries = [], replacements = [], b_ips = empty_nets 24 bucketIPLimit\<rparr>"

text \<open>\<open>newTable\<close> up to the loading of the seeds; every bootstrap node must be complete.\<close>

definition setFallbackNodes :: "enode_lib \<Rightarrow> tnode list \<Rightarrow> Table \<Rightarrow> Table res" where
  "setFallbackNodes L ns tab =
     (if \<exists>n \<in> set ns. \<not> is_ok (ValidateComplete L (t_Node n)) then Err ''bad bootstrap node''
      else Ok (tab\<lparr>nursery := ns\<rparr>))"

definition newTable :: "enode_lib \<Rightarrow> tnode list \<Rightarrow> Table res" where
  "newTable L bootnodes = setFallbackNodes L bootnodes
     \<lparr>buckets = replicate nBuckets new_bucket, nursery = [], tab_ips = empty_nets 24 tableIPLimit, initDone = False,
      addedAt = (\<lambda>_. 0), livenessChecks = (\<lambda>_. 0)\<rparr>"

text \<open>\<open>bucket(id)\<close>: the index of the bucket in the array.\<close>

definition bucket_of :: "ID \<Rightarrow> ID \<Rightarrow> nat" where
  "bucket_of self x = (let d = LogDist self x in
     if d \<le> bucketMinDistance then 0 else d - bucketMinDistance - 1)"

definition on_bucket :: "nat \<Rightarrow> (bucket \<Rightarrow> bucket) \<Rightarrow> Table \<Rightarrow> Table" where
  "on_bucket bi f tab = tab\<lparr>buckets := (buckets tab)[bi := f (buckets tab ! bi)]\<rparr>"

section \<open>List helpers\<close>

definition contains :: "tnode list \<Rightarrow> ID \<Rightarrow> bool" where
  "contains ns x \<longleftrightarrow> (\<exists>n \<in> set ns. t_ID n = x)"

text \<open>The list and the node that fell off its end; a list of \<open>mx > 0\<close> nodes at most.\<close>

definition pushNode :: "tnode list \<Rightarrow> tnode \<Rightarrow> nat \<Rightarrow> tnode list \<times> tnode option" where
  "pushNode ns n mx = (if length ns < mx then (n # ns, None) else (n # butlast ns, Some (last ns)))"

fun deleteNode :: "tnode list \<Rightarrow> tnode \<Rightarrow> tnode list" where
  "deleteNode [] n = []"
| "deleteNode (x # xs) n = (if t_ID x = t_ID n then xs else x # deleteNode xs n)"

section \<open>Addresses\<close>

definition addIP :: "nat \<Rightarrow> ip \<Rightarrow> Table \<Rightarrow> bool \<times> Table" where
  "addIP bi a tab = (if IsLAN a then (True, tab)
     else case nets_Add a (tab_ips tab) of
       (False, _) \<Rightarrow> (False, tab)
     | (True, ips) \<Rightarrow> (case nets_Add a (b_ips (buckets tab ! bi)) of
         (False, _) \<Rightarrow> (False, tab\<lparr>tab_ips := nets_Remove a ips\<rparr>)
       | (True, bips) \<Rightarrow> (True, on_bucket bi (\<lambda>b. b\<lparr>b_ips := bips\<rparr>) (tab\<lparr>tab_ips := ips\<rparr>))))"

definition removeIP :: "nat \<Rightarrow> ip \<Rightarrow> Table \<Rightarrow> Table" where
  "removeIP bi a tab = (if IsLAN a then tab
     else on_bucket bi (\<lambda>b. b\<lparr>b_ips := nets_Remove a (b_ips b)\<rparr>) (tab\<lparr>tab_ips := nets_Remove a (tab_ips tab)\<rparr>))"

section \<open>Operations on a bucket\<close>

definition addReplacement :: "enode_lib \<Rightarrow> nat \<Rightarrow> tnode \<Rightarrow> Table \<Rightarrow> Table" where
  "addReplacement L bi n tab = (if contains (replacements (buckets tab ! bi)) (t_ID n) then tab
     else case addIP bi (t_IP L n) tab of
       (False, tab1) \<Rightarrow> tab1
     | (True, tab1) \<Rightarrow> (case pushNode (replacements (buckets tab1 ! bi)) n maxReplacements of
         (rs, removed) \<Rightarrow> let tab2 = on_bucket bi (\<lambda>b. b\<lparr>replacements := rs\<rparr>) tab1 in
           (case removed of None \<Rightarrow> tab2 | Some r \<Rightarrow> removeIP bi (t_IP L r) tab2)))"

text \<open>It releases the address also when the node is not in the bucket.\<close>

definition deleteInBucket :: "enode_lib \<Rightarrow> nat \<Rightarrow> tnode \<Rightarrow> Table \<Rightarrow> Table" where
  "deleteInBucket L bi n tab = removeIP bi (t_IP L n) (on_bucket bi (\<lambda>b. b\<lparr>entries := deleteNode (entries b) n\<rparr>) tab)"

text \<open>\<open>pick\<close> is the number \<open>tab.rand.Intn\<close> draws.\<close>

definition replace :: "enode_lib \<Rightarrow> (nat \<Rightarrow> nat) \<Rightarrow> nat \<Rightarrow> tnode \<Rightarrow> Table \<Rightarrow> tnode option \<times> Table" where
  "replace L pick bi l tab = (let b = buckets tab ! bi in
     if entries b = [] \<or> t_ID (last (entries b)) \<noteq> t_ID l then (None, tab)
     else if replacements b = [] then (None, deleteInBucket L bi l tab)
     else let r = replacements b ! pick (length (replacements b)) in
       (Some r, removeIP bi (t_IP L l) (on_bucket bi (\<lambda>b. b\<lparr>replacements := deleteNode (replacements b) r,
          entries := butlast (entries b) @ [r]\<rparr>) tab)))"

text \<open>The index of the first entry with the identifier.\<close>

fun index_of :: "tnode list \<Rightarrow> ID \<Rightarrow> nat option" where
  "index_of [] x = None"
| "index_of (n # ns) x = (if t_ID n = x then Some 0 else map_option Suc (index_of ns x))"

definition to_front :: "nat \<Rightarrow> tnode \<Rightarrow> tnode list \<Rightarrow> tnode list" where
  "to_front i n ns = n # take i ns @ drop (Suc i) ns"

definition bumpInBucket :: "enode_lib \<Rightarrow> nat \<Rightarrow> tnode \<Rightarrow> Table \<Rightarrow> bool \<times> Table" where
  "bumpInBucket L bi n tab = (case index_of (entries (buckets tab ! bi)) (t_ID n) of
     None \<Rightarrow> (False, tab)
   | Some i \<Rightarrow> let old = t_IP L (entries (buckets tab ! bi) ! i);
         move = on_bucket bi (\<lambda>b. b\<lparr>entries := to_front i n (entries b)\<rparr>) in
       if ip_Equal (t_IP L n) old then (True, move tab)
       else case addIP bi (t_IP L n) (removeIP bi old tab) of
         (False, tab1) \<Rightarrow> (False, snd (addIP bi old tab1))
       | (True, tab1) \<Rightarrow> (True, move tab1))"

section \<open>Operations on the table\<close>

text \<open>\<open>now\<close> is what the clock shows.\<close>

definition addSeenNode :: "enode_lib \<Rightarrow> ID \<Rightarrow> int \<Rightarrow> tnode \<Rightarrow> Table \<Rightarrow> Table" where
  "addSeenNode L self now n tab = (if t_ID n = self then tab
     else let bi = bucket_of self (t_ID n); b = buckets tab ! bi in
     if contains (entries b) (t_ID n) then tab
     else if length (entries b) \<ge> bucketSize then addReplacement L bi n tab
     else case addIP bi (t_IP L n) tab of
       (False, tab1) \<Rightarrow> tab1
     | (True, tab1) \<Rightarrow> (on_bucket bi (\<lambda>b. b\<lparr>entries := entries b @ [n], replacements := deleteNode (replacements b) n\<rparr>) tab1)
         \<lparr>addedAt := (addedAt tab1)(t_ref n := now)\<rparr>)"

definition addVerifiedNode :: "enode_lib \<Rightarrow> ID \<Rightarrow> int \<Rightarrow> tnode \<Rightarrow> Table \<Rightarrow> Table" where
  "addVerifiedNode L self now n tab = (if \<not> initDone tab then tab
     else if t_ID n = self then tab
     else let bi = bucket_of self (t_ID n) in
     case bumpInBucket L bi n tab of
       (True, tab1) \<Rightarrow> tab1
     | (False, tab1) \<Rightarrow>
       if length (entries (buckets tab1 ! bi)) \<ge> bucketSize then addReplacement L bi n tab1
       else case addIP bi (t_IP L n) tab1 of
         (False, tab2) \<Rightarrow> tab2
       | (True, tab2) \<Rightarrow> (on_bucket bi (\<lambda>b. b\<lparr>entries := fst (pushNode (entries b) n bucketSize),
             replacements := deleteNode (replacements b) n\<rparr>) tab2)\<lparr>addedAt := (addedAt tab2)(t_ref n := now)\<rparr>)"

definition delete :: "enode_lib \<Rightarrow> ID \<Rightarrow> tnode \<Rightarrow> Table \<Rightarrow> Table" where
  "delete L self n tab = deleteInBucket L (bucket_of self (t_ID n)) n tab"

text \<open>\<open>perm\<close> is the permutation of the bucket indices that is drawn.\<close>

fun nodeToRevalidate :: "Table \<Rightarrow> nat list \<Rightarrow> (tnode \<times> nat) option" where
  "nodeToRevalidate tab [] = None"
| "nodeToRevalidate tab (bi # perm) =
     (if entries (buckets tab ! bi) \<noteq> [] then Some (last (entries (buckets tab ! bi)), bi) else nodeToRevalidate tab perm)"

text \<open>\<open>doRevalidate\<close> after the ping; \<open>alive\<close> says whether a pong came back.\<close>

definition doRevalidate :: "enode_lib \<Rightarrow> (nat \<Rightarrow> nat) \<Rightarrow> bool \<Rightarrow> tnode \<times> nat \<Rightarrow> Table \<Rightarrow> Table" where
  "doRevalidate L pick alive lb tab = (case lb of (l, bi) \<Rightarrow>
     if alive then snd (bumpInBucket L bi l (tab\<lparr>livenessChecks := (livenessChecks tab)(t_ref l := livenessChecks tab (t_ref l) + 1)\<rparr>))
     else snd (replace L pick bi l tab))"

text \<open>\<open>seeds\<close> are the nodes of the database.\<close>

definition loadSeedNodes :: "enode_lib \<Rightarrow> ID \<Rightarrow> int \<Rightarrow> tnode list \<Rightarrow> Table \<Rightarrow> Table" where
  "loadSeedNodes L self now seeds tab = fold (addSeenNode L self now) (seeds @ nursery tab) tab"

definition table_len :: "Table \<Rightarrow> nat" where
  "table_len tab = (\<Sum>b \<leftarrow> buckets tab. length (entries b))"

text \<open>The nodes \<open>copyLiveNodes\<close> writes to the database: alive, and five minutes in the table.\<close>

definition copyLiveNodes :: "int \<Rightarrow> Table \<Rightarrow> Node list" where
  "copyLiveNodes now tab = map t_Node (filter
     (\<lambda>n. livenessChecks tab (t_ref n) > 0 \<and> now - addedAt tab (t_ref n) \<ge> 5 * 60 * 1000000000)
     (concat (map entries (buckets tab))))"

section \<open>The closest nodes\<close>

definition push :: "ID \<Rightarrow> nat \<Rightarrow> tnode \<Rightarrow> tnode list \<Rightarrow> tnode list" where
  "push target maxElems n es = (
     let ix = sort_Search (length es) (\<lambda>i. DistCmp target (t_ID (es ! i)) (t_ID n) > 0) in
     if length es < maxElems then take ix es @ n # drop ix es
     else if ix = length es then es
     else take ix es @ n # butlast (drop ix es))"

definition closest :: "ID \<Rightarrow> nat \<Rightarrow> Table \<Rightarrow> tnode list" where
  "closest target nresults tab = fold (\<lambda>b es. fold (\<lambda>n es.
     if livenessChecks tab (t_ref n) > 0 then push target nresults n es else es) (entries b) es) (buckets tab) []"

section \<open>Random nodes\<close>

text \<open>\<open>swaps\<close> are the numbers drawn for \<open>i = len - 1, ..., 1\<close>.\<close>

fun shuffle :: "nat \<Rightarrow> (nat \<Rightarrow> nat) \<Rightarrow> 'a list \<Rightarrow> 'a list" where
  "shuffle 0 swaps bs = bs"
| "shuffle (Suc i) swaps bs = (let j = swaps (Suc i) in shuffle i swaps (bs[Suc i := bs ! j, j := bs ! Suc i]))"

text \<open>The loop that moves the head of each bucket into the buffer: nodes written and the value of \<open>i\<close> at the end.\<close>

function read_loop :: "nat \<Rightarrow> nat \<Rightarrow> nat \<Rightarrow> tnode list list \<Rightarrow> tnode list \<Rightarrow> tnode list \<times> nat" where
  "read_loop sz i j bs buf = (if i < sz then
     let b = bs ! j; buf' = buf @ [hd b];
         bs' = (if length b = 1 then take j bs @ drop (Suc j) bs else bs[j := tl b]) in
     if bs' = [] then (buf', i) else read_loop sz (i + 1) ((j + 1) mod length bs') bs' buf'
   else (buf, i))"
  by auto
termination by (relation "measure (\<lambda>(sz, i, _). sz - i)") (auto simp: Let_def)

declare read_loop.simps [simp del]

text \<open>The buffer has \<open>sz\<close> places; the result is its written prefix and the number returned.\<close>

definition ReadRandomNodes :: "(nat \<Rightarrow> nat) \<Rightarrow> nat \<Rightarrow> Table \<Rightarrow> tnode list \<times> nat" where
  "ReadRandomNodes swaps sz tab = (if \<not> initDone tab then ([], 0)
     else let bs = filter (\<lambda>es. es \<noteq> []) (map entries (buckets tab)) in
     if bs = [] then ([], 0)
     else case read_loop sz 0 0 (shuffle (length bs - 1) swaps bs) [] of (buf, i) \<Rightarrow> (buf, i + 1))"

section \<open>The invariant of the table\<close>

definition placed :: "ID \<Rightarrow> nat \<Rightarrow> tnode \<Rightarrow> bool" where
  "placed self i n \<longleftrightarrow> t_ID n \<noteq> self \<and> bucket_of self (t_ID n) = i \<and> length (t_ID n) = 32"

definition bucket_ok :: "ID \<Rightarrow> nat \<Rightarrow> bucket \<Rightarrow> bool" where
  "bucket_ok self i b \<longleftrightarrow> length (entries b) \<le> bucketSize \<and> length (replacements b) \<le> maxReplacements \<and>
     distinct (map t_ID (entries b @ replacements b)) \<and> (\<forall>n \<in> set (entries b @ replacements b). placed self i n) \<and>
     nets_ok (b_ips b) \<and> Subnet (b_ips b) = 24 \<and> Limit (b_ips b) = bucketIPLimit"

definition table_ok :: "ID \<Rightarrow> Table \<Rightarrow> bool" where
  "table_ok self tab \<longleftrightarrow> length (buckets tab) = nBuckets \<and> (\<forall>i < nBuckets. bucket_ok self i (buckets tab ! i)) \<and>
     nets_ok (tab_ips tab) \<and> Subnet (tab_ips tab) = 24 \<and> Limit (tab_ips tab) = tableIPLimit"

lemma bucket_of_less: "length self = 32 \<Longrightarrow> bucket_of self x < nBuckets"
  by (auto simp: bucket_of_def LogDist_def Let_def table_consts)

lemma buckets_on_bucket:
  "buckets (on_bucket bi f tab) ! j = (if j = bi \<and> bi < length (buckets tab) then f (buckets tab ! bi) else buckets tab ! j)"
  "length (buckets (on_bucket bi f tab)) = length (buckets tab)"
  by (auto simp: on_bucket_def list_update_beyond)

lemma on_bucket_frame [simp]:
  "tab_ips (on_bucket bi f tab) = tab_ips tab" "nursery (on_bucket bi f tab) = nursery tab"
  "initDone (on_bucket bi f tab) = initDone tab" "livenessChecks (on_bucket bi f tab) = livenessChecks tab"
  "addedAt (on_bucket bi f tab) = addedAt tab"
  by (simp_all add: on_bucket_def)

lemma table_ok_bucket: "table_ok self tab \<Longrightarrow> i < nBuckets \<Longrightarrow> bucket_ok self i (buckets tab ! i)"
  by (simp add: table_ok_def)

lemma table_ok_on_bucket:
  "table_ok self tab \<Longrightarrow> bucket_ok self bi (f (buckets tab ! bi)) \<Longrightarrow> table_ok self (on_bucket bi f tab)"
  by (auto simp: table_ok_def buckets_on_bucket)

lemma table_ok_fields [simp]:
  "table_ok self (tab\<lparr>addedAt := x\<rparr>) = table_ok self tab" "table_ok self (tab\<lparr>livenessChecks := y\<rparr>) = table_ok self tab"
  "table_ok self (tab\<lparr>initDone := z\<rparr>) = table_ok self tab" "table_ok self (tab\<lparr>nursery := u\<rparr>) = table_ok self tab"
  by (simp_all add: table_ok_def)

subsection \<open>Addresses\<close>

text \<open>The nodes of a bucket, and the counters of an address in the table and in a bucket.\<close>

definition lists :: "Table \<Rightarrow> nat \<Rightarrow> tnode list \<times> tnode list" where
  "lists tab i = (entries (buckets tab ! i), replacements (buckets tab ! i))"

definition counts :: "Table \<Rightarrow> nat \<Rightarrow> bytes \<Rightarrow> u64 \<times> u64" where
  "counts tab i k = (count_of (tab_ips tab) k, count_of (b_ips (buckets tab ! i)) k)"

definition key24 :: "ip \<Rightarrow> bytes" where
  "key24 a = net_key (empty_nets 24 0) a"

lemma key24_eq: "Subnet s = 24 \<Longrightarrow> net_key s = key24"
  by (rule ext) (simp add: key24_def net_key_Subnet [of s "empty_nets 24 0"])

lemma bucket_ok_lists:
  "bucket_ok self i b \<Longrightarrow> entries b' = entries b \<Longrightarrow> replacements b' = replacements b \<Longrightarrow> nets_ok (b_ips b') \<Longrightarrow>
     Subnet (b_ips b') = Subnet (b_ips b) \<Longrightarrow> Limit (b_ips b') = Limit (b_ips b) \<Longrightarrow> bucket_ok self i b'"
  by (simp add: bucket_ok_def)

lemma addIP_cases:
  obtains (lan) "IsLAN a" "addIP bi a tab = (True, tab)"
  | (full) "\<not> IsLAN a" "\<not> fst (nets_Add a (tab_ips tab))" "addIP bi a tab = (False, tab)"
  | (crowded) "\<not> IsLAN a" "fst (nets_Add a (tab_ips tab))" "\<not> fst (nets_Add a (b_ips (buckets tab ! bi)))"
      "addIP bi a tab = (False, tab\<lparr>tab_ips := nets_Remove a (snd (nets_Add a (tab_ips tab)))\<rparr>)"
  | (added) "\<not> IsLAN a" "fst (nets_Add a (tab_ips tab))" "fst (nets_Add a (b_ips (buckets tab ! bi)))"
      "addIP bi a tab = (True, on_bucket bi (\<lambda>b. b\<lparr>b_ips := snd (nets_Add a (b_ips (buckets tab ! bi)))\<rparr>)
         (tab\<lparr>tab_ips := snd (nets_Add a (tab_ips tab))\<rparr>))"
  by (cases "nets_Add a (tab_ips tab)"; cases "nets_Add a (b_ips (buckets tab ! bi))";
      cases "fst (nets_Add a (tab_ips tab))"; cases "fst (nets_Add a (b_ips (buckets tab ! bi)))"; cases "IsLAN a")
    (auto simp: addIP_def)

lemma nets_ok_readd: "nets_ok s \<Longrightarrow> nets_ok (nets_Remove a (snd (nets_Add a s)))"
  by (intro nets_ok_Remove nets_ok_Add)

lemma addIP_ok:
  assumes "table_ok self tab" "bi < nBuckets"
  shows "table_ok self (snd (addIP bi a tab))" "lists (snd (addIP bi a tab)) = lists tab"
proof -
  have b: "nets_ok (b_ips (buckets tab ! bi))" "bi < length (buckets tab)"
    using assms by (simp_all add: table_ok_def bucket_ok_def)
  have "table_ok self (snd (addIP bi a tab)) \<and> lists (snd (addIP bi a tab)) = lists tab"
    using assms b
    by (cases rule: addIP_cases [of a bi tab])
      (auto simp: table_ok_def nets_ok_readd nets_ok_Add lists_def fun_eq_iff buckets_on_bucket intro: bucket_ok_lists)
  then show "table_ok self (snd (addIP bi a tab))" "lists (snd (addIP bi a tab)) = lists tab" by simp_all
qed

lemma removeIP_ok:
  assumes "table_ok self tab" "bi < nBuckets"
  shows "table_ok self (removeIP bi a tab)" "lists (removeIP bi a tab) = lists tab"
  using assms unfolding removeIP_def
  by (auto simp: table_ok_def nets_ok_Remove lists_def fun_eq_iff buckets_on_bucket bucket_ok_def)

lemma addIP_frame [simp]:
  "initDone (snd (addIP bi a tab)) = initDone tab" "addedAt (snd (addIP bi a tab)) = addedAt tab"
  "livenessChecks (snd (addIP bi a tab)) = livenessChecks tab" "nursery (snd (addIP bi a tab)) = nursery tab"
  by (cases rule: addIP_cases [of a bi tab]; simp)+

lemma removeIP_frame [simp]:
  "initDone (removeIP bi a tab) = initDone tab" "addedAt (removeIP bi a tab) = addedAt tab"
  "livenessChecks (removeIP bi a tab) = livenessChecks tab" "nursery (removeIP bi a tab) = nursery tab"
  by (simp_all add: removeIP_def)

text \<open>An address is refused exactly if it is not local and one of its counters is at its limit.\<close>

lemma fst_addIP:
  assumes "table_ok self tab" "bi < nBuckets"
  shows "fst (addIP bi a tab) \<longleftrightarrow> IsLAN a \<or> fst (counts tab bi (key24 a)) < tableIPLimit \<and> snd (counts tab bi (key24 a)) < bucketIPLimit"
  using assms
  by (cases rule: addIP_cases [of a bi tab])
    (auto simp: fst_nets_Add counts_def table_ok_def bucket_ok_def key24_eq)

text \<open>A refused address leaves the counters alone, an accepted one does not lower them.\<close>

lemma counts_refused:
  assumes "table_ok self tab" "\<not> fst (addIP bi a tab)"
  shows "counts (snd (addIP bi a tab)) = counts tab"
proof (cases rule: addIP_cases [of a bi tab])
  case crowded
  have "count_of (nets_Remove a (snd (nets_Add a (tab_ips tab)))) k = count_of (tab_ips tab) k" for k
    using crowded(2) word_Suc [of "count_of (tab_ips tab) (net_key (tab_ips tab) a)" "Limit (tab_ips tab)"] assms(1)
    by (auto simp: count_Remove nets_ok_Add table_ok_def count_Add fst_nets_Add net_key_Subnet [of "snd (nets_Add a (tab_ips tab))" "tab_ips tab"])
  with crowded show ?thesis by (simp add: counts_def fun_eq_iff)
qed (use assms in auto)

lemma count_Add_mono:
  "count_of s k \<le> count_of (snd (nets_Add a s)) k"
  using word_Suc [of "count_of s k" "Limit s"] by (auto simp: count_Add fst_nets_Add)

lemma counts_mono:
  assumes "table_ok self tab" "bi < nBuckets"
  shows "fst (counts tab j k) \<le> fst (counts (snd (addIP bi a tab)) j k)" "snd (counts tab j k) \<le> snd (counts (snd (addIP bi a tab)) j k)"
proof -
  have "fst (counts tab j k) \<le> fst (counts (snd (addIP bi a tab)) j k) \<and> snd (counts tab j k) \<le> snd (counts (snd (addIP bi a tab)) j k)"
  proof (cases "fst (addIP bi a tab)")
    case False
    then show ?thesis using counts_refused [OF assms(1)] by simp
  next
    case True
    with assms show ?thesis
      by (cases rule: addIP_cases [of a bi tab]) (auto simp: counts_def buckets_on_bucket count_Add_mono table_ok_def)
  qed
  then show "fst (counts tab j k) \<le> fst (counts (snd (addIP bi a tab)) j k)" "snd (counts tab j k) \<le> snd (counts (snd (addIP bi a tab)) j k)"
    by simp_all
qed

subsection \<open>Lists of nodes\<close>

lemma contains_ids: "contains ns x \<longleftrightarrow> x \<in> t_ID ` set ns"
  by (auto simp: contains_def)

lemma set_deleteNode: "set (deleteNode ns n) \<subseteq> set ns"
  by (induction ns) auto

lemma length_deleteNode: "length (deleteNode ns n) \<le> length ns"
  by (induction ns) auto

lemma ids_deleteNode: "distinct (map t_ID ns) \<Longrightarrow> t_ID ` set (deleteNode ns n) = t_ID ` set ns - {t_ID n}"
proof (induction ns)
  case (Cons x xs)
  then have "t_ID x \<notin> t_ID ` set xs" by simp
  with Cons show ?case by (cases "t_ID x = t_ID n") (simp_all add: insert_Diff_if)
qed simp

lemma distinct_deleteNode: "distinct (map t_ID ns) \<Longrightarrow> distinct (map t_ID (deleteNode ns n))"
proof (induction ns)
  case (Cons x xs)
  have "t_ID x \<notin> t_ID ` set (deleteNode xs n)" using Cons.prems set_deleteNode [of xs n] by auto
  with Cons show ?case by simp
qed simp

lemma index_of_Some: "index_of ns x = Some i \<Longrightarrow> i < length ns \<and> t_ID (ns ! i) = x"
  by (induction ns arbitrary: i) (auto split: if_splits)

lemma index_of_None: "index_of ns x = None \<longleftrightarrow> x \<notin> t_ID ` set ns"
  by (induction ns) auto

lemma mset_to_front:
  assumes "i < length ns" "t_ID (ns ! i) = t_ID n"
  shows "mset (map t_ID (to_front i n ns)) = mset (map t_ID ns)"
proof -
  have "mset (map t_ID (take i ns @ ns ! i # drop (Suc i) ns)) = mset (map t_ID ns)"
    using assms(1) by (simp add: id_take_nth_drop [symmetric])
  then show ?thesis using assms(2) by (simp add: to_front_def)
qed

lemma set_to_front: "set (to_front i n ns) \<subseteq> insert n (set ns)"
  by (auto simp: to_front_def dest: in_set_takeD in_set_dropD)

lemma to_front_facts:
  assumes "i < length ns" "t_ID (ns ! i) = t_ID n"
  shows "length (to_front i n ns) = length ns" "t_ID ` set (to_front i n ns) = t_ID ` set ns"
    "distinct (map t_ID (to_front i n ns)) = distinct (map t_ID ns)"
  using mset_eq_length [OF mset_to_front [OF assms]] mset_eq_setD [OF mset_to_front [OF assms]]
    mset_eq_imp_distinct_iff [OF mset_to_front [OF assms]] by simp_all

lemma bucket_okI:
  assumes "bucket_ok self i b" "b_ips b' = b_ips b" "length (entries b') \<le> bucketSize" "length (replacements b') \<le> maxReplacements"
    and "distinct (map t_ID (entries b'))" "distinct (map t_ID (replacements b'))" "t_ID ` set (entries b') \<inter> t_ID ` set (replacements b') = {}"
    and "\<forall>n \<in> set (entries b') \<union> set (replacements b'). placed self i n"
  shows "bucket_ok self i b'"
  using assms by (auto simp: bucket_ok_def)

lemma bucket_okD:
  assumes "bucket_ok self i b"
  shows "length (entries b) \<le> bucketSize" "length (replacements b) \<le> maxReplacements" "distinct (map t_ID (entries b))"
    "distinct (map t_ID (replacements b))" "t_ID ` set (entries b) \<inter> t_ID ` set (replacements b) = {}"
    "n \<in> set (entries b) \<Longrightarrow> placed self i n" "n \<in> set (replacements b) \<Longrightarrow> placed self i n"
  using assms by (auto simp: bucket_ok_def)

lemma bucket_ok_same:
  "table_ok self tab \<Longrightarrow> i < nBuckets \<Longrightarrow> lists tab = lists tab0 \<Longrightarrow>
     entries (buckets tab ! i) = entries (buckets tab0 ! i) \<and> replacements (buckets tab ! i) = replacements (buckets tab0 ! i)"
  by (simp add: lists_def fun_eq_iff)

subsection \<open>Every operation keeps it\<close>

lemma disjoint_insert_subset: "x \<notin> A \<Longrightarrow> A \<inter> B = {} \<Longrightarrow> C \<subseteq> insert x B \<Longrightarrow> A \<inter> C = {}"
  by blast

lemma addReplacement_ok:
  assumes ok: "table_ok self tab" "bi < nBuckets" "placed self bi n"
    and new: "t_ID n \<notin> t_ID ` set (entries (buckets tab ! bi)) \<or> \<not> fst (addIP bi (t_IP L n) tab)"
  shows "table_ok self (addReplacement L bi n tab)"
proof (cases "contains (replacements (buckets tab ! bi)) (t_ID n)")
  case False
  obtain r tab1 where a: "addIP bi (t_IP L n) tab = (r, tab1)" by fastforce
  note t1 = addIP_ok [OF ok(1,2), of "t_IP L n", unfolded a snd_conv]
  note l1 = bucket_ok_same [OF t1(1) ok(2) t1(2)]
  note b1 = bucket_okD [OF table_ok_bucket [OF t1(1) ok(2)]]
  show ?thesis
  proof (cases r)
    case True
    obtain rs removed where p: "pushNode (replacements (buckets tab1 ! bi)) n maxReplacements = (rs, removed)" by fastforce
    let ?t2 = "on_bucket bi (\<lambda>b. b\<lparr>replacements := rs\<rparr>) tab1"
    have rs: "length rs \<le> maxReplacements" "distinct (map t_ID rs)" "set rs \<subseteq> insert n (set (replacements (buckets tab1 ! bi)))"
      using p b1(2,4) False l1 unfolding contains_ids
      by (auto simp: pushNode_def table_consts distinct_butlast map_butlast in_set_butlastD image_iff split: if_splits dest!: in_set_butlastD)
    have "t_ID n \<notin> t_ID ` set (entries (buckets tab1 ! bi))" using new True a l1 by auto
    then have d: "t_ID ` set (entries (buckets tab1 ! bi)) \<inter> t_ID ` set rs = {}" 
      by (rule disjoint_insert_subset [OF _ b1(5) image_mono [OF rs(3), of t_ID, unfolded image_insert]])
    have "table_ok self ?t2"
      using rs b1(1,3,6,7) d ok(3)
      by (intro table_ok_on_bucket [OF t1(1)] bucket_okI [OF table_ok_bucket [OF t1(1) ok(2)]]) auto
    then show ?thesis
      using False a True p ok(2) removeIP_ok(1) by (auto simp: addReplacement_def Let_def split: option.split)
  qed (use False a t1 in \<open>simp add: addReplacement_def\<close>)
qed (use ok in \<open>simp add: addReplacement_def\<close>)

lemma deleteInBucket_ok:
  assumes "table_ok self tab" "bi < nBuckets"
  shows "table_ok self (deleteInBucket L bi n tab)"
proof -
  note b = bucket_okD [OF table_ok_bucket [OF assms]]
  have "table_ok self (on_bucket bi (\<lambda>b. b\<lparr>entries := deleteNode (entries b) n\<rparr>) tab)"
    using b length_deleteNode [of "entries (buckets tab ! bi)" n] ids_deleteNode [OF b(3), of n] distinct_deleteNode [OF b(3), of n]
      set_deleteNode [of "entries (buckets tab ! bi)" n]
    by (intro table_ok_on_bucket [OF assms(1)] bucket_okI [OF table_ok_bucket [OF assms]]) auto
  then show ?thesis unfolding deleteInBucket_def by (rule removeIP_ok(1) [OF _ assms(2)])
qed

lemma replace_ok:
  assumes "table_ok self tab" "bi < nBuckets" "\<And>k. 0 < k \<Longrightarrow> pick k < k"
  shows "table_ok self (snd (replace L pick bi l tab))"
proof -
  let ?b = "buckets tab ! bi"
  let ?r = "replacements ?b ! pick (length (replacements ?b))"
  note b = bucket_okD [OF table_ok_bucket [OF assms(1,2)]]
  have "table_ok self (on_bucket bi (\<lambda>b. b\<lparr>replacements := deleteNode (replacements b) ?r, entries := butlast (entries b) @ [?r]\<rparr>) tab)"
    if "entries ?b \<noteq> []" "replacements ?b \<noteq> []"
  proof (rule table_ok_on_bucket [OF assms(1)], rule bucket_okI [OF table_ok_bucket [OF assms(1,2)]])
    have r: "?r \<in> set (replacements ?b)" using that(2) assms(3) by (simp add: nth_mem)
    have e: "set (butlast (entries ?b)) \<subseteq> set (entries ?b)" by (auto dest: in_set_butlastD)
    have ids: "t_ID ` set (deleteNode (replacements ?b) ?r) = t_ID ` set (replacements ?b) - {t_ID ?r}"
      by (rule ids_deleteNode [OF b(4)])
    have d: "t_ID ?r \<notin> t_ID ` set (entries ?b)" using b(5) r by blast
    let ?b' = "?b\<lparr>replacements := deleteNode (replacements ?b) ?r, entries := butlast (entries ?b) @ [?r]\<rparr>"
    show "length (entries ?b') \<le> bucketSize" using b(1) that(1) by (cases "entries ?b" rule: rev_cases) auto
    show "length (replacements ?b') \<le> maxReplacements" using b(2) length_deleteNode [of "replacements ?b" ?r] by simp
    show "distinct (map t_ID (entries ?b'))" using b(3) d e by (auto simp: map_butlast distinct_butlast image_iff dest!: in_set_butlastD)
    show "distinct (map t_ID (replacements ?b'))" using distinct_deleteNode [OF b(4)] by simp
    show "t_ID ` set (entries ?b') \<inter> t_ID ` set (replacements ?b') = {}" using ids b(5) e by auto
    show "\<forall>n \<in> set (entries ?b') \<union> set (replacements ?b'). placed self bi n"
      using e r b(6,7) set_deleteNode [of "replacements ?b" ?r] by auto
  qed simp
  then show ?thesis
    using assms(1) deleteInBucket_ok [OF assms(1,2)] removeIP_ok(1) [OF _ assms(2)] by (auto simp: replace_def Let_def)
qed

lemma moved_ok:
  assumes "table_ok self tab" "bi < nBuckets" "placed self bi n" "i < length (entries (buckets tab ! bi))"
    "t_ID (entries (buckets tab ! bi) ! i) = t_ID n"
  shows "table_ok self (on_bucket bi (\<lambda>b. b\<lparr>entries := to_front i n (entries b)\<rparr>) tab)"
  using bucket_okD [OF table_ok_bucket [OF assms(1,2)]] to_front_facts [OF assms(4,5)] set_to_front [of i n "entries (buckets tab ! bi)"] assms(3)
  by (intro table_ok_on_bucket [OF assms(1)] bucket_okI [OF table_ok_bucket [OF assms(1,2)]]) auto

text \<open>
  A node that is in the bucket and could not be moved to the front has an address the limits do not
  allow, and they do not allow it afterwards either, with the old address counted again.
\<close>

lemma bumpInBucket_ok:
  assumes ok: "table_ok self tab" "bi < nBuckets" "placed self bi n" and b: "bumpInBucket L bi n tab = (r, tab')"
  shows "table_ok self tab'"
    and "\<not> r \<Longrightarrow> lists tab' = lists tab \<and> (t_ID n \<notin> t_ID ` set (entries (buckets tab ! bi)) \<or> \<not> fst (addIP bi (t_IP L n) tab'))"
proof -
  have "table_ok self tab' \<and> (r \<or> lists tab' = lists tab \<and>
      (t_ID n \<notin> t_ID ` set (entries (buckets tab ! bi)) \<or> \<not> fst (addIP bi (t_IP L n) tab')))"
  proof (cases "index_of (entries (buckets tab ! bi)) (t_ID n)")
    case None
    with b ok show ?thesis by (auto simp: bumpInBucket_def index_of_None)
  next
    case (Some i)
    note i = index_of_Some [OF Some]
    let ?old = "t_IP L (entries (buckets tab ! bi) ! i)" and ?a = "t_IP L n"
    let ?t0 = "removeIP bi ?old tab"
    note t0 = removeIP_ok [OF ok(1,2), of ?old]
    obtain r1 t1 where a: "addIP bi ?a ?t0 = (r1, t1)" by fastforce
    note t1 = addIP_ok [OF t0(1) ok(2), of ?a, unfolded a snd_conv]
    have e1: "entries (buckets t1 ! bi) = entries (buckets tab ! bi)"
      using bucket_ok_same [OF t1(1) ok(2)] t1(2) t0(2) by metis
    note t2 = addIP_ok [OF t1(1) ok(2), of ?old]
    have "\<not> fst (addIP bi ?a (snd (addIP bi ?old t1)))" if "\<not> r1"
    proof -
      have "\<not> fst (addIP bi ?a ?t0)" "counts t1 = counts ?t0"
        using a that counts_refused [OF t0(1), of bi ?a] by simp_all
      then show ?thesis
        using counts_mono [OF t1(1) ok(2), of bi "key24 ?a" ?old]
        unfolding fst_addIP [OF t0(1) ok(2)] fst_addIP [OF t2(1) ok(2)] by (auto simp: not_less)
    qed
    with b Some a i e1 t1 t2 t0(2) moved_ok [OF ok] moved_ok [OF t1(1) ok(2,3)] show ?thesis
      by (auto simp: bumpInBucket_def Let_def split: if_splits bool.splits)
  qed
  then show "table_ok self tab'" "\<not> r \<Longrightarrow> lists tab' = lists tab \<and> (t_ID n \<notin> t_ID ` set (entries (buckets tab ! bi)) \<or> \<not> fst (addIP bi (t_IP L n) tab'))"
    by simp_all
qed

text \<open>Adding a new node to the entries, at the end or at the front.\<close>

lemma entered_ok:
  assumes "table_ok self tab" "bi < nBuckets" "placed self bi n" "t_ID n \<notin> t_ID ` set (entries (buckets tab ! bi))"
    "length (entries (buckets tab ! bi)) < bucketSize" "es = entries (buckets tab ! bi) @ [n] \<or> es = n # entries (buckets tab ! bi)"
  shows "table_ok self (on_bucket bi (\<lambda>b. b\<lparr>entries := es, replacements := deleteNode (replacements b) n\<rparr>) tab)"
proof (rule table_ok_on_bucket [OF assms(1)], rule bucket_okI [OF table_ok_bucket [OF assms(1,2)]])
  let ?b = "buckets tab ! bi"
  note b = bucket_okD [OF table_ok_bucket [OF assms(1,2)]]
  have es: "set es = insert n (set (entries ?b))" "length es = Suc (length (entries ?b))" "distinct (map t_ID es)"
    using assms(4,6) b(3) by auto
  let ?b' = "?b\<lparr>entries := es, replacements := deleteNode (replacements ?b) n\<rparr>"
  show "length (entries ?b') \<le> bucketSize" "distinct (map t_ID (entries ?b'))" using es assms(5) by simp_all
  show "length (replacements ?b') \<le> maxReplacements" using length_deleteNode [of "replacements ?b" n] b(2) by simp
  show "distinct (map t_ID (replacements ?b'))" using distinct_deleteNode [OF b(4)] by simp
  show "t_ID ` set (entries ?b') \<inter> t_ID ` set (replacements ?b') = {}"
    using es(1) ids_deleteNode [OF b(4), of n] b(5) by auto
  show "\<forall>m \<in> set (entries ?b') \<union> set (replacements ?b'). placed self bi m"
    using es(1) set_deleteNode [of "replacements ?b" n] b(6,7) assms(3) by auto
qed simp

lemma addSeenNode_ok:
  assumes ok: "table_ok self tab" and len: "length self = 32" "length (t_ID n) = 32"
  shows "table_ok self (addSeenNode L self now n tab)"
proof (cases "t_ID n = self")
  case False
  define bi where "bi = bucket_of self (t_ID n)"
  have bi: "bi < nBuckets" "placed self bi n" using len bucket_of_less False by (simp_all add: bi_def placed_def)
  obtain r t1 where a: "addIP bi (t_IP L n) tab = (r, t1)" by fastforce
  note t1 = addIP_ok [OF ok bi(1), of "t_IP L n", unfolded a snd_conv]
  note l1 = bucket_ok_same [OF t1(1) bi(1) t1(2)]
  have "table_ok self (on_bucket bi (\<lambda>b. b\<lparr>entries := entries b @ [n], replacements := deleteNode (replacements b) n\<rparr>) t1)"
    if "\<not> contains (entries (buckets tab ! bi)) (t_ID n)" "\<not> bucketSize \<le> length (entries (buckets tab ! bi))"
  proof -
    have "table_ok self (on_bucket bi (\<lambda>b. b\<lparr>entries := entries (buckets t1 ! bi) @ [n], replacements := deleteNode (replacements b) n\<rparr>) t1)"
      using that l1 by (intro entered_ok [OF t1(1) bi]) (auto simp: contains_ids)
    then show ?thesis by (simp add: on_bucket_def)
  qed
  then show ?thesis
    using False ok a t1(1) addReplacement_ok [OF ok bi]
    by (auto simp: addSeenNode_def Let_def contains_ids simp flip: bi_def split: bool.split)
qed (use ok in \<open>simp add: addSeenNode_def\<close>)

lemma addVerifiedNode_ok:
  assumes ok: "table_ok self tab" and len: "length self = 32" "length (t_ID n) = 32"
  shows "table_ok self (addVerifiedNode L self now n tab)"
proof (cases "t_ID n = self \<or> \<not> initDone tab")
  case False
  define bi where "bi = bucket_of self (t_ID n)"
  have bi: "bi < nBuckets" "placed self bi n" using len bucket_of_less False by (simp_all add: bi_def placed_def)
  obtain r t1 where b: "bumpInBucket L bi n tab = (r, t1)" by fastforce
  note t1 = bumpInBucket_ok [OF ok bi b]
  show ?thesis
  proof (cases r)
    case True
    with False b t1(1) show ?thesis by (simp add: addVerifiedNode_def flip: bi_def)
  next
    case r: False
    note l1 = bucket_ok_same [OF t1(1) bi(1) conjunct1 [OF t1(2) [OF r]]]
    have new: "t_ID n \<notin> t_ID ` set (entries (buckets t1 ! bi)) \<or> \<not> fst (addIP bi (t_IP L n) t1)" using t1(2) [OF r] l1 by simp
    obtain q t2 where a: "addIP bi (t_IP L n) t1 = (q, t2)" by fastforce
    note t2 = addIP_ok [OF t1(1) bi(1), of "t_IP L n", unfolded a snd_conv]
    note l2 = bucket_ok_same [OF t2(1) bi(1) t2(2)]
    have "table_ok self (on_bucket bi (\<lambda>b. b\<lparr>entries := fst (pushNode (entries b) n bucketSize), replacements := deleteNode (replacements b) n\<rparr>) t2)"
      if "q" "\<not> bucketSize \<le> length (entries (buckets t1 ! bi))"
    proof -
      have "table_ok self (on_bucket bi (\<lambda>b. b\<lparr>entries := n # entries (buckets t2 ! bi), replacements := deleteNode (replacements b) n\<rparr>) t2)"
        using that l2 new a by (intro entered_ok [OF t2(1) bi]) auto
      then show ?thesis using that(2) l2 by (simp add: on_bucket_def pushNode_def)
    qed
    then show ?thesis
      using False b r a t2(1) addReplacement_ok [OF t1(1) bi new] 
      by (auto simp: addVerifiedNode_def Let_def simp flip: bi_def split: bool.split)
  qed
qed (use ok in \<open>auto simp: addVerifiedNode_def\<close>)

lemma doRevalidate_ok:
  assumes "table_ok self tab" "length self = 32" "placed self bi l" "\<And>k. 0 < k \<Longrightarrow> pick k < k"
  shows "table_ok self (doRevalidate L pick alive (l, bi) tab)"
proof -
  let ?t = "tab\<lparr>livenessChecks := (livenessChecks tab)(t_ref l := livenessChecks tab (t_ref l) + 1)\<rparr>"
  have bi: "bi < nBuckets" using assms(2,3) bucket_of_less by (auto simp: placed_def)
  obtain r t1 where b: "bumpInBucket L bi l ?t = (r, t1)" by fastforce
  have "table_ok self t1" using bumpInBucket_ok(1) [OF _ bi assms(3) b] assms(1) by simp
  with b replace_ok [OF assms(1) bi assms(4)] show ?thesis by (simp add: doRevalidate_def)
qed

lemma loadSeedNodes_ok:
  assumes "table_ok self tab" "length self = 32" "\<forall>n \<in> set (seeds @ nursery tab). length (t_ID n) = 32"
  shows "table_ok self (loadSeedNodes L self now seeds tab)"
proof -
  have "table_ok self (fold (addSeenNode L self now) ns t)" if "table_ok self t" "\<forall>n \<in> set ns. length (t_ID n) = 32" for ns t
    using that by (induction ns arbitrary: t) (auto intro: addSeenNode_ok [OF _ assms(2)])
  with assms show ?thesis by (simp add: loadSeedNodes_def)
qed

section \<open>A running table\<close>

text \<open>
  What happens to a table: nodes are added, moved and deleted, seeds are loaded, the initial refresh
  ends, and a node that was the last of its bucket when it was chosen is revalidated, whatever
  happened since.
\<close>

inductive table_step :: "enode_lib \<Rightarrow> ID \<Rightarrow> Table \<Rightarrow> Table \<Rightarrow> bool" for L self where
  seen: "length (t_ID n) = 32 \<Longrightarrow> table_step L self tab (addSeenNode L self now n tab)"
| verified: "length (t_ID n) = 32 \<Longrightarrow> table_step L self tab (addVerifiedNode L self now n tab)"
| deleted: "table_step L self tab (delete L self n tab)"
| revalidated: "placed self bi l \<Longrightarrow> (\<And>k. 0 < k \<Longrightarrow> pick k < k) \<Longrightarrow> table_step L self tab (doRevalidate L pick alive (l, bi) tab)"
| seeded: "\<forall>n \<in> set (seeds @ nursery tab). length (t_ID n) = 32 \<Longrightarrow> table_step L self tab (loadSeedNodes L self now seeds tab)"
| ready: "table_step L self tab (tab\<lparr>initDone := True\<rparr>)"

lemma table_step_ok:
  assumes "table_step L self tab tab'" "length self = 32" "table_ok self tab"
  shows "table_ok self tab'"
  using assms
  by (cases rule: table_step.cases)
    (auto simp: delete_def intro: addSeenNode_ok addVerifiedNode_ok deleteInBucket_ok bucket_of_less doRevalidate_ok loadSeedNodes_ok)

lemma newTable_ok: "newTable L bootnodes = Ok tab \<Longrightarrow> table_ok self tab"
  by (auto simp: newTable_def setFallbackNodes_def table_ok_def bucket_ok_def new_bucket_def split: if_splits)

lemma reachable_table_ok:
  assumes "newTable L bootnodes = Ok tab0" "(table_step L self)\<^sup>*\<^sup>* tab0 tab" "length self = 32"
  shows "table_ok self tab"
  using assms(2) by (induction rule: rtranclp_induct) (auto intro: newTable_ok [OF assms(1)] table_step_ok assms(3))

text \<open>All nodes of the table, bucket by bucket.\<close>

definition all_entries :: "Table \<Rightarrow> tnode list" where
  "all_entries tab = concat (map entries (buckets tab))"

lemma distinct_concat_tagged:
  assumes "\<And>i. i < length xss \<Longrightarrow> distinct (map f (xss ! i)) \<and> (\<forall>x \<in> set (xss ! i). g (f x) = i)"
  shows "distinct (map f (concat xss)) \<and> (\<forall>x \<in> set (concat xss). g (f x) < length xss)"
  using assms
proof (induction xss rule: rev_induct)
  case (snoc ys xss)
  have "distinct (map f (xss ! i)) \<and> (\<forall>x \<in> set (xss ! i). g (f x) = i)" if "i < length xss" for i
    using snoc.prems [of i] that by (simp add: nth_append)
  from snoc.IH [OF this] have d: "distinct (map f (concat xss))" and A: "\<forall>x \<in> set (concat xss). g (f x) < length xss"
    by blast+
  have e: "distinct (map f ys)" and B: "\<forall>x \<in> set ys. g (f x) = length xss"
    using snoc.prems [of "length xss"] by simp_all
  have "f x \<noteq> f y" if "x \<in> set (concat xss)" "y \<in> set ys" for x y
    using bspec [OF A that(1)] bspec [OF B that(2)] by auto
  then have "f ` set (concat xss) \<inter> f ` set ys = {}" by blast
  with d e A B show ?case by (auto simp: less_SucI)
qed simp

lemma all_entries_ids:
  assumes "table_ok self tab"
  shows "distinct (map t_ID (all_entries tab))" "n \<in> set (all_entries tab) \<Longrightarrow> t_ID n \<noteq> self \<and> length (t_ID n) = 32"
proof -
  have b: "bucket_ok self i (buckets tab ! i)" if "i < length (buckets tab)" for i
    using table_ok_bucket [OF assms] that assms by (simp add: table_ok_def)
  have "distinct (map t_ID (concat (map entries (buckets tab)))) \<and>
      (\<forall>n \<in> set (concat (map entries (buckets tab))). bucket_of self (t_ID n) < length (map entries (buckets tab)))"
    using bucket_okD(3,6) [OF b] by (intro distinct_concat_tagged) (simp add: placed_def)
  then show "distinct (map t_ID (all_entries tab))" by (simp add: all_entries_def)
  show "t_ID n \<noteq> self \<and> length (t_ID n) = 32" if "n \<in> set (all_entries tab)"
    using that bucket_okD(6) [OF b] by (auto simp: all_entries_def in_set_conv_nth placed_def) (metis b bucket_okD(6) nth_mem placed_def)+
qed

text \<open>
  C28. In whatever order nodes are seen, verified, deleted and revalidated, the table of a node stays
  sound: every node is in the bucket of its distance, at most once in the whole table and never the
  node itself, a bucket has at most 16 entries and 10 replacements, no node is both an entry and a
  replacement, and no counter of addresses exceeds its limit.
\<close>

theorem table_stays_sound:
  assumes "newTable L bootnodes = Ok tab0" "(table_step L self)\<^sup>*\<^sup>* tab0 tab" "length self = 32"
  shows "distinct (map t_ID (all_entries tab)) \<and> (\<forall>n \<in> set (all_entries tab). t_ID n \<noteq> self) \<and>
    (\<forall>i < nBuckets. length (entries (buckets tab ! i)) \<le> 16 \<and> length (replacements (buckets tab ! i)) \<le> 10 \<and>
       (\<forall>n \<in> set (entries (buckets tab ! i) @ replacements (buckets tab ! i)). bucket_of self (t_ID n) = i) \<and>
       distinct (map t_ID (entries (buckets tab ! i) @ replacements (buckets tab ! i))) \<and>
       (\<forall>k. fst (counts tab i k) \<le> tableIPLimit \<and> snd (counts tab i k) \<le> bucketIPLimit))"
proof -
  have ok: "table_ok self tab" using reachable_table_ok [OF assms] .
  have "length (entries (buckets tab ! i)) \<le> 16 \<and> length (replacements (buckets tab ! i)) \<le> 10 \<and>
       (\<forall>n \<in> set (entries (buckets tab ! i) @ replacements (buckets tab ! i)). bucket_of self (t_ID n) = i) \<and>
       distinct (map t_ID (entries (buckets tab ! i) @ replacements (buckets tab ! i))) \<and>
       (\<forall>k. fst (counts tab i k) \<le> tableIPLimit \<and> snd (counts tab i k) \<le> bucketIPLimit)" if "i < nBuckets" for i
    using table_ok_bucket [OF ok that] ok count_bounds(1) [of "tab_ips tab"] count_bounds(1) [of "b_ips (buckets tab ! i)"]
    by (auto simp: bucket_ok_def placed_def table_ok_def counts_def table_consts)
  with all_entries_ids [OF ok] show ?thesis by blast
qed

section \<open>The closest nodes are the closest\<close>

abbreviation dist_to :: "ID \<Rightarrow> tnode \<Rightarrow> nat" where
  "dist_to t n \<equiv> xor_dist (t_ID n) t"

lemma insort_While:
  "f x \<notin> f ` set xs \<Longrightarrow> insort_key f x xs = takeWhile (\<lambda>y. f y \<le> f x) xs @ x # dropWhile (\<lambda>y. f y \<le> f x) xs"
  by (induction xs) (auto simp: not_le)

lemma take_insort: "take k (insort_key f x (take k xs)) = take k (insort_key f x xs)"
proof (induction xs arbitrary: k)
  case (Cons y ys)
  then show ?case by (cases k) (auto simp: take_Cons' min_def)
qed simp

lemma take_insert:
  "length u + length v \<le> k \<Longrightarrow>
     (if length u + length v < k then u @ x # v else if v = [] then u else u @ x # butlast v) = take k (u @ x # v)"
  by (cases v rule: rev_cases) auto

lemma push_insort:
  assumes "sorted (map (dist_to t) es)" "length es \<le> k" "dist_to t n \<notin> dist_to t ` set es"
    and "length (t_ID n) = length t" "\<forall>e \<in> set es. length (t_ID e) = length t"
  shows "push t k n es = take k (insort_key (dist_to t) n es)"
proof -
  let ?le = "\<lambda>e. dist_to t e \<le> dist_to t n"
  have c: "(DistCmp t (t_ID e) (t_ID n) > 0) = (\<not> ?le e)" if "e \<in> set es" for e
    using that assms(4,5) by (simp add: DistCmp_xor)
  have "sort_Search (length es) (\<lambda>i. DistCmp t (t_ID (es ! i)) (t_ID n) > 0) =
      length (takeWhile (\<lambda>e. \<not> DistCmp t (t_ID e) (t_ID n) > 0) es)"
  proof (rule sort_Search_takeWhile [where P = "\<lambda>e. DistCmp t (t_ID e) (t_ID n) > 0"])
    fix i j assume "i \<le> j" "j < length es" "DistCmp t (t_ID (es ! i)) (t_ID n) > 0"
    then show "DistCmp t (t_ID (es ! j)) (t_ID n) > 0"
      using sorted_nth_mono [OF assms(1), of i j] by (simp add: c)
  qed
  also have "takeWhile (\<lambda>e. \<not> DistCmp t (t_ID e) (t_ID n) > 0) es = takeWhile ?le es"
    using c by (intro takeWhile_cong) auto
  finally have ix: "sort_Search (length es) (\<lambda>i. DistCmp t (t_ID (es ! i)) (t_ID n) > 0) = length (takeWhile ?le es)" .
  define u v where "u = takeWhile ?le es" and "v = dropWhile ?le es"
  have es: "es = u @ v" by (simp add: u_def v_def)
  have "push t k n (u @ v) = (if length u + length v < k then u @ n # v else if v = [] then u else u @ n # butlast v)"
    using ix unfolding es [symmetric] u_def [symmetric] by (simp add: push_def Let_def) (simp add: es)
  also have "\<dots> = take k (u @ n # v)"
    using assms(2) unfolding es length_append by (rule take_insert)
  finally show ?thesis
    unfolding insort_While [where f = "dist_to t", OF assms(3)] u_def [symmetric] v_def [symmetric] es [symmetric] .
qed

lemma fold_push:
  assumes "distinct (map t_ID ns)" "\<forall>n \<in> set ns. length (t_ID n) = length t"
  shows "fold (push t k) ns [] = take k (sort_key (dist_to t) ns)"
  using assms
proof (induction ns rule: rev_induct)
  case (snoc n ns)
  let ?d = "dist_to t" and ?s = "sort_key (dist_to t) ns"
  have inj: "inj_on ?d (set (ns @ [n]))"
    using snoc.prems by (auto intro!: inj_onI simp: xor_dist_inj distinct_map dest: inj_onD)
  have new: "?d n \<notin> ?d ` set ns"
    using snoc.prems by (auto simp: xor_dist_inj image_iff)
  have "fold (push t k) (ns @ [n]) [] = push t k n (take k ?s)" using snoc by simp
  also have "\<dots> = take k (insort_key ?d n (take k ?s))"
    using new snoc.prems by (intro push_insort) (auto simp: sorted_wrt_take simp flip: take_map dest: in_set_takeD)
  also have "\<dots> = take k (insort_key ?d n ?s)" by (rule take_insort)
  also have "insort_key ?d n ?s = sort_key ?d (ns @ [n])"
    using inj by (intro sort_key_inj_key_eq [symmetric]) (simp_all add: sorted_insort_key)
  finally show ?case .
qed simp

lemma sorted_take_drop:
  assumes "sorted (map f xs)" "x \<in> set (take k xs)" "y \<in> set (drop k xs)"
  shows "f x \<le> f y"
proof -
  have "sorted (map f (take k xs) @ map f (drop k xs))" using assms(1) by (simp flip: map_append)
  with assms(2,3) show ?thesis by (auto simp: sorted_append)
qed

lemma fold_buckets: "fold (\<lambda>b. fold f (g b)) bs = fold f (concat (map g bs))"
  by (induction bs) auto

lemma fold_filter_if: "fold (\<lambda>x s. if P x then f x s else s) xs = fold f (filter P xs)"
  by (induction xs) (auto simp: fun_eq_iff)

definition live :: "Table \<Rightarrow> tnode \<Rightarrow> bool" where
  "live tab n \<longleftrightarrow> livenessChecks tab (t_ref n) > 0"

lemma closest_sorted:
  assumes "table_ok self tab" "length t = 32"
  shows "closest t k tab = take k (sort_key (dist_to t) (filter (live tab) (all_entries tab)))"
proof -
  have "closest t k tab = fold (push t k) (filter (live tab) (all_entries tab)) []"
    unfolding closest_def fold_filter_if fold_buckets all_entries_def live_def by (simp add: filter_concat o_def)
  also have "\<dots> = take k (sort_key (dist_to t) (filter (live tab) (all_entries tab)))"
    using all_entries_ids [OF assms(1)] assms(2) by (intro fold_push) (auto simp: distinct_map_filter)
  finally show ?thesis .
qed

text \<open>
  C29. \<open>closest\<close>, which keeps a bounded list sorted by binary insertion, returns what sorting all live
  entries of the table by their distance and cutting the list gives: the nodes are in order of
  distance, and every live node left out is at least as far away as every node returned.
\<close>

theorem closest_is_closest:
  assumes "newTable L bootnodes = Ok tab0" "(table_step L self)\<^sup>*\<^sup>* tab0 tab" "length self = 32" "length t = 32"
  shows "closest t k tab = take k (sort_key (dist_to t) (filter (live tab) (all_entries tab))) \<and>
    sorted (map (dist_to t) (closest t k tab)) \<and> length (closest t k tab) = min k (length (filter (live tab) (all_entries tab))) \<and>
    (\<forall>m \<in> set (all_entries tab). live tab m \<and> m \<notin> set (closest t k tab) \<longrightarrow> (\<forall>n \<in> set (closest t k tab). dist_to t n \<le> dist_to t m))"
proof -
  let ?s = "sort_key (dist_to t) (filter (live tab) (all_entries tab))"
  have c: "closest t k tab = take k ?s"
    by (rule closest_sorted [OF reachable_table_ok [OF assms(1-3)] assms(4)])
  have "dist_to t n \<le> dist_to t m" if "n \<in> set (take k ?s)" "m \<in> set (drop k ?s)" for n m
    using sorted_take_drop [OF sorted_sort_key that] .
  moreover have "m \<in> set (drop k ?s)" if "m \<in> set (all_entries tab)" "live tab m" "m \<notin> set (take k ?s)" for m
  proof -
    have "m \<in> set (take k ?s @ drop k ?s)" using that by simp
    with that(3) show ?thesis unfolding set_append by blast
  qed
  moreover have "sorted (map (dist_to t) (take k ?s))" by (simp add: sorted_wrt_take flip: take_map)
  moreover have "length (take k ?s) = min k (length (filter (live tab) (all_entries tab)))" by (simp add: min.commute)
  ultimately show ?thesis unfolding c by blast
qed

section \<open>Random nodes\<close>

lemma mset_shuffle:
  assumes "k < length bs" "\<And>i. swaps i < length bs"
  shows "mset (shuffle k swaps bs) = mset bs"
  using assms
proof (induction k arbitrary: bs)
  case (Suc k)
  let ?bs = "bs[Suc k := bs ! swaps (Suc k), swaps (Suc k) := bs ! Suc k]"
  have "mset ?bs = mset bs" using Suc.prems by (intro mset_swap) auto
  moreover have "mset (shuffle k swaps ?bs) = mset ?bs" using Suc.prems by (intro Suc.IH) auto
  ultimately show ?case by (simp add: Let_def)
qed simp

text \<open>What is left after the head of one list is taken.\<close>

definition pop_at :: "nat \<Rightarrow> 'a list list \<Rightarrow> 'a list list" where
  "pop_at j bs = (if length (bs ! j) = 1 then take j bs @ drop (Suc j) bs else bs[j := tl (bs ! j)])"

lemma pop_at_facts:
  assumes "j < length bs" "\<forall>b \<in> set bs. b \<noteq> []"
  shows "mset (concat bs) = add_mset (hd (bs ! j)) (mset (concat (pop_at j bs)))" "\<forall>b \<in> set (pop_at j bs). b \<noteq> []"
proof -
  obtain x xs where b: "bs ! j = x # xs" using assms by (metis list.exhaust nth_mem)
  have "mset (concat (take j bs @ bs ! j # drop (Suc j) bs)) = add_mset (hd (bs ! j)) (mset (concat (pop_at j bs)))"
    using assms(1) by (cases xs) (simp_all add: pop_at_def b upd_conv_take_nth_drop)
  then show "mset (concat bs) = add_mset (hd (bs ! j)) (mset (concat (pop_at j bs)))"
    using assms(1) by (simp add: id_take_nth_drop [symmetric])
  show "\<forall>b \<in> set (pop_at j bs). b \<noteq> []"
    using assms b by (cases xs) (auto simp: pop_at_def dest: in_set_takeD in_set_dropD subsetD [OF set_update_subset_insert])
qed

lemma read_loop_pop:
  "read_loop sz i j bs buf = (if i < sz then if pop_at j bs = [] then (buf @ [hd (bs ! j)], i)
     else read_loop sz (i + 1) ((j + 1) mod length (pop_at j bs)) (pop_at j bs) (buf @ [hd (bs ! j)]) else (buf, i))"
  by (subst read_loop.simps) (simp only: pop_at_def Let_def)

lemma read_loop_spec:
  assumes "i \<le> sz" "j < length bs" "\<forall>b \<in> set bs. b \<noteq> []" "read_loop sz i j bs buf = (buf', i')"
  shows "\<exists>xs. buf' = buf @ xs \<and> mset xs \<subseteq># mset (concat bs) \<and> length xs = min (sz - i) (length (concat bs)) \<and>
    i' = (if i + length (concat bs) \<le> sz then i + length (concat bs) - 1 else sz)"
  using assms
proof (induction sz i j bs buf rule: read_loop.induct)
  case (1 sz i j bs buf)
  note m = pop_at_facts [OF 1(3,4)]
  have l: "length (concat bs) = Suc (length (concat (pop_at j bs)))" using m(1) by (metis size_add_mset size_mset)
  show ?case
  proof (cases "i < sz")
    case False
    then have "i' = i" "buf' = buf" "i = sz" using 1(5) 1(2) by (simp_all add: read_loop.simps)
    then show ?thesis using l by simp
  next
    case i: True
    show ?thesis
    proof (cases "pop_at j bs = []")
      case True
      then have "i' = i" "buf' = buf @ [hd (bs ! j)]" using i 1(5) by (auto simp: read_loop_pop)
      moreover have "mset (concat bs) = {#hd (bs ! j)#}" "length (concat bs) = 1" using m(1) l True by simp_all
      ultimately show ?thesis using i by simp
    next
      case False
      have r: "read_loop sz (i + 1) ((j + 1) mod length (pop_at j bs)) (pop_at j bs) (buf @ [hd (bs ! j)]) = (buf', i')"
        using i False 1(5) by (subst (asm) read_loop_pop) simp
      obtain xs where "buf' = (buf @ [hd (bs ! j)]) @ xs" "mset xs \<subseteq># mset (concat (pop_at j bs))"
        "length xs = min (sz - (i + 1)) (length (concat (pop_at j bs)))"
        "i' = (if i + 1 + length (concat (pop_at j bs)) \<le> sz then i + 1 + length (concat (pop_at j bs)) - 1 else sz)"
        using 1(1) [OF i refl refl pop_at_def [of j bs] False _ _ m(2) r] False i by auto
      then show ?thesis
        using l m(1) i by (intro exI [of _ "hd (bs ! j) # xs"]) auto
    qed
  qed
qed

lemma concat_nonempty: "concat (filter (\<lambda>es. es \<noteq> []) xss) = concat xss"
  by (induction xss) auto

lemma mset_concat_cong: "mset xs = mset ys \<Longrightarrow> mset (concat xs) = mset (concat ys)"
  by (metis mset_concat mset_map sum_mset_sum_list)

lemma distinct_submset:
  assumes "mset xs \<subseteq># mset ys" "distinct ys"
  shows "distinct xs"
proof -
  obtain zs where "mset ys - mset xs = mset zs" using ex_mset by metis
  then have "mset ys = mset (xs @ zs)" using subset_mset.add_diff_inverse [OF assms(1)] by simp
  from mset_eq_imp_distinct_iff [OF this] assms(2) show ?thesis by simp
qed

text \<open>
  C33. Once the table is initialised, \<open>ReadRandomNodes\<close> fills the buffer with different nodes of the table, as many
  as there are or as fit, whatever is drawn. The number it returns is the number of nodes written only if all
  nodes of the table fit; if there are more, it returns one more than the buffer has places.
\<close>

theorem random_nodes_overcount:
  assumes "newTable L bootnodes = Ok tab0" "(table_step L self)\<^sup>*\<^sup>* tab0 tab" "length self = 32" "initDone tab"
    and "\<And>i. swaps i < length (filter (\<lambda>es. es \<noteq> []) (map entries (buckets tab))) \<or> table_len tab = 0"
    and "ReadRandomNodes swaps sz tab = (buf, n)"
  shows "distinct (map t_ID buf) \<and> set buf \<subseteq> set (all_entries tab) \<and> length buf = min sz (table_len tab) \<and>
    n = (if table_len tab \<le> sz then length buf else sz + 1)"
proof -
  let ?bs = "filter (\<lambda>es. es \<noteq> []) (map entries (buckets tab))"
  have c: "concat ?bs = all_entries tab" unfolding all_entries_def by (rule concat_nonempty)
  have len: "table_len tab = length (all_entries tab)" by (simp add: table_len_def all_entries_def length_concat o_def)
  have d: "distinct (map t_ID (all_entries tab))" using all_entries_ids(1) [OF reachable_table_ok [OF assms(1-3)]] .
  show ?thesis
  proof (cases "?bs = []")
    case True
    with assms(4,6) c len show ?thesis by (auto simp: ReadRandomNodes_def Let_def)
  next
    case False
    let ?sh = "shuffle (length ?bs - 1) swaps ?bs"
    have t: "table_len tab \<noteq> 0" using False c len by (cases ?bs) (auto simp: filter_eq_Cons_iff)
    have m: "mset ?sh = mset ?bs"
    proof (rule mset_shuffle)
      show "length ?bs - 1 < length ?bs" by (rule diff_less [OF zero_less_one]) (rule length_greater_0_conv [THEN iffD2, OF False])
      show "swaps i < length ?bs" for i using assms(5) [of i] t by blast
    qed
    have sh: "mset (concat ?sh) = mset (all_entries tab)" using mset_concat_cong [OF m] unfolding c .
    have ne: "\<forall>b \<in> set ?sh. b \<noteq> []" unfolding mset_eq_setD [OF m] by simp
    have pos: "0 < length ?sh" unfolding mset_eq_length [OF m] using False by (rule length_greater_0_conv [THEN iffD2])
    obtain i where i: "read_loop sz 0 0 ?sh [] = (buf, i)" "n = i + 1"
      using assms(4,6) False by (auto simp: ReadRandomNodes_def Let_def split: prod.splits)
    from read_loop_spec [OF _ pos ne i(1)] have b: "mset buf \<subseteq># mset (all_entries tab)"
      "length buf = min sz (length (concat ?sh))" "i = (if length (concat ?sh) \<le> sz then length (concat ?sh) - 1 else sz)"
      using sh by auto
    have l: "length (concat ?sh) = table_len tab" using mset_eq_length [OF sh] len by simp
    have "mset (map t_ID buf) \<subseteq># mset (map t_ID (all_entries tab))" using image_mset_subseteq_mono [OF b(1), of t_ID] by simp
    then have "distinct (map t_ID buf)" using d by (rule distinct_submset)
    with b l i(2) t show ?thesis by (auto dest: mset_subset_eqD)
  qed
qed

section \<open>The limit on addresses of one network\<close>

lemma counts_added:
  assumes "table_ok self tab" "bi < nBuckets" "\<not> IsLAN a" "fst (addIP bi a tab)"
  shows "counts (snd (addIP bi a tab)) bi (key24 a) = (fst (counts tab bi (key24 a)) + 1, snd (counts tab bi (key24 a)) + 1)"
  using assms
  by (cases rule: addIP_cases [of a bi tab])
    (auto simp: counts_def buckets_on_bucket table_ok_def bucket_ok_def count_Add key24_eq)

lemma counts_removed:
  assumes "table_ok self tab" "bi < nBuckets" "\<not> IsLAN a"
  shows "counts (removeIP bi a tab) bi (key24 a) =
    (let (x, y) = counts tab bi (key24 a) in (if x = 0 then 0 else x - 1, if y = 0 then 0 else y - 1))"
  using assms by (simp add: counts_def removeIP_def buckets_on_bucket table_ok_def bucket_ok_def count_Remove key24_eq)

lemma counts_fields [simp]:
  "counts (on_bucket bi (\<lambda>b. b\<lparr>entries := f b\<rparr>) tab) = counts tab"
  "counts (on_bucket bi (\<lambda>b. b\<lparr>entries := f b, replacements := g b\<rparr>) tab) = counts tab"
  "counts (tab\<lparr>addedAt := x\<rparr>) = counts tab"
  by (auto simp: counts_def fun_eq_iff buckets_on_bucket)

lemma deleteNode_absent: "t_ID n \<notin> t_ID ` set ns \<Longrightarrow> deleteNode ns n = ns"
  by (induction ns) auto

text \<open>A node that is added to the entries of its bucket.\<close>

lemma addSeenNode_enters:
  assumes ok: "table_ok self tab" "length self = 32" "placed self bi n" "\<not> IsLAN (t_IP L n)"
    and new: "t_ID n \<notin> t_ID ` set (entries (buckets tab ! bi))" "length (entries (buckets tab ! bi)) < bucketSize"
    and c: "counts tab bi (key24 (t_IP L n)) = (x, y)" "x < tableIPLimit" "y < bucketIPLimit"
  shows "lists (addSeenNode L self now n tab) bi = (entries (buckets tab ! bi) @ [n], deleteNode (replacements (buckets tab ! bi)) n)"
    and "counts (addSeenNode L self now n tab) bi (key24 (t_IP L n)) = (x + 1, y + 1)"
proof -
  have bi: "bi < nBuckets" "bucket_of self (t_ID n) = bi" "t_ID n \<noteq> self"
    using ok(2,3) bucket_of_less by (auto simp: placed_def)
  have f: "fst (addIP bi (t_IP L n) tab)" using c fst_addIP [OF ok(1) bi(1)] by simp
  obtain t1 where a: "addIP bi (t_IP L n) tab = (True, t1)" using f by (cases "addIP bi (t_IP L n) tab") auto
  note t1 = addIP_ok [OF ok(1) bi(1), of "t_IP L n", unfolded a snd_conv]
  have l: "bi < length (buckets t1)" using t1(1) bi(1) by (simp add: table_ok_def)
  have e: "addSeenNode L self now n tab = (on_bucket bi (\<lambda>b. b\<lparr>entries := entries b @ [n], replacements := deleteNode (replacements b) n\<rparr>) t1)
      \<lparr>addedAt := (addedAt t1)(t_ref n := now)\<rparr>"
    using bi new a by (simp add: addSeenNode_def Let_def contains_ids)
  show "lists (addSeenNode L self now n tab) bi = (entries (buckets tab ! bi) @ [n], deleteNode (replacements (buckets tab ! bi)) n)"
    unfolding e using l bucket_ok_same [OF t1(1) bi(1) t1(2)] by (simp add: lists_def buckets_on_bucket)
  show "counts (addSeenNode L self now n tab) bi (key24 (t_IP L n)) = (x + 1, y + 1)"
    unfolding e using counts_added [OF ok(1) bi(1) ok(4) f] a c by simp
qed

text \<open>
  A node that moves from the replacements to the entries of its bucket is counted again: the bucket
  has the same nodes as before, but both counters of its network have grown.
\<close>

lemma promotion_counts_twice:
  assumes ok: "table_ok self tab" "length self = 32" "placed self bi n" "\<not> IsLAN (t_IP L n)"
    and r: "n \<in> set (replacements (buckets tab ! bi))" "length (entries (buckets tab ! bi)) < bucketSize"
    and c: "counts tab bi (key24 (t_IP L n)) = (x, y)" "x < tableIPLimit" "y < bucketIPLimit"
  shows "mset (map t_ID (entries (buckets (addSeenNode L self now n tab) ! bi) @ replacements (buckets (addSeenNode L self now n tab) ! bi))) =
      mset (map t_ID (entries (buckets tab ! bi) @ replacements (buckets tab ! bi))) \<and>
    counts (addSeenNode L self now n tab) bi (key24 (t_IP L n)) = (x + 1, y + 1)"
proof -
  have bi: "bi < nBuckets" using ok(2,3) bucket_of_less by (auto simp: placed_def)
  note b = bucket_okD [OF table_ok_bucket [OF ok(1) bi]]
  have "t_ID n \<notin> t_ID ` set (entries (buckets tab ! bi))" using b(5) r(1) by blast
  note e = addSeenNode_enters [OF ok this r(2) c, of now]
  have "mset (map t_ID (deleteNode rs n)) = mset (map t_ID rs) - {#t_ID n#}" for rs by (induction rs) auto
  moreover have "t_ID n \<in># mset (map t_ID (replacements (buckets tab ! bi)))" using r(1) by auto
  ultimately show ?thesis using e by (simp add: lists_def)
qed

text \<open>
  C35. \<open>delete\<close> releases the address of a node also when the node is not in the table. Two nodes of one network
  fill the limit of their bucket; deleting a node of that network that was never added lets a third one in.
\<close>

theorem address_limit_bypassed:
  assumes L: "length self = 32" "newTable L bootnodes = Ok tab0" "\<forall>n \<in> {a, b, c, d}. placed self bi n \<and> \<not> IsLAN (t_IP L n) \<and> key24 (t_IP L n) = k"
    and "distinct [t_ID a, t_ID b, t_ID c, t_ID d]"
  shows "let tab2 = addSeenNode L self now b (addSeenNode L self now a tab0) in
    entries (buckets (addSeenNode L self now d tab2) ! bi) = [a, b] \<and>
    entries (buckets (addSeenNode L self now d (delete L self c tab2)) ! bi) = [a, b, d]"
proof -
  have p: "placed self bi n" "\<not> IsLAN (t_IP L n)" "key24 (t_IP L n) = k" "length (t_ID n) = 32" if "n \<in> {a, b, c, d}" for n
    using L(3) that by (auto simp: placed_def)
  have bn: "bi < nBuckets" using L(3) bucket_of_less [OF L(1), of "t_ID a"] by (simp add: placed_def)
  have bi: "bucket_of self (t_ID n) = bi" "t_ID n \<noteq> self" if "n \<in> {a, b, c, d}" for n
    using p(1) [OF that] by (simp_all add: placed_def)
  note p = p [simplified] and bi = bi [simplified]
  have ne: "t_ID b \<noteq> t_ID a" "t_ID d \<noteq> t_ID a" "t_ID d \<noteq> t_ID b" "t_ID a \<noteq> t_ID d" "t_ID b \<noteq> t_ID d" "t_ID a \<noteq> t_ID c" "t_ID b \<noteq> t_ID c"
    using assms(4) by auto
  define t1 where "t1 = addSeenNode L self now a tab0"
  define t2 where "t2 = addSeenNode L self now b t1"
  have t0: "table_ok self tab0" "lists tab0 bi = ([], [])" "counts tab0 bi k = (0, 0)"
    using newTable_ok [OF L(2)] L(2) bn
    by (auto simp: newTable_def setFallbackNodes_def lists_def counts_def new_bucket_def count_of_def empty_nets_def split: if_splits)
  have ok1: "table_ok self t1" unfolding t1_def using addSeenNode_ok [OF t0(1) L(1)] p(4) by simp
  have ok2: "table_ok self t2" unfolding t2_def using addSeenNode_ok [OF ok1 L(1)] p(4) by simp
  have l1: "lists t1 bi = ([a], [])" "counts t1 bi k = (1, 1)"
    using addSeenNode_enters [OF t0(1) L(1) p(1,2), of a 0 0 now] t0(2,3) p(3) by (simp_all add: t1_def lists_def table_consts)
  have l2: "lists t2 bi = ([a, b], [])" "counts t2 bi k = (2, 2)"
    using addSeenNode_enters [OF ok1 L(1) p(1,2), of b 1 1 now] l1 p(3) ne by (simp_all add: t2_def lists_def table_consts)
  have "\<not> fst (addIP bi (t_IP L d) t2)" using fst_addIP [OF ok2 bn] l2(2) p(2,3) by (simp add: table_consts)
  then obtain t3 where t3: "addIP bi (t_IP L d) t2 = (False, t3)" by (cases "addIP bi (t_IP L d) t2") auto
  have "addSeenNode L self now d t2 = t3"
    using l2(1) bi ne t3 by (simp add: addSeenNode_def Let_def contains_def lists_def table_consts)
  then have "entries (buckets (addSeenNode L self now d t2) ! bi) = [a, b]"
    using addIP_ok(2) [OF ok2 bn, of "t_IP L d"] t3 l2(1) by (simp add: lists_def fun_eq_iff)
  moreover
  define t4 where "t4 = delete L self c t2"
  have ok4: "table_ok self t4" using deleteInBucket_ok [OF ok2 bn] by (simp add: t4_def delete_def bi)
  let ?u = "on_bucket bi (\<lambda>b. b\<lparr>entries := deleteNode (entries b) c\<rparr>) t2"
  have u: "lists ?u bi = ([a, b], [])"
    using l2(1) ok2 bn ne by (simp add: lists_def buckets_on_bucket table_ok_def)
  have uok: "table_ok self ?u"
    using l2(1) table_ok_bucket [OF ok2 bn] ne by (intro table_ok_on_bucket [OF ok2]) (simp add: lists_def bucket_ok_def)
  have l4: "lists t4 bi = ([a, b], [])" "counts t4 bi k = (1, 1)"
    using u removeIP_ok(2) [OF uok bn] counts_removed [OF uok bn p(2), of c] p(3) l2(2)
    by (simp_all add: t4_def delete_def deleteInBucket_def bi)
  have "lists (addSeenNode L self now d t4) bi = ([a, b, d], [])"
    using addSeenNode_enters(1) [OF ok4 L(1) p(1,2), of d 1 1 now] l4 p(3) ne by (simp add: lists_def table_consts)
  ultimately show ?thesis by (simp add: Let_def t1_def t2_def t4_def lists_def)
qed

section \<open>A concrete table\<close>

definition sample_self :: ID where "sample_self = replicate 32 0"

text \<open>Nodes of the network 8.8.8.0/24 at the largest distance.\<close>

definition sample_tnode :: "byte \<Rightarrow> tnode" where
  "sample_tnode i = \<lparr>t_ref = unat i, t_Node = \<lparr>n_r = \<lparr>r_seq = 0, r_signature = None, r_raw = None, r_pairs = [(''ip'', [4, 8, 8, 8, i])]\<rparr>,
     n_id = 128 # replicate 30 0 @ [i]\<rparr>\<rparr>"

definition sample_table :: Table where
  "sample_table = \<lparr>buckets = replicate nBuckets new_bucket, nursery = [], tab_ips = empty_nets 24 tableIPLimit, initDone = False,
      addedAt = (\<lambda>_. 0), livenessChecks = (\<lambda>_. 0)\<rparr>"

definition sample_busy :: Table where
  "sample_busy = (doRevalidate sample_enode (\<lambda>_. 0) True (sample_tnode 1, 16)
     (addSeenNode sample_enode sample_self 0 (sample_tnode 2) (addSeenNode sample_enode sample_self 0 (sample_tnode 1) sample_table)))
     \<lparr>initDone := True\<rparr>"

lemma sample_newTable: "newTable sample_enode [] = Ok sample_table"
  by (simp add: newTable_def setFallbackNodes_def sample_table_def)

lemma sample_facts: "length sample_self = 32" "length (t_ID (sample_tnode i)) = 32"
  by (simp_all add: sample_self_def sample_tnode_def)

lemma sample_placed: "placed sample_self 16 (sample_tnode 1)" "placed sample_self 16 (sample_tnode 2)"
  "placed sample_self 16 (sample_tnode 3)" "placed sample_self 16 (sample_tnode 4)"
  by code_simp+

lemma sample_reach: "(table_step sample_enode sample_self)\<^sup>*\<^sup>* sample_table sample_busy"
proof -
  note step = rtranclp.rtrancl_into_rtrancl [of "table_step sample_enode sample_self"]
  have "(table_step sample_enode sample_self)\<^sup>*\<^sup>* sample_table (addSeenNode sample_enode sample_self 0 (sample_tnode 2)
      (addSeenNode sample_enode sample_self 0 (sample_tnode 1) sample_table))"
    by (rule step [OF step [OF rtranclp.rtrancl_refl table_step.seen [OF sample_facts(2)]] table_step.seen [OF sample_facts(2)]])
  from step [OF step [OF this table_step.revalidated [OF sample_placed(1)]] table_step.ready] show ?thesis
    by (simp add: sample_busy_def)
qed

theorem table_stays_sound_witness:
  "map t_ref (entries (buckets sample_busy ! 16)) = [1, 2] \<and> distinct (map t_ID (all_entries sample_busy))"
proof -
  have "map t_ref (entries (buckets sample_busy ! 16)) = [1, 2]" by code_simp
  with table_stays_sound [OF sample_newTable sample_reach sample_facts(1)] show ?thesis by simp
qed

theorem closest_is_closest_witness:
  "map t_ref (closest sample_self 5 sample_busy) = [1] \<and>
   closest sample_self 5 sample_busy = take 5 (sort_key (dist_to sample_self) (filter (live sample_busy) (all_entries sample_busy)))"
proof -
  have "map t_ref (closest sample_self 5 sample_busy) = [1]" by code_simp
  with closest_is_closest [OF sample_newTable sample_reach sample_facts(1,1), of 5] show ?thesis by simp
qed

theorem random_nodes_overcount_witness:
  "\<exists>buf. ReadRandomNodes (\<lambda>_. 0) 1 sample_busy = (buf, 2) \<and> length buf = 1"
proof -
  have i: "initDone sample_busy" by code_simp
  have s: "0 < length (filter (\<lambda>es. es \<noteq> []) (map entries (buckets sample_busy))) \<or> table_len sample_busy = 0" by code_simp
  have t: "table_len sample_busy = 2" by code_simp
  obtain buf n where b: "ReadRandomNodes (\<lambda>_. 0) 1 sample_busy = (buf, n)" by fastforce
  from random_nodes_overcount [OF sample_newTable sample_reach sample_facts(1) i s b] t b show ?thesis by simp
qed

theorem address_limit_bypassed_witness:
  "entries (buckets (addSeenNode sample_enode sample_self 0 (sample_tnode 4) (delete sample_enode sample_self (sample_tnode 3)
     (addSeenNode sample_enode sample_self 0 (sample_tnode 2) (addSeenNode sample_enode sample_self 0 (sample_tnode 1) sample_table)))) ! 16) =
   [sample_tnode 1, sample_tnode 2, sample_tnode 4]"
proof -
  let ?k = "[52, 8, 8, 8] :: bytes"
  have "\<not> IsLAN (t_IP sample_enode (sample_tnode 1)) \<and> key24 (t_IP sample_enode (sample_tnode 1)) = ?k"
    "\<not> IsLAN (t_IP sample_enode (sample_tnode 2)) \<and> key24 (t_IP sample_enode (sample_tnode 2)) = ?k"
    "\<not> IsLAN (t_IP sample_enode (sample_tnode 3)) \<and> key24 (t_IP sample_enode (sample_tnode 3)) = ?k"
    "\<not> IsLAN (t_IP sample_enode (sample_tnode 4)) \<and> key24 (t_IP sample_enode (sample_tnode 4)) = ?k"
    by code_simp+
  with sample_placed have "\<forall>n \<in> {sample_tnode 1, sample_tnode 2, sample_tnode 3, sample_tnode 4}.
      placed sample_self 16 n \<and> \<not> IsLAN (t_IP sample_enode n) \<and> key24 (t_IP sample_enode n) = ?k" by simp
  from address_limit_bypassed [OF sample_facts(1) sample_newTable this, of 0] show ?thesis
    by (simp add: Let_def sample_tnode_def)
qed

end
