(* ===== verification/Dial.thy ===== *)
theory Dial
  imports Kademlia
begin

text \<open>
  The dial scheduler, after \<^verbatim>\<open>net/rlpx/p2p/dial.go\<close>: which nodes are dialed when. Its history of recent
  dials is a binary heap of the standard library, which comes first. Times and durations are
  nanoseconds.
\<close>

section \<open>Heaps of the standard library\<close>

text \<open>\<open>container/heap\<close> over a list; \<open>lt\<close> is the order \<open>Less\<close> compares by.\<close>

definition swap :: "nat \<Rightarrow> nat \<Rightarrow> 'a list \<Rightarrow> 'a list" where
  "swap i j h = h[i := h ! j, j := h ! i]"

function heap_up :: "('a \<Rightarrow> 'a \<Rightarrow> bool) \<Rightarrow> 'a list \<Rightarrow> nat \<Rightarrow> 'a list" where
  "heap_up lt h j = (let i = (j - 1) div 2 in
     if i = j \<or> \<not> lt (h ! j) (h ! i) then h else heap_up lt (swap i j h) i)"
  by auto
termination by (relation "measure (\<lambda>(lt, h, j). j)") auto

declare heap_up.simps [simp del]

text \<open>The list and the place where the element ends; \<open>n\<close> is the part of the list that is the heap.\<close>

function heap_down :: "('a \<Rightarrow> 'a \<Rightarrow> bool) \<Rightarrow> 'a list \<Rightarrow> nat \<Rightarrow> nat \<Rightarrow> 'a list \<times> nat" where
  "heap_down lt h i n = (let j1 = 2 * i + 1 in
     if j1 \<ge> n then (h, i)
     else let j = (if j1 + 1 < n \<and> lt (h ! (j1 + 1)) (h ! j1) then j1 + 1 else j1) in
       if \<not> lt (h ! j) (h ! i) then (h, i) else heap_down lt (swap i j h) j n)"
  by auto
termination by (relation "measure (\<lambda>(lt, h, i, n). n - i)") (auto simp: Let_def split: if_splits)

declare heap_down.simps [simp del]

definition heap_Push :: "('a \<Rightarrow> 'a \<Rightarrow> bool) \<Rightarrow> 'a \<Rightarrow> 'a list \<Rightarrow> 'a list" where
  "heap_Push lt x h = heap_up lt (h @ [x]) (length h)"

text \<open>The list without its minimum; on an empty list Go panics.\<close>

definition heap_Pop :: "('a \<Rightarrow> 'a \<Rightarrow> bool) \<Rightarrow> 'a list \<Rightarrow> 'a list" where
  "heap_Pop lt h = (let n = length h - 1 in butlast (fst (heap_down lt (swap 0 n h) 0 n)))"

definition heap_Remove :: "('a \<Rightarrow> 'a \<Rightarrow> bool) \<Rightarrow> nat \<Rightarrow> 'a list \<Rightarrow> 'a list" where
  "heap_Remove lt i h = (let n = length h - 1 in butlast (
     if n = i then h
     else case heap_down lt (swap i n h) i n of (h', i') \<Rightarrow> if i' > i then h' else heap_up lt h' i))"

subsection \<open>They keep the heap\<close>

text \<open>The first \<open>n\<close> elements are a heap by the key \<open>f\<close>, but for what concerns the place \<open>hole\<close>.\<close>

definition heap_ok :: "('a \<Rightarrow> int) \<Rightarrow> 'a list \<Rightarrow> nat \<Rightarrow> bool" where
  "heap_ok f h n \<longleftrightarrow> (\<forall>i. 0 < i \<and> i < n \<longrightarrow> f (h ! ((i - 1) div 2)) \<le> f (h ! i))"

abbreviation by_key :: "('a \<Rightarrow> int) \<Rightarrow> 'a \<Rightarrow> 'a \<Rightarrow> bool" where
  "by_key f x y \<equiv> f x < f y"

lemma swap_facts:
  assumes "i < length h" "j < length h"
  shows "mset (swap i j h) = mset h" "length (swap i j h) = length h"
    "k < length h \<Longrightarrow> swap i j h ! k = (if k = j then h ! i else if k = i then h ! j else h ! k)"
  using assms mset_swap [of j h i] by (auto simp: swap_def nth_list_update)

text \<open>Before a step of \<open>up\<close> from \<open>j\<close>: all is in order but that \<open>j\<close> may be smaller than its parent.\<close>

definition up_ok :: "('a \<Rightarrow> int) \<Rightarrow> 'a list \<Rightarrow> nat \<Rightarrow> nat \<Rightarrow> bool" where
  "up_ok f h n j \<longleftrightarrow> (\<forall>i. 0 < i \<and> i < n \<and> i \<noteq> j \<longrightarrow> f (h ! ((i - 1) div 2)) \<le> f (h ! i)) \<and>
     (\<forall>i. 0 < i \<and> i < n \<and> (i - 1) div 2 = j \<and> 0 < j \<longrightarrow> f (h ! ((j - 1) div 2)) \<le> f (h ! i))"

lemma heap_up_ok:
  assumes "up_ok f h n j" "j < n" "n \<le> length h"
  shows "heap_ok f (heap_up (by_key f) h j) n \<and> mset (heap_up (by_key f) h j) = mset h \<and>
    (\<forall>k \<ge> n. k < length h \<longrightarrow> heap_up (by_key f) h j ! k = h ! k)"
  using assms
proof (induction "by_key f" h j rule: heap_up.induct)
  case (1 h j)
  let ?i = "(j - 1) div 2"
  show ?case
  proof (cases "?i = j \<or> \<not> f (h ! j) < f (h ! ?i)")
    case True
    then have "heap_up (by_key f) h j = h" by (subst heap_up.simps) auto
    moreover have "j = 0" if "?i = j" using that by linarith
    ultimately show ?thesis using True 1(2) by (auto simp: heap_ok_def up_ok_def not_less)
  next
    case False
    then have ij: "?i < j" "f (h ! j) < f (h ! ?i)" by linarith+
    have l: "?i < length h" "j < length h" using ij 1(3,4) by linarith+
    note s = swap_facts [OF l]
    have "up_ok f (swap ?i j h) n ?i"
      unfolding up_ok_def
    proof (intro conjI allI impI)
      fix k assume k: "0 < k \<and> k < n \<and> k \<noteq> ?i"
      then have kl: "k < length h" "(k - 1) div 2 < length h" "(k - 1) div 2 < k" using 1(4) by linarith+
      show "f (swap ?i j h ! ((k - 1) div 2)) \<le> f (swap ?i j h ! k)"
      proof (cases "k = j")
        case True
        then show ?thesis using ij l s(3) by simp
      next
        case kj: False
        show ?thesis
        proof (cases "(k - 1) div 2 = j")
          case True
          then have "f (h ! ?i) \<le> f (h ! k)" using 1(2) k ij by (auto simp: up_ok_def)
          then show ?thesis using s(3) [OF kl(1)] s(3) [OF kl(2)] True kj k by simp
        next
          case False
          have "f (h ! ((k - 1) div 2)) \<le> f (h ! k)" using 1(2) k kj by (auto simp: up_ok_def)
          then show ?thesis using s(3) [OF kl(1)] s(3) [OF kl(2)] False kj k ij by auto
        qed
      qed
    next
      fix k assume k: "0 < k \<and> k < n \<and> (k - 1) div 2 = ?i \<and> 0 < ?i"
      then have kl: "k < length h" "(?i - 1) div 2 < ?i" "?i < k" using 1(4) by linarith+
      have p: "f (h ! ((?i - 1) div 2)) \<le> f (h ! ?i)" using 1(2,3) k ij by (auto simp: up_ok_def)
      have q: "f (h ! ?i) \<le> f (h ! k)" if "k \<noteq> j" using 1(2) k that by (auto simp: up_ok_def)
      have "swap ?i j h ! ((?i - 1) div 2) = h ! ((?i - 1) div 2)" using s(3) kl l ij by simp
      moreover have "swap ?i j h ! k = (if k = j then h ! ?i else h ! k)" using s(3) [OF kl(1)] kl(3) by simp
      ultimately show "f (swap ?i j h ! ((?i - 1) div 2)) \<le> f (swap ?i j h ! k)" using p q by auto
    qed
    then have "heap_ok f (heap_up (by_key f) (swap ?i j h) ?i) n \<and> mset (heap_up (by_key f) (swap ?i j h) ?i) = mset (swap ?i j h) \<and>
        (\<forall>k \<ge> n. k < length (swap ?i j h) \<longrightarrow> heap_up (by_key f) (swap ?i j h) ?i ! k = swap ?i j h ! k)"
      using False ij 1(3,4) s(2) by (intro 1(1)) auto
    moreover have "heap_up (by_key f) h j = heap_up (by_key f) (swap ?i j h) ?i"
      using False by (subst heap_up.simps) (simp add: Let_def)
    ultimately show ?thesis using s ij 1(3) by auto
  qed
qed

text \<open>Before a step of \<open>down\<close> from \<open>i\<close>: all is in order but that \<open>i\<close> may be greater than its children.\<close>

definition down_ok :: "('a \<Rightarrow> int) \<Rightarrow> 'a list \<Rightarrow> nat \<Rightarrow> nat \<Rightarrow> bool" where
  "down_ok f h n i \<longleftrightarrow> (\<forall>k. 0 < k \<and> k < n \<and> (k - 1) div 2 \<noteq> i \<longrightarrow> f (h ! ((k - 1) div 2)) \<le> f (h ! k)) \<and>
     (\<forall>k. 0 < k \<and> k < n \<and> (k - 1) div 2 = i \<and> 0 < i \<longrightarrow> f (h ! ((i - 1) div 2)) \<le> f (h ! k))"

lemma parent_cases: "0 < k \<Longrightarrow> (k - 1) div 2 = i \<longleftrightarrow> k = 2 * i + 1 \<or> k = 2 * i + (2 :: nat)"
  by presburger

lemma heap_down_ok:
  assumes "down_ok f h n i" "i < n \<or> n = 0" "n \<le> length h"
  shows "case heap_down (by_key f) h i n of (h', i') \<Rightarrow> heap_ok f h' n \<and> mset h' = mset h \<and> i \<le> i' \<and>
    (\<forall>k. n \<le> k \<and> k < length h \<longrightarrow> h' ! k = h ! k) \<and> (i' = i \<longrightarrow> h' = h)"
  using assms
proof (induction "by_key f" h i n rule: heap_down.induct)
  case (1 h i n)
  let ?j1 = "2 * i + 1"
  let ?j = "if ?j1 + 1 < n \<and> f (h ! (?j1 + 1)) < f (h ! ?j1) then ?j1 + 1 else ?j1"
  show ?case
  proof (cases "?j1 \<ge> n")
    case True
    then have "heap_down (by_key f) h i n = (h, i)" by (subst heap_down.simps) simp
    moreover have "heap_ok f h n"
      unfolding heap_ok_def
    proof (intro allI impI)
      fix k assume k: "0 < k \<and> k < n"
      then have "(k - 1) div 2 \<noteq> i" using True by linarith
      with 1(2) k show "f (h ! ((k - 1) div 2)) \<le> f (h ! k)" by (auto simp: down_ok_def)
    qed
    ultimately show ?thesis by simp
  next
    case inner: False
    have j: "?j < n" "i < ?j" "(?j - 1) div 2 = i" "0 < ?j" using inner by (auto split: if_splits)
    have least: "f (h ! ?j) \<le> f (h ! k)" if "0 < k" "k < n" "(k - 1) div 2 = i" for k
      using that unfolding parent_cases [OF that(1)] by (auto split: if_splits)
    show ?thesis
    proof (cases "f (h ! ?j) < f (h ! i)")
      case False
      then have "heap_down (by_key f) h i n = (h, i)"
        by (subst heap_down.simps) (simp only: Let_def if_not_P [OF inner] not_False_eq_True if_True)
      moreover have "heap_ok f h n"
        unfolding heap_ok_def
      proof (intro allI impI)
        fix k assume k: "0 < k \<and> k < n"
        show "f (h ! ((k - 1) div 2)) \<le> f (h ! k)"
        proof (cases "(k - 1) div 2 = i")
          case True
          with least [of k] k False show ?thesis by simp
        qed (use 1(2) k in \<open>auto simp: down_ok_def\<close>)
      qed
      ultimately show ?thesis by simp
    next
      case True
      have l: "i < length h" "?j < length h" using j 1(4) by linarith+
      note s = swap_facts [OF l]
      have "down_ok f (swap i ?j h) n ?j"
        unfolding down_ok_def
      proof (intro conjI allI impI)
        fix k assume k: "0 < k \<and> k < n \<and> (k - 1) div 2 \<noteq> ?j"
        then have kl: "k < length h" "(k - 1) div 2 < length h" using 1(4) by linarith+
        show "f (swap i ?j h ! ((k - 1) div 2)) \<le> f (swap i ?j h ! k)"
        proof (cases "(k - 1) div 2 = i")
          case True
          then have "i < k" using k by linarith
          then show ?thesis using s(3) [OF kl(1)] s(3) [OF kl(2)] True j(2) least [of k] k \<open>f (h ! ?j) < f (h ! i)\<close> by auto
        next
          case False
          have p: "f (h ! ((k - 1) div 2)) \<le> f (h ! k)" using 1(2) k False by (auto simp: down_ok_def)
          have "k \<noteq> ?j" using False j(3) by auto
          moreover have "f (h ! ((i - 1) div 2)) \<le> f (h ! ?j)" if "k = i" using 1(2) that k j by (auto simp: down_ok_def)
          ultimately show ?thesis using s(3) [OF kl(1)] s(3) [OF kl(2)] False k p by auto
        qed
      next
        fix k assume k: "0 < k \<and> k < n \<and> (k - 1) div 2 = ?j \<and> 0 < ?j"
        then have kl: "k < length h" "?j < k" using 1(4) by linarith+
        have "f (h ! ?j) \<le> f (h ! k)" using 1(2) k j(2) by (auto simp: down_ok_def)
        then show "f (swap i ?j h ! ((?j - 1) div 2)) \<le> f (swap i ?j h ! k)"
          unfolding j(3) using s(3) [OF kl(1)] s(3) [OF l(1)] kl(2) j(2) by auto
      qed
      then have "case heap_down (by_key f) (swap i ?j h) ?j n of (h', i') \<Rightarrow> heap_ok f h' n \<and> mset h' = mset (swap i ?j h) \<and> ?j \<le> i' \<and>
          (\<forall>k. n \<le> k \<and> k < length (swap i ?j h) \<longrightarrow> h' ! k = swap i ?j h ! k) \<and> (i' = ?j \<longrightarrow> h' = swap i ?j h)"
        using inner True j(1) 1(4) s(2) by (intro 1(1)) auto
      moreover have "heap_down (by_key f) h i n = heap_down (by_key f) (swap i ?j h) ?j n"
        using True by (subst heap_down.simps) (simp only: Let_def if_not_P [OF inner] not_True_eq_False if_False)
      ultimately show ?thesis using s j by (auto split: prod.splits)
    qed
  qed
qed

lemma heap_ok_up:
  assumes "heap_ok f h (length h)"
  shows "up_ok f (h @ [x]) (Suc (length h)) (length h)"
  unfolding up_ok_def
proof (intro conjI allI impI)
  fix i assume "0 < i \<and> i < Suc (length h) \<and> i \<noteq> length h"
  then have "0 < i" "i < length h" "(i - 1) div 2 < length h" by linarith+
  with assms show "f ((h @ [x]) ! ((i - 1) div 2)) \<le> f ((h @ [x]) ! i)" by (simp add: nth_append heap_ok_def)
next
  fix i assume "0 < i \<and> i < Suc (length h) \<and> (i - 1) div 2 = length h \<and> 0 < length h"
  then show "f ((h @ [x]) ! ((length h - 1) div 2)) \<le> f ((h @ [x]) ! i)" by linarith
qed

lemma heap_ok_up_ok:
  assumes "heap_ok f h n" "j < n"
  shows "up_ok f h n j"
proof -
  have "f (h ! ((j - 1) div 2)) \<le> f (h ! i)" if "0 < i" "i < n" "(i - 1) div 2 = j" "0 < j" for i
    using assms that order.trans [of "f (h ! ((j - 1) div 2))" "f (h ! j)" "f (h ! i)"] by (auto simp: heap_ok_def)
  with assms show ?thesis by (auto simp: up_ok_def heap_ok_def)
qed

lemma heap_Push_ok:
  assumes "heap_ok f h (length h)"
  shows "heap_ok f (heap_Push (by_key f) x h) (Suc (length h))" "mset (heap_Push (by_key f) x h) = add_mset x (mset h)"
  using heap_up_ok [OF heap_ok_up [OF assms], of x] by (simp_all add: heap_Push_def)

lemma heap_min:
  assumes "heap_ok f h n" "i < n"
  shows "f (h ! 0) \<le> f (h ! i)"
  using assms(2)
proof (induction i rule: less_induct)
  case (less i)
  show ?case
  proof (cases "i = 0")
    case False
    then have "(i - 1) div 2 < i" by linarith
    then have "f (h ! 0) \<le> f (h ! ((i - 1) div 2))" using less by simp
    also have "\<dots> \<le> f (h ! i)" using assms(1) False less.prems by (simp add: heap_ok_def)
    finally show ?thesis .
  qed simp
qed

lemma heap_ok_butlast: "heap_ok f h n \<Longrightarrow> length h = Suc n \<Longrightarrow> heap_ok f (butlast h) n"
proof -
  assume h: "heap_ok f h n" "length h = Suc n"
  have "f (butlast h ! ((i - 1) div 2)) \<le> f (butlast h ! i)" if "0 < i" "i < n" for i
  proof -
    have "(i - 1) div 2 < n" using that by linarith
    with that h show ?thesis by (simp add: nth_butlast heap_ok_def)
  qed
  then show ?thesis by (simp add: heap_ok_def)
qed

text \<open>Removing the element at any place; the first is \<open>Pop\<close>.\<close>

lemma heap_Remove_ok:
  assumes "heap_ok f h (length h)" "i < length h"
  shows "heap_ok f (heap_Remove (by_key f) i h) (length h - 1)" "mset (heap_Remove (by_key f) i h) = mset h - {#h ! i#}"
proof -
  let ?n = "length h - 1"
  have n: "?n < length h" "length h = Suc ?n" using assms(2) by linarith+
  have "heap_ok f (heap_Remove (by_key f) i h) ?n \<and> mset (heap_Remove (by_key f) i h) = mset h - {#h ! i#}"
  proof (cases "i = ?n")
    case True
    have "heap_ok f h ?n" using assms(1) by (auto simp: heap_ok_def)
    moreover have "mset h = add_mset (h ! i) (mset (butlast h))"
      using n True by (cases h rule: rev_cases) (auto simp: nth_append)
    ultimately show ?thesis using True heap_ok_butlast [of f h ?n] n(2) by (simp add: heap_Remove_def)
  next
    case False
    then have i: "i < ?n" using assms(2) by linarith
    let ?s = "swap i ?n h"
    note s = swap_facts [OF assms(2) n(1)]
    have o: "f (h ! ((k - 1) div 2)) \<le> f (h ! k)" if "0 < k" "k < length h" for k
      using assms(1) that by (simp add: heap_ok_def)
    have sk: "?s ! k = (if k = i then h ! ?n else h ! k)" if "k < ?n" for k using s(3) [of k] that n by auto
    have sn: "?s ! ?n = h ! i" using s(3) [OF n(1)] by simp
    have kids: "f (h ! ((i - 1) div 2)) \<le> f (h ! k)" if "0 < k" "k < ?n" "(k - 1) div 2 = i" "0 < i" for k
      using o [of i] o [of k] that i n by auto
    have edge: "f (?s ! ((k - 1) div 2)) \<le> f (?s ! k)" if "0 < k" "k < ?n" "(k - 1) div 2 \<noteq> i" "k \<noteq> i" for k
    proof -
      have kp: "(k - 1) div 2 < ?n" using that(2) by linarith
      show ?thesis using sk [OF kp] sk [OF that(2)] that o [of k] n by simp
    qed
    have grand: "f (?s ! ((i - 1) div 2)) \<le> f (?s ! k)" if "0 < k" "k < ?n" "(k - 1) div 2 = i" "0 < i" for k
    proof -
      have kp: "(i - 1) div 2 < ?n" "(i - 1) div 2 \<noteq> i" "k \<noteq> i" using i that by linarith+
      show ?thesis using sk [OF kp(1)] sk [OF that(2)] kp kids [OF that] by simp
    qed
    have fin: "heap_ok f (butlast g) ?n \<and> mset (butlast g) = mset h - {#h ! i#}"
      if "heap_ok f g ?n" "mset g = mset h" "g ! ?n = h ! i" for g
    proof -
      have l: "length g = Suc ?n" using mset_eq_length [OF that(2)] n(2) by simp
      then have "mset g = add_mset (g ! ?n) (mset (butlast g))" by (cases g rule: rev_cases) (auto simp: nth_append)
      then have e: "mset h = add_mset (h ! i) (mset (butlast g))" using that(2,3) by simp
      show ?thesis unfolding e using heap_ok_butlast [OF that(1) l] by simp
    qed
    have up: "heap_ok f (heap_up (by_key f) g i) ?n \<and> mset (heap_up (by_key f) g i) = mset h \<and> heap_up (by_key f) g i ! ?n = h ! i"
      if "up_ok f g ?n i" "mset g = mset h" "g ! ?n = h ! i" for g
      using heap_up_ok [OF that(1) i] mset_eq_length [OF that(2)] n that by auto
    show ?thesis
    proof (cases "i = 0 \<or> f (h ! ((i - 1) div 2)) \<le> f (h ! ?n)")
      case True
      have "f (?s ! ((i - 1) div 2)) \<le> f (?s ! i)" if "0 < i"
      proof -
        have "(i - 1) div 2 < ?n" "(i - 1) div 2 \<noteq> i" using i that by linarith+
        then show ?thesis using True that sk [of "(i - 1) div 2"] sk [OF i] by simp
      qed
      with edge grand have d: "down_ok f ?s ?n i" unfolding down_ok_def by metis
      obtain g i' where g: "heap_down (by_key f) ?s i ?n = (g, i')" by fastforce
      have g': "heap_ok f g ?n" "mset g = mset h" "g ! ?n = h ! i"
        using heap_down_ok [OF d] i s n sn g by auto
      with g fin [OF g'] up [OF heap_ok_up_ok [OF g'(1) i] g'(2,3)] fin show ?thesis
        using False by (auto simp: heap_Remove_def Let_def)
    next
      case small: False
      have "heap_down (by_key f) ?s i ?n = (?s, i)"
      proof -
        have "\<not> f (?s ! k) < f (?s ! i)" if "0 < k" "k < ?n" "(k - 1) div 2 = i" for k
        proof -
          have "k \<noteq> i" using that by linarith
          then show ?thesis using kids [OF that] small sk [OF i] sk [OF that(2)] by auto
        qed
        from this [of "2 * i + 1"] this [of "2 * i + 2"] show ?thesis by (subst heap_down.simps) (auto simp: Let_def)
      qed
      moreover have "up_ok f ?s ?n i"
        unfolding up_ok_def
      proof (intro conjI allI impI)
        fix k assume k: "0 < k \<and> k < ?n \<and> k \<noteq> i"
        show "f (?s ! ((k - 1) div 2)) \<le> f (?s ! k)"
        proof (cases "(k - 1) div 2 = i")
          case True
          with kids [of k] k small sk [OF i] sk [of k] show ?thesis by auto
        qed (use edge k in auto)
      qed (use grand in auto)
      ultimately show ?thesis using False up [of ?s] fin s(1) sn by (simp add: heap_Remove_def Let_def)
    qed
  qed
  then show "heap_ok f (heap_Remove (by_key f) i h) (length h - 1)" "mset (heap_Remove (by_key f) i h) = mset h - {#h ! i#}" by simp_all
qed

lemma heap_Pop_Remove: "h \<noteq> [] \<Longrightarrow> heap_ok f h (length h) \<Longrightarrow> heap_Pop (by_key f) h = heap_Remove (by_key f) 0 h"
proof -
  assume h: "h \<noteq> []" "heap_ok f h (length h)"
  let ?n = "length h - 1"
  obtain g i where g: "heap_down (by_key f) (swap 0 ?n h) 0 ?n = (g, i)" by fastforce
  have "heap_up (by_key f) g 0 = g" by (subst heap_up.simps) simp
  moreover have "heap_down (by_key f) h 0 0 = (h, 0)" by (subst heap_down.simps) simp
  moreover have "swap 0 0 h = h" by (simp add: swap_def)
  ultimately show ?thesis using g by (auto simp: heap_Pop_def heap_Remove_def Let_def)
qed

section \<open>The dial history\<close>

record pastDial =
  past_id :: ID
  past_exp :: int

type_synonym dialHistory = "pastDial list"

definition hist_add :: "ID \<Rightarrow> int \<Rightarrow> dialHistory \<Rightarrow> dialHistory" where
  "hist_add x e h = heap_Push (by_key past_exp) \<lparr>past_id = x, past_exp = e\<rparr> h"

fun past_index :: "dialHistory \<Rightarrow> ID \<Rightarrow> nat option" where
  "past_index [] x = None"
| "past_index (v # vs) x = (if past_id v = x then Some 0 else map_option Suc (past_index vs x))"

definition hist_remove :: "ID \<Rightarrow> dialHistory \<Rightarrow> dialHistory" where
  "hist_remove x h = (case past_index h x of None \<Rightarrow> h | Some i \<Rightarrow> heap_Remove (by_key past_exp) i h)"

definition hist_contains :: "ID \<Rightarrow> dialHistory \<Rightarrow> bool" where
  "hist_contains x h \<longleftrightarrow> (\<exists>v \<in> set h. past_id v = x)"

text \<open>\<open>for h.Len() > 0 && h.min().exp.Before(now) { heap.Pop(h) }\<close>; as many rounds as entries are enough.\<close>

fun expire_loop :: "nat \<Rightarrow> int \<Rightarrow> dialHistory \<Rightarrow> dialHistory" where
  "expire_loop 0 now h = h"
| "expire_loop (Suc n) now h = (if h \<noteq> [] \<and> past_exp (h ! 0) < now then expire_loop n now (heap_Pop (by_key past_exp) h) else h)"

definition expire :: "int \<Rightarrow> dialHistory \<Rightarrow> dialHistory" where
  "expire now h = expire_loop (length h) now h"

abbreviation hist_ok :: "dialHistory \<Rightarrow> bool" where
  "hist_ok h \<equiv> heap_ok past_exp h (length h)"

lemma hist_add_ok:
  assumes "hist_ok h"
  shows "hist_ok (hist_add x e h)" "mset (hist_add x e h) = add_mset \<lparr>past_id = x, past_exp = e\<rparr> (mset h)"
  using heap_Push_ok [OF assms, of "\<lparr>past_id = x, past_exp = e\<rparr>"] unfolding hist_add_def
  by (metis size_add_mset size_mset)+

lemma heap_Remove_length:
  assumes "heap_ok f h (length h)" "i < length h"
  shows "length (heap_Remove (by_key f) i h) = length h - 1"
  using arg_cong [OF heap_Remove_ok(2) [OF assms], of size] assms(2) by (simp add: size_Diff_singleton)

lemma past_index_Some: "past_index h x = Some i \<Longrightarrow> i < length h \<and> past_id (h ! i) = x"
  by (induction h arbitrary: i) (auto split: if_splits)

lemma hist_remove_ok:
  assumes "hist_ok h"
  shows "hist_ok (hist_remove x h)" "set (hist_remove x h) \<subseteq> set h"
  using assms heap_Remove_ok [OF assms] heap_Remove_length [OF assms] past_index_Some [of h x]
  by (auto simp: hist_remove_def split: option.splits) (metis in_diffD set_mset_mset)

text \<open>Popping while the minimum is expired removes exactly the expired entries.\<close>

lemma expire_loop_ok:
  "hist_ok h \<Longrightarrow> length h \<le> n \<Longrightarrow>
     hist_ok (expire_loop n now h) \<and> mset (expire_loop n now h) = filter_mset (\<lambda>v. \<not> past_exp v < now) (mset h)"
proof (induction n arbitrary: h)
  case (Suc n)
  show ?case
  proof (cases "h \<noteq> [] \<and> past_exp (h ! 0) < now")
    case True
    let ?g = "heap_Pop (by_key past_exp) h"
    have g: "?g = heap_Remove (by_key past_exp) 0 h" using True Suc.prems heap_Pop_Remove by blast
    have l: "length ?g = length h - 1" "hist_ok ?g" "mset ?g = mset h - {#h ! 0#}"
      using True heap_Remove_ok [OF Suc.prems(1), of 0] heap_Remove_length [OF Suc.prems(1), of 0] by (simp_all add: g)
    have "mset h = add_mset (h ! 0) (mset ?g)" using True l(3) by (cases h) auto
    then have "filter_mset (\<lambda>v. \<not> past_exp v < now) (mset h) = filter_mset (\<lambda>v. \<not> past_exp v < now) (mset ?g)" using True by simp
    with True Suc.IH [OF l(2)] l(1) Suc.prems(2) show ?thesis by simp
  next
    case False
    have "\<forall>v \<in> set h. \<not> past_exp v < now"
      using False heap_min [OF Suc.prems(1)] by (force simp: in_set_conv_nth)
    then have "filter_mset (\<lambda>v. \<not> past_exp v < now) (mset h) = mset h" by (simp add: filter_mset_eq_conv)
    with False Suc.prems show ?thesis by auto
  qed
qed simp

lemma expire_ok:
  assumes "hist_ok h"
  shows "hist_ok (expire now h)" "mset (expire now h) = filter_mset (\<lambda>v. \<not> past_exp v < now) (mset h)"
  using expire_loop_ok [OF assms order.refl] by (simp_all add: expire_def)

section \<open>The scheduler\<close>

text \<open>\<open>connFlag\<close> of \<^verbatim>\<open>server.go\<close>.\<close>

type_synonym connFlag = u32

definition dynDialedConn :: connFlag where "dynDialedConn = 1"
definition staticDialedConn :: connFlag where "staticDialedConn = 2"
definition inboundConn :: connFlag where "inboundConn = 4"
definition trustedConn :: connFlag where "trustedConn = 8"

text \<open>A Go map as a list of its entries; no key occurs twice.\<close>

definition put :: "'k \<Rightarrow> 'v \<Rightarrow> ('k \<times> 'v) list \<Rightarrow> ('k \<times> 'v) list" where
  "put k v m = (k, v) # filter (\<lambda>p. fst p \<noteq> k) m"

definition del :: "'k \<Rightarrow> ('k \<times> 'v) list \<Rightarrow> ('k \<times> 'v) list" where
  "del k m = filter (\<lambda>p. fst p \<noteq> k) m"

record dialTask =
  d_flags :: connFlag
  d_dest :: Node
  lastResolved :: int
  resolveDelay :: int

text \<open>A \<open>*dialTask\<close> is a pointer; its fields are found under the identity of the object.\<close>

datatype task = DialTask nat | DiscoverTask "Node list" | WaitExpireTask int

record dialstate =
  maxDynDials :: int
  netrestrict :: "Netlist option"
  ds_self :: ID
  lookupRunning :: bool
  dialing :: "(ID \<times> connFlag) list"
  lookupBuf :: "Node list"
  randomNodes :: "Node option list"
  static :: "(ID \<times> nat) list"
  dial_hist :: dialHistory
  start :: "int option"
  bootnodes :: "Node list"
  dial_objs :: "nat \<Rightarrow> dialTask"
  dial_next :: nat

definition new_task :: "connFlag \<Rightarrow> Node \<Rightarrow> dialTask" where
  "new_task flag n = \<lparr>d_flags = flag, d_dest = n, lastResolved = 0, resolveDelay = 0\<rparr>"

definition addStatic :: "Node \<Rightarrow> dialstate \<Rightarrow> dialstate" where
  "addStatic n s = s\<lparr>static := put (n_id n) (dial_next s) (static s),
     dial_objs := (dial_objs s)(dial_next s := new_task staticDialedConn n), dial_next := dial_next s + 1\<rparr>"

definition removeStatic :: "Node \<Rightarrow> dialstate \<Rightarrow> dialstate" where
  "removeStatic n s = s\<lparr>static := del (n_id n) (static s), dial_hist := hist_remove (n_id n) (dial_hist s)\<rparr>"

text \<open>\<open>n/2\<close> of Go's integers, which rounds towards zero.\<close>

definition half :: "int \<Rightarrow> int" where
  "half n = (if n < 0 then - (- n div 2) else n div 2)"

definition zero_Node :: Node where
  "zero_Node = \<lparr>n_r = empty_Record, n_id = replicate 32 0\<rparr>"

definition newDialState :: "ID \<Rightarrow> Node list \<Rightarrow> Node list \<Rightarrow> int \<Rightarrow> Netlist option \<Rightarrow> dialstate res" where
  "newDialState self statics boot maxdyn restrict = (if half maxdyn < 0 then Panic
     else Ok (fold addStatic statics
       \<lparr>maxDynDials = maxdyn, netrestrict = restrict, ds_self = self, lookupRunning = False, dialing = [], lookupBuf = [],
        randomNodes = replicate (nat (half maxdyn)) None, static = [], dial_hist = [], start = None, bootnodes = boot,
        dial_objs = (\<lambda>_. new_task 0 zero_Node), dial_next = 0\<rparr>))"

text \<open>\<open>peers\<close> are the connected peers with the flags of their connections.\<close>

definition checkDial :: "enode_lib \<Rightarrow> (ID \<times> connFlag) list \<Rightarrow> dialstate \<Rightarrow> Node \<Rightarrow> unit res" where
  "checkDial L peers s n =
     (if n_id n \<in> fst ` set (dialing s) then Err ''already dialing''
      else if n_id n \<in> fst ` set peers then Err ''already connected''
      else if n_id n = ds_self s then Err ''is self''
      else if netrestrict s \<noteq> None \<and> \<not> Netlist_Contains (netrestrict s) (IP L n) then Err ''not contained in netrestrict whitelist''
      else if hist_contains (n_id n) (dial_hist s) then Err ''recently dialed''
      else Ok ())"

text \<open>The closure \<open>addDial\<close>: whether a task was added, the state and the new tasks.\<close>

definition addDial :: "enode_lib \<Rightarrow> (ID \<times> connFlag) list \<Rightarrow> connFlag \<Rightarrow> Node \<Rightarrow> dialstate \<times> task list \<Rightarrow> bool \<times> dialstate \<times> task list" where
  "addDial L peers flag n = (\<lambda>(s, new). case checkDial L peers s n of
     Ok _ \<Rightarrow> (True, s\<lparr>dialing := put (n_id n) flag (dialing s), dial_objs := (dial_objs s)(dial_next s := new_task flag n),
        dial_next := dial_next s + 1\<rparr>, new @ [DialTask (dial_next s)])
   | _ \<Rightarrow> (False, s, new))"

text \<open>One round of the loop over the static tasks, which are visited in any order.\<close>

definition dial_static :: "enode_lib \<Rightarrow> (ID \<times> connFlag) list \<Rightarrow> ID \<times> nat \<Rightarrow> dialstate \<times> task list \<Rightarrow> dialstate \<times> task list" where
  "dial_static L peers = (\<lambda>(x, t) (s, new). let task = dial_objs s t in
     case checkDial L peers s (d_dest task) of
       Err e \<Rightarrow> if e = ''not contained in netrestrict whitelist'' \<or> e = ''is self''
         then (s\<lparr>static := del (n_id (d_dest task)) (static s)\<rparr>, new) else (s, new)
     | Ok _ \<Rightarrow> (s\<lparr>dialing := put x (d_flags task) (dialing s)\<rparr>, new @ [DialTask t])
     | Panic \<Rightarrow> (s, new))"

text \<open>A dynamic dial; the number still needed is part of the state.\<close>

definition dial_dyn :: "enode_lib \<Rightarrow> (ID \<times> connFlag) list \<Rightarrow> Node \<Rightarrow> int \<times> dialstate \<times> task list \<Rightarrow> int \<times> dialstate \<times> task list" where
  "dial_dyn L peers n = (\<lambda>(need, c). case addDial L peers dynDialedConn n c of (added, c') \<Rightarrow> (if added then need - 1 else need, c'))"

fun dial_lookup :: "enode_lib \<Rightarrow> (ID \<times> connFlag) list \<Rightarrow> Node list \<Rightarrow> int \<times> dialstate \<times> task list \<Rightarrow> Node list \<times> int \<times> dialstate \<times> task list" where
  "dial_lookup L peers [] c = ([], c)"
| "dial_lookup L peers (n # ns) c = (if fst c > 0 then dial_lookup L peers ns (dial_dyn L peers n c) else (n # ns, c))"

definition is_dyn :: "connFlag \<Rightarrow> bool" where
  "is_dyn f \<longleftrightarrow> f AND dynDialedConn \<noteq> 0"

definition dyn_count :: "(ID \<times> connFlag) list \<Rightarrow> int" where
  "dyn_count m = int (length (filter (\<lambda>p. is_dyn (snd p)) m))"

definition dial_boot :: "enode_lib \<Rightarrow> (ID \<times> connFlag) list \<Rightarrow> int \<Rightarrow> int \<times> dialstate \<times> task list \<Rightarrow> int \<times> dialstate \<times> task list" where
  "dial_boot L peers now = (\<lambda>(need, s, new).
     if peers = [] \<and> bootnodes s \<noteq> [] \<and> need > 0 \<and> now - (case start s of Some t \<Rightarrow> t | None \<Rightarrow> now) > 20 * 1000000000
     then dial_dyn L peers (hd (bootnodes s)) (need, s\<lparr>bootnodes := tl (bootnodes s) @ [hd (bootnodes s)]\<rparr>, new)
     else (need, s, new))"

text \<open>
  \<open>rnd\<close> is what the table wrote into the buffer and the number it returned. A place of the buffer
  that was never written is a nil pointer.
\<close>

definition dial_random :: "enode_lib \<Rightarrow> (ID \<times> connFlag) list \<Rightarrow> (nat \<Rightarrow> Node list \<times> nat) \<Rightarrow> int \<times> dialstate \<times> task list \<Rightarrow>
    (int \<times> dialstate \<times> task list) res" where
  "dial_random L peers rnd = (\<lambda>(need, s, new). let cand = half need in
     if cand > 0 then case rnd (length (randomNodes s)) of (ns, n) \<Rightarrow>
       let buf = map Some ns @ drop (length ns) (randomNodes s); k = min (nat cand) n in
       if length buf < k \<or> None \<in> set (take k buf) then Panic
       else Ok (fold (dial_dyn L peers) (map the (take k buf)) (need, s\<lparr>randomNodes := buf\<rparr>, new))
     else Ok (need, s, new))"

definition newTasks :: "enode_lib \<Rightarrow> (nat \<Rightarrow> Node list \<times> nat) \<Rightarrow> (ID \<times> nat) list \<Rightarrow> nat \<Rightarrow> (ID \<times> connFlag) list \<Rightarrow> int \<Rightarrow>
    dialstate \<Rightarrow> (dialstate \<times> task list) res" where
  "newTasks L rnd order nRunning peers now s0 =
     (let s1 = s0\<lparr>start := (case start s0 of None \<Rightarrow> Some now | t \<Rightarrow> t)\<rparr>;
          need = maxDynDials s1 - dyn_count peers - dyn_count (dialing s1);
          s2 = s1\<lparr>dial_hist := expire now (dial_hist s1)\<rparr> in
      case fold (dial_static L peers) order (s2, []) of (s3, new3) \<Rightarrow>
      res_bind (dial_random L peers rnd (dial_boot L peers now (need, s3, new3))) (\<lambda>(need5, s5, new5).
      case dial_lookup L peers (lookupBuf s5) (need5, s5, new5) of (rest, need6, s6, new6) \<Rightarrow>
      let s7 = s6\<lparr>lookupBuf := rest\<rparr>;
          (s8, new8) = (if int (length rest) < need6 \<and> \<not> lookupRunning s7
            then (s7\<lparr>lookupRunning := True\<rparr>, new6 @ [DiscoverTask []]) else (s7, new6));
          new9 = (if nRunning = 0 \<and> new8 = [] \<and> dial_hist s8 \<noteq> []
            then [WaitExpireTask (past_exp (dial_hist s8 ! 0) - now)] else new8) in
      Ok (s8, new9)))"

definition taskDone :: "task \<Rightarrow> int \<Rightarrow> dialstate \<Rightarrow> dialstate" where
  "taskDone t now s = (case t of
     DialTask r \<Rightarrow> s\<lparr>dial_hist := hist_add (n_id (d_dest (dial_objs s r))) (now + 30 * 1000000000) (dial_hist s),
       dialing := del (n_id (d_dest (dial_objs s r))) (dialing s)\<rparr>
   | DiscoverTask results \<Rightarrow> s\<lparr>lookupRunning := False, lookupBuf := lookupBuf s @ results\<rparr>
   | WaitExpireTask _ \<Rightarrow> s)"

section \<open>Running a dial\<close>

text \<open>
  \<open>resolve\<close>: \<open>found\<close> is the answer of the discovery table, absent when discovery is disabled; \<open>now\<close>
  is read before and \<open>later\<close> after the lookup.
\<close>

definition resolve :: "(Node \<Rightarrow> Node option) option \<Rightarrow> int \<Rightarrow> int \<Rightarrow> dialTask \<Rightarrow> bool \<times> dialTask" where
  "resolve ntab now later t = (case ntab of None \<Rightarrow> (False, t)
   | Some found \<Rightarrow>
     let t1 = (if resolveDelay t = 0 then t\<lparr>resolveDelay := 60 * 1000000000\<rparr> else t) in
     if now - lastResolved t1 < resolveDelay t1 then (False, t1)
     else case found (d_dest t1) of
       None \<Rightarrow> (False, t1\<lparr>lastResolved := later, resolveDelay := min (resolveDelay t1 * 2) (3600 * 1000000000)\<rparr>)
     | Some n \<Rightarrow> (True, t1\<lparr>lastResolved := later, resolveDelay := 60 * 1000000000, d_dest := n\<rparr>))"

text \<open>
  \<open>Do\<close>: the nodes that were dialed, in order, and the task afterwards. \<open>conn n\<close> is the outcome of a
  connection attempt: dialing failed, the setup of the connection failed, or neither.
\<close>

datatype dial_outcome = DialError | SetupError | Connected

definition Do_dial :: "enode_lib \<Rightarrow> (Node \<Rightarrow> Node option) option \<Rightarrow> (nat \<Rightarrow> int) \<Rightarrow> (Node \<Rightarrow> dial_outcome) \<Rightarrow> dialTask \<Rightarrow> Node list \<times> dialTask" where
  "Do_dial L ntab clock conn t =
     (case (if Incomplete L (d_dest t) then resolve ntab (clock 0) (clock 1) t else (True, t)) of
        (False, t1) \<Rightarrow> ([], t1)
      | (True, t1) \<Rightarrow>
        if conn (d_dest t1) = DialError \<and> d_flags t1 AND staticDialedConn \<noteq> 0
        then (case resolve ntab (clock 2) (clock 3) t1 of
            (True, t2) \<Rightarrow> ([d_dest t1, d_dest t2], t2)
          | (False, t2) \<Rightarrow> ([d_dest t1], t2))
        else ([d_dest t1], t1))"

section \<open>What is dialed\<close>

definition dest :: "dialstate \<Rightarrow> nat \<Rightarrow> Node" where
  "dest s r = d_dest (dial_objs s r)"

text \<open>The state of the scheduler between its calls.\<close>

definition sched_ok :: "dialstate \<Rightarrow> bool" where
  "sched_ok s \<longleftrightarrow> hist_ok (dial_hist s) \<and> distinct (map fst (dialing s)) \<and> distinct (map fst (static s)) \<and>
     (\<forall>(x, t) \<in> set (static s). t < dial_next s \<and> n_id (dest s t) = x \<and> d_flags (dial_objs s t) = staticDialedConn)"

text \<open>From \<open>b\<close> the state has grown to \<open>s\<close> by the dial tasks \<open>rs\<close>, each to a node that could be dialed in \<open>b\<close>.\<close>

definition grown :: "enode_lib \<Rightarrow> (ID \<times> connFlag) list \<Rightarrow> dialstate \<Rightarrow> dialstate \<Rightarrow> nat list \<Rightarrow> bool" where
  "grown L peers b s rs \<longleftrightarrow> dial_hist s = dial_hist b \<and> ds_self s = ds_self b \<and> netrestrict s = netrestrict b \<and>
     maxDynDials s = maxDynDials b \<and> start s = start b \<and> dial_next b \<le> dial_next s \<and> (\<forall>r < dial_next b. dial_objs s r = dial_objs b r) \<and>
     (\<forall>r \<in> set rs. r < dial_next s) \<and> set (static s) \<subseteq> set (static b) \<and> distinct (map fst (static s)) \<and>
     distinct (map fst (dialing s)) \<and> distinct (map (\<lambda>r. n_id (dest s r)) rs) \<and>
     fst ` set (dialing s) = fst ` set (dialing b) \<union> (\<lambda>r. n_id (dest s r)) ` set rs \<and>
     fst ` set (dialing b) \<inter> (\<lambda>r. n_id (dest s r)) ` set rs = {} \<and>
     (\<forall>r \<in> set rs. checkDial L peers b (dest s r) = Ok ())"

lemma grown_start: "distinct (map fst (dialing b)) \<Longrightarrow> distinct (map fst (static b)) \<Longrightarrow> grown L peers b b []"
  by (simp add: grown_def)

lemma checkDial_Ok:
  "checkDial L peers s n = Ok u \<longleftrightarrow> n_id n \<notin> fst ` set (dialing s) \<and> n_id n \<notin> fst ` set peers \<and> n_id n \<noteq> ds_self s \<and>
     (netrestrict s = None \<or> Netlist_Contains (netrestrict s) (IP L n)) \<and> \<not> hist_contains (n_id n) (dial_hist s)"
  by (auto simp: checkDial_def)

lemma checkDial_not_Panic: "checkDial L peers s n \<noteq> Panic"
  by (simp add: checkDial_def)

lemma put_new: "k \<notin> fst ` set m \<Longrightarrow> put k v m = (k, v) # m"
  unfolding put_def by (simp add: filter_id_conv image_iff) blast

lemma grown_step:
  assumes g: "grown L peers b s rs" and c: "checkDial L peers s n = Ok ()" and r: "r < dial_next s'" "dest s' r = n"
    and s': "dialing s' = put (n_id n) flag (dialing s)" "dial_next s \<le> dial_next s'" "\<forall>q < dial_next s. dial_objs s' q = dial_objs s q"
      "dial_hist s' = dial_hist s" "ds_self s' = ds_self s" "netrestrict s' = netrestrict s" "maxDynDials s' = maxDynDials s"
      "static s' = static s" "start s' = start s"
  shows "grown L peers b s' (rs @ [r])" "dyn_count (dialing s') = dyn_count (dialing s) + (if is_dyn flag then 1 else 0)"
proof -
  have n: "n_id n \<notin> fst ` set (dialing s)" using c by (simp add: checkDial_Ok)
  have d: "dest s' q = dest s q" if "q \<in> set rs" for q using g s'(3) that by (simp add: grown_def dest_def)
  have e: "(\<lambda>q. n_id (dest s' q)) ` set rs = (\<lambda>q. n_id (dest s q)) ` set rs" using d by (intro image_cong) simp_all
  have m: "map (\<lambda>q. n_id (dest s' q)) rs = map (\<lambda>q. n_id (dest s q)) rs" using d by simp
  have cb: "checkDial L peers b n = Ok ()" using c g unfolding checkDial_Ok grown_def by auto
  have "\<forall>q < dial_next b. dial_objs s' q = dial_objs b q" using g s'(3) by (simp add: grown_def)
  moreover have "\<forall>q \<in> set (rs @ [r]). checkDial L peers b (dest s' q) = Ok ()" using g d cb r(2) by (auto simp: grown_def)
  moreover have "\<forall>q \<in> set (rs @ [r]). q < dial_next s'" using g r(1) s'(2) by (auto simp: grown_def)
  moreover have "fst ` set (dialing s') = insert (n_id n) (fst ` set (dialing s))" "distinct (map fst (dialing s'))"
    using n g by (simp_all add: s'(1) put_new grown_def)
  moreover have "(\<lambda>q. n_id (dest s' q)) ` set (rs @ [r]) = insert (n_id n) ((\<lambda>q. n_id (dest s q)) ` set rs)" using e r(2) by simp
  moreover have "n_id n \<notin> fst ` set (dialing b)" "n_id n \<notin> (\<lambda>q. n_id (dest s q)) ` set rs" using n g unfolding grown_def by blast+
  moreover from this have "distinct (map (\<lambda>q. n_id (dest s' q)) (rs @ [r]))" unfolding map_append m using r(2) g by (simp add: grown_def)
  moreover have "dial_next b \<le> dial_next s'" using g s'(2) by (simp add: grown_def)
  ultimately show "grown L peers b s' (rs @ [r])"
    using g unfolding grown_def s'(4-9) by simp
  show "dyn_count (dialing s') = dyn_count (dialing s) + (if is_dyn flag then 1 else 0)"
    using n by (simp add: s'(1) put_new dyn_count_def)
qed

text \<open>The static dials.\<close>

lemma dial_static_grown:
  assumes g: "grown L peers b s rs" and x: "t < dial_next b" "n_id (dest b t) = x" "d_flags (dial_objs b t) = staticDialedConn"
    and d: "dial_static L peers (x, t) (s, map DialTask rs) = (s', new')"
  shows "\<exists>rs'. new' = map DialTask rs' \<and> grown L peers b s' rs' \<and> dyn_count (dialing s') = dyn_count (dialing s)"
proof -
  have o: "dial_objs s t = dial_objs b t" "t < dial_next s" using g x(1) by (auto simp: grown_def)
  have nd: "\<not> is_dyn staticDialedConn" by (simp add: is_dyn_def staticDialedConn_def dynDialedConn_def)
  show ?thesis
  proof (cases "checkDial L peers s (d_dest (dial_objs s t))")
    case (Ok u)
    let ?s = "s\<lparr>dialing := put x (d_flags (dial_objs s t)) (dialing s)\<rparr>"
    have "grown L peers b ?s (rs @ [t])" "dyn_count (dialing ?s) = dyn_count (dialing s)"
      using grown_step [OF g, of "d_dest (dial_objs s t)" t ?s "d_flags (dial_objs s t)"] Ok o x nd by (auto simp: dest_def)
    with d Ok show ?thesis by (intro exI [of _ "rs @ [t]"]) (simp add: dial_static_def Let_def)
  next
    case (Err e)
    have "grown L peers b (s\<lparr>static := del k (static s)\<rparr>) rs" for k
      using g by (auto simp: grown_def del_def dest_def distinct_map_filter)
    with d Err g show ?thesis by (auto simp: dial_static_def Let_def split: if_splits)
  qed (use checkDial_not_Panic in blast)
qed

lemma dial_statics_grown:
  assumes "grown L peers b s rs" "\<forall>(x, t) \<in> set order. t < dial_next b \<and> n_id (dest b t) = x \<and> d_flags (dial_objs b t) = staticDialedConn"
    and "fold (dial_static L peers) order (s, map DialTask rs) = (s', new')"
  shows "\<exists>rs'. new' = map DialTask rs' \<and> grown L peers b s' rs' \<and> dyn_count (dialing s') = dyn_count (dialing s)"
  using assms
proof (induction order arbitrary: s rs)
  case (Cons p order)
  obtain x t where p: "p = (x, t)" by force
  obtain s1 new1 where d: "dial_static L peers (x, t) (s, map DialTask rs) = (s1, new1)" by fastforce
  have x: "t < dial_next b" "n_id (dest b t) = x" "d_flags (dial_objs b t) = staticDialedConn" using Cons.prems(2) p by auto
  obtain rs1 where "new1 = map DialTask rs1" "grown L peers b s1 rs1" "dyn_count (dialing s1) = dyn_count (dialing s)"
    using dial_static_grown [OF Cons.prems(1) x d] by blast
  with Cons.IH [of s1 rs1] Cons.prems(2,3) d p show ?case by auto
qed auto

text \<open>The dynamic ones: the number still needed and the number of dynamic dials have a constant sum.\<close>

definition dyn_phase :: "enode_lib \<Rightarrow> (ID \<times> connFlag) list \<Rightarrow> dialstate \<Rightarrow> int \<Rightarrow> int \<times> dialstate \<times> task list \<Rightarrow> bool" where
  "dyn_phase L peers b tot = (\<lambda>(need, s, new). \<exists>rs. new = map DialTask rs \<and> grown L peers b s rs \<and> need + dyn_count (dialing s) = tot)"

lemma dial_dyn_phase:
  assumes "dyn_phase L peers b tot c"
  shows "dyn_phase L peers b tot (dial_dyn L peers n c)" "fst (dial_dyn L peers n c) \<ge> fst c - 1"
proof -
  obtain need s new where c: "c = (need, s, new)" by (cases c) auto
  obtain rs where g: "new = map DialTask rs" "grown L peers b s rs" "need + dyn_count (dialing s) = tot"
    using assms c by (auto simp: dyn_phase_def)
  have yd: "is_dyn dynDialedConn" by (simp add: is_dyn_def dynDialedConn_def)
  have "dyn_phase L peers b tot (dial_dyn L peers n c) \<and> fst (dial_dyn L peers n c) \<ge> fst c - 1"
  proof (cases "checkDial L peers s n")
    case (Ok u)
    let ?s = "s\<lparr>dialing := put (n_id n) dynDialedConn (dialing s), dial_objs := (dial_objs s)(dial_next s := new_task dynDialedConn n),
        dial_next := dial_next s + 1\<rparr>"
    have "grown L peers b ?s (rs @ [dial_next s])" "dyn_count (dialing ?s) = dyn_count (dialing s) + 1"
      using grown_step [OF g(2), of n "dial_next s" ?s dynDialedConn] Ok yd by (auto simp: dest_def new_task_def)
    with g c Ok show ?thesis
      by (auto simp: dial_dyn_def addDial_def dyn_phase_def intro!: exI [of _ "rs @ [dial_next s]"])
  qed (use g c in \<open>auto simp: dial_dyn_def addDial_def dyn_phase_def\<close>)
  then show "dyn_phase L peers b tot (dial_dyn L peers n c)" "fst (dial_dyn L peers n c) \<ge> fst c - 1" by simp_all
qed

lemma dial_dyns_phase:
  assumes "dyn_phase L peers b tot c"
  shows "dyn_phase L peers b tot (fold (dial_dyn L peers) ns c) \<and> fst (fold (dial_dyn L peers) ns c) \<ge> fst c - int (length ns)"
  using assms
proof (induction ns arbitrary: c)
  case (Cons n ns)
  from Cons.IH [OF dial_dyn_phase(1) [OF Cons.prems, of n]] dial_dyn_phase(2) [OF Cons.prems, of n] show ?case by simp
qed simp

lemma dial_lookup_phase:
  assumes "dyn_phase L peers b tot c" "0 \<le> fst c" "dial_lookup L peers ns c = (rest, c')"
  shows "dyn_phase L peers b tot c' \<and> 0 \<le> fst c'"
  using assms
proof (induction ns arbitrary: c)
  case (Cons n ns)
  show ?case
  proof (cases "fst c > 0")
    case True
    with Cons.IH [OF dial_dyn_phase(1) [OF Cons.prems(1), of n]] dial_dyn_phase(2) [OF Cons.prems(1), of n] Cons.prems(3) show ?thesis by simp
  qed (use Cons.prems in auto)
qed auto

lemma dyn_phase_frame:
  assumes "dyn_phase L peers b tot (need, s, new)" "s' = s\<lparr>bootnodes := x\<rparr> \<or> s' = s\<lparr>randomNodes := y\<rparr>"
  shows "dyn_phase L peers b tot (need, s', new)"
  using assms by (auto simp: dyn_phase_def grown_def dest_def)

lemma dial_boot_phase:
  assumes "dyn_phase L peers b tot (need, s, new)"
  shows "dyn_phase L peers b tot (dial_boot L peers now (need, s, new))" "0 \<le> need \<Longrightarrow> 0 \<le> fst (dial_boot L peers now (need, s, new))"
    "need \<le> 0 \<Longrightarrow> dial_boot L peers now (need, s, new) = (need, s, new)"
proof -
  note p = dyn_phase_frame [OF assms disjI1 [OF refl]]
  show "dyn_phase L peers b tot (dial_boot L peers now (need, s, new))"
    unfolding dial_boot_def prod.case using assms dial_dyn_phase(1) [OF p] by (simp only: split: if_split) blast
  show "0 \<le> fst (dial_boot L peers now (need, s, new))" if "0 \<le> need"
  proof (cases "peers = [] \<and> bootnodes s \<noteq> [] \<and> need > 0 \<and> now - (case start s of Some t \<Rightarrow> t | None \<Rightarrow> now) > 20 * 1000000000")
    case True
    then have "dial_boot L peers now (need, s, new) = dial_dyn L peers (hd (bootnodes s))
        (need, s\<lparr>bootnodes := tl (bootnodes s) @ [hd (bootnodes s)]\<rparr>, new)"
      unfolding dial_boot_def prod.case by (rule if_P)
    with dial_dyn_phase(2) [OF p, of "tl (bootnodes s) @ [hd (bootnodes s)]" "hd (bootnodes s)"] True show ?thesis by simp
  next
    case False
    then have "dial_boot L peers now (need, s, new) = (need, s, new)" unfolding dial_boot_def prod.case by (rule if_not_P)
    with that show ?thesis by simp
  qed
qed (simp add: dial_boot_def)

lemma dial_random_phase:
  assumes "dyn_phase L peers b tot c" "dial_random L peers rnd c = Ok c'"
  shows "dyn_phase L peers b tot c'" "0 \<le> fst c \<Longrightarrow> 0 \<le> fst c'" "fst c \<le> 0 \<Longrightarrow> c' = c"
proof -
  obtain need s new where c: "c = (need, s, new)" by (cases c) auto
  have "dyn_phase L peers b tot c' \<and> (0 \<le> fst c \<longrightarrow> 0 \<le> fst c') \<and> (fst c \<le> 0 \<longrightarrow> c' = c)"
  proof (cases "half need > 0")
    case True
    then have need: "0 < need" "half need \<le> need" by (auto simp: half_def split: if_splits)
    obtain ns n where r: "rnd (length (randomNodes s)) = (ns, n)" by fastforce
    let ?buf = "map Some ns @ drop (length ns) (randomNodes s)"
    let ?k = "min (nat (half need)) n"
    define xs where "xs = map the (take ?k ?buf)"
    have c': "c' = fold (dial_dyn L peers) xs (need, s\<lparr>randomNodes := ?buf\<rparr>, new)"
      using assms(2) True c r unfolding xs_def by (auto simp: dial_random_def Let_def split: if_splits)
    have "dyn_phase L peers b tot c' \<and> fst c' \<ge> need - int (length xs)"
      unfolding c' using dial_dyns_phase [OF dyn_phase_frame [OF assms(1) [unfolded c] disjI2 [OF refl]], of xs ?buf]
      by (simp only: fst_conv)
    moreover have "length xs \<le> nat (half need)" unfolding xs_def length_map length_take by (simp only: min_le_iff_disj order.refl simp_thms)
    ultimately show ?thesis using need c by auto
  next
    case False
    with assms c show ?thesis by (auto simp: dial_random_def Let_def)
  qed
  then show "dyn_phase L peers b tot c'" "0 \<le> fst c \<Longrightarrow> 0 \<le> fst c'" "fst c \<le> 0 \<Longrightarrow> c' = c" by simp_all
qed

text \<open>The dial tasks among the new ones.\<close>

definition dials :: "task list \<Rightarrow> nat list" where
  "dials ts = concat (map (\<lambda>t. case t of DialTask r \<Rightarrow> [r] | _ \<Rightarrow> []) ts)"

lemma dials_simps [simp]:
  "dials (map DialTask rs) = rs" "dials (ts @ us) = dials ts @ dials us" "dials [DiscoverTask ns] = []" "dials [WaitExpireTask d] = []"
  by (simp_all add: dials_def o_def)

lemma newTasks_grown:
  assumes ok: "sched_ok s0" "set order \<subseteq> set (static s0)" and n: "newTasks L rnd order nRunning peers now s0 = Ok (s', new)"
  shows "\<exists>b s6 rs. dials new = rs \<and> grown L peers b s6 rs \<and> dial_hist b = expire now (dial_hist s0) \<and>
    (\<exists>x y z. s' = s6\<lparr>lookupBuf := x, lookupRunning := y\<rparr> \<and> b = s0\<lparr>start := z, dial_hist := expire now (dial_hist s0)\<rparr>) \<and>
    dyn_count peers + dyn_count (dialing s6) \<le> max (maxDynDials s0) (dyn_count peers + dyn_count (dialing s0))"
proof -
  define b where "b = s0\<lparr>start := (case start s0 of None \<Rightarrow> Some now | t \<Rightarrow> t), dial_hist := expire now (dial_hist s0)\<rparr>"
  define need where "need = maxDynDials s0 - dyn_count peers - dyn_count (dialing s0)"
  obtain s3 new3 where s3: "fold (dial_static L peers) order (b, []) = (s3, new3)" by fastforce
  have n': "res_bind (dial_random L peers rnd (dial_boot L peers now (need, s3, new3))) (\<lambda>(need5, s5, new5).
      case dial_lookup L peers (lookupBuf s5) (need5, s5, new5) of (rest, need6, s6, new6) \<Rightarrow>
      let s7 = s6\<lparr>lookupBuf := rest\<rparr>;
          (s8, new8) = (if int (length rest) < need6 \<and> \<not> lookupRunning s7
            then (s7\<lparr>lookupRunning := True\<rparr>, new6 @ [DiscoverTask []]) else (s7, new6));
          new9 = (if nRunning = 0 \<and> new8 = [] \<and> dial_hist s8 \<noteq> []
            then [WaitExpireTask (past_exp (dial_hist s8 ! 0) - now)] else new8) in
      Ok (s8, new9)) = Ok (s', new)"
    using n s3 unfolding newTasks_def Let_def b_def need_def by simp
  have "grown L peers b b []" using ok(1) by (intro grown_start) (simp_all add: b_def sched_ok_def)
  moreover have "\<forall>(x, t) \<in> set order. t < dial_next b \<and> n_id (dest b t) = x \<and> d_flags (dial_objs b t) = staticDialedConn"
    using ok by (auto simp: sched_ok_def b_def dest_def)
  ultimately obtain rs3 where g3: "new3 = map DialTask rs3" "grown L peers b s3 rs3" "dyn_count (dialing s3) = dyn_count (dialing b)"
    using dial_statics_grown [of L peers b b "[]" order s3 new3] s3 by auto
  let ?tot = "maxDynDials s0 - dyn_count peers"
  have p3: "dyn_phase L peers b ?tot (need, s3, new3)" using g3 by (auto simp: dyn_phase_def need_def b_def)
  obtain c4 where c4: "dial_boot L peers now (need, s3, new3) = c4" by blast
  obtain c5 where c5: "dial_random L peers rnd c4 = Ok c5" using n' c4 by (auto simp: res_bind_eq_Ok)
  obtain need5 s5 new5 where c5': "c5 = (need5, s5, new5)" by (cases c5) auto
  obtain rest need6 s6 new6 where c6: "dial_lookup L peers (lookupBuf s5) c5 = (rest, need6, s6, new6)"
    by (cases "dial_lookup L peers (lookupBuf s5) c5") auto
  have new: "(s', new) = (let s7 = s6\<lparr>lookupBuf := rest\<rparr>;
          (s8, new8) = (if int (length rest) < need6 \<and> \<not> lookupRunning s7
            then (s7\<lparr>lookupRunning := True\<rparr>, new6 @ [DiscoverTask []]) else (s7, new6));
          new9 = (if nRunning = 0 \<and> new8 = [] \<and> dial_hist s8 \<noteq> []
            then [WaitExpireTask (past_exp (dial_hist s8 ! 0) - now)] else new8) in (s8, new9))"
    using n' c4 c5 c5' c6 by (auto simp: Let_def split: if_splits)
  have p4: "dyn_phase L peers b ?tot c4" using dial_boot_phase(1) [OF p3] c4 by blast
  have p5: "dyn_phase L peers b ?tot c5" using dial_random_phase(1) [OF p4 c5] .
  have p6: "dyn_phase L peers b ?tot (need6, s6, new6)" "dyn_count (dialing s6) \<le> max ?tot (dyn_count (dialing s0))"
  proof -
    have "dyn_phase L peers b ?tot (need6, s6, new6) \<and> dyn_count (dialing s6) \<le> max ?tot (dyn_count (dialing s0))"
    proof (cases "0 \<le> need")
      case True
      then have "0 \<le> fst c5" using dial_random_phase(2) [OF p4 c5] dial_boot_phase(2) [OF p3] c4 by blast
      from dial_lookup_phase [OF p5 this c6] show ?thesis by (auto simp: dyn_phase_def)
    next
      case False
      then have "c5 = (need, s3, new3)" using dial_random_phase(3) [OF p4 c5] dial_boot_phase(3) [OF p3] c4 by auto
      then have "(need6, s6, new6) = (need, s3, new3)" using c6 False by (cases "lookupBuf s5") auto
      with p3 g3(3) show ?thesis by (simp add: b_def)
    qed
    then show "dyn_phase L peers b ?tot (need6, s6, new6)" "dyn_count (dialing s6) \<le> max ?tot (dyn_count (dialing s0))" by simp_all
  qed
  obtain rs where rs: "new6 = map DialTask rs" "grown L peers b s6 rs" using p6(1) by (auto simp: dyn_phase_def)
  have d: "dials new = rs" using new rs(1) by (auto simp: Let_def split: if_splits)
  have s': "s' = s6\<lparr>lookupBuf := rest, lookupRunning := lookupRunning s'\<rparr>"
    using new by (auto simp: Let_def split: if_splits)
  have "dyn_count peers + dyn_count (dialing s6) \<le> max (maxDynDials s0) (dyn_count peers + dyn_count (dialing s0))"
    using p6(2) by auto
  moreover have "dial_hist b = expire now (dial_hist s0)" by (simp add: b_def)
  ultimately show ?thesis using d rs(2) s' unfolding b_def by blast
qed

text \<open>The other operations keep the state of the scheduler in order.\<close>

lemma addStatic_ok: "sched_ok s \<Longrightarrow> sched_ok (addStatic n s)"
  by (auto simp: sched_ok_def addStatic_def put_def dest_def new_task_def distinct_map_filter)

lemma removeStatic_ok: "sched_ok s \<Longrightarrow> sched_ok (removeStatic n s)"
  using hist_remove_ok(1) [of "dial_hist s"] by (auto simp: sched_ok_def removeStatic_def del_def dest_def distinct_map_filter)

lemma taskDone_ok: "sched_ok s \<Longrightarrow> sched_ok (taskDone t now s)"
  using hist_add_ok(1) [of "dial_hist s"]
  by (auto simp: sched_ok_def taskDone_def del_def dest_def distinct_map_filter split: task.splits)

lemma newDialState_ok:
  assumes "newDialState self statics boot maxdyn restrict = Ok s"
  shows "sched_ok s"
proof -
  have f: "sched_ok (fold addStatic ns s0)" if "sched_ok s0" for ns s0
    using that by (induction ns arbitrary: s0) (simp_all add: addStatic_ok)
  show ?thesis
    using assms unfolding newDialState_def
    by (auto split: if_splits intro!: f) (simp add: sched_ok_def heap_ok_def)
qed

text \<open>
  C30. A round of the scheduler starts dials only to nodes that are not being dialed, not connected, not
  the node itself, allowed by the restriction, and not in the history of dials that has not expired; no
  node is dialed twice; every dial is registered; and the dynamic dials and connections together do not
  exceed their maximum by the new dials.
\<close>

theorem dials_are_fresh:
  assumes "sched_ok s0" "set order \<subseteq> set (static s0)" "newTasks L rnd order nRunning peers now s0 = Ok (s', new)"
  shows "sched_ok s' \<and> distinct (map (\<lambda>r. n_id (dest s' r)) (dials new)) \<and>
    (\<forall>r \<in> set (dials new). n_id (dest s' r) \<notin> fst ` set (dialing s0) \<union> fst ` set peers \<union> {ds_self s0} \<and>
       (netrestrict s0 = None \<or> Netlist_Contains (netrestrict s0) (IP L (dest s' r))) \<and>
       (\<forall>v \<in> set (dial_hist s0). past_id v = n_id (dest s' r) \<longrightarrow> past_exp v < now)) \<and>
    fst ` set (dialing s') = fst ` set (dialing s0) \<union> (\<lambda>r. n_id (dest s' r)) ` set (dials new) \<and>
    dyn_count peers + dyn_count (dialing s') \<le> max (maxDynDials s0) (dyn_count peers + dyn_count (dialing s0))"
proof -
  obtain b s6 x y z where g: "grown L peers b s6 (dials new)" and s': "s' = s6\<lparr>lookupBuf := x, lookupRunning := y\<rparr>"
    and b: "b = s0\<lparr>start := z, dial_hist := expire now (dial_hist s0)\<rparr>"
    and m: "dyn_count peers + dyn_count (dialing s6) \<le> max (maxDynDials s0) (dyn_count peers + dyn_count (dialing s0))"
    using newTasks_grown [OF assms] by blast
  have h: "hist_ok (dial_hist s0)" using assms(1) by (simp add: sched_ok_def)
  have e: "hist_ok (expire now (dial_hist s0))" "set (expire now (dial_hist s0)) = {v \<in> set (dial_hist s0). \<not> past_exp v < now}"
    using expire_ok [OF h] by (auto simp flip: set_mset_mset)
  have d: "dest s' = dest s6" by (simp add: fun_eq_iff dest_def s')
  have "sched_ok s'"
    unfolding sched_ok_def
  proof (intro conjI ballI)
    show "hist_ok (dial_hist s')" "distinct (map fst (dialing s'))" "distinct (map fst (static s'))"
      using g e(1) by (simp_all add: grown_def s' b)
    fix p assume "p \<in> set (static s')"
    moreover obtain u t where p: "p = (u, t)" by force
    moreover have "set (static s') \<subseteq> set (static s0)" using g by (simp add: grown_def s' b)
    ultimately have "(u, t) \<in> set (static s0)" by blast
    then have t: "t < dial_next s0" "n_id (dest s0 t) = u" "d_flags (dial_objs s0 t) = staticDialedConn"
      using assms(1) by (auto simp: sched_ok_def)
    have "dial_objs s' t = dial_objs s0 t" "dial_next s0 \<le> dial_next s'" using g t(1) by (simp_all add: grown_def s' b)
    with t show "case p of (x, t) \<Rightarrow> t < dial_next s' \<and> n_id (dest s' t) = x \<and> d_flags (dial_objs s' t) = staticDialedConn"
      by (simp add: p dest_def)
  qed
  moreover have "\<forall>r \<in> set (dials new). n_id (dest s' r) \<notin> fst ` set (dialing s0) \<union> fst ` set peers \<union> {ds_self s0} \<and>
       (netrestrict s0 = None \<or> Netlist_Contains (netrestrict s0) (IP L (dest s' r))) \<and>
       (\<forall>v \<in> set (dial_hist s0). past_id v = n_id (dest s' r) \<longrightarrow> past_exp v < now)"
    using g e(2) unfolding grown_def checkDial_Ok d hist_contains_def b by auto
  ultimately show ?thesis
    using g m unfolding grown_def d by (simp add: b s')
qed

text \<open>When a dial has ended, its node is not dialed again for thirty seconds, unless it is removed from the static ones.\<close>

lemma redial_waits:
  assumes "sched_ok s" "set order \<subseteq> set (static s)" "now' \<le> now + 30 * 1000000000"
    "newTasks L rnd order nRunning peers now' (taskDone (DialTask r) now s) = Ok (s', new)" "q \<in> set (dials new)"
  shows "n_id (dest s' q) \<noteq> n_id (dest s r)"
proof
  assume n: "n_id (dest s' q) = n_id (dest s r)"
  let ?s = "taskDone (DialTask r) now s" and ?v = "\<lparr>past_id = n_id (dest s r), past_exp = now + 30 * 1000000000\<rparr>"
  have ok: "sched_ok ?s" by (rule taskDone_ok [OF assms(1)])
  have o: "set order \<subseteq> set (static ?s)" using assms(2) by (simp add: taskDone_def)
  have h: "hist_ok (dial_hist s)" "hist_ok (dial_hist ?s)" using assms(1) ok by (simp_all add: sched_ok_def)
  have "?v \<in># mset (dial_hist ?s)" using hist_add_ok(2) [OF h(1)] by (simp add: taskDone_def dest_def)
  with expire_ok(2) [OF h(2), of now'] assms(3) have v: "?v \<in> set (expire now' (dial_hist ?s))"
    by (metis (no_types, lifting) filter_mset_eq_conv leD mem_Collect_eq pastDial.select_convs(2) set_mset_filter set_mset_mset)
  obtain b s6 x y z where g: "grown L peers b s6 (dials new)" and s': "s' = s6\<lparr>lookupBuf := x, lookupRunning := y\<rparr>"
    and b: "b = ?s\<lparr>start := z, dial_hist := expire now' (dial_hist ?s)\<rparr>"
    using newTasks_grown [OF ok o assms(4)] by blast
  have "dest s' q = dest s6 q" by (simp add: dest_def s')
  moreover have "checkDial L peers b (dest s6 q) = Ok ()" using g assms(5) by (simp add: grown_def)
  ultimately show False using v n by (auto simp: checkDial_Ok hist_contains_def b)
qed

text \<open>The witness: a static node, and a random one of the table.\<close>

definition sample_sched :: dialstate where
  "sample_sched = addStatic (t_Node (sample_tnode 1))
     \<lparr>maxDynDials = 2, netrestrict = None, ds_self = sample_self, lookupRunning = False, dialing = [], lookupBuf = [],
      randomNodes = [None], static = [], dial_hist = [], start = None, bootnodes = [],
      dial_objs = (\<lambda>_. new_task 0 zero_Node), dial_next = 0\<rparr>"

definition sample_round :: "(dialstate \<times> task list) res" where
  "sample_round = newTasks sample_enode (\<lambda>_. ([t_Node (sample_tnode 2)], 1)) (static sample_sched) 0 [] 100 sample_sched"

theorem dials_are_fresh_witness:
  "newDialState sample_self [t_Node (sample_tnode 1)] [] 2 None = Ok sample_sched \<and>
   (\<exists>s'. sample_round = Ok (s', [DialTask 0, DialTask 1, DiscoverTask []]) \<and> sched_ok s' \<and>
     fst ` set (dialing s') = {n_id (dest s' 0), n_id (dest s' 1)})"
proof -
  have n: "newDialState sample_self [t_Node (sample_tnode 1)] [] 2 None = Ok sample_sched"
    by (simp add: newDialState_def half_def sample_sched_def)
  have "(case sample_round of Ok (s', new) \<Rightarrow> new | _ \<Rightarrow> []) = [DialTask 0, DialTask 1, DiscoverTask []]"
    by code_simp
  then obtain s' where r: "sample_round = Ok (s', [DialTask 0, DialTask 1, DiscoverTask []])"
    by (auto split: res.splits)
  have "dialing sample_sched = []" by (simp add: sample_sched_def addStatic_def)
  with dials_are_fresh [OF newDialState_ok [OF n] order.refl r [unfolded sample_round_def]] n r show ?thesis
    by (intro conjI exI [of _ s']) (simp_all add: dials_def)
qed

end
