(* ===== verification/Peer.thy ===== *)
theory Peer
  imports Dial Frames Strconv "HOL-Library.Product_Lexorder"
begin

text \<open>
  A connected peer, after \<^verbatim>\<open>peer.go\<close>, \<^verbatim>\<open>peer_error.go\<close> and \<^verbatim>\<open>protocol.go\<close> under \<^verbatim>\<open>net/rlpx/p2p\<close>: how the
  protocols of both ends are matched and share the message codes, where a received message goes, and
  how the loop of a peer ends.
\<close>

section \<open>Errors and reasons of a disconnect\<close>

type_synonym DiscReason = u64

definition DiscNetworkError :: DiscReason where "DiscNetworkError = 1"
definition DiscProtocolError :: DiscReason where "DiscProtocolError = 2"
definition DiscQuitting :: DiscReason where "DiscQuitting = 8"
definition DiscSubprotocolError :: DiscReason where "DiscSubprotocolError = 16"

text \<open>Entry 16 is given by its index, so that the entries before it that are not named are empty.\<close>

definition discReasonToString :: "string list" where
  "discReasonToString =
     [''disconnect requested'', ''network error'', ''breach of protocol'', ''useless peer'', ''too many peers'',
      ''already connected'', ''incompatible p2p protocol version'', ''invalid node identity'', ''client quitting'',
      ''unexpected identity'', ''connected to self'', ''read timeout'', [], [], [], [], ''subprotocol error'']"

text \<open>\<open>int(d)\<close> reinterprets the 64 bits with a sign.\<close>

definition DiscReason_String :: "DiscReason \<Rightarrow> string res" where
  "DiscReason_String d =
     (if int (length discReasonToString) < sint d then Ok (''unknown disconnect reason '' @ FormatUint 10 (unat d))
      else if unat d < length discReasonToString then Ok (discReasonToString ! unat d) else Panic)"

text \<open>The errors a peer ends with; a \<open>DiscReason\<close> is itself an error.\<close>

datatype perr = Reason DiscReason | ProtocolReturned | PeerError nat string | OtherError string

definition errInvalidMsgCode :: nat where "errInvalidMsgCode = 0"
definition errInvalidMsg :: nat where "errInvalidMsg = 1"

fun perr_Error :: "perr \<Rightarrow> string res" where
  "perr_Error (Reason d) = DiscReason_String d"
| "perr_Error ProtocolReturned = Ok ''protocol returned''"
| "perr_Error (PeerError _ m) = Ok m"
| "perr_Error (OtherError m) = Ok m"

fun discReasonForError :: "perr \<Rightarrow> DiscReason" where
  "discReasonForError (Reason d) = d"
| "discReasonForError ProtocolReturned = DiscQuitting"
| "discReasonForError (PeerError c _) = (if c = errInvalidMsgCode \<or> c = errInvalidMsg then DiscProtocolError else DiscSubprotocolError)"
| "discReasonForError (OtherError _) = DiscSubprotocolError"

section \<open>Protocols and their message codes\<close>

record sub_protocol =
  p_Name :: string
  p_Version :: u64
  p_Length :: u64

record Cap =
  cap_Name :: string
  cap_Version :: u64

definition cap :: "sub_protocol \<Rightarrow> Cap" where
  "cap p = \<lparr>cap_Name = p_Name p, cap_Version = p_Version p\<rparr>"

text \<open>The order of \<open>capsByNameAndVersion\<close>, by name and then by version.\<close>

definition cap_key :: "Cap \<Rightarrow> string \<times> u64" where
  "cap_key c = (cap_Name c, cap_Version c)"

definition matches :: "sub_protocol \<Rightarrow> Cap \<Rightarrow> bool" where
  "matches p c \<longleftrightarrow> p_Name p = cap_Name c \<and> p_Version p = cap_Version c"

definition countMatchingProtocols :: "sub_protocol list \<Rightarrow> Cap list \<Rightarrow> nat" where
  "countMatchingProtocols protocols caps = sum_list (map (\<lambda>c. length (filter (\<lambda>p. matches p c) protocols)) caps)"

record protoRW =
  rw_proto :: sub_protocol
  rw_offset :: u64

abbreviation rw_Length :: "protoRW \<Rightarrow> u64" where
  "rw_Length rw \<equiv> p_Length (rw_proto rw)"

definition baseProtocolLength :: u64 where "baseProtocolLength = 16"
definition pingMsg :: u64 where "pingMsg = 2"
definition discMsg :: u64 where "discMsg = 1"

text \<open>One capability of the other end: the next offset and the map of the protocols by name.\<close>

definition match_cap :: "sub_protocol list \<Rightarrow> Cap \<Rightarrow> u64 \<times> (string \<times> protoRW) list \<Rightarrow> u64 \<times> (string \<times> protoRW) list" where
  "match_cap protocols c = (\<lambda>(offset, result). case find (\<lambda>p. matches p c) protocols of
     None \<Rightarrow> (offset, result)
   | Some proto \<Rightarrow>
     let offset1 = (case map_of result (cap_Name c) of Some old \<Rightarrow> offset - rw_Length old | None \<Rightarrow> offset) in
     (offset1 + p_Length proto, put (cap_Name c) \<lparr>rw_proto = proto, rw_offset = offset1\<rparr> result))"

definition matchProtocols :: "sub_protocol list \<Rightarrow> Cap list \<Rightarrow> (string \<times> protoRW) list" where
  "matchProtocols protocols caps = snd (fold (match_cap protocols) (sort_key cap_key caps) (baseProtocolLength, []))"

text \<open>\<open>order\<close> lists the map of the running protocols in the order in which the loop visits it.\<close>

definition getProto :: "protoRW list \<Rightarrow> u64 \<Rightarrow> perr + protoRW" where
  "getProto order code = (case find (\<lambda>rw. rw_offset rw \<le> code \<and> code < rw_offset rw + rw_Length rw) order of
     Some rw \<Rightarrow> Inr rw
   | None \<Rightarrow> Inl (PeerError errInvalidMsgCode (''invalid message code: '' @ FormatUint 10 (unat code))))"

text \<open>What the loop of \<open>run\<close> receives: the result of a write, or an error of the reader, of a protocol or of \<open>Disconnect\<close>.\<close>

datatype signal = WriteErr "perr option" | ReadErr perr | ProtoErr perr | Disc DiscReason

text \<open>
  \<open>WriteMsg\<close> over a connection that writes with \<open>w\<close>; \<open>started\<close> says which case of its select comes first, the
  permission to write or the end of the peer. The result, the messages given to the connection, and
  what is reported to the loop of the peer.
\<close>

definition protoRW_WriteMsg :: "(Msg \<Rightarrow> perr option) \<Rightarrow> bool \<Rightarrow> protoRW \<Rightarrow> Msg \<Rightarrow> perr option \<times> Msg list \<times> signal list" where
  "protoRW_WriteMsg w started rw msg =
     (if msg_Code msg \<ge> rw_Length rw then (Some (PeerError errInvalidMsgCode ''invalid message code: not handled''), [], [])
      else let m = msg\<lparr>msg_Code := msg_Code msg + rw_offset rw\<rparr> in
        if started then (w m, [m], [WriteErr (w m)]) else (Some (OtherError ''shutting down''), [], []))"

text \<open>\<open>ReadMsg\<close>: a delivered message, or the end of the peer.\<close>

definition protoRW_ReadMsg :: "protoRW \<Rightarrow> Msg option \<Rightarrow> perr + Msg" where
  "protoRW_ReadMsg rw inp = (case inp of Some msg \<Rightarrow> Inr (msg\<lparr>msg_Code := msg_Code msg - rw_offset rw\<rparr>)
   | None \<Rightarrow> Inl (OtherError ''EOF''))"

section \<open>The loops of a peer\<close>

text \<open>
  What \<open>handle\<close> does with a message: answer a ping, drop it, hand it to a protocol, or end the reader
  with an error. \<open>reason_of\<close> decodes the payload of a disconnect message; \<open>closed\<close> says that the peer
  ended before a protocol took the message.
\<close>

datatype handled = Pong | Dropped | Deliver protoRW Msg | Fail perr

definition handle :: "(bytes \<Rightarrow> DiscReason) \<Rightarrow> protoRW list \<Rightarrow> bool \<Rightarrow> Msg \<Rightarrow> handled" where
  "handle reason_of order closed msg =
     (if msg_Code msg = pingMsg then Pong
      else if msg_Code msg = discMsg then Fail (Reason (reason_of (msg_Payload msg)))
      else if msg_Code msg < baseProtocolLength then Dropped
      else case getProto order (msg_Code msg) of
          Inl _ \<Rightarrow> Fail (OtherError (''msg code out of range: '' @ FormatUint 10 (unat (msg_Code msg))))
        | Inr rw \<Rightarrow> if closed then Fail (OtherError ''EOF'') else Deliver rw msg)"

text \<open>
  The loop that reads, on the results of \<open>ReadMsg\<close> of the connection, each with whether the peer ended
  meanwhile: what was delivered to the protocols, and the error that ended the loop.
\<close>

fun readLoop :: "(bytes \<Rightarrow> DiscReason) \<Rightarrow> protoRW list \<Rightarrow> ((perr + Msg) \<times> bool) list \<Rightarrow> (protoRW \<times> Msg) list \<times> perr option" where
  "readLoop reason_of order [] = ([], None)"
| "readLoop reason_of order ((Inl e, _) # ms) = ([], Some e)"
| "readLoop reason_of order ((Inr msg, closed) # ms) = (case handle reason_of order closed msg of
     Fail e \<Rightarrow> ([], Some e)
   | Deliver rw m \<Rightarrow> (case readLoop reason_of order ms of (ds, e) \<Rightarrow> ((rw, m) # ds, e))
   | _ \<Rightarrow> readLoop reason_of order ms)"

text \<open>Whether the other end asked for it, the error, and the reason sent to the other end; \<open>None\<close> while the loop goes on.\<close>

fun peer_run :: "signal list \<Rightarrow> (bool \<times> perr \<times> DiscReason) option" where
  "peer_run [] = None"
| "peer_run (WriteErr None # ss) = peer_run ss"
| "peer_run (WriteErr (Some e) # ss) = Some (False, e, DiscNetworkError)"
| "peer_run (ReadErr e # ss) = Some (case e of Reason r \<Rightarrow> (True, e, r) | _ \<Rightarrow> (False, e, DiscNetworkError))"
| "peer_run (ProtoErr e # ss) = Some (False, e, discReasonForError e)"
| "peer_run (Disc r # ss) = Some (False, Reason r, discReasonForError (Reason r))"

text \<open>
  \<open>runPeer\<close> of \<^verbatim>\<open>server.go\<close>: the events it sends, and, when the loop has ended, what it tells the server;
  a panic ends the process.
\<close>

datatype peer_event = PeerEventTypeAdd | PeerEventTypeDrop string

definition runPeer :: "signal list \<Rightarrow> (peer_event list \<times> (perr \<times> bool) option) res" where
  "runPeer ss = (case peer_run ss of None \<Rightarrow> Ok ([PeerEventTypeAdd], None)
   | Some (requested, e, _) \<Rightarrow> res_bind (perr_Error e) (\<lambda>m. Ok ([PeerEventTypeAdd, PeerEventTypeDrop m], Some (e, requested))))"

section \<open>Both ends assign the same codes\<close>

text \<open>The protocol an end has for a capability, and the step of the matching over the capabilities that have one.\<close>

definition assign :: "(Cap \<Rightarrow> sub_protocol) \<Rightarrow> Cap \<Rightarrow> u64 \<times> (string \<times> protoRW) list \<Rightarrow> u64 \<times> (string \<times> protoRW) list" where
  "assign f c = (\<lambda>(offset, result).
     let offset1 = (case map_of result (cap_Name c) of Some old \<Rightarrow> offset - rw_Length old | None \<Rightarrow> offset) in
     (offset1 + p_Length (f c), put (cap_Name c) \<lparr>rw_proto = f c, rw_offset = offset1\<rparr> result))"

definition own :: "sub_protocol list \<Rightarrow> Cap \<Rightarrow> sub_protocol" where
  "own ps c = the (find (\<lambda>p. matches p c) ps)"

lemma matches_cap: "matches p c \<longleftrightarrow> cap p = c"
  by (cases c) (auto simp: matches_def cap_def)

lemma find_matches: "find (\<lambda>p. matches p c) ps = (if c \<in> cap ` set ps then Some (own ps c) else None)"
proof (cases "find (\<lambda>p. matches p c) ps")
  case None
  then have "c \<notin> cap ` set ps" by (auto simp: find_None_iff matches_cap)
  with None show ?thesis by simp
next
  case (Some p)
  then have "p \<in> set ps" "cap p = c" by (auto simp: find_Some_iff matches_cap)
  with Some show ?thesis by (auto simp: own_def)
qed

lemma own_cap: "c \<in> cap ` set ps \<Longrightarrow> own ps c \<in> set ps \<and> cap (own ps c) = c"
  using find_matches [of c ps] by (auto simp: find_Some_iff matches_cap)

lemma own_name:
  assumes "c \<in> cap ` set ps"
  shows "own ps c \<in> set ps \<and> p_Name (own ps c) = cap_Name c"
  using own_cap [OF assms] by (cases c) (simp add: cap_def)

lemma match_cap_assign: "match_cap ps c = (if c \<in> cap ` set ps then assign (own ps) c else id)"
  by (auto simp: fun_eq_iff match_cap_def assign_def find_matches)

lemma matchProtocols_assign:
  "matchProtocols ps cs = snd (fold (assign (own ps)) (filter (\<lambda>c. c \<in> cap ` set ps) (sort_key cap_key cs)) (baseProtocolLength, []))"
proof -
  have "fold (match_cap ps) xs z = fold (assign (own ps)) (filter (\<lambda>c. c \<in> cap ` set ps) xs) z" for xs z
    by (induction xs arbitrary: z) (simp_all add: match_cap_assign)
  then show ?thesis by (simp add: matchProtocols_def)
qed

text \<open>The capabilities both ends have, in order.\<close>

lemma common_caps:
  assumes "distinct as" "distinct bs"
  shows "filter (\<lambda>c. c \<in> set as) (sort_key cap_key bs) = filter (\<lambda>c. c \<in> set bs) (sort_key cap_key as)"
proof -
  have inj: "inj_on cap_key X" for X by (auto simp: inj_on_def cap_key_def)
  let ?l = "filter (\<lambda>c. c \<in> set as) (sort_key cap_key bs)" and ?r = "filter (\<lambda>c. c \<in> set bs) (sort_key cap_key as)"
  have "sorted (map cap_key ?l)" "sorted (map cap_key ?r)" by (simp_all add: sorted_filter)
  moreover have "distinct (map cap_key ?l)" "distinct (map cap_key ?r)" using assms inj by (simp_all add: distinct_map)
  moreover have "set (map cap_key ?l) = set (map cap_key ?r)" by auto
  ultimately have "map cap_key ?l = map cap_key ?r" using sorted_distinct_set_unique by blast
  then show ?thesis by (rule map_inj_on) (rule inj)
qed

lemma own_agree:
  assumes "\<forall>p \<in> set ps. \<forall>q \<in> set qs. cap p = cap q \<longrightarrow> p_Length p = p_Length q" "c \<in> cap ` set ps" "c \<in> cap ` set qs"
  shows "own ps c = own qs c"
proof -
  have "cap (own ps c) = cap (own qs c)" "p_Length (own ps c) = p_Length (own qs c)"
    using assms own_cap [OF assms(2)] own_cap [OF assms(3)] by auto
  then show ?thesis by (cases "own ps c", cases "own qs c") (simp add: cap_def)
qed

lemma matchProtocols_agree:
  assumes "distinct (map cap ps)" "distinct (map cap qs)"
    and "\<forall>p \<in> set ps. \<forall>q \<in> set qs. cap p = cap q \<longrightarrow> p_Length p = p_Length q"
  shows "matchProtocols ps (map cap qs) = matchProtocols qs (map cap ps)"
proof -
  let ?l = "filter (\<lambda>c. c \<in> set (map cap ps)) (sort_key cap_key (map cap qs))"
  have "fold (assign (own ps)) ?l z = fold (assign (own qs)) ?l z" for z
    using own_agree [OF assms(3)] by (intro fold_cong) (auto simp: assign_def fun_eq_iff)
  then show ?thesis using common_caps [OF assms(1,2)] by (simp add: matchProtocols_assign)
qed

text \<open>The ranges of the protocols follow each other, from the end of the base protocol up to \<open>hi\<close>.\<close>

fun stacked :: "(string \<times> protoRW) list \<Rightarrow> u64 \<Rightarrow> bool" where
  "stacked [] hi = (hi = baseProtocolLength)"
| "stacked ((n, rw) # rs) hi = (hi = rw_offset rw + rw_Length rw \<and> stacked rs (rw_offset rw))"

definition matching :: "sub_protocol set \<Rightarrow> u64 \<times> (string \<times> protoRW) list \<Rightarrow> bool" where
  "matching P z \<longleftrightarrow> stacked (snd z) (fst z) \<and> sorted_wrt (\<lambda>m n. n < m) (map fst (snd z)) \<and>
     (\<forall>(n, rw) \<in> set (snd z). rw_proto rw \<in> P \<and> p_Name (rw_proto rw) = n)"

lemma assign_matching:
  assumes "matching P (o1, r)" "\<forall>n \<in> fst ` set r. n \<le> cap_Name c" "f c \<in> P" "p_Name (f c) = cap_Name c"
  shows "matching P (assign f c (o1, r))" "fst ` set (snd (assign f c (o1, r))) \<subseteq> insert (cap_Name c) (fst ` set r)"
proof -
  show "fst ` set (snd (assign f c (o1, r))) \<subseteq> insert (cap_Name c) (fst ` set r)" by (auto simp: assign_def put_def Let_def)
  show "matching P (assign f c (o1, r))"
  proof (cases "cap_Name c \<in> fst ` set r")
    case True
    then obtain rw rs where r: "r = (cap_Name c, rw) # rs"
    proof (cases r)
      case (Cons x xs)
      obtain m rw where x: "x = (m, rw)" by force
      have "\<forall>n \<in> fst ` set xs. n < m" using assms(1) Cons x by (auto simp: matching_def)
      then have "m = cap_Name c" using True assms(2) Cons x by force
      with Cons x show thesis using that by blast
    qed simp
    have "\<forall>n \<in> fst ` set rs. n < cap_Name c" using assms(1) r by (auto simp: matching_def)
    then have "filter (\<lambda>p. fst p \<noteq> cap_Name c) rs = rs" by (fastforce simp: filter_id_conv)
    with assms r show ?thesis by (auto simp: matching_def assign_def put_def Let_def)
  next
    case False
    then have "map_of r (cap_Name c) = None" by (simp add: map_of_eq_None_iff)
    moreover have "\<forall>n \<in> fst ` set r. n < cap_Name c" using False assms(2) by (metis order.not_eq_order_implies_strict)
    ultimately show ?thesis using assms put_new [OF False] by (auto simp: matching_def assign_def Let_def)
  qed
qed

lemma assigns_matching:
  assumes "sorted (map cap_key cs)" "matching P z" "\<forall>c \<in> set cs. \<forall>n \<in> fst ` set (snd z). n \<le> cap_Name c"
    "\<forall>c \<in> set cs. f c \<in> P \<and> p_Name (f c) = cap_Name c"
  shows "matching P (fold (assign f) cs z)"
  using assms
proof (induction cs arbitrary: z)
  case (Cons c cs)
  obtain o1 r where z: "z = (o1, r)" by force
  have m: "matching P (assign f c z)" and n: "fst ` set (snd (assign f c z)) \<subseteq> insert (cap_Name c) (fst ` set r)"
    using assign_matching [of P o1 r c f] Cons.prems(2-4) by (simp_all add: z)
  have "\<forall>d \<in> set cs. cap_Name c \<le> cap_Name d" using Cons.prems(1) by (auto simp: cap_key_def)
  then have "\<forall>d \<in> set cs. \<forall>n \<in> fst ` set (snd (assign f c z)). n \<le> cap_Name d"
    using n Cons.prems(3) by (force simp: z)
  with Cons.IH [OF _ m] Cons.prems(1,4) show ?case by simp
qed simp

lemma matchProtocols_matching: "\<exists>hi. matching (set ps) (hi, matchProtocols ps cs)"
proof -
  have "matching (set ps) (fold (assign (own ps)) (filter (\<lambda>c. c \<in> cap ` set ps) (sort_key cap_key cs)) (baseProtocolLength, []))"
  proof (rule assigns_matching)
    show "\<forall>c \<in> set (filter (\<lambda>c. c \<in> cap ` set ps) (sort_key cap_key cs)). own ps c \<in> set ps \<and> p_Name (own ps c) = cap_Name c"
      using own_name by simp
  qed (simp_all add: sorted_filter matching_def)
  then show ?thesis by (metis matchProtocols_assign prod.collapse)
qed

lemma find_unique: "x \<in> set xs \<Longrightarrow> P x \<Longrightarrow> (\<And>y. y \<in> set xs \<Longrightarrow> P y \<Longrightarrow> y = x) \<Longrightarrow> find P xs = Some x"
proof (induction xs)
  case (Cons a xs)
  show ?case
  proof (cases "P a")
    case True
    then have "a = x" by (intro Cons.prems(3)) simp_all
    with True show ?thesis by simp
  next
    case False
    then have "x \<in> set xs" using Cons.prems(1,2) by auto
    then have "find P xs = Some x" using Cons.prems(2,3) by (intro Cons.IH) simp_all
    with False show ?thesis by simp
  qed
qed simp

text \<open>As long as the lengths do not wrap, the ranges do not overlap.\<close>

abbreviation lengths :: "(string \<times> protoRW) list \<Rightarrow> nat" where
  "lengths r \<equiv> sum_list (map (\<lambda>x. unat (rw_Length (snd x))) r)"

lemma stacked_top:
  "stacked r hi \<Longrightarrow> 16 + lengths r < 2 ^ 64 \<Longrightarrow> unat hi = 16 + lengths r"
proof (induction r hi rule: stacked.induct)
  case (2 n rw rs hi)
  then have "unat (rw_offset rw) = 16 + lengths rs" by simp
  moreover have "hi = rw_offset rw + rw_Length rw" using 2(2) by simp
  ultimately show ?case using 2(3) by (simp add: unat_word_ariths)
qed (simp add: baseProtocolLength_def)

lemma stacked_below:
  assumes "stacked r hi" "16 + lengths r < 2 ^ 64" "(n, rw) \<in> set r"
  shows "16 \<le> unat (rw_offset rw) \<and> unat (rw_offset rw) + unat (rw_Length rw) \<le> unat hi \<and>
    unat (rw_offset rw + rw_Length rw) = unat (rw_offset rw) + unat (rw_Length rw)"
  using assms
proof (induction r hi rule: stacked.induct)
  case (2 m ru rs hi)
  have t: "unat hi = 16 + lengths ((m, ru) # rs)" "unat (rw_offset ru) = 16 + lengths rs"
    using stacked_top [OF 2(2,3)] stacked_top [of rs "rw_offset ru"] 2(2,3) by simp_all
  show ?case
  proof (cases "(n, rw) = (m, ru)")
    case True
    with t 2(2) show ?thesis by simp
  next
    case False
    then have "(n, rw) \<in> set rs" using 2(4) by auto
    with 2(1) [OF _ _ this] 2(2,3) t show ?thesis by simp
  qed
qed simp

lemma stacked_unique:
  assumes "stacked r hi" "16 + lengths r < 2 ^ 64" "(m, ru) \<in> set r" "(n, rw) \<in> set r"
    and "rw_offset ru \<le> code" "code < rw_offset ru + rw_Length ru" "rw_offset rw \<le> code" "code < rw_offset rw + rw_Length rw"
  shows "ru = rw"
  using assms
proof (induction r hi rule: stacked.induct)
  case (2 k rv rs hi)
  have s: "stacked rs (rw_offset rv)" "16 + lengths rs < 2 ^ 64" using 2(2,3) by simp_all
  have b: "unat (rw_offset x + rw_Length x) \<le> unat (rw_offset rv)" if "(l, x) \<in> set rs" for l x
    using stacked_below [OF s that] by simp
  have low: "\<not> rw_offset rv \<le> code" if "(l, x) \<in> set rs" "code < rw_offset x + rw_Length x" for l x
    using b [OF that(1)] that(2) by (simp add: word_less_nat_alt word_le_nat_alt)
  show ?case
  proof (cases "rw_offset rv \<le> code")
    case True
    then show ?thesis using 2(4,5,7,9) low by (metis prod.inject set_ConsD)
  next
    case False
    then have "(m, ru) \<in> set rs" "(n, rw) \<in> set rs" using 2(4,5,6,8) by auto
    from 2(1) [OF s this 2(6-9)] show ?thesis .
  qed
qed simp

lemma lengths_bound:
  assumes "matching (set ps) (hi, r)" "distinct (map cap ps)"
  shows "lengths r \<le> sum_list (map (\<lambda>p. unat (p_Length p)) ps)"
proof -
  let ?l = "map (\<lambda>x. rw_proto (snd x)) r"
  have n: "map p_Name ?l = map fst r" using assms(1) by (auto simp: matching_def)
  have "distinct (map fst r)" using assms(1) by (auto simp: matching_def distinct_conv_nth sorted_wrt_iff_nth_less) (metis linorder_neqE_nat less_irrefl)
  then have "distinct ?l" using n by (metis distinct_map)
  then have "lengths r = sum (\<lambda>p. unat (p_Length p)) (set ?l)"
    using sum_list_distinct_conv_sum_set [of ?l "\<lambda>p. unat (p_Length p)"] by (simp add: o_def)
  also have "\<dots> \<le> sum (\<lambda>p. unat (p_Length p)) (set ps)"
    using assms(1) by (intro sum_mono2) (auto simp: matching_def)
  also have "\<dots> = sum_list (map (\<lambda>p. unat (p_Length p)) ps)"
    using assms(2) by (simp add: sum_list_distinct_conv_sum_set distinct_map)
  finally show ?thesis .
qed

text \<open>
  C31. Two ends that give the same number of codes to each protocol they share agree on all codes: what a
  protocol of one end writes arrives, through the reader of the other end, at the protocol of the same
  name and version there, with the same code, in whatever order the map of protocols is searched.
\<close>

theorem codes_agree:
  assumes "distinct (map cap ps)" "distinct (map cap qs)"
    and "\<forall>p \<in> set ps. \<forall>q \<in> set qs. cap p = cap q \<longrightarrow> p_Length p = p_Length q"
    and "16 + sum_list (map (\<lambda>p. unat (p_Length p)) ps) < 2 ^ 64"
    and "rw \<in> snd ` set (matchProtocols ps (map cap qs))" "msg_Code msg < rw_Length rw"
    and "set order = snd ` set (matchProtocols qs (map cap ps))"
  shows "\<exists>m ru. protoRW_WriteMsg w True rw msg = (w m, [m], [WriteErr (w m)]) \<and> handle reason_of order False m = Deliver ru m \<and>
    cap (rw_proto ru) = cap (rw_proto rw) \<and> protoRW_ReadMsg ru (Some m) = Inr msg"
proof -
  let ?r = "matchProtocols ps (map cap qs)" and ?m = "msg\<lparr>msg_Code := msg_Code msg + rw_offset rw\<rparr>"
  obtain hi where m: "matching (set ps) (hi, ?r)" using matchProtocols_matching by blast
  have st: "stacked ?r hi" "16 + lengths ?r < 2 ^ 64" using m lengths_bound [OF m assms(1)] assms(4) by (simp_all add: matching_def)
  have eq: "matchProtocols qs (map cap ps) = ?r" using matchProtocols_agree [OF assms(1-3)] by simp
  obtain n where n: "(n, rw) \<in> set ?r" using assms(5) by force
  note b = stacked_below [OF st n]
  have u: "unat (msg_Code ?m) = unat (msg_Code msg) + unat (rw_offset rw)"
  proof -
    have h: "unat hi < 2 ^ LENGTH(64)" by (rule unsigned_less)
    have "unat (msg_Code msg) + unat (rw_offset rw) < 2 ^ 64" using b assms(6) h by (simp add: word_less_nat_alt)
    then show ?thesis by (simp add: unat_word_ariths)
  qed
  then have in_range: "rw_offset rw \<le> msg_Code ?m" "msg_Code ?m < rw_offset rw + rw_Length rw" "16 \<le> unat (msg_Code ?m)"
    using b assms(6) by (simp_all add: word_le_nat_alt word_less_nat_alt)
  have "rw \<in> set order" using n assms(7) eq by force
  moreover have "x = rw" if x: "x \<in> set order" "rw_offset x \<le> msg_Code ?m" "msg_Code ?m < rw_offset x + rw_Length x" for x
  proof -
    obtain k where "(k, x) \<in> set ?r" using x(1) assms(7) eq by force
    from stacked_unique [OF st this n x(2,3) in_range(1,2)] show ?thesis .
  qed
  ultimately have "find (\<lambda>x. rw_offset x \<le> msg_Code ?m \<and> msg_Code ?m < rw_offset x + rw_Length x) order = Some rw"
    using in_range(1,2) by (intro find_unique) simp_all
  then have "getProto order (msg_Code ?m) = Inr rw" unfolding getProto_def by simp
  moreover have "\<not> msg_Code ?m < baseProtocolLength" "msg_Code ?m \<noteq> pingMsg" "msg_Code ?m \<noteq> discMsg"
    using in_range(3) by (auto simp: baseProtocolLength_def pingMsg_def discMsg_def word_less_nat_alt)
  ultimately have "handle reason_of order False ?m = Deliver rw ?m" unfolding handle_def by simp
  moreover have "protoRW_WriteMsg w True rw msg = (w ?m, [?m], [WriteErr (w ?m)])" using assms(6) by (simp add: protoRW_WriteMsg_def not_le Let_def)
  ultimately show ?thesis by (intro exI [of _ ?m] exI [of _ rw]) (simp add: protoRW_ReadMsg_def)
qed

section \<open>A disconnect reason that ends the process\<close>

lemma uint_nat: "uint (d :: u64) = int (unat d)"
  by simp

lemma sint_signed: "sint (d :: u64) = (if unat d < 2 ^ 63 then int (unat d) else int (unat d) - 2 ^ 64)"
proof (cases "unat d < 2 ^ 63")
  case True
  then have "- (2 ^ 63) \<le> uint d" "uint d < 2 ^ 63" unfolding uint_nat by (simp_all del: of_nat_unat)
  then have "signed_take_bit 63 (uint d) = uint d" by (rule signed_take_bit_int_eq_self)
  with True show ?thesis by (simp add: sint_uint)
next
  case False
  moreover have "unat d < 2 ^ LENGTH(64)" by (rule unsigned_less)
  ultimately have l: "2 ^ 63 \<le> uint d" "uint d < 2 ^ 64" unfolding uint_nat by (simp_all del: of_nat_unat)
  have "signed_take_bit 63 (uint d) = (uint d + 2 ^ 63) mod 2 ^ 64 - 2 ^ 63"
    by (simp add: signed_take_bit_eq_take_bit_shift take_bit_eq_mod)
  also have "(uint d + 2 ^ 63) mod 2 ^ 64 = (uint d + 2 ^ 63 - 2 ^ 64) mod 2 ^ 64" using l by (intro mod_pos_geq) simp_all
  also have "\<dots> = uint d + 2 ^ 63 - 2 ^ 64" using l by (intro mod_pos_pos_trivial) simp_all
  finally show ?thesis using False by (simp add: sint_uint)
qed

lemma DiscReason_String_Panic: "DiscReason_String d = Panic \<longleftrightarrow> unat d = 17 \<or> 2 ^ 63 \<le> unat d"
proof -
  have l: "length discReasonToString = 17" by (simp add: discReasonToString_def)
  have "unat d < 2 ^ LENGTH(64)" by (rule unsigned_less)
  then show ?thesis unfolding DiscReason_String_def l sint_signed by (auto simp del: of_nat_unat)
qed

text \<open>
  C34. The reason of a disconnect message is any number of the other end. The reader, the loop of the peer
  and \<open>runPeer\<close> pass it on, and \<open>runPeer\<close> writes its text into an event; the text of the reason 17, and
  of every reason above \<open>2\<^sup>6\<^sup>3\<close>, does not exist and the process panics. On all other reasons, and on all
  other errors, it does not.
\<close>

theorem disconnect_reason_panics:
  assumes "msg_Code msg = discMsg" "reason_of (msg_Payload msg) = d"
  shows "readLoop reason_of order ((Inr msg, closed) # ms) = ([], Some (Reason d)) \<and>
    peer_run (ReadErr (Reason d) # ss) = Some (True, Reason d, d) \<and>
    (runPeer (ReadErr (Reason d) # ss) = Panic \<longleftrightarrow> unat d = 17 \<or> 2 ^ 63 \<le> unat d) \<and>
    (\<forall>e. (\<forall>x. e \<noteq> Reason x) \<longrightarrow> runPeer (WriteErr (Some e) # ss) \<noteq> Panic \<and> runPeer (ReadErr e # ss) \<noteq> Panic \<and>
       runPeer (ProtoErr e # ss) \<noteq> Panic)"
proof -
  have "readLoop reason_of order ((Inr msg, closed) # ms) = ([], Some (Reason d))"
    using assms by (simp add: handle_def discMsg_def pingMsg_def)
  moreover have "runPeer (ReadErr (Reason d) # ss) = Panic \<longleftrightarrow> unat d = 17 \<or> 2 ^ 63 \<le> unat d"
    unfolding DiscReason_String_Panic [symmetric] by (cases "DiscReason_String d") (simp_all add: runPeer_def)
  moreover have "runPeer (WriteErr (Some e) # ss) \<noteq> Panic \<and> runPeer (ReadErr e # ss) \<noteq> Panic \<and> runPeer (ProtoErr e # ss) \<noteq> Panic"
    if "\<forall>x. e \<noteq> Reason x" for e using that by (cases e) (simp_all add: runPeer_def)
  ultimately show ?thesis by simp
qed

section \<open>Witnesses\<close>

definition sample_ps :: "sub_protocol list" where
  "sample_ps = [\<lparr>p_Name = ''eth'', p_Version = 63, p_Length = 17\<rparr>, \<lparr>p_Name = ''eth'', p_Version = 62, p_Length = 8\<rparr>,
     \<lparr>p_Name = ''shh'', p_Version = 6, p_Length = 10\<rparr>]"

definition sample_qs :: "sub_protocol list" where
  "sample_qs = [\<lparr>p_Name = ''shh'', p_Version = 6, p_Length = 10\<rparr>, \<lparr>p_Name = ''bzz'', p_Version = 1, p_Length = 5\<rparr>,
     \<lparr>p_Name = ''eth'', p_Version = 62, p_Length = 8\<rparr>, \<lparr>p_Name = ''eth'', p_Version = 63, p_Length = 17\<rparr>]"

definition sample_shh :: protoRW where
  "sample_shh = \<lparr>rw_proto = \<lparr>p_Name = ''shh'', p_Version = 6, p_Length = 10\<rparr>, rw_offset = 33\<rparr>"

definition sample_msg :: "u64 \<Rightarrow> Msg" where
  "sample_msg c = \<lparr>msg_Code = c, msg_Size = 1, msg_Payload = [17]\<rparr>"

theorem codes_agree_witness:
  "\<exists>m ru. protoRW_WriteMsg (\<lambda>_. None) True sample_shh (sample_msg 3) = (None, [m], [WriteErr None]) \<and> msg_Code m = 36 \<and>
     handle (\<lambda>b. ucast (hd b)) (map snd (matchProtocols sample_qs (map cap sample_ps))) False m = Deliver ru m \<and>
     protoRW_ReadMsg ru (Some m) = Inr (sample_msg 3)"
proof -
  have a: "distinct (map cap sample_ps)" "distinct (map cap sample_qs)"
    "\<forall>p \<in> set sample_ps. \<forall>q \<in> set sample_qs. cap p = cap q \<longrightarrow> p_Length p = p_Length q"
    "16 + sum_list (map (\<lambda>p. unat (p_Length p)) sample_ps) < 2 ^ 64"
    by (simp_all add: sample_ps_def sample_qs_def cap_def)
  have "sample_shh \<in> set (map snd (matchProtocols sample_ps (map cap sample_qs)))" "msg_Code (sample_msg 3) < rw_Length sample_shh"
    by code_simp+
  then have b: "sample_shh \<in> snd ` set (matchProtocols sample_ps (map cap sample_qs))" "msg_Code (sample_msg 3) < rw_Length sample_shh"
    by simp_all
  from codes_agree [OF a b, where w = "\<lambda>_. None" and order = "map snd (matchProtocols sample_qs (map cap sample_ps))"] show ?thesis
    by (auto simp: protoRW_WriteMsg_def sample_shh_def sample_msg_def Let_def)
qed

theorem disconnect_reason_panics_witness:
  "readLoop (\<lambda>b. ucast (hd b)) [] [(Inr (sample_msg 1), False)] = ([], Some (Reason 17)) \<and> runPeer [ReadErr (Reason 17)] = Panic"
  using disconnect_reason_panics [of "sample_msg 1" "\<lambda>b. ucast (hd b)" 17 "[]" False "[]" "[]"]
  by (simp add: sample_msg_def discMsg_def)

end
