(* ===== verification/Spec2Isabelle.thy ===== *)
theory Spec2Isabelle
  imports Delivery Service Rlpx Commands Listener Concurrent Peer
begin

text \<open>
  A verification library for the zkPoD node, which sells data against zero-knowledge proofs of
  delivery: a seller (Alice) and a buyer (Bob) open a session over an encrypted connection,
  exchange a request, a response and a signed receipt, the seller submits its secret to an exchange
  contract that pays it from the buyer's deposit, and the buyer reads the secret there and decrypts
  the data, or claims against the seller. One process plays both parts; a web page or a command
  drives it over HTTP.

  \<^bold>\<open>How the program is put together, and where each part is modelled.\<close>

  \<^item> \<open>Prelude\<close>: sized integers, the result type \<open>res\<close> (\<open>Ok\<close>, \<open>Err\<close>, \<open>Panic\<close>; a Go panic is a value),
    slices with their run-time checks, the program constructors \<open>check\<close> (call, test \<open>err\<close>, go on),
    \<open>deferring\<close> (Go's \<open>defer\<close>, which also runs on a panic), weakest preconditions (\<open>wp\<close>) and frame
    conditions (\<open>keeps\<close>) for state-monad programs.
  \<^item> \<open>Codec\<close> (\<^verbatim>\<open>net/utils/utils.go\<close>): little-endian integer codecs, with a locale for fixed-width codecs.
  \<^item> \<open>Transport\<close> (\<^verbatim>\<open>net/rlpx/transport.go\<close>, \<^verbatim>\<open>net/rlpx/utils.go\<close>): TCP loops over an arbitrarily
    segmented stream, the pre-authentication handshake, \<open>Write\<close>/\<open>Read\<close> with packets; the locale
    \<open>block_stream\<close> is what the node layer relies on. Cryptography is the parameter record \<open>crypto\<close>
    with the laws \<open>ecdsa_laws\<close>; the encryption handshake is a parameter of this theory.
  \<^item> \<open>Frames\<close> and \<open>Rlpx\<close> (\<^verbatim>\<open>net/rlpx/p2p/rlpx.go\<close>): the layer below, the frame reader and writer with
    their running ciphers and hashes (locale \<open>framing\<close>), and the encryption handshake of both ends
    that agrees on their keys. Ciphers, hashes, compression, ECIES and RLP are library parameters.
  \<^item> \<open>Node\<close> (\<^verbatim>\<open>net/node.go\<close>, \<^verbatim>\<open>net/state.go\<close>), \<open>Session\<close> (\<^verbatim>\<open>net/session.go\<close>), \<open>Tx\<close>
    (\<^verbatim>\<open>net/tx.go\<close>): the record \<open>node\<close>, message headers, and every operation of a node.
  \<^item> \<open>Protocol\<close>: the diagrams drawn in the comments of \<^verbatim>\<open>net/session.go\<close> and \<^verbatim>\<open>net/tx.go\<close> as the
    relation \<open>edge\<close>, the refinement of every operation, and the nodes reachable under arbitrary
    operations and arbitrary peer behaviour. \<open>Exchange\<close>: two joined nodes and a complete deal.
  \<^item> \<open>Strconv\<close>, \<open>Json\<close>, \<open>Marshal\<close>, \<open>JsonText\<close>: the parts of Go's \<^verbatim>\<open>strconv\<close>, \<^verbatim>\<open>math/big\<close>,
    \<^verbatim>\<open>encoding/hex\<close>, \<^verbatim>\<open>strings\<close> and \<^verbatim>\<open>encoding/json\<close> the program uses: number parsing with its errors,
    a JSON lexer, a parser as a state machine, the decoding into and encoding of structs, and the
    texts of nested values.
  \<^item> \<open>World\<close>: the state of the main package (its node, the files, the maps \<open>AliceTxMap\<close>, \<open>BobTxMap\<close> and
    \<open>DepositLockMap\<close>, the amount of the transaction options) and the services it calls. A service
    (contract, proof library, database, clock, disk faults, host) is a function of the history of
    all calls, so nothing is assumed of it unless a theorem says so.
  \<^item> \<open>Files\<close>, \<open>Publish\<close> (\<^verbatim>\<open>file.go\<close>), \<open>Contract\<close>, \<open>Funds\<close>, \<open>Receipts\<close> (\<^verbatim>\<open>contract.go\<close>, \<^verbatim>\<open>file.go\<close>),
    \<open>Modes\<close> and \<open>Connection\<close> (\<^verbatim>\<open>connection.go\<close>), \<open>Database\<close> and \<open>BuyerDb\<close> (\<^verbatim>\<open>db.go\<close>), \<open>Status\<close>
    (\<^verbatim>\<open>const.go\<close>): the functions sales and purchases use, in the order of the code.
  \<^item> \<open>Seller\<close> (\<^verbatim>\<open>seller_tx.go\<close>, \<open>AliceAcceptTx\<close>) and \<open>Buyer\<close> (\<^verbatim>\<open>buyer_tx.go\<close>): the ten handlers of
    each party, composed of the steps they share; a handler's local transaction, read by its
    deferred functions, is part of the state.
  \<^item> \<open>Api\<close> (\<^verbatim>\<open>api.go\<close>): the HTTP handlers of both parties, whole, with their log rows and routes.
  \<^item> \<open>Settings\<close> (\<^verbatim>\<open>init.go\<close>, the configuration handlers of \<^verbatim>\<open>api.go\<close>, the start in \<^verbatim>\<open>main.go\<close>): the
    configuration file, key stores, directories, the database and the provider. \<open>Commands\<close>
    (\<^verbatim>\<open>cmd.go\<close>, \<^verbatim>\<open>p2p.go\<close>, \<open>HandleCmdReq\<close>): the command line client. \<open>Listener\<close> (\<open>SetupNode\<close>,
    \<open>AliceStartNode\<close>): the running node as a transition system over its loops and requests.
    \<open>Concurrent\<close>: the sales of different connections, interleaved at their accesses of \<open>DepositLockMap\<close>,
    with \<open>+=\<close> and \<open>-=\<close> as a read and a write.
  \<^item> \<open>Netutil\<close>, \<open>Enr\<close>, \<open>Enode\<close>, \<open>Kademlia\<close>, \<open>Dial\<close> and \<open>Peer\<close> (\<^verbatim>\<open>netutil/net.go\<close>, \<^verbatim>\<open>enr\<close>, \<^verbatim>\<open>enode\<close>, \<^verbatim>\<open>discover/table.go\<close>,
    \<^verbatim>\<open>dial.go\<close>, and \<^verbatim>\<open>peer.go\<close> with \<^verbatim>\<open>peer_error.go\<close> and \<^verbatim>\<open>protocol.go\<close>, under \<^verbatim>\<open>net/rlpx/p2p\<close>): the parts of the
    copied p2p stack that find peers and talk to them: networks of addresses, signed node records,
    identities and distances, the table of known nodes, the scheduler of dials, and the protocols
    of a connected peer. The binary search and the heap of Go's library are modelled with them.

  \<^bold>\<open>What the theorems show.\<close>

  \<^item> Wire and disk formats: round trips of integers, session requests, modes and JSON (\<open>Codec\<close>, \<open>Session\<close>,
    \<open>Modes\<close>), of slices over packets and over frames (\<open>Transport\<close>, \<open>Frames\<close>), of saved secrets, offers
    and configurations (\<open>Receipts\<close>, \<open>Publish\<close>, \<open>Settings\<close>), of rows (\<open>Database\<close>).
  \<^item> Connections: soundness and completeness of the handshakes (\<open>Transport\<close>, \<open>Rlpx\<close>), refinement of the
    protocol diagrams and the ordering of sessions and transactions (\<open>Protocol\<close>), completion of a deal
    and of the opening of a session (\<open>Exchange\<close>, \<open>Connection\<close>).
  \<^item> Sales: through the locale \<open>sale_handler\<close>, the release of the deposit lock and the database record
    (\<open>Sales\<close>), the conditions under which the secret is given away (\<open>Safety\<close>), the terms (\<open>Publish\<close>).
  \<^item> Purchases: through the locale \<open>purchase_handler\<close>, what the recorded status and a sent receipt say
    about what happened (\<open>Purchases\<close>, \<open>Delivery\<close>), that waiting for the secret ends (\<open>Contract\<close>), and
    that a purchase from an honest seller completes in every mode (\<open>Delivery\<close>).
  \<^item> Money and requests: each of the twelve kinds of transaction carries the amount of the shared options,
    and every amount is sent once and by the operation it was meant for (\<open>Funds\<close>, \<open>Service\<close>), the log
    tells what each of the eleven routes answered (\<open>Service\<close>, \<open>Listener\<close>), commands reach their handlers
    (\<open>Commands\<close>).
  \<^item> Sales at the same time: updates of the locked amounts that get lost, with what follows for later
    sales, and the race between the check of the deposit and its lock (\<open>Concurrent\<close>). What a sale does to
    the locks when no other runs in between is in \<open>Sales\<close>.
  \<^item> Finding peers: the invariant of the table and the correctness of its search (\<open>Kademlia\<close>), the metric
    (\<open>Enode\<close>), the round trip of records (\<open>Enr\<close>), what is dialed and when (\<open>Dial\<close>), and that both ends
    of a connection agree on the codes of their protocols (\<open>Peer\<close>); the counts of the table that are wrong
    (\<open>Kademlia\<close>), and the disconnect reasons that end the process (\<open>Peer\<close>).
  \<^item> The node as a whole: what a start establishes (\<open>Settings\<close>) and what holds at every moment of a
    running node, below.
  \<^item> Where the code deviates from its intention the deviation is a theorem: panics on crafted messages
    (\<open>Transport\<close>, \<open>Tx\<close>), the wrap-around of the charged count (\<open>Files\<close>), columns lost in the database
    (\<open>Database\<close>, \<open>BuyerDb\<close>).

  \<^bold>\<open>Bounds.\<close> All loops are total functions: the TCP, packet, frame and JSON loops recurse on their
  remaining input, \<open>writeData\<close> on the unsigned counter, and the contract is polled for twenty
  rounds as in the code. The endless loops of the running node are the transitions of \<open>Listener\<close>.
  Reading the pairs of a node record takes as many rounds as its contents have bytes at most, and every
  item takes one or more (\<open>Enr\<close>). No other fuel is used.

  \<^bold>\<open>Not modelled.\<close> The flag parser and the printed output of commands, logging; the generated
  contract binding (its calls are services); the rest of the vendored p2p stack (server, the
  UDP protocols, topic discovery, simulations), which the program does not run. What goroutines do to
  the unprotected shared state at the same moment is modelled for \<open>DepositLockMap\<close> only; elsewhere
  handlers are taken one at a time.
\<close>

section \<open>The running node\<close>

text \<open>
  C5. A node that was started stays sound, whatever its settings loops, connections and requests do
  and in whatever order: its contract client signs with the account's key and talks to the
  configured contract, no deposit is locked and no amount is set between two transitions, and its
  flags say which loop it is in. Once the buyer's side runs, the key never changes again; once the
  seller listens, it goes on listening, with the account's key, under the address that belongs to
  this key, and the network address of the configuration is fixed. The directories, the port and
  the contract of the configuration never change.
\<close>

theorem running_node_is_sound:
  assumes "run_state (start_node H E basic password) s0 = (Ok (), s1)"
    and "\<not> AliceNodeStart s0" and "\<not> BobNodeStart s0"
    and "(node_step H E doEnc)\<^sup>*\<^sup>* (Waiting, s1) (g, s)" and "(node_step H E doEnc)\<^sup>*\<^sup>* (g, s) (g', s')"
  shows "linked E s \<and> DepositLockMap s = (\<lambda>_. 0) \<and> AuthValue s = 0 \<and>
    BobNodeStart s = (g \<noteq> Waiting) \<and> AliceNodeStart s = (\<exists>l key. g = Listening l key) \<and>
    (g \<noteq> Waiting \<longrightarrow> g' \<noteq> Waiting \<and> ETHKey s' = ETHKey s \<and> GAdminAuth s' = GAdminAuth s) \<and>
    (\<forall>l key. g = Listening l key \<longrightarrow> ETHKey s = Some key \<and> EthAddr l = own_addr E key \<and> g' = g \<and>
       NetIP (BConf s') = NetIP (BConf s)) \<and>
    fixed (BConf s') = fixed (BConf s)"
proof -
  have "linked E s1" "funds s1 = (\<lambda>_. 0, 0)"
    using wpD [OF start_ready assms(1)] by auto
  moreover have "\<not> AliceNodeStart s1" "\<not> BobNodeStart s1"
    using keepsD [OF start_keeps_flags assms(1)] assms(2,3) by auto
  ultimately have "node_inv E Waiting s1" by (simp add: node_inv_def)
  then have g: "node_inv E g s" using node_runs [OF assms(4)] by blast
  from node_runs [OF assms(5) this] have "frozen (g, s) (g', s')" by blast
  with g show ?thesis by (auto simp: node_inv_def frozen_def split: stage.splits)
qed

text \<open>The sample node starts, and its first transition starts the buyer's side.\<close>

theorem running_node_is_sound_witness:
  "\<exists>s1 s. run_state (start_node sample_host sample_ext zero_BasicConfig ''pw'') sample_start = (Ok (), s1) \<and>
     node_step sample_host sample_ext (\<lambda>_ _. ret (Err [])) (Waiting, s1) (Offline, s) \<and> BobNodeStart s \<and> linked sample_ext s"
proof -
  let ?enc = "\<lambda>_ _. ret (Err [])" and ?step = "node_step sample_host sample_ext (\<lambda>_ _. ret (Err []))"
  obtain s1 where s1: "run_state (start_node sample_host sample_ext zero_BasicConfig ''pw'') sample_start = (Ok (), s1)"
    using sample_starts by (metis prod.collapse)
  have f: "\<not> AliceNodeStart sample_start" "\<not> BobNodeStart sample_start"
    by (simp_all add: sample_start_def world.defs node_st.defs)
  from running_node_is_sound [where doEnc = ?enc, OF s1 f rtranclp.rtrancl_refl rtranclp.rtrancl_refl]
  have "linked sample_ext s1" by simp
  then have "run_state (SetupNode sample_host sample_ext ?enc Waiting) s1 = (Ok Offline, s1\<lparr>BobNodeStart := True\<rparr>)"
    by (auto simp: run linked_def unconnected_def)
  then have step: "?step (Waiting, s1) (Offline, s1\<lparr>BobNodeStart := True\<rparr>)" by (rule node_step.loop)
  from running_node_is_sound [OF s1 f r_into_rtranclp [of ?step, OF step] rtranclp.rtrancl_refl]
  show ?thesis using s1 step by auto
qed

end
